(* ===== verification/Prelude.thy ===== *)
theory Prelude
  imports Main "HOL-Library.Word" "HOL-Library.Monad_Syntax"
begin

section \<open>Shared types, collections and list lemmas\<close>

text \<open>
  The types the components share (bytes, UTF-16 code units, JavaScript strings), the
  collections that carry the component proofs (\<open>wire_simps\<close> for layouts of byte
  buffers, \<open>state_simps\<close> for the handlers of the clients) and the generic lemmas on lists
  and results that more than one component uses.
\<close>

type_synonym byte = "8 word"
type_synonym bytes = "byte list"
type_synonym u16 = "16 word"

text \<open>A JavaScript string is a sequence of UTF-16 code units.\<close>

type_synonym jstring = "u16 list"

named_theorems wire_simps \<open>layout and round-trip rules of the wire codec\<close>
named_theorems state_simps \<open>unfolding rules of the client state machines\<close>
named_theorems js_simps \<open>evaluation rules of the string primitives\<close>

text \<open>\<open>js ''GET''\<close> is the JavaScript string literal with the same characters.\<close>

definition js :: "string \<Rightarrow> jstring" where
  "js s = map of_char s"

lemma js_Nil [simp]: "js [] = []"
  by (simp add: js_def)

lemma js_Cons [js_simps]: "js (c # s) = of_char c # js s"
  by (simp add: js_def)

lemma js_append: "js (s @ t) = js s @ js t"
  by (simp add: js_def)

lemma of_char_less_256: "(of_char c :: nat) < 256"
proof -
  have "(of_char c :: nat) mod 256 < 256" by (simp del: of_char_mod_256)
  then show ?thesis by simp
qed

lemma unat_of_char_u16: "unat (of_char c :: u16) = of_char c"
proof -
  have "unat (of_nat (of_char c) :: u16) = of_char c mod 2 ^ LENGTH(16)"
    by (rule unat_of_nat)
  then show ?thesis
    using of_char_less_256 [of c] by (simp add: of_nat_of_char)
qed

lemma of_char_u16_inj: "(of_char c :: u16) = of_char d \<longleftrightarrow> c = d"
  by (metis of_char_eq_iff unat_of_char_u16)

lemma js_eq_iff [simp]: "js s = js t \<longleftrightarrow> s = t"
  by (simp add: js_def inj_map_eq_map inj_def of_char_u16_inj)

lemma js_eq_Nil_iff [simp]: "js s = [] \<longleftrightarrow> s = []"
  by (simp add: js_def)

lemma length_js [simp]: "length (js s) = length s"
  by (simp add: js_def)

subsection \<open>Results\<close>

text \<open>
  A call that may throw is a value of \<open>'e + 'a\<close>: \<open>Inl\<close> is the thrown error. \<open>and_then\<close>
  runs the continuation only when nothing was thrown.
\<close>

definition and_then :: "'e + 'a \<Rightarrow> ('a \<Rightarrow> 'e + 'b) \<Rightarrow> 'e + 'b" where
  "and_then r f = (case r of Inl e \<Rightarrow> Inl e | Inr a \<Rightarrow> f a)"

lemma and_then_simps [simp]:
  "and_then (Inl e) f = Inl e"
  "and_then (Inr a) f = f a"
  by (simp_all add: and_then_def)

lemma and_then_eq_Inr:
  "and_then r f = Inr b \<longleftrightarrow> (\<exists>a. r = Inr a \<and> f a = Inr b)"
  by (cases r) simp_all

definition of_opt :: "'e \<Rightarrow> 'a option \<Rightarrow> 'e + 'a" where
  "of_opt e x = (case x of None \<Rightarrow> Inl e | Some a \<Rightarrow> Inr a)"

lemma of_opt_simps [simp]:
  "of_opt e None = Inl e"
  "of_opt e (Some a) = Inr a"
  by (simp_all add: of_opt_def)

text \<open>\<open>x ?? d\<close>: the default for an argument or option that was left out.\<close>

definition or_default :: "'a option \<Rightarrow> 'a \<Rightarrow> 'a" where
  "or_default x d = (case x of Some a \<Rightarrow> a | None \<Rightarrow> d)"

lemma or_default_simps [simp]:
  "or_default None d = d"
  "or_default (Some a) d = a"
  by (simp_all add: or_default_def)

subsection \<open>Lists\<close>

lemma take_length_append [simp]: "take (length xs) (xs @ ys) = xs"
  by simp

lemma drop_length_append [simp]: "drop (length xs) (xs @ ys) = ys"
  by simp

lemma replicate_split: "m \<le> n \<Longrightarrow> replicate n x = replicate m x @ replicate (n - m) x"
  by (metis le_add_diff_inverse replicate_add)

lemma dropWhile_idem [simp]: "dropWhile P (dropWhile P xs) = dropWhile P xs"
  by (induction xs) auto

lemma length_dropWhile_less:
  "xs \<noteq> [] \<Longrightarrow> P (hd xs) \<Longrightarrow> length (dropWhile P xs) < length xs"
  by (cases xs) (auto simp: le_imp_less_Suc length_dropWhile_le)

lemma sum_list_map_add:
  "sum_list (map (\<lambda>x. f x + g x) xs) = sum_list (map f xs) + sum_list (map (g :: _ \<Rightarrow> nat) xs)"
  by (induction xs) auto

lemma length_concat_map:
  "length (concat (map f xs)) = sum_list (map (\<lambda>x. length (f x)) xs)"
  by (induction xs) auto

end
