(* ===== verification/Js_String.thy ===== *)
theory Js_String
  imports Prelude
begin

section \<open>The JavaScript string primitives the clients use\<close>

text \<open>
  \<open>String.prototype\<close> methods on sequences of UTF-16 code units: \<open>trim\<close>, \<open>trimEnd\<close>,
  \<open>split(/\s+/)\<close>, \<open>split(sep)\<close> on a one-unit separator, \<open>slice\<close>, \<open>indexOf\<close>,
  \<open>startsWith\<close>, \<open>toUpperCase\<close>, \<open>join\<close>, and \<open>String(n)\<close> on integers. White space is
  exactly the set of ECMAScript's \<open>WhiteSpace\<close> and \<open>LineTerminator\<close> productions, which is
  also what the class \<open>\s\<close> of a regular expression matches.
\<close>

subsection \<open>White space\<close>

definition is_ws :: "u16 \<Rightarrow> bool" where
  "is_ws c \<longleftrightarrow> c \<in> {9, 10, 11, 12, 13, 32, 0xA0, 0x1680, 0x2028, 0x2029, 0x202F, 0x205F, 0x3000, 0xFEFF}
     \<or> (0x2000 \<le> c \<and> c \<le> 0x200A)"

definition is_line_terminator :: "u16 \<Rightarrow> bool" where
  "is_line_terminator c \<longleftrightarrow> c \<in> {10, 13, 0x2028, 0x2029}"

definition trimStart :: "jstring \<Rightarrow> jstring" where
  "trimStart s = dropWhile is_ws s"

definition trimEnd :: "jstring \<Rightarrow> jstring" where
  "trimEnd s = rev (dropWhile is_ws (rev s))"

definition trim :: "jstring \<Rightarrow> jstring" where
  "trim s = trimEnd (trimStart s)"

text \<open>
  \<open>s.split(/\s+/)\<close>: the maximal runs of white space are the separators; a leading or trailing
  run gives an empty first or last part, and the empty string gives one empty part.
\<close>

function split_ws :: "jstring \<Rightarrow> jstring list" where
  "split_ws s =
     (let w = takeWhile (\<lambda>c. \<not> is_ws c) s; r = dropWhile (\<lambda>c. \<not> is_ws c) s
      in if r = [] then [w] else w # split_ws (dropWhile is_ws r))"
  by pat_completeness auto
termination
proof (relation "measure length", goal_cases)
  case 1
  show ?case by simp
next
  case (2 s w r)
  then have r: "r \<noteq> []" "is_ws (hd r)"
    using hd_dropWhile [of "\<lambda>c. \<not> is_ws c" s] by auto
  then have "length (dropWhile is_ws r) < length r"
    by (rule length_dropWhile_less)
  also have "\<dots> \<le> length s"
    using 2 by (simp add: length_dropWhile_le)
  finally show ?case by simp
qed

declare split_ws.simps [simp del]

text \<open>\<open>s.split(c)\<close> for a separator of one code unit.\<close>

fun split_on :: "u16 \<Rightarrow> jstring \<Rightarrow> jstring list" where
  "split_on c [] = [[]]"
| "split_on c (x # xs) =
     (if x = c then [] # split_on c xs
      else (case split_on c xs of [] \<Rightarrow> [[x]] | p # ps \<Rightarrow> (x # p) # ps))"

fun join :: "jstring \<Rightarrow> jstring list \<Rightarrow> jstring" where
  "join sep [] = []"
| "join sep [x] = x"
| "join sep (x # y # zs) = x @ sep @ join sep (y # zs)"

definition startsWith :: "jstring \<Rightarrow> jstring \<Rightarrow> bool" where
  "startsWith s p \<longleftrightarrow> take (length p) s = p"

text \<open>\<open>s.indexOf(p)\<close>: \<open>None\<close> for \<open>-1\<close>.\<close>

fun indexOf :: "jstring \<Rightarrow> jstring \<Rightarrow> nat option" where
  "indexOf [] p = (if p = [] then Some 0 else None)"
| "indexOf (x # xs) p =
     (if startsWith (x # xs) p then Some 0 else map_option Suc (indexOf xs p))"

text \<open>\<open>s.slice(a)\<close> and \<open>s.slice(a, b)\<close> for non-negative bounds.\<close>

definition slice_from :: "nat \<Rightarrow> 'a list \<Rightarrow> 'a list" where
  "slice_from a s = drop a s"

definition slice :: "nat \<Rightarrow> nat \<Rightarrow> 'a list \<Rightarrow> 'a list" where
  "slice a b s = take (b - a) (drop a s)"

subsection \<open>Case mapping\<close>

text \<open>
  \<open>toUpperCase\<close>, one code unit at a time. Besides the ASCII letters it maps every code unit
  whose upper case consists of ASCII letters only (dotless i, long s, sharp s and the Latin
  ligatures), so a comparison of the result with an ASCII word is exact. The other non-ASCII
  mappings never produce an ASCII word and are left as the identity.
\<close>

definition upper_unit :: "u16 \<Rightarrow> jstring" where
  "upper_unit c =
     (if 97 \<le> c \<and> c \<le> 122 then [c - 32]
      else if c = 0x131 then js ''I''
      else if c = 0x17F then js ''S''
      else if c = 0xDF then js ''SS''
      else if c = 0xFB00 then js ''FF''
      else if c = 0xFB01 then js ''FI''
      else if c = 0xFB02 then js ''FL''
      else if c = 0xFB03 then js ''FFI''
      else if c = 0xFB04 then js ''FFL''
      else if c = 0xFB05 \<or> c = 0xFB06 then js ''ST''
      else [c])"

definition toUpperCase :: "jstring \<Rightarrow> jstring" where
  "toUpperCase s = concat (map upper_unit s)"

text \<open>
  One code unit under the flag \<open>i\<close> of a regular expression without \<open>u\<close>: a code unit from
  128 on never matches an ASCII letter.
\<close>

definition regex_i_eq :: "u16 \<Rightarrow> u16 \<Rightarrow> bool" where
  "regex_i_eq c a \<longleftrightarrow> (if 97 \<le> c \<and> c \<le> 122 then c - 32 else c) = a"

subsection \<open>Decimal rendering\<close>

fun digits_of :: "nat \<Rightarrow> jstring" where
  "digits_of n = (if n < 10 then [48 + of_nat n] else digits_of (n div 10) @ [48 + of_nat (n mod 10)])"

declare digits_of.simps [simp del]

text \<open>\<open>String(n)\<close> for an integral number below \<open>10 ^ 21\<close>, where JavaScript prints no exponent.\<close>

definition String_int :: "int \<Rightarrow> jstring" where
  "String_int i = (if i < 0 then 45 # digits_of (nat (- i)) else digits_of (nat i))"

subsection \<open>Lemmas\<close>

lemma is_ws_space [simp]: "is_ws 32"
  by (simp add: is_ws_def)

lemma trimEnd_Nil [simp]: "trimEnd [] = []"
  by (simp add: trimEnd_def)

lemma trimEnd_snoc: "\<not> is_ws c \<Longrightarrow> trimEnd (s @ [c]) = s @ [c]"
  by (simp add: trimEnd_def)

text \<open>A token: a non-empty string without white space.\<close>

definition token :: "jstring \<Rightarrow> bool" where
  "token s \<longleftrightarrow> s \<noteq> [] \<and> (\<forall>c \<in> set s. \<not> is_ws c)"

lemma token_not_Nil [simp]: "token s \<Longrightarrow> s \<noteq> []"
  by (simp add: token_def)

lemma takeWhile_token:
  assumes "\<forall>c \<in> set t. \<not> is_ws c"
  shows "takeWhile (\<lambda>c. \<not> is_ws c) (t @ 32 # r) = t"
    and "dropWhile (\<lambda>c. \<not> is_ws c) (t @ 32 # r) = 32 # r"
  using assms by (induction t) auto

lemma dropWhile_ws_token: "token t \<Longrightarrow> dropWhile is_ws (t @ r) = t @ r"
  by (cases t) (auto simp: token_def)

lemma split_ws_token: "token t \<Longrightarrow> split_ws t = [t]"
  by (subst split_ws.simps) (auto simp: token_def Let_def dropWhile_eq_Nil_conv)

lemma join_token_start:
  "ts \<noteq> [] \<Longrightarrow> token (hd ts) \<Longrightarrow> dropWhile is_ws (join sep ts) = join sep ts"
  by (cases "(sep, ts)" rule: join.cases)
    (auto simp: dropWhile_ws_token dropWhile_ws_token [of _ "[]", simplified])

text \<open>Splitting tokens joined by single spaces gives the tokens back.\<close>

lemma split_ws_join:
  "ts \<noteq> [] \<Longrightarrow> \<forall>t \<in> set ts. token t \<Longrightarrow> split_ws (join [32] ts) = ts"
proof (induction "[32] :: jstring" ts rule: join.induct)
  case (3 x y zs)
  have IH: "split_ws (join [32] (y # zs)) = y # zs"
    using 3 by simp
  have ns: "\<forall>c \<in> set x. \<not> is_ws c"
    using 3(3) by (simp add: token_def)
  have st: "dropWhile is_ws (join [32] (y # zs)) = join [32] (y # zs)"
    using 3(3) by (intro join_token_start) auto
  show ?case
    using IH st
    by (subst split_ws.simps) (simp add: Let_def takeWhile_token [OF ns])
qed (auto simp: split_ws_token)

lemma trim_join:
  assumes "ts \<noteq> []" and "\<forall>t \<in> set ts. token t"
  shows "trim (join [32] ts) = join [32] ts"
proof -
  have st: "trimStart (join [32] ts) = join [32] ts"
    using assms by (simp add: trimStart_def join_token_start)
  have "\<exists>s c. join [32] ts = s @ [c] \<and> \<not> is_ws c"
    using assms
  proof (induction "[32] :: jstring" ts rule: join.induct)
    case (2 x)
    then show ?case
      by (metis append_butlast_last_id join.simps(2) last_in_set list.set_intros(1) token_def)
  next
    case (3 x y zs)
    then obtain s c where "join [32] (y # zs) = s @ [c]" "\<not> is_ws c"
      by auto
    then show ?case
      by (intro exI [of _ "x @ [32] @ s"] exI [of _ c]) simp
  qed simp
  then show ?thesis
    using st by (auto simp: trim_def trimEnd_snoc)
qed

lemma set_join: "c \<in> set (join sep ts) \<Longrightarrow> c \<in> set sep \<or> (\<exists>t \<in> set ts. c \<in> set t)"
  by (induction sep ts rule: join.induct) auto

lemma line_terminator_ws: "is_line_terminator c \<Longrightarrow> is_ws c \<and> c \<noteq> 32"
  by (auto simp: is_line_terminator_def is_ws_def)

lemma join_tokens_no_line_terminator:
  "\<forall>t \<in> set ts. token t \<Longrightarrow> \<not> (\<exists>c \<in> set (join [32] ts). is_line_terminator c)"
  using set_join [of _ "[32]" ts] line_terminator_ws by (fastforce simp: token_def)

lemma join_eq_Nil: "join sep ts = [] \<Longrightarrow> \<forall>t \<in> set ts. t \<noteq> [] \<Longrightarrow> ts = []"
  by (cases "(sep, ts)" rule: join.cases) auto

text \<open>Cutting at every separator and joining again is the identity.\<close>

lemma split_on_not_Nil [simp]: "split_on c s \<noteq> []"
  by (induction s) (auto split: list.splits)

lemma join_split_on: "join [c] (split_on c s) = s"
proof (induction s)
  case (Cons x xs)
  obtain p ps where p: "split_on c xs = p # ps"
    by (cases "split_on c xs") auto
  show ?case
    using Cons.IH p by (cases ps) auto
qed simp

lemma startsWith_append [simp]: "startsWith (p @ s) p"
  by (simp add: startsWith_def)

lemma startsWith_refl [simp]: "startsWith s s"
  by (simp add: startsWith_def)

lemma startsWith_iff: "startsWith s p \<longleftrightarrow> (\<exists>r. s = p @ r)"
  by (metis append_take_drop_id startsWith_append startsWith_def)

end
