(* ===== verification/Utf8.thy ===== *)
theory Utf8
  imports Js_String
begin

section \<open>TextEncoder and TextDecoder\<close>

text \<open>
  \<open>new TextEncoder().encode(s)\<close> and \<open>new TextDecoder().decode(b)\<close>, which
  \<open>encodeUtf8\<close>/\<open>decodeUtf8\<close> of \<open>wire.ts\<close> and \<open>u8\<close>/\<open>str\<close> of the browser codec call with their
  defaults. The encoder replaces a lone surrogate by U+FFFD. The decoder is the WHATWG state
  machine: an ill-formed sequence becomes U+FFFD and the offending byte is read again in the
  ground state, and one leading U+FEFF (byte order mark) is dropped.
\<close>

subsection \<open>Code points of a UTF-16 string\<close>

definition is_high :: "u16 \<Rightarrow> bool" where
  "is_high c \<longleftrightarrow> 0xD800 \<le> unat c \<and> unat c < 0xDC00"

definition is_low :: "u16 \<Rightarrow> bool" where
  "is_low c \<longleftrightarrow> 0xDC00 \<le> unat c \<and> unat c < 0xE000"

fun code_points :: "jstring \<Rightarrow> nat list" where
  "code_points [] = []"
| "code_points [c] = [if is_high c \<or> is_low c then 0xFFFD else unat c]"
| "code_points (c # d # r) =
     (if is_high c \<and> is_low d
      then (0x10000 + (unat c - 0xD800) * 1024 + (unat d - 0xDC00)) # code_points r
      else (if is_high c \<or> is_low c then 0xFFFD else unat c) # code_points (d # r))"

definition units :: "nat \<Rightarrow> jstring" where
  "units n = (if n < 0x10000 then [of_nat n]
     else [of_nat (0xD800 + (n - 0x10000) div 1024), of_nat (0xDC00 + (n - 0x10000) mod 1024)])"

definition of_code_points :: "nat list \<Rightarrow> jstring" where
  "of_code_points cs = concat (map units cs)"

text \<open>A Unicode scalar value: a code point that is not a surrogate.\<close>

definition scalar :: "nat \<Rightarrow> bool" where
  "scalar n \<longleftrightarrow> n < 0xD800 \<or> (0xE000 \<le> n \<and> n < 0x110000)"

subsection \<open>UTF-8\<close>

definition utf8_of :: "nat \<Rightarrow> bytes" where
  "utf8_of n =
     (if n < 0x80 then [of_nat n]
      else if n < 0x800 then [of_nat (0xC0 + n div 64), of_nat (0x80 + n mod 64)]
      else if n < 0x10000 then
        [of_nat (0xE0 + n div 4096), of_nat (0x80 + n div 64 mod 64), of_nat (0x80 + n mod 64)]
      else
        [of_nat (0xF0 + n div 262144), of_nat (0x80 + n div 4096 mod 64),
         of_nat (0x80 + n div 64 mod 64), of_nat (0x80 + n mod 64)])"

definition encodeUtf8 :: "jstring \<Rightarrow> bytes" where
  "encodeUtf8 s = concat (map utf8_of (code_points s))"

text \<open>
  The decoder's state: \<open>Ground\<close>, or in a sequence with the value so far, the number of
  continuation bytes still needed and the bounds of the next one.
\<close>

datatype dec_state = Ground | Seq nat nat nat nat

definition dec_ground :: "nat \<Rightarrow> nat list \<times> dec_state" where
  "dec_ground b =
     (if b < 0x80 then ([b], Ground)
      else if 0xC2 \<le> b \<and> b \<le> 0xDF then ([], Seq (b - 0xC0) 1 0x80 0xBF)
      else if 0xE0 \<le> b \<and> b \<le> 0xEF then
        ([], Seq (b - 0xE0) 2 (if b = 0xE0 then 0xA0 else 0x80) (if b = 0xED then 0x9F else 0xBF))
      else if 0xF0 \<le> b \<and> b \<le> 0xF4 then
        ([], Seq (b - 0xF0) 3 (if b = 0xF0 then 0x90 else 0x80) (if b = 0xF4 then 0x8F else 0xBF))
      else ([0xFFFD], Ground))"

fun dec_step :: "dec_state \<Rightarrow> nat \<Rightarrow> nat list \<times> dec_state" where
  "dec_step Ground b = dec_ground b"
| "dec_step (Seq cp needed lower upper) b =
     (if lower \<le> b \<and> b \<le> upper then
        (let cp' = cp * 64 + (b - 0x80)
         in if needed = 1 then ([cp'], Ground) else ([], Seq cp' (needed - 1) 0x80 0xBF))
      else (let (out, st) = dec_ground b in (0xFFFD # out, st)))"

fun dec_run :: "dec_state \<Rightarrow> bytes \<Rightarrow> nat list" where
  "dec_run Ground [] = []"
| "dec_run (Seq cp needed lower upper) [] = [0xFFFD]"
| "dec_run st (b # bs) = (let (out, st') = dec_step st (unat b) in out @ dec_run st' bs)"

definition strip_bom :: "nat list \<Rightarrow> nat list" where
  "strip_bom cs = (case cs of c # r \<Rightarrow> if c = 0xFEFF then r else cs | [] \<Rightarrow> [])"

definition decodeUtf8 :: "bytes \<Rightarrow> jstring" where
  "decodeUtf8 bs = of_code_points (strip_bom (dec_run Ground bs))"

subsection \<open>Round trip\<close>

lemma unat16_less [simp]: "unat (c :: u16) < 65536"
proof -
  have "unat c < 2 ^ LENGTH(16)" by (rule unsigned_less)
  then show ?thesis by simp
qed

lemma unat8_less [simp]: "unat (c :: byte) < 256"
proof -
  have "unat c < 2 ^ LENGTH(8)" by (rule unsigned_less)
  then show ?thesis by simp
qed

lemma unat_of_nat8 [simp]: "n < 256 \<Longrightarrow> unat (of_nat n :: byte) = n"
  by (simp add: unat_of_nat)

lemma unat_of_nat16 [simp]: "n < 65536 \<Longrightarrow> unat (of_nat n :: u16) = n"
  by (simp add: unat_of_nat)

lemma scalar_unit: "\<not> is_high c \<Longrightarrow> \<not> is_low c \<Longrightarrow> scalar (unat c)"
  using unat16_less [of c] unfolding scalar_def is_high_def is_low_def by linarith

lemma scalar_pair:
  "is_high c \<Longrightarrow> is_low d \<Longrightarrow> scalar (0x10000 + (unat c - 0xD800) * 1024 + (unat d - 0xDC00))"
  unfolding scalar_def is_high_def is_low_def by linarith

lemma scalar_replacement [simp]: "scalar 0xFFFD"
  by (simp add: scalar_def)

lemma code_points_scalar: "n \<in> set (code_points s) \<Longrightarrow> scalar n"
  by (induction s rule: code_points.induct)
    (auto simp: scalar_unit scalar_pair simp del: One_nat_def split: if_splits)

text \<open>The decoder reads back the bytes of one scalar value and is in the ground state again.\<close>

lemma dec_run_of_nat:
  "b < 256 \<Longrightarrow> dec_run st (of_nat b # bs) = (let (out, st') = dec_step st b in out @ dec_run st' bs)"
  by (cases st) simp_all

lemma dec_step_Seq:
  "lower \<le> 0x80 + k \<Longrightarrow> 0x80 + k \<le> upper \<Longrightarrow>
     dec_step (Seq cp needed lower upper) (0x80 + k) =
       (if needed = 1 then ([cp * 64 + k], Ground) else ([], Seq (cp * 64 + k) (needed - 1) 0x80 0xBF))"
  by simp

lemmas dec_run_simps = dec_run_of_nat dec_step_Seq dec_ground_def

lemma sextets:
  fixes n :: nat
  shows "n div 64 * 64 + n mod 64 = n" "n div 4096 * 64 + n div 64 mod 64 = n div 64"
    "n div 262144 * 64 + n div 4096 mod 64 = n div 4096"
    "n mod 64 \<le> 63" "n div 64 mod 64 \<le> 63" "n div 4096 mod 64 \<le> 63"
proof -
  have "n mod 64 < 64" "n div 64 mod 64 < 64" "n div 4096 mod 64 < 64" by simp_all
  then show "n mod 64 \<le> 63" "n div 64 mod 64 \<le> 63" "n div 4096 mod 64 \<le> 63" by linarith+
  show "n div 64 * 64 + n mod 64 = n" "n div 4096 * 64 + n div 64 mod 64 = n div 64"
    "n div 262144 * 64 + n div 4096 mod 64 = n div 4096"
    using div_mult_mod_eq [of n 64] div_mult_mod_eq [of "n div 64" 64] div_mult_mod_eq [of "n div 4096" 64]
    unfolding div_mult2_eq [symmetric] by simp_all
qed

lemma dec_run_two:
  assumes "0x80 \<le> n" and "n < 0x800"
  shows "dec_run Ground (utf8_of n @ bs) = n # dec_run Ground bs"
proof -
  define a h where "a = n mod 64" and "h = n div 64"
  have a: "a \<le> 63" and n: "h * 64 + a = n" unfolding a_def h_def by (simp_all only: sextets)
  then have h: "h < 32" "2 \<le> h" using assms by linarith+
  have "utf8_of n = [of_nat (0xC0 + h), of_nat (0x80 + a)]"
    using assms unfolding utf8_of_def h_def a_def by simp
  with h a n show ?thesis
    by (simp add: dec_run_simps del: of_nat_add dec_step.simps(2) dec_run.simps(3))
qed

lemma dec_run_three:
  assumes "scalar n" and "0x800 \<le> n" and "n < 0x10000"
  shows "dec_run Ground (utf8_of n @ bs) = n # dec_run Ground bs"
proof -
  define a b h where "a = n mod 64" and "b = n div 64 mod 64" and "h = n div 4096"
  have ab: "a \<le> 63" "b \<le> 63" and n: "(h * 64 + b) * 64 + a = n" unfolding a_def b_def h_def by (simp_all only: sextets)
  from n have "4096 * h + 64 * b + a = n" by simp
  then have h: "h < 16" "h = 0 \<Longrightarrow> 32 \<le> b" "h = 13 \<Longrightarrow> b \<le> 31"
    using assms ab unfolding scalar_def by auto
  have "utf8_of n = [of_nat (0xE0 + h), of_nat (0x80 + b), of_nat (0x80 + a)]"
    using assms unfolding utf8_of_def h_def a_def b_def by simp
  with h ab n show ?thesis
    by (simp add: dec_run_simps del: of_nat_add dec_step.simps(2) dec_run.simps(3))
qed

lemma dec_run_four:
  assumes "scalar n" and "0x10000 \<le> n"
  shows "dec_run Ground (utf8_of n @ bs) = n # dec_run Ground bs"
proof -
  define a b c h where "a = n mod 64" and "b = n div 64 mod 64" and "c = n div 4096 mod 64" and "h = n div 262144"
  have abc: "a \<le> 63" "b \<le> 63" "c \<le> 63" and n: "((h * 64 + c) * 64 + b) * 64 + a = n"
    unfolding a_def b_def c_def h_def by (simp_all only: sextets)
  from n have "262144 * h + 4096 * c + 64 * b + a = n" by simp
  then have h: "h < 5" "h = 0 \<Longrightarrow> 16 \<le> c" "h = 4 \<Longrightarrow> c \<le> 15"
    using assms abc unfolding scalar_def by auto
  have "utf8_of n = [of_nat (0xF0 + h), of_nat (0x80 + c), of_nat (0x80 + b), of_nat (0x80 + a)]"
    using assms unfolding utf8_of_def h_def a_def b_def c_def by simp
  with h abc n show ?thesis
    by (simp add: dec_run_simps del: of_nat_add dec_step.simps(2) dec_run.simps(3))
qed

lemma dec_run_utf8_of:
  assumes "scalar n"
  shows "dec_run Ground (utf8_of n @ bs) = n # dec_run Ground bs"
proof -
  consider "n < 0x80" | "0x80 \<le> n" "n < 0x800" | "0x800 \<le> n" "n < 0x10000" | "0x10000 \<le> n" by linarith
  then show ?thesis
    by cases (simp_all add: dec_run_two dec_run_three [OF assms] dec_run_four [OF assms], simp add: utf8_of_def dec_ground_def)
qed

lemma dec_run_encode:
  "\<forall>c \<in> set cs. scalar c \<Longrightarrow> dec_run Ground (concat (map utf8_of cs)) = cs"
  by (induction cs) (auto simp: dec_run_utf8_of)

text \<open>\<open>s.toWellFormed()\<close>: every lone surrogate replaced by U+FFFD.\<close>

definition toWellFormed :: "jstring \<Rightarrow> jstring" where
  "toWellFormed s = of_code_points (code_points s)"

text \<open>A string without lone surrogates.\<close>

fun well_formed :: "jstring \<Rightarrow> bool" where
  "well_formed [] = True"
| "well_formed [c] = (\<not> is_high c \<and> \<not> is_low c)"
| "well_formed (c # d # r) =
     (if is_high c \<and> is_low d then well_formed r
      else \<not> is_high c \<and> \<not> is_low c \<and> well_formed (d # r))"

lemma of_nat_unat16 [simp]: "of_nat (unat (c :: u16)) = c"
  by simp

lemma units_pair:
  assumes "is_high c" and "is_low d"
  shows "units (0x10000 + (unat c - 0xD800) * 1024 + (unat d - 0xDC00)) = [c, d]"
proof -
  let ?x = "unat c - 0xD800" and ?y = "unat d - 0xDC00"
  have y: "?y < 1024" and c: "0xD800 + ?x = unat c" and d: "0xDC00 + ?y = unat d"
    using assms by (auto simp: is_high_def is_low_def)
  have "units (0x10000 + ?x * 1024 + ?y) = [of_nat (0xD800 + ?x), of_nat (0xDC00 + ?y)]"
    using y by (simp add: units_def)
  then show ?thesis by (simp only: c d of_nat_unat16)
qed

lemma toWellFormed_id: "well_formed s \<Longrightarrow> toWellFormed s = s"
proof (induction s rule: well_formed.induct)
  case (2 c)
  then show ?case
    by (simp add: toWellFormed_def of_code_points_def units_def)
next
  case (3 c d r)
  show ?case
  proof (cases "is_high c \<and> is_low d")
    case True
    then show ?thesis
      using 3 by (simp add: toWellFormed_def of_code_points_def units_pair)
  next
    case False
    with 3(3) have c: "\<not> is_high c" "\<not> is_low c" and r: "well_formed (d # r)"
      by (auto split: if_splits)
    then have "code_points (c # d # r) = unat c # code_points (d # r)"
      by simp
    with 3(2) [OF False r] show ?thesis
      by (simp add: toWellFormed_def of_code_points_def units_def del: code_points.simps)
  qed
qed (simp add: toWellFormed_def of_code_points_def)

lemma unat_bom: "unat (c :: u16) = 0xFEFF \<longleftrightarrow> c = 0xFEFF"
proof
  assume "unat c = 0xFEFF"
  then have "c = of_nat 0xFEFF" by (metis of_nat_unat16)
  then show "c = 0xFEFF" by simp
qed simp

lemma code_points_hd:
  "well_formed (c # r) \<Longrightarrow> c \<noteq> 0xFEFF \<Longrightarrow>
     \<exists>n ns. code_points (c # r) = n # ns \<and> n \<noteq> 0xFEFF"
  by (cases r) (auto simp: unat_bom)

lemma dec_run_encodeUtf8: "dec_run Ground (encodeUtf8 s) = code_points s"
  by (simp add: encodeUtf8_def dec_run_encode code_points_scalar)

lemma decodeUtf8_encodeUtf8:
  "decodeUtf8 (encodeUtf8 s) = of_code_points (strip_bom (code_points s))"
  by (simp add: decodeUtf8_def dec_run_encodeUtf8)

lemma decodeUtf8_encodeUtf8_id [wire_simps]:
  assumes "well_formed s" and "take 1 s \<noteq> [0xFEFF]"
  shows "decodeUtf8 (encodeUtf8 s) = s"
proof (cases s)
  case Nil
  then show ?thesis
    by (simp add: decodeUtf8_encodeUtf8 strip_bom_def of_code_points_def)
next
  case (Cons c r)
  then obtain n ns where "code_points s = n # ns" "n \<noteq> 0xFEFF"
    using assms code_points_hd [of c r] by auto
  then have "decodeUtf8 (encodeUtf8 s) = toWellFormed s"
    by (simp add: decodeUtf8_encodeUtf8 strip_bom_def toWellFormed_def)
  with assms show ?thesis by (simp add: toWellFormed_id)
qed

text \<open>The encoder never produces the empty list for a non-empty string.\<close>

lemma utf8_of_not_Nil [simp]: "utf8_of n \<noteq> []"
  by (simp add: utf8_of_def)

lemma code_points_eq_Nil [simp]: "code_points s = [] \<longleftrightarrow> s = []"
  by (cases s rule: code_points.cases) auto

lemma encodeUtf8_eq_Nil [simp]: "encodeUtf8 s = [] \<longleftrightarrow> s = []"
  by (cases "code_points s") (auto simp: encodeUtf8_def)

text \<open>Encoding is injective on well-formed strings.\<close>

lemma encodeUtf8_inj:
  assumes "encodeUtf8 s = encodeUtf8 t" and "well_formed s" and "well_formed t"
  shows "s = t"
proof -
  have "code_points s = code_points t"
    using assms(1) by (metis dec_run_encodeUtf8)
  then have "toWellFormed s = toWellFormed t"
    by (simp add: toWellFormed_def)
  with assms show ?thesis by (simp add: toWellFormed_id)
qed

text \<open>ASCII text is its own encoding.\<close>

lemma encodeUtf8_ascii:
  "\<forall>c \<in> set s. unat c < 128 \<Longrightarrow> encodeUtf8 s = map (\<lambda>c. of_nat (unat c)) s"
proof (induction s rule: code_points.induct)
  case (3 c d r)
  then have "\<not> is_high c" "\<not> is_low c" "unat c < 128"
    by (auto simp: is_high_def is_low_def)
  with 3 show ?case
    by (simp add: encodeUtf8_def utf8_of_def)
next
  case (2 c)
  then have "\<not> is_high c" "\<not> is_low c" "unat c < 128"
    by (auto simp: is_high_def is_low_def)
  then show ?case
    by (simp add: encodeUtf8_def utf8_of_def)
qed (simp add: encodeUtf8_def)

end
