(* ===== verification/Buffers.thy ===== *)
theory Buffers
  imports Utf8
begin

section \<open>Uint8Array and DataView\<close>

text \<open>
  The byte-buffer primitives the codecs use. A \<open>Uint8Array\<close> is a byte list of fixed length; a
  write that does not fit throws a \<open>RangeError\<close>, which is \<open>None\<close> here. An indexed assignment
  out of range is ignored, as it is for a typed array. \<open>setUint32\<close> and \<open>setBigUint64\<close> take
  their value modulo \<open>2 ^ 32\<close> and \<open>2 ^ 64\<close>.
\<close>

definition alloc :: "nat \<Rightarrow> bytes" where
  "alloc n = replicate n 0"

definition u8_set :: "bytes \<Rightarrow> bytes \<Rightarrow> nat \<Rightarrow> bytes option" where
  "u8_set target src off =
     (if off + length src \<le> length target
      then Some (take off target @ src @ drop (off + length src) target) else None)"

definition u8_put :: "bytes \<Rightarrow> nat \<Rightarrow> nat \<Rightarrow> bytes" where
  "u8_put target i v = target[i := of_nat v]"

definition subarray :: "bytes \<Rightarrow> nat \<Rightarrow> nat \<Rightarrow> bytes" where
  "subarray b from to = take (to - from) (drop from b)"

definition be32 :: "nat \<Rightarrow> bytes" where
  "be32 v = [of_nat (v div 16777216), of_nat (v div 65536), of_nat (v div 256), of_nat v]"

definition be64 :: "int \<Rightarrow> bytes" where
  "be64 v = map (\<lambda>k. of_int (v div 256 ^ k)) [7, 6, 5, 4, 3, 2, 1, 0]"

definition rd32 :: "bytes \<Rightarrow> nat" where
  "rd32 b = fold (\<lambda>x acc. acc * 256 + unat x) (take 4 b) 0"

definition rd64 :: "bytes \<Rightarrow> nat" where
  "rd64 b = fold (\<lambda>x acc. acc * 256 + unat x) (take 8 b) 0"

subsection \<open>Lemmas\<close>

lemma length_alloc [simp]: "length (alloc n) = n"
  by (simp add: alloc_def)

lemma length_be32 [simp]: "length (be32 v) = 4"
  by (simp add: be32_def)

lemma length_be64 [simp]: "length (be64 v) = 8"
  by (simp add: be64_def)

lemma rd32_be32_mod: "rd32 (be32 v @ r) = v mod 4294967296"
proof -
  have m: "\<And>n. unat (of_nat n :: byte) = n mod 256"
    by (simp add: unat_of_nat)
  have "v mod 4294967296 = v mod 256 + 256 * (v div 256 mod 16777216)"
    using mod_mult2_eq [of v 256 16777216] by simp
  also have "v div 256 mod 16777216 = v div 256 mod 256 + 256 * (v div 65536 mod 65536)"
    using mod_mult2_eq [of "v div 256" 256 65536] by (simp add: div_mult2_eq [symmetric])
  also have "v div 65536 mod 65536 = v div 65536 mod 256 + 256 * (v div 16777216 mod 256)"
    using mod_mult2_eq [of "v div 65536" 256 256] by (simp add: div_mult2_eq [symmetric])
  finally show ?thesis
    by (simp add: rd32_def be32_def m)
qed

lemma rd32_be32 [simp, wire_simps]: "v < 4294967296 \<Longrightarrow> rd32 (be32 v @ r) = v"
  by (simp add: rd32_be32_mod)

lemma rd32_be32_Nil [simp]: "v < 4294967296 \<Longrightarrow> rd32 (be32 v) = v"
  using rd32_be32 [of v "[]"] by simp

lemma fold_be_mod:
  fixes v :: int
  shows "int (fold (\<lambda>x acc. acc * 256 + unat (x :: byte))
           (map (\<lambda>k. of_int (v div 256 ^ k)) (rev [0..<n])) 0) = v mod 256 ^ n"
proof (induction n arbitrary: v)
  case (Suc n)
  have sh: "map (\<lambda>k. of_int (v div 256 ^ k)) (rev [0..<Suc n])
      = map (\<lambda>k. of_int (v div 256 div 256 ^ k)) (rev [0..<n]) @ [of_int v :: byte]"
    by (simp add: upt_conv_Cons map_Suc_upt [symmetric] rev_map div_mult2_eq' zdiv_zmult2_eq
        del: upt_Suc)
  have m: "int (unat (of_int v :: byte)) = v mod 256"
    by (simp add: of_nat_unat uint_word_of_int_eq take_bit_eq_mod)
  have "v mod 256 ^ Suc n = v mod 256 + 256 * (v div 256 mod 256 ^ n)"
    using zmod_zmult2_eq [of "256 ^ n" v 256] by (simp add: mult.commute)
  then show ?case
    by (simp only: sh fold_append comp_apply fold_simps of_nat_add of_nat_mult Suc.IH m)
qed simp

lemma rd64_be64: "int (rd64 (be64 v @ r)) = v mod 18446744073709551616"
proof -
  have "[7, 6, 5, 4, 3, 2, 1, 0] = rev [0..<8::nat]"
    by (simp add: upt_conv_Cons)
  then show ?thesis
    using fold_be_mod [of v 8] by (simp add: rd64_def be64_def)
qed

subsection \<open>Buffers filled from the left\<close>

text \<open>
  \<open>buf d n\<close> is a buffer whose first bytes are \<open>d\<close> and whose \<open>n\<close> last bytes are still zero:
  what every encoder builds. The rules advance it by one write.
\<close>

definition buf :: "bytes \<Rightarrow> nat \<Rightarrow> bytes" where
  "buf d n = d @ replicate n 0"

lemma alloc_buf: "alloc n = buf [] n"
  by (simp add: alloc_def buf_def)

lemma u8_set_buf:
  assumes "off = length d" and "length src \<le> n"
  shows "u8_set (buf d n) src off = Some (buf (d @ src) (n - length src))"
  using assms by (simp add: u8_set_def buf_def)

lemma u8_put_buf:
  assumes "i = length d" and "0 < n"
  shows "u8_put (buf d n) i v = buf (d @ [of_nat v]) (n - 1)"
  using assms by (cases n) (simp_all add: u8_put_def buf_def list_update_append)

lemma buf_0: "buf d 0 = d"
  by (simp add: buf_def)

lemma buf_full: "n = 0 \<Longrightarrow> buf d n = d"
  by (simp add: buf_def)

lemmas buf_simps [wire_simps] = alloc_buf u8_set_buf u8_put_buf buf_0

lemma length_subarray: "length (subarray b a c) = min (c - a) (length b - a)"
  by (simp add: subarray_def)

end
