(* ===== verification/Command.thy ===== *)
theory Command
  imports Js_String
begin

section \<open>Text commands (\<open>apps/bun/src/lib/command.ts\<close>)\<close>

text \<open>
  \<open>ParsedCommand\<close> with the source's kinds, and \<open>parseCommand\<close>, which throws on a malformed
  command. \<open>matchSub\<close> is the regular expression \<open>/^SUB\s+(\S+)(?:\s+(.+))?$/i\<close> on the trimmed
  command: the white space before the channel and before the filter are maximal runs, and the
  filter runs to the end of the text, so it may not contain a line terminator.
\<close>

datatype Metric = Cosine | Dot | L2

datatype exec_arg = ArgStr jstring | ArgBytes "8 word list"

record bulk_item =
  bi_key :: jstring
  bi_vector :: "8 word list"
  bi_timestamp :: int

datatype ParsedCommand =
    CmdGet jstring
  | CmdDel jstring
  | CmdSub jstring "jstring option"
  | CmdUnsub jstring
  | CmdStatus
  | CmdClusterStatus
  | CmdClusterPeers
  | CmdSet jstring jstring bool
  | CmdPub jstring jstring
  | CmdExec jstring "exec_arg list"
  | CmdVinsert jstring "8 word list" bool jstring Metric int bool
  | CmdVbulkinsert jstring Metric bool bool "bulk_item list"

datatype command_error =
    MissingCommand
  | InvalidCommand jstring
  | UnsupportedCommand jstring

text \<open>The two capture groups of the regular expression, or \<open>None\<close> when it does not match.\<close>

definition matchSub :: "jstring \<Rightarrow> (jstring \<times> jstring option) option" where
  "matchSub t =
     (if length t < 3 \<or> \<not> list_all2 regex_i_eq (take 3 t) (js ''SUB'') then None
      else
        let r = drop 3 t;
            a = dropWhile is_ws r;
            channel = takeWhile (\<lambda>c. \<not> is_ws c) a;
            b = dropWhile (\<lambda>c. \<not> is_ws c) a;
            flt = dropWhile is_ws b
        in if length a = length r \<or> channel = [] then None
           else if b = [] then Some (channel, None)
           else if flt = [] \<or> (\<exists>c \<in> set flt. is_line_terminator c) then None
           else Some (channel, Some flt))"

definition parseCommand :: "jstring \<Rightarrow> command_error + ParsedCommand" where
  "parseCommand command =
     (let parts = split_ws (trim command) in
      if parts = [] \<or> parts ! 0 = [] then Inl MissingCommand
      else
        let verb = toUpperCase (parts ! 0);
            second = (if length parts > 1 then Some (toUpperCase (parts ! 1)) else None)
        in if verb = js ''GET'' then
             (if length parts < 2 then Inl (InvalidCommand verb) else Inr (CmdGet (parts ! 1)))
           else if verb = js ''DEL'' then
             (if length parts < 2 then Inl (InvalidCommand verb) else Inr (CmdDel (parts ! 1)))
           else if verb = js ''SUB'' then
             (case matchSub (trim command) of
                None \<Rightarrow> Inl (InvalidCommand verb)
              | Some (channel, flt) \<Rightarrow> Inr (CmdSub channel flt))
           else if verb = js ''UNSUB'' then
             (if length parts < 2 then Inl (InvalidCommand verb) else Inr (CmdUnsub (parts ! 1)))
           else if verb = js ''STATUS'' then Inr CmdStatus
           else if verb = js ''CLUSTER'' \<and> second = Some (js ''STATUS'') then Inr CmdClusterStatus
           else if verb = js ''CLUSTER'' \<and> second = Some (js ''PEERS'') then Inr CmdClusterPeers
           else if verb = js ''SET'' then
             (if length parts < 3 then Inl (InvalidCommand verb)
              else
                let hasWorm = (\<exists>p \<in> set parts. toUpperCase p = js ''WORM'')
                in Inr (CmdSet (parts ! 1) (parts ! 2) hasWorm))
           else if verb = js ''PUB'' then
             (if length parts < 3 then Inl (InvalidCommand verb)
              else Inr (CmdPub (parts ! 1) (join [32] (drop 2 parts))))
           else if verb = js ''EXEC'' then
             (if length parts < 2 then Inl (InvalidCommand verb)
              else Inr (CmdExec (parts ! 1) (map ArgStr (drop 2 parts))))
           else Inl (UnsupportedCommand verb))"

subsection \<open>Commands written as tokens separated by single spaces\<close>

text \<open>What \<open>parseCommand\<close> sees of a command line printed from tokens.\<close>

lemma parts_of_tokens:
  assumes "ts \<noteq> []" and "\<forall>t \<in> set ts. token t"
  shows "split_ws (trim (join [32] ts)) = ts"
  using assms by (simp add: trim_join split_ws_join)

lemma matchSub_tokens:
  assumes "token ch" and "\<forall>t \<in> set fs. token t"
  shows "matchSub (join [32] (js ''SUB'' # ch # fs))
         = Some (ch, if fs = [] then None else Some (join [32] fs))"
proof -
  have ch: "\<forall>c \<in> set ch. \<not> is_ws c" "ch \<noteq> []"
    using assms(1) by (auto simp: token_def)
  have SUB: "list_all2 regex_i_eq (js ''SUB'') (js ''SUB'')"
    by (simp add: regex_i_eq_def js_simps)
  show ?thesis
  proof (cases fs)
    case Nil
    have "takeWhile (\<lambda>c. \<not> is_ws c) ch = ch" "dropWhile (\<lambda>c. \<not> is_ws c) ch = []"
      using ch by (auto simp: takeWhile_eq_all_conv dropWhile_eq_Nil_conv)
    then show ?thesis
      using Nil SUB ch dropWhile_ws_token [OF assms(1), of "[]"]
      by (simp add: matchSub_def Let_def del: takeWhile_eq_all_conv)
  next
    case (Cons f fs')
    let ?j = "join [32] fs"
    have st: "dropWhile is_ws ?j = ?j"
      using assms(2) Cons by (intro join_token_start) auto
    have ne: "?j \<noteq> []"
      using assms(2) Cons join_eq_Nil [of "[32]" fs] by (auto simp: token_def)
    have lt: "\<not> (\<exists>c \<in> set ?j. is_line_terminator c)"
      using assms(2) by (rule join_tokens_no_line_terminator)
    show ?thesis
      using Cons SUB ch st ne lt takeWhile_token [OF ch(1), of ?j]
        dropWhile_ws_token [OF assms(1), of "32 # ?j"]
      by (simp add: matchSub_def Let_def)
  qed
qed

lemma token_js_words [simp]:
  "token (js ''GET'')" "token (js ''DEL'')" "token (js ''SUB'')" "token (js ''UNSUB'')"
  "token (js ''STATUS'')" "token (js ''CLUSTER'')" "token (js ''PEERS'')" "token (js ''SET'')"
  "token (js ''WORM'')" "token (js ''PUB'')" "token (js ''EXEC'')"
  by (simp_all add: token_def is_ws_def js_simps)

lemma upper_js_words [simp]:
  "toUpperCase (js ''GET'') = js ''GET''" "toUpperCase (js ''DEL'') = js ''DEL''"
  "toUpperCase (js ''SUB'') = js ''SUB''" "toUpperCase (js ''UNSUB'') = js ''UNSUB''"
  "toUpperCase (js ''STATUS'') = js ''STATUS''" "toUpperCase (js ''CLUSTER'') = js ''CLUSTER''"
  "toUpperCase (js ''PEERS'') = js ''PEERS''" "toUpperCase (js ''SET'') = js ''SET''"
  "toUpperCase (js ''WORM'') = js ''WORM''" "toUpperCase (js ''PUB'') = js ''PUB''"
  "toUpperCase (js ''EXEC'') = js ''EXEC''"
  by (simp_all add: toUpperCase_def upper_unit_def js_simps)

text \<open>
  The words of a command of the text protocol. A message or a filter may have several words,
  separated by single spaces.
\<close>

definition plain_text :: "jstring \<Rightarrow> bool" where
  "plain_text s \<longleftrightarrow> (\<forall>t \<in> set (split_ws s). token t) \<and> join [32] (split_ws s) = s"

fun arg_string :: "exec_arg \<Rightarrow> jstring" where
  "arg_string (ArgStr s) = s"
| "arg_string (ArgBytes b) = []"

fun words_of :: "ParsedCommand \<Rightarrow> jstring list" where
  "words_of (CmdGet k) = [js ''GET'', k]"
| "words_of (CmdDel k) = [js ''DEL'', k]"
| "words_of (CmdSub c f) = js ''SUB'' # c # (case f of None \<Rightarrow> [] | Some t \<Rightarrow> split_ws t)"
| "words_of (CmdUnsub c) = [js ''UNSUB'', c]"
| "words_of CmdStatus = [js ''STATUS'']"
| "words_of CmdClusterStatus = [js ''CLUSTER'', js ''STATUS'']"
| "words_of CmdClusterPeers = [js ''CLUSTER'', js ''PEERS'']"
| "words_of (CmdSet k v w) = js ''SET'' # k # v # (if w then [js ''WORM''] else [])"
| "words_of (CmdPub c m) = js ''PUB'' # c # split_ws m"
| "words_of (CmdExec p as) = js ''EXEC'' # p # map arg_string as"
| "words_of (CmdVinsert _ _ _ _ _ _ _) = []"
| "words_of (CmdVbulkinsert _ _ _ _ _) = []"

text \<open>
  The commands the text protocol can carry: fields are single words, and a mutable \<open>SET\<close> has
  neither a key nor a value that reads \<open>WORM\<close> in some case.
\<close>

fun printable :: "ParsedCommand \<Rightarrow> bool" where
  "printable (CmdGet k) = token k"
| "printable (CmdDel k) = token k"
| "printable (CmdSub c f) = (token c \<and> (case f of None \<Rightarrow> True | Some t \<Rightarrow> plain_text t))"
| "printable (CmdUnsub c) = token c"
| "printable CmdStatus = True"
| "printable CmdClusterStatus = True"
| "printable CmdClusterPeers = True"
| "printable (CmdSet k v w) =
     (token k \<and> token v \<and> (w \<or> toUpperCase k \<noteq> js ''WORM'' \<and> toUpperCase v \<noteq> js ''WORM''))"
| "printable (CmdPub c m) = (token c \<and> plain_text m)"
| "printable (CmdExec p as) = (token p \<and> (\<forall>a \<in> set as. \<exists>s. a = ArgStr s \<and> token s))"
| "printable (CmdVinsert _ _ _ _ _ _ _) = False"
| "printable (CmdVbulkinsert _ _ _ _ _) = False"

lemma split_ws_not_Nil [simp]: "split_ws s \<noteq> []"
  by (subst split_ws.simps) (simp add: Let_def)

lemma words_of_tokens: "printable c \<Longrightarrow> words_of c \<noteq> [] \<and> (\<forall>t \<in> set (words_of c). token t)"
  by (cases c) (auto simp: plain_text_def split: option.splits)

lemma map_ArgStr_arg_string:
  "\<forall>a \<in> set as. \<exists>s. a = ArgStr s \<and> token s \<Longrightarrow> map ArgStr (map arg_string as) = as"
  by (induction as) auto

lemma parseCommand_words:
  assumes "printable c"
  shows "parseCommand (join [32] (words_of c)) = Inr c"
proof -
  define x where "x = join [32] (words_of c)"
  have t: "trim x = x"
    using assms words_of_tokens trim_join unfolding x_def by blast
  have p: "split_ws x = words_of c"
    using assms words_of_tokens split_ws_join unfolding x_def by blast
  have "parseCommand x = Inr c"
  proof (cases c)
    case (CmdSub ch f)
    have "matchSub x = Some (ch, f)"
      using assms CmdSub matchSub_tokens [of ch "case f of None \<Rightarrow> [] | Some t \<Rightarrow> split_ws t"]
      unfolding x_def by (auto simp: plain_text_def split: option.splits)
    then show ?thesis
      using CmdSub p by (simp add: parseCommand_def t Let_def)
  next
    case (CmdExec pr as)
    then show ?thesis
      using assms map_ArgStr_arg_string [of as] p by (simp add: parseCommand_def t Let_def)
  next
    case (CmdPub ch m)
    have "1 \<le> length (split_ws m)"
      by (metis One_nat_def Suc_leI length_greater_0_conv split_ws_not_Nil)
    with CmdPub assms p show ?thesis
      by (simp add: parseCommand_def t Let_def plain_text_def)
  qed (use assms p in \<open>auto simp: parseCommand_def t Let_def\<close>)
  then show ?thesis by (simp only: x_def)
qed

text \<open>
Printing a command as its words separated by single spaces and parsing it gives the
command back, for every command whose fields are single words.
\<close>

theorem parse_print_round_trip:
  assumes "printable c"
  shows "parseCommand (join [32] (words_of c)) = Inr c"
  using assms by (rule parseCommand_words)

theorem parse_print_round_trip_witness:
  "parseCommand (js ''SET k v WORM'') = Inr (CmdSet (js ''k'') (js ''v'') True)"
  using parse_print_round_trip [of "CmdSet (js ''k'') (js ''v'') True"]
  by (simp add: token_def is_ws_def js_simps)

text \<open>
A mutable \<open>SET\<close> whose key or value happens to read \<open>worm\<close> in some case is parsed as a
write-once \<open>SET\<close>: the search for the flag looks at every word of the command.
\<close>

theorem set_of_worm_is_write_once:
  assumes "token k" and "token v" and "toUpperCase k = js ''WORM'' \<or> toUpperCase v = js ''WORM''"
  shows "parseCommand (join [32] [js ''SET'', k, v]) = Inr (CmdSet k v True)"
proof -
  have p: "split_ws (trim (join [32] [js ''SET'', k, v])) = [js ''SET'', k, v]"
    using assms by (intro parts_of_tokens) simp_all
  show ?thesis
    unfolding parseCommand_def p using assms(3) by (auto simp: Let_def)
qed

theorem set_of_worm_is_write_once_witness:
  "parseCommand (join [32] [js ''SET'', js ''pet'', js ''worm'']) = Inr (CmdSet (js ''pet'') (js ''worm'') True)"
  by (rule set_of_worm_is_write_once)
    (simp_all add: token_def is_ws_def toUpperCase_def upper_unit_def js_simps)

end
