(* ===== verification/Wire.thy ===== *)
theory Wire
  imports Buffers Command
begin

unbundle bit_operations_syntax

section \<open>The WormWire codec (\<open>apps/bun/src/lib/wire.ts\<close>)\<close>

text \<open>
  The encoders build every payload the way the source does: the size is computed first, a zeroed
  buffer of that size is allocated, and the fields are written at a running offset. A write out
  of the buffer would be a \<open>RangeError\<close>; \<open>writeFrame\<close> throws \<open>PayloadTooLargeError\<close> above the
  16 MiB limit. The decoders read frames and responses from a byte buffer. Memory exhaustion of
  the runtime is not modelled.
\<close>

datatype WormResponse =
    ROk
  | RError jstring
  | RNull
  | RBulk jstring
  | REvent jstring jstring

datatype wire_error = RangeError | PayloadTooLargeError nat

definition WIRE_MAGIC :: bytes where
  "WIRE_MAGIC = [0x57, 0x57]"

definition MAX_PAYLOAD :: nat where
  "MAX_PAYLOAD = 16 * 1024 * 1024"

subsection \<open>Command and response codes\<close>

datatype CommandCode =
    Get | Set | Del | Status | ClusterStatus | Sub | Unsub | Pub | Exec | ClusterPeers
  | Save | Auth | Vinsert | Vdelete | Vbulkinsert

fun command_code :: "CommandCode \<Rightarrow> nat" where
  "command_code Get = 0x01"
| "command_code Set = 0x02"
| "command_code Del = 0x03"
| "command_code Status = 0x04"
| "command_code ClusterStatus = 0x05"
| "command_code Sub = 0x06"
| "command_code Unsub = 0x07"
| "command_code Pub = 0x08"
| "command_code Exec = 0x09"
| "command_code ClusterPeers = 0x0A"
| "command_code Save = 0x0B"
| "command_code Auth = 0x0C"
| "command_code Vinsert = 0x0D"
| "command_code Vdelete = 0x0E"
| "command_code Vbulkinsert = 0x0F"

datatype ResponseCode = RcOk | RcValue | RcNull | RcErr | RcEvent

fun response_code :: "ResponseCode \<Rightarrow> nat" where
  "response_code RcOk = 0x00"
| "response_code RcValue = 0x01"
| "response_code RcNull = 0x02"
| "response_code RcErr = 0x03"
| "response_code RcEvent = 0x04"

subsection \<open>Primitive writers\<close>

definition writeUint32BE :: "bytes \<Rightarrow> nat \<Rightarrow> nat \<Rightarrow> bytes option" where
  "writeUint32BE target offset value = u8_set target (be32 value) offset"

definition writeUint64BE :: "bytes \<Rightarrow> nat \<Rightarrow> int \<Rightarrow> bytes option" where
  "writeUint64BE target offset value = u8_set target (be64 value) offset"

text \<open>Every call of \<open>readUint32BE\<close> follows a length check, so it never reads out of range.\<close>

definition readUint32BE :: "bytes \<Rightarrow> nat \<Rightarrow> nat" where
  "readUint32BE source offset = rd32 (drop offset source)"

definition writeFrame :: "CommandCode \<Rightarrow> bytes \<Rightarrow> wire_error + bytes" where
  "writeFrame code payload =
     (if length payload > MAX_PAYLOAD then Inl (PayloadTooLargeError (length payload))
      else of_opt RangeError (do {
        let out = alloc (5 + length payload);
        let out = u8_put out 0 (command_code code);
        out \<leftarrow> writeUint32BE out 1 (length payload);
        u8_set out payload 5
      }))"

definition encodeLenPrefixedUtf8 :: "jstring \<Rightarrow> bytes option" where
  "encodeLenPrefixedUtf8 value = do {
     let data = encodeUtf8 value;
     let out = alloc (4 + length data);
     out \<leftarrow> writeUint32BE out 0 (length data);
     u8_set out data 4
   }"

text \<open>A payload that could not be built is a \<open>RangeError\<close>; otherwise it is framed.\<close>

definition frame_payload :: "CommandCode \<Rightarrow> bytes option \<Rightarrow> wire_error + bytes" where
  "frame_payload code payload = and_then (of_opt RangeError payload) (writeFrame code)"

subsection \<open>encodeCommandFrame\<close>

fun metric_text :: "Metric \<Rightarrow> jstring" where
  "metric_text Cosine = js ''cosine''"
| "metric_text Dot = js ''dot''"
| "metric_text L2 = js ''l2''"

fun encode_arg :: "exec_arg \<Rightarrow> bytes" where
  "encode_arg (ArgStr a) = encodeUtf8 a"
| "encode_arg (ArgBytes a) = a"

text \<open>One length-prefixed field at a running offset: the pair of writes the source repeats.\<close>

definition put_field :: "bytes \<Rightarrow> nat \<Rightarrow> bytes \<Rightarrow> (bytes \<times> nat) option" where
  "put_field payload off data = do {
     payload \<leftarrow> writeUint32BE payload off (length data);
     let off = off + 4;
     payload \<leftarrow> u8_set payload data off;
     let off = off + length data;
     Some (payload, off)
   }"

fun put_args :: "bytes \<Rightarrow> nat \<Rightarrow> bytes list \<Rightarrow> (bytes \<times> nat) option" where
  "put_args payload off [] = Some (payload, off)"
| "put_args payload off (a # as) = do {
     (payload, off) \<leftarrow> put_field payload off a;
     put_args payload off as
   }"

fun put_items :: "bytes \<Rightarrow> nat \<Rightarrow> (bytes \<times> bulk_item) list \<Rightarrow> (bytes \<times> nat) option" where
  "put_items payload off [] = Some (payload, off)"
| "put_items payload off ((key, it) # its) = do {
     (payload, off) \<leftarrow> put_field payload off key;
     (payload, off) \<leftarrow> put_field payload off (bi_vector it);
     payload \<leftarrow> writeUint64BE payload off (bi_timestamp it);
     put_items payload (off + 8) its
   }"

definition insert_flags :: "bool \<Rightarrow> bool \<Rightarrow> nat" where
  "insert_flags worm async =
     (let flags = 0;
          flags = (if worm then flags OR 0x01 else flags);
          flags = (if async then flags OR 0x02 else flags)
      in flags)"

fun encodeCommandFrame :: "ParsedCommand \<Rightarrow> wire_error + bytes" where
  "encodeCommandFrame (CmdGet key) = frame_payload Get (encodeLenPrefixedUtf8 key)"
| "encodeCommandFrame (CmdDel key) = frame_payload Del (encodeLenPrefixedUtf8 key)"
| "encodeCommandFrame (CmdSub chan flt) = frame_payload Sub (do {
     let channel = encodeUtf8 chan;
     let filter = (case flt of Some f \<Rightarrow> (if f = [] then None else Some (encodeUtf8 f)) | None \<Rightarrow> None);
     let payload = alloc (4 + length channel + (case filter of Some f \<Rightarrow> 4 + length f | None \<Rightarrow> 0));
     payload \<leftarrow> writeUint32BE payload 0 (length channel);
     payload \<leftarrow> u8_set payload channel 4;
     (case filter of
        None \<Rightarrow> Some payload
      | Some f \<Rightarrow> do {
          let filterLenPos = 4 + length channel;
          payload \<leftarrow> writeUint32BE payload filterLenPos (length f);
          u8_set payload f (filterLenPos + 4)
        })
   })"
| "encodeCommandFrame (CmdUnsub chan) = frame_payload Unsub (encodeLenPrefixedUtf8 chan)"
| "encodeCommandFrame CmdStatus = writeFrame Status (alloc 0)"
| "encodeCommandFrame CmdClusterStatus = writeFrame ClusterStatus (alloc 0)"
| "encodeCommandFrame CmdClusterPeers = writeFrame ClusterPeers (alloc 0)"
| "encodeCommandFrame (CmdSet k v worm) = frame_payload Set (do {
     let key = encodeUtf8 k;
     let val = encodeUtf8 v;
     let payload = alloc (1 + 4 + length key + 4 + length val);
     let payload = u8_put payload 0 (if worm then 1 else 0);
     payload \<leftarrow> writeUint32BE payload 1 (length key);
     payload \<leftarrow> u8_set payload key 5;
     let valueLenPos = 5 + length key;
     payload \<leftarrow> writeUint32BE payload valueLenPos (length val);
     u8_set payload val (valueLenPos + 4)
   })"
| "encodeCommandFrame (CmdPub chan msg) = frame_payload Pub (do {
     let channel = encodeUtf8 chan;
     let message = encodeUtf8 msg;
     let payload = alloc (4 + length channel + 4 + length message);
     payload \<leftarrow> writeUint32BE payload 0 (length channel);
     payload \<leftarrow> u8_set payload channel 4;
     let msgLenPos = 4 + length channel;
     payload \<leftarrow> writeUint32BE payload msgLenPos (length message);
     u8_set payload message (msgLenPos + 4)
   })"
| "encodeCommandFrame (CmdExec procedure args) = frame_payload Exec (do {
     let pro = encodeUtf8 procedure;
     let encodedArgs = map encode_arg args;
     let size = foldl (\<lambda>size a. size + (4 + length a)) (4 + length pro + 4) encodedArgs;
     let payload = alloc size;
     (payload, off) \<leftarrow> put_field payload 0 pro;
     payload \<leftarrow> writeUint32BE payload off (length encodedArgs);
     (payload, off) \<leftarrow> put_args payload (off + 4) encodedArgs;
     Some payload
   })"
| "encodeCommandFrame (CmdVinsert k vec worm nspace metr timestamp async) = frame_payload Vinsert (do {
     let key = encodeUtf8 k;
     let ns = encodeUtf8 nspace;
     let metric = encodeUtf8 (metric_text metr);
     let size = 4 + length key + 4 + length vec + 1 + 4 + length ns + 4 + length metric + 8;
     let payload = alloc size;
     (payload, off) \<leftarrow> put_field payload 0 key;
     (payload, off) \<leftarrow> put_field payload off vec;
     let payload = u8_put payload off (insert_flags worm async);
     (payload, off) \<leftarrow> put_field payload (off + 1) ns;
     (payload, off) \<leftarrow> put_field payload off metric;
     writeUint64BE payload off timestamp
   })"
| "encodeCommandFrame (CmdVbulkinsert nspace metr worm async items) = frame_payload Vbulkinsert (do {
     let ns = encodeUtf8 nspace;
     let metric = encodeUtf8 (metric_text metr);
     let encodedKeys = map (\<lambda>it. encodeUtf8 (bi_key it)) items;
     let size = foldl (\<lambda>size (k, it). size + (4 + length k + 4 + length (bi_vector it) + 8))
                  (4 + length ns + 4 + length metric + 1 + 4) (zip encodedKeys items);
     let payload = alloc size;
     (payload, off) \<leftarrow> put_field payload 0 ns;
     (payload, off) \<leftarrow> put_field payload off metric;
     let payload = u8_put payload off (insert_flags worm async);
     payload \<leftarrow> writeUint32BE payload (off + 1) (length items);
     (payload, off) \<leftarrow> put_items payload (off + 5) (zip encodedKeys items);
     Some payload
   })"

definition encodeAuth :: "bytes \<Rightarrow> wire_error + bytes" where
  "encodeAuth tok = frame_payload Auth (do {
     let payload = alloc (4 + length tok);
     payload \<leftarrow> writeUint32BE payload 0 (length tok);
     u8_set payload tok 4
   })"

definition encodeVdelete :: "jstring \<Rightarrow> jstring \<Rightarrow> wire_error + bytes" where
  "encodeVdelete key namespace = frame_payload Vdelete (do {
     let keyBytes = encodeUtf8 key;
     let nsBytes = encodeUtf8 namespace;
     let payload = alloc (4 + length keyBytes + 4 + length nsBytes);
     payload \<leftarrow> writeUint32BE payload 0 (length keyBytes);
     payload \<leftarrow> u8_set payload keyBytes 4;
     let nsLenPos = 4 + length keyBytes;
     payload \<leftarrow> writeUint32BE payload nsLenPos (length nsBytes);
     u8_set payload nsBytes (nsLenPos + 4)
   })"

definition encodeSave :: "wire_error + bytes" where
  "encodeSave = writeFrame Save (alloc 0)"

subsection \<open>Decoding\<close>

record ParsedFrame =
  pf_code :: nat
  pf_payload :: bytes
  pf_remaining :: bytes

definition tryConsumeFrame :: "bytes \<Rightarrow> ParsedFrame option" where
  "tryConsumeFrame buffer =
     (if length buffer < 5 then None
      else
        let code = unat (buffer ! 0);
            payloadLen = readUint32BE buffer 1;
            totalLen = 5 + payloadLen
        in if length buffer < totalLen then None
           else Some \<lparr>pf_code = code, pf_payload = subarray buffer 5 totalLen,
                      pf_remaining = drop totalLen buffer\<rparr>)"

definition isEventCode :: "nat \<Rightarrow> bool" where
  "isEventCode code \<longleftrightarrow> code = response_code RcEvent"

definition malformed_event :: WormResponse where
  "malformed_event = RError (js ''Malformed event response'')"

definition decodeResponse :: "nat \<Rightarrow> bytes \<Rightarrow> WormResponse" where
  "decodeResponse code payload =
     (if code = response_code RcOk then ROk
      else if code = response_code RcValue then RBulk (decodeUtf8 payload)
      else if code = response_code RcNull then RNull
      else if code = response_code RcErr then RError (decodeUtf8 payload)
      else if code = response_code RcEvent then
        (if length payload < 8 then malformed_event
         else
           let channelLen = readUint32BE payload 0
           in if length payload < 4 + channelLen + 4 then malformed_event
              else
                let channelStart = 4;
                    channelEnd = channelStart + channelLen;
                    msgLen = readUint32BE payload channelEnd;
                    msgStart = channelEnd + 4;
                    msgEnd = msgStart + msgLen
                in if msgEnd > length payload then malformed_event
                   else REvent (decodeUtf8 (subarray payload channelStart channelEnd))
                          (decodeUtf8 (subarray payload msgStart msgEnd)))
      else RError (js ''Unknown response code: '' @ String_int (int code)))"

fun concat_loop :: "bytes \<Rightarrow> nat \<Rightarrow> bytes list \<Rightarrow> bytes option" where
  "concat_loop out offset [] = Some out"
| "concat_loop out offset (chunk # chunks) = do {
     out \<leftarrow> u8_set out chunk offset;
     concat_loop out (offset + length chunk) chunks
   }"

definition concatBytes :: "bytes list \<Rightarrow> bytes option" where
  "concatBytes chunks =
     (let totalLen = foldl (\<lambda>n chunk. n + length chunk) 0 chunks
      in concat_loop (alloc totalLen) 0 chunks)"

text \<open>The data a socket callback delivers: text, a whole buffer, or a view of one.\<close>

datatype SocketData = DText jstring | DBuffer bytes | DView bytes nat nat

fun toBytes :: "SocketData \<Rightarrow> bytes" where
  "toBytes (DText s) = encodeUtf8 s"
| "toBytes (DBuffer b) = b"
| "toBytes (DView b byteOffset byteLength) = subarray b byteOffset (byteOffset + byteLength)"

subsection \<open>The layout of a frame\<close>

text \<open>
  The reference: a field is its length in four big-endian bytes and its content; a frame is the
  code, the length of the payload and the payload.
\<close>

definition field :: "bytes \<Rightarrow> bytes" where
  "field data = be32 (length data) @ data"

definition frame_bytes :: "nat \<Rightarrow> bytes \<Rightarrow> bytes" where
  "frame_bytes code payload = of_nat code # be32 (length payload) @ payload"

fun code_of :: "ParsedCommand \<Rightarrow> CommandCode" where
  "code_of (CmdGet _) = Get"
| "code_of (CmdDel _) = Del"
| "code_of (CmdSub _ _) = Sub"
| "code_of (CmdUnsub _) = Unsub"
| "code_of CmdStatus = Status"
| "code_of CmdClusterStatus = ClusterStatus"
| "code_of CmdClusterPeers = ClusterPeers"
| "code_of (CmdSet _ _ _) = Set"
| "code_of (CmdPub _ _) = Pub"
| "code_of (CmdExec _ _) = Exec"
| "code_of (CmdVinsert _ _ _ _ _ _ _) = Vinsert"
| "code_of (CmdVbulkinsert _ _ _ _ _) = Vbulkinsert"

definition item_bytes :: "bulk_item \<Rightarrow> bytes" where
  "item_bytes it = field (encodeUtf8 (bi_key it)) @ field (bi_vector it) @ be64 (bi_timestamp it)"

fun payload_of :: "ParsedCommand \<Rightarrow> bytes" where
  "payload_of (CmdGet k) = field (encodeUtf8 k)"
| "payload_of (CmdDel k) = field (encodeUtf8 k)"
| "payload_of (CmdSub c f) = field (encodeUtf8 c) @
     (case f of Some t \<Rightarrow> if t = [] then [] else field (encodeUtf8 t) | None \<Rightarrow> [])"
| "payload_of (CmdUnsub c) = field (encodeUtf8 c)"
| "payload_of CmdStatus = []"
| "payload_of CmdClusterStatus = []"
| "payload_of CmdClusterPeers = []"
| "payload_of (CmdSet k v w) = of_bool w # field (encodeUtf8 k) @ field (encodeUtf8 v)"
| "payload_of (CmdPub c m) = field (encodeUtf8 c) @ field (encodeUtf8 m)"
| "payload_of (CmdExec p as) =
     field (encodeUtf8 p) @ be32 (length as) @ concat (map (\<lambda>a. field (encode_arg a)) as)"
| "payload_of (CmdVinsert k vec w ns m ts a) =
     field (encodeUtf8 k) @ field vec @ of_nat (insert_flags w a) # field (encodeUtf8 ns)
     @ field (encodeUtf8 (metric_text m)) @ be64 ts"
| "payload_of (CmdVbulkinsert ns m w a its) =
     field (encodeUtf8 ns) @ field (encodeUtf8 (metric_text m)) @ of_nat (insert_flags w a)
     # be32 (length its) @ concat (map item_bytes its)"

definition framed :: "nat \<Rightarrow> bytes \<Rightarrow> wire_error + bytes" where
  "framed code payload =
     (if length payload > MAX_PAYLOAD then Inl (PayloadTooLargeError (length payload))
      else Inr (frame_bytes code payload))"

lemma length_field [simp]: "length (field data) = 4 + length data"
  by (simp add: field_def)

lemma writeFrame_framed: "writeFrame code payload = framed (command_code code) payload"
  by (auto simp: writeFrame_def framed_def frame_bytes_def writeUint32BE_def buf_simps)

lemma frame_payload_Some [simp]: "frame_payload code (Some q) = framed (command_code code) q"
  by (simp add: frame_payload_def writeFrame_framed)

lemma put_field_buf:
  assumes "off = length d" and "4 + length data \<le> n"
  shows "put_field (buf d n) off data
       = Some (buf (d @ field data) (n - (4 + length data)), off + (4 + length data))"
  using assms by (simp add: put_field_def writeUint32BE_def field_def buf_simps)

lemma put_args_buf:
  assumes "off = length d" and "sum_list (map (\<lambda>a. 4 + length a) as) \<le> n"
  shows "put_args (buf d n) off as
       = Some (buf (d @ concat (map field as)) (n - sum_list (map (\<lambda>a. 4 + length a) as)),
               off + sum_list (map (\<lambda>a. 4 + length a) as))"
  using assms
proof (induction as arbitrary: d n off)
  case (Cons a as)
  then show ?case
    by (simp add: put_field_buf Cons.IH)
qed simp

definition item_size :: "bulk_item \<Rightarrow> nat" where
  "item_size it = 4 + length (encodeUtf8 (bi_key it)) + 4 + length (bi_vector it) + 8"

lemma length_item_bytes [simp]: "length (item_bytes it) = item_size it"
  by (simp add: item_bytes_def item_size_def)

lemma put_items_buf:
  assumes "off = length d" and "sum_list (map item_size its) \<le> n"
  shows "put_items (buf d n) off (zip (map (\<lambda>it. encodeUtf8 (bi_key it)) its) its)
       = Some (buf (d @ concat (map item_bytes its)) (n - sum_list (map item_size its)),
               off + sum_list (map item_size its))"
  using assms
proof (induction its arbitrary: d n off)
  case (Cons it its)
  then have "item_size it \<le> n" by simp
  with Cons show ?case
    by (simp add: put_field_buf writeUint64BE_def buf_simps Cons.IH item_bytes_def item_size_def)
qed simp

lemma foldl_add_sum: "foldl (\<lambda>n x. n + f x) (k :: nat) xs = k + sum_list (map f xs)"
  by (induction xs arbitrary: k) simp_all

lemma foldl_item_size:
  "foldl (\<lambda>size (k, it). size + (4 + length k + 4 + length (bi_vector it) + 8)) n
     (zip (map (\<lambda>it. encodeUtf8 (bi_key it)) its) its) = n + sum_list (map item_size its)"
  by (induction its arbitrary: n) (simp_all add: item_size_def)

lemmas encoder_simps = Let_def writeUint32BE_def writeUint64BE_def buf_simps put_field_buf

lemma encodeLenPrefixedUtf8_field: "encodeLenPrefixedUtf8 s = Some (field (encodeUtf8 s))"
  by (simp add: encodeLenPrefixedUtf8_def encoder_simps field_def)

lemma encodeCommandFrame_framed:
  "encodeCommandFrame c = framed (command_code (code_of c)) (payload_of c)"
proof (cases c)
  case (CmdSub ch f)
  then show ?thesis
    by (cases f) (auto simp: field_def encoder_simps)
next
  case (CmdExec p as)
  then show ?thesis
    by (simp add: encoder_simps put_args_buf foldl_add_sum o_def)
next
  case (CmdVbulkinsert ns m w a its)
  then show ?thesis
    by (simp add: encoder_simps put_items_buf foldl_item_size [simplified])
qed (simp_all add: writeFrame_framed encodeLenPrefixedUtf8_field field_def encoder_simps)

declare encodeCommandFrame.simps [simp del]

lemma encodeAuth_framed: "encodeAuth tok = framed 0x0C (field tok)"
  by (simp add: encodeAuth_def encoder_simps field_def)

lemma encodeVdelete_framed:
  "encodeVdelete k ns = framed 0x0E (field (encodeUtf8 k) @ field (encodeUtf8 ns))"
  by (simp add: encodeVdelete_def encoder_simps field_def)

lemma encodeSave_framed: "encodeSave = framed 0x0B []"
  by (simp add: encodeSave_def writeFrame_framed alloc_def)

end
