(* ===== verification/Framing.thy ===== *)
theory Framing
  imports Wire
begin

section \<open>Reading a byte stream frame by frame\<close>

text \<open>
  Every client keeps the bytes received so far and, on each chunk, runs the loop
  \<open>while (true) { const frame = tryConsumeFrame(inbound); if (frame == null) return;
  inbound = frame.remaining; ... }\<close>. \<open>frame_loop\<close> is that loop, with the body as a parameter.
  The lemmas show that it always ends, that it reads back a concatenation of frames in order, and
  that it does not depend on how the stream was cut into chunks.
\<close>

lemma tryConsumeFrame_shorter:
  "tryConsumeFrame b = Some f \<Longrightarrow> length (pf_remaining f) < length b"
  by (auto simp: tryConsumeFrame_def Let_def split: if_splits)

function frame_loop :: "('s \<Rightarrow> nat \<Rightarrow> bytes \<Rightarrow> 's) \<Rightarrow> bytes \<Rightarrow> 's \<Rightarrow> 's \<times> bytes" where
  "frame_loop body inbound st =
     (case tryConsumeFrame inbound of
        None \<Rightarrow> (st, inbound)
      | Some frame \<Rightarrow> frame_loop body (pf_remaining frame) (body st (pf_code frame) (pf_payload frame)))"
  by pat_completeness auto
termination
  by (relation "measure (\<lambda>(body, inbound, st). length inbound)") (auto simp: tryConsumeFrame_shorter)

declare frame_loop.simps [simp del]

lemma frame_loop_None:
  "tryConsumeFrame inbound = None \<Longrightarrow> frame_loop body inbound st = (st, inbound)"
  by (simp add: frame_loop.simps)

lemma frame_loop_Some:
  "tryConsumeFrame inbound = Some f \<Longrightarrow>
     frame_loop body inbound st = frame_loop body (pf_remaining f) (body st (pf_code f) (pf_payload f))"
  by (subst frame_loop.simps) simp

lemma frame_loop_Nil [simp]: "frame_loop body [] st = (st, [])"
  by (rule frame_loop_None) (simp add: tryConsumeFrame_def)

lemma rd32_append: "4 \<le> length b \<Longrightarrow> rd32 (b @ c) = rd32 b"
  by (simp add: rd32_def)

lemma tryConsumeFrame_append:
  assumes "tryConsumeFrame a = Some f"
  shows "tryConsumeFrame (a @ b) = Some (f\<lparr>pf_remaining := pf_remaining f @ b\<rparr>)"
  using assms
  by (auto simp: tryConsumeFrame_def Let_def readUint32BE_def rd32_append nth_append subarray_def
      split: if_splits)

lemma drop_header: "drop (5 + length p) (c # be32 n @ p @ r) = r"
  by (simp add: drop_Cons')

lemma tryConsumeFrame_frame_bytes:
  assumes "code < 256" and "length p < 4294967296"
  shows "tryConsumeFrame (frame_bytes code p @ r)
       = Some \<lparr>pf_code = code, pf_payload = p, pf_remaining = r\<rparr>"
  using assms
  by (simp add: tryConsumeFrame_def frame_bytes_def readUint32BE_def subarray_def Let_def
      drop_header)

text \<open>What is left over after the loop holds no complete frame.\<close>

lemma frame_loop_rest: "frame_loop body a st = (st', r) \<Longrightarrow> tryConsumeFrame r = None"
proof (induction body a st rule: frame_loop.induct)
  case (1 body a st)
  show ?case
  proof (cases "tryConsumeFrame a")
    case None
    with 1 show ?thesis by (simp add: frame_loop_None)
  next
    case (Some f)
    with 1 show ?thesis by (simp add: frame_loop_Some)
  qed
qed

text \<open>Cutting the stream in two makes no difference.\<close>

lemma frame_loop_append:
  "frame_loop body (a @ b) st =
     (let (st', r) = frame_loop body a st in frame_loop body (r @ b) st')"
proof (induction body a st rule: frame_loop.induct)
  case (1 body a st)
  show ?case
  proof (cases "tryConsumeFrame a")
    case None
    then show ?thesis by (simp add: frame_loop_None)
  next
    case (Some f)
    then show ?thesis
      using 1 [OF Some]
      by (simp add: frame_loop_Some [OF Some] frame_loop_Some [OF tryConsumeFrame_append [OF Some]])
  qed
qed

text \<open>A concatenation of frames is read back one frame at a time, in order.\<close>

definition stream_of :: "(nat \<times> bytes) list \<Rightarrow> bytes" where
  "stream_of fs = concat (map (\<lambda>(c, p). frame_bytes c p) fs)"

definition wire_frame :: "nat \<times> bytes \<Rightarrow> bool" where
  "wire_frame f \<longleftrightarrow> fst f < 256 \<and> length (snd f) < 4294967296"

lemma frame_loop_stream:
  assumes "\<forall>f \<in> set fs. wire_frame f"
  shows "frame_loop body (stream_of fs @ r) st =
           frame_loop body r (foldl (\<lambda>s (c, p). body s c p) st fs)"
  using assms
proof (induction fs arbitrary: st)
  case (Cons f fs)
  obtain c p where f: "f = (c, p)" by (cases f)
  with Cons show ?case
    by (simp add: stream_of_def wire_frame_def frame_loop_Some [OF tryConsumeFrame_frame_bytes])
qed (simp add: stream_of_def)

text \<open>A state change that the body of the loop does not see commutes with the loop.\<close>

lemma frame_loop_commute:
  assumes "\<And>s c p. body (g s) c p = g (body s c p)"
  shows "frame_loop body b (g st) = (let (st', r) = frame_loop body b st in (g st', r))"
  using assms
proof (induction body b st rule: frame_loop.induct)
  case (1 body b st)
  show ?case
  proof (cases "tryConsumeFrame b")
    case None
    then show ?thesis by (simp add: frame_loop_None)
  next
    case (Some f)
    then show ?thesis
      using 1(1) [OF Some 1(2)] by (simp add: frame_loop_Some 1(2))
  qed
qed

lemma frame_loop_preserves:
  assumes "P st" and "\<And>s c p. P s \<Longrightarrow> P (body s c p)"
  shows "P (fst (frame_loop body b st))"
  using assms
proof (induction body b st rule: frame_loop.induct)
  case (1 body b st)
  show ?case
  proof (cases "tryConsumeFrame b")
    case None
    with 1 show ?thesis by (simp add: frame_loop_None)
  next
    case (Some f)
    with 1 show ?thesis by (simp add: frame_loop_Some)
  qed
qed

subsection \<open>Consumers of chunks\<close>

text \<open>
  The interface of a component that is fed a byte stream in chunks: feeding two chunks one after
  the other is feeding their concatenation. Then any two ways to cut the same stream leave the
  component in the same state.
\<close>

locale chunk_consumer =
  fixes feed :: "'s \<Rightarrow> 'a list \<Rightarrow> 's"
  assumes feed_append: "feed (feed s a) b = feed s (a @ b)"
begin

lemma feed_chunks: "foldl feed (feed s a) cs = feed s (a @ concat cs)"
  by (induction cs arbitrary: a) (simp_all add: feed_append)

lemma same_stream:
  assumes "cs \<noteq> []" and "ds \<noteq> []" and "concat cs = concat ds"
  shows "foldl feed s cs = foldl feed s ds"
proof -
  obtain c cs' where c: "cs = c # cs'" using assms(1) by (cases cs) auto
  obtain d ds' where d: "ds = d # ds'" using assms(2) by (cases ds) auto
  show ?thesis
    using assms(3) by (simp add: c d feed_chunks)
qed

end

text \<open>The parsing state of a client: the component's own state and the bytes not yet consumed.\<close>

definition feed_frames :: "('s \<Rightarrow> nat \<Rightarrow> bytes \<Rightarrow> 's) \<Rightarrow> 's \<times> bytes \<Rightarrow> bytes \<Rightarrow> 's \<times> bytes" where
  "feed_frames body s chunk = frame_loop body (snd s @ chunk) (fst s)"

interpretation frames: chunk_consumer "feed_frames body" for body
  by unfold_locales (simp add: feed_frames_def frame_loop_append [of body "_ @ _"] case_prod_unfold
      Let_def flip: append_assoc)

subsection \<open>concatBytes\<close>

lemma concat_loop_buf:
  assumes "off = length d" and "sum_list (map length cs) = n"
  shows "concat_loop (buf d n) off cs = Some (d @ concat cs)"
  using assms
proof (induction cs arbitrary: d n off)
  case (Cons c cs)
  then have "length c \<le> n" by auto
  with Cons show ?case by (simp add: buf_simps Cons.IH [of _ "d @ c"])
qed (simp add: buf_def)

lemma concatBytes_concat: "concatBytes cs = Some (concat cs)"
  by (simp add: concatBytes_def Let_def foldl_add_sum alloc_buf concat_loop_buf)

end
