(* ===== verification/Server_Wire.thy ===== *)
theory Server_Wire
  imports Framing
begin

section \<open>The server's side of the wire (\<open>src/protocol/wire.zig\<close>)\<close>

text \<open>
  The Zig server's frame reader and response writer, the other end of the connection the
  TypeScript clients talk to. \<open>readFrameAlloc\<close> reads one command frame from the byte stream and
  checks it; \<open>writeResponse\<close> writes one response. Allocation failure is not modelled.
\<close>

datatype WireError = EndOfStream | Corruption | UnknownCommand | PayloadTooLarge | InvalidFlags

record vinsert_params =
  vp_key :: bytes
  vp_vector :: bytes
  vp_worm :: bool
  vp_namespace :: bytes
  vp_metric :: bytes
  vp_timestamp :: nat
  vp_async :: bool

record zbulk_item =
  zi_key :: bytes
  zi_vector :: bytes
  zi_timestamp :: nat

datatype ZCommand =
    ZGet bytes
  | ZSet bytes bytes bool
  | ZDelete bytes
  | ZStatus
  | ZClusterStatus
  | ZClusterPeers
  | ZSubscribe bytes "bytes option"
  | ZUnsubscribe bytes
  | ZPublish bytes bytes
  | ZExec bytes "bytes list"
  | ZSave
  | ZAuth bytes
  | ZVinsert vinsert_params
  | ZVdelete bytes bytes
  | ZVbulkinsert bytes bytes bool bool "zbulk_item list"
  | ZVrabitqInstall bytes nat nat bytes bytes

definition MAX_PAYLOAD_LENGTH :: nat where
  "MAX_PAYLOAD_LENGTH = 16 * 1024 * 1024"

subsection \<open>Reading\<close>

definition readBytesField :: "bytes \<Rightarrow> nat \<Rightarrow> WireError + (bytes \<times> nat)" where
  "readBytesField payload pos =
     (if pos + 4 > length payload then Inl Corruption
      else
        let field_len = rd32 (drop pos payload);
            pos = pos + 4
        in if pos + field_len > length payload then Inl Corruption
           else Inr (take field_len (drop pos payload), pos + field_len))"

fun readArgs :: "bytes \<Rightarrow> nat \<Rightarrow> nat \<Rightarrow> WireError + (bytes list \<times> nat)" where
  "readArgs payload pos 0 = Inr ([], pos)"
| "readArgs payload pos (Suc n) =
     and_then (readBytesField payload pos) (\<lambda>(a, pos).
     and_then (readArgs payload pos n) (\<lambda>(as, pos). Inr (a # as, pos)))"

fun readItems :: "bytes \<Rightarrow> nat \<Rightarrow> nat \<Rightarrow> WireError + (zbulk_item list \<times> nat)" where
  "readItems payload pos 0 = Inr ([], pos)"
| "readItems payload pos (Suc n) =
     and_then (readBytesField payload pos) (\<lambda>(key, pos).
     and_then (readBytesField payload pos) (\<lambda>(vector, pos).
     if pos + 8 > length payload then Inl Corruption
     else
       let ts = rd64 (drop pos payload) in
       and_then (readItems payload (pos + 8) n) (\<lambda>(its, pos).
         Inr (\<lparr>zi_key = key, zi_vector = vector, zi_timestamp = ts\<rparr> # its, pos))))"

text \<open>\<open>if (pos != payload.len) return error.Corruption;\<close>\<close>

definition at_end :: "bytes \<Rightarrow> nat \<Rightarrow> ZCommand \<Rightarrow> WireError + ZCommand" where
  "at_end payload pos c = (if pos \<noteq> length payload then Inl Corruption else Inr c)"

definition parseCommandPayload :: "nat \<Rightarrow> bytes \<Rightarrow> WireError + ZCommand" where
  "parseCommandPayload cmd_id payload =
     (if cmd_id = 0x01 then
        and_then (readBytesField payload 0) (\<lambda>(f, pos). at_end payload pos (ZGet f))
      else if cmd_id = 0x03 then
        and_then (readBytesField payload 0) (\<lambda>(f, pos). at_end payload pos (ZDelete f))
      else if cmd_id = 0x07 then
        and_then (readBytesField payload 0) (\<lambda>(f, pos). at_end payload pos (ZUnsubscribe f))
      else if cmd_id = 0x06 then
        and_then (readBytesField payload 0) (\<lambda>(channel, pos).
          if pos < length payload
          then and_then (readBytesField payload pos)
                 (\<lambda>(f, pos). at_end payload pos (ZSubscribe channel (Some f)))
          else at_end payload pos (ZSubscribe channel None))
      else if cmd_id = 0x02 then
        (if length payload < 1 then Inl Corruption
         else
           let flags = payload ! 0 in
           if flags AND 0xFE \<noteq> 0 then Inl InvalidFlags
           else
             and_then (readBytesField payload 1) (\<lambda>(key, pos).
             and_then (readBytesField payload pos) (\<lambda>(val, pos).
               at_end payload pos (ZSet key val (flags AND 1 \<noteq> 0)))))
      else if cmd_id = 0x08 then
        and_then (readBytesField payload 0) (\<lambda>(channel, pos).
        and_then (readBytesField payload pos) (\<lambda>(message, pos).
          at_end payload pos (ZPublish channel message)))
      else if cmd_id = 0x04 then at_end payload 0 ZStatus
      else if cmd_id = 0x05 then at_end payload 0 ZClusterStatus
      else if cmd_id = 0x0A then at_end payload 0 ZClusterPeers
      else if cmd_id = 0x0B then at_end payload 0 ZSave
      else if cmd_id = 0x09 then
        and_then (readBytesField payload 0) (\<lambda>(procedure, pos).
          if pos + 4 > length payload then Inl Corruption
          else
            let arg_count = rd32 (drop pos payload) in
            and_then (readArgs payload (pos + 4) arg_count) (\<lambda>(args, pos).
              at_end payload pos (ZExec procedure args)))
      else if cmd_id = 0x0C then
        and_then (readBytesField payload 0) (\<lambda>(tok, pos). at_end payload pos (ZAuth tok))
      else if cmd_id = 0x0D then
        and_then (readBytesField payload 0) (\<lambda>(key, pos).
        and_then (readBytesField payload pos) (\<lambda>(vector, pos).
          if pos + 1 > length payload then Inl Corruption
          else
            let flags = payload ! pos in
            if flags AND 0xFC \<noteq> 0 then Inl InvalidFlags
            else
              and_then (readBytesField payload (pos + 1)) (\<lambda>(namespace, pos).
              and_then (readBytesField payload pos) (\<lambda>(metric, pos).
                if pos + 8 > length payload then Inl Corruption
                else
                  let ts = rd64 (drop pos payload) in
                  at_end payload (pos + 8)
                    (ZVinsert \<lparr>vp_key = key, vp_vector = vector, vp_worm = (flags AND 1 \<noteq> 0),
                       vp_namespace = namespace, vp_metric = metric, vp_timestamp = ts,
                       vp_async = (flags AND 2 \<noteq> 0)\<rparr>)))))
      else if cmd_id = 0x0E then
        and_then (readBytesField payload 0) (\<lambda>(key, pos).
        and_then (readBytesField payload pos) (\<lambda>(namespace, pos).
          at_end payload pos (ZVdelete key namespace)))
      else if cmd_id = 0x0F then
        and_then (readBytesField payload 0) (\<lambda>(namespace, pos).
        and_then (readBytesField payload pos) (\<lambda>(metric, pos).
          if pos + 1 > length payload then Inl Corruption
          else
            let flags = payload ! pos in
            if flags AND 0xFC \<noteq> 0 then Inl InvalidFlags
            else if pos + 1 + 4 > length payload then Inl Corruption
            else
              let count = rd32 (drop (pos + 1) payload);
                  pos = pos + 5
              in if count > (length payload - pos) div 16 then Inl Corruption
                 else
                   and_then (readItems payload pos count) (\<lambda>(items, pos).
                     at_end payload pos
                       (ZVbulkinsert namespace metric (flags AND 1 \<noteq> 0) (flags AND 2 \<noteq> 0) items))))
      else if cmd_id = 0x10 then
        and_then (readBytesField payload 0) (\<lambda>(namespace, pos).
          if pos + 4 > length payload then Inl Corruption
          else
            let dim = rd32 (drop pos payload); pos = pos + 4 in
            if pos + 8 > length payload then Inl Corruption
            else
              let seed = rd64 (drop pos payload); pos = pos + 8 in
              and_then (readBytesField payload pos) (\<lambda>(centroid, pos).
              and_then (readBytesField payload pos) (\<lambda>(rotation, pos).
                if length centroid \<noteq> dim * 4 \<or> length rotation \<noteq> dim * dim * 4 then Inl Corruption
                else at_end payload pos (ZVrabitqInstall namespace dim seed centroid rotation))))
      else Inl UnknownCommand)"

text \<open>
  \<open>readFrameAlloc\<close> on the bytes the connection has delivered: the command and the bytes after
  the frame. An unknown command code is reported after its payload was read.
\<close>

definition readFrameAlloc :: "bytes \<Rightarrow> WireError + (ZCommand \<times> bytes)" where
  "readFrameAlloc stream =
     (if length stream < 5 then Inl EndOfStream
      else
        let cmd_id_byte = unat (stream ! 0);
            payload_len = rd32 (drop 1 stream)
        in if payload_len > MAX_PAYLOAD_LENGTH then Inl PayloadTooLarge
           else if length (drop 5 stream) < payload_len then Inl EndOfStream
           else
             and_then (parseCommandPayload cmd_id_byte (take payload_len (drop 5 stream)))
               (\<lambda>c. Inr (c, drop (5 + payload_len) stream)))"

subsection \<open>Writing responses\<close>

datatype ZResponse = ZValue "bytes option" | ZOk | ZErr bytes | ZEvent bytes bytes

definition writeHeader :: "nat \<Rightarrow> nat \<Rightarrow> bytes" where
  "writeHeader code payload_len = of_nat code # be32 payload_len"

definition writeLenPrefixed :: "bytes \<Rightarrow> bytes" where
  "writeLenPrefixed data = be32 (length data) @ data"

fun writeResponse :: "ZResponse \<Rightarrow> WireError + bytes" where
  "writeResponse ZOk = Inr (writeHeader 0x00 0)"
| "writeResponse (ZValue None) = Inr (writeHeader 0x02 0)"
| "writeResponse (ZValue (Some val)) = Inr (writeHeader 0x01 (length val) @ val)"
| "writeResponse (ZErr msg) = Inr (writeHeader 0x03 (length msg) @ msg)"
| "writeResponse (ZEvent channel message) =
     (let payload_len = (4 + length channel) + (4 + length message)
      in if payload_len > MAX_PAYLOAD_LENGTH then Inl PayloadTooLarge
         else Inr (writeHeader 0x04 payload_len @ writeLenPrefixed channel @ writeLenPrefixed message))"

subsection \<open>The command the server sees\<close>

text \<open>What a client command means on the server: UTF-8 bytes for text, timestamps modulo \<open>2 ^ 64\<close>.\<close>

definition u64 :: "int \<Rightarrow> nat" where
  "u64 i = nat (i mod 18446744073709551616)"

fun server_view :: "ParsedCommand \<Rightarrow> ZCommand" where
  "server_view (CmdGet k) = ZGet (encodeUtf8 k)"
| "server_view (CmdDel k) = ZDelete (encodeUtf8 k)"
| "server_view (CmdSub c f) = ZSubscribe (encodeUtf8 c)
     (case f of Some t \<Rightarrow> if t = [] then None else Some (encodeUtf8 t) | None \<Rightarrow> None)"
| "server_view (CmdUnsub c) = ZUnsubscribe (encodeUtf8 c)"
| "server_view CmdStatus = ZStatus"
| "server_view CmdClusterStatus = ZClusterStatus"
| "server_view CmdClusterPeers = ZClusterPeers"
| "server_view (CmdSet k v w) = ZSet (encodeUtf8 k) (encodeUtf8 v) w"
| "server_view (CmdPub c m) = ZPublish (encodeUtf8 c) (encodeUtf8 m)"
| "server_view (CmdExec p as) = ZExec (encodeUtf8 p) (map encode_arg as)"
| "server_view (CmdVinsert k vec w ns m ts a) =
     ZVinsert \<lparr>vp_key = encodeUtf8 k, vp_vector = vec, vp_worm = w, vp_namespace = encodeUtf8 ns,
       vp_metric = encodeUtf8 (metric_text m), vp_timestamp = u64 ts, vp_async = a\<rparr>"
| "server_view (CmdVbulkinsert ns m w a its) =
     ZVbulkinsert (encodeUtf8 ns) (encodeUtf8 (metric_text m)) w a
       (map (\<lambda>it. \<lparr>zi_key = encodeUtf8 (bi_key it), zi_vector = bi_vector it,
                    zi_timestamp = u64 (bi_timestamp it)\<rparr>) its)"

subsection \<open>The server reads what the client wrote\<close>

text \<open>
  A position inside a payload that is followed by known bytes: \<open>reads\<close> carries the parse from
  field to field.
\<close>

definition reads :: "bytes \<Rightarrow> nat \<Rightarrow> bytes \<Rightarrow> bool" where
  "reads payload pos rest \<longleftrightarrow> pos \<le> length payload \<and> drop pos payload = rest"

lemma reads_start: "reads payload 0 payload"
  by (simp add: reads_def)

lemma reads_length: "reads payload pos rest \<Longrightarrow> length payload = pos + length rest"
  by (auto simp: reads_def)

lemma reads_skip: "reads payload pos (a @ rest) \<Longrightarrow> reads payload (pos + length a) rest"
proof -
  assume r: "reads payload pos (a @ rest)"
  then have d: "drop pos payload = a @ rest"
    by (simp add: reads_def)
  have "drop (pos + length a) payload = drop (length a) (drop pos payload)"
    by (simp add: add.commute)
  then show ?thesis
    using reads_length [OF r] d by (simp add: reads_def)
qed

lemma reads_skip1: "reads payload pos (x # rest) \<Longrightarrow> reads payload (pos + 1) rest"
  using reads_skip [of payload pos "[x]" rest] by simp

lemma reads_nth: "reads payload pos (x # rest) \<Longrightarrow> payload ! pos = x"
  by (metis hd_drop_conv_nth list.discI list.sel(1) drop_eq_Nil not_le reads_def)

lemma readBytesField_field:
  assumes "reads payload pos (field d @ rest)" and "length d < 4294967296"
  shows "readBytesField payload pos = Inr (d, pos + (4 + length d))"
    and "reads payload (pos + (4 + length d)) rest"
proof -
  have l: "length payload = pos + (4 + length d + length rest)"
    using reads_length [OF assms(1)] by simp
  have d: "drop pos payload = be32 (length d) @ d @ rest"
    using assms(1) by (simp add: reads_def field_def)
  have "drop (pos + 4) payload = d @ rest"
    using reads_skip [of payload pos "be32 (length d)" "d @ rest"] assms(1)
    by (simp add: reads_def field_def)
  then show "readBytesField payload pos = Inr (d, pos + (4 + length d))"
    using l d assms(2) by (simp add: readBytesField_def Let_def)
  show "reads payload (pos + (4 + length d)) rest"
    using reads_skip [OF assms(1)] by simp
qed

lemma reads_rd32:
  assumes "reads payload pos (be32 n @ rest)" and "n < 4294967296"
  shows "rd32 (drop pos payload) = n" and "pos + 4 \<le> length payload"
    and "reads payload (pos + 4) rest"
  using assms reads_length [OF assms(1)] reads_skip [OF assms(1)] by (simp_all add: reads_def)

lemma reads_rd64:
  assumes "reads payload pos (be64 v @ rest)"
  shows "rd64 (drop pos payload) = u64 v" and "pos + 8 \<le> length payload"
    and "reads payload (pos + 8) rest"
proof -
  have "rd64 (be64 v @ rest) = u64 v"
    using rd64_be64 [of v rest] by (simp add: u64_def nat_int [symmetric] del: nat_int)
  then show "rd64 (drop pos payload) = u64 v"
    using assms by (simp add: reads_def)
qed (use reads_length [OF assms] reads_skip [OF assms] in simp_all)

lemma reads_end: "reads payload pos [] \<Longrightarrow> at_end payload pos c = Inr c"
  using reads_length [of payload pos "[]"] by (simp add: at_end_def)

lemma readArgs_fields:
  assumes "reads payload pos (concat (map field as) @ rest)" and "\<forall>a \<in> set as. length a < 4294967296"
  shows "\<exists>pos'. readArgs payload pos (length as) = Inr (as, pos') \<and> reads payload pos' rest"
  using assms
proof (induction as arbitrary: pos)
  case (Cons a as)
  then have "reads payload pos (field a @ concat (map field as) @ rest)" and "length a < 4294967296"
    by simp_all
  from readBytesField_field [OF this] Cons show ?case
    by fastforce
qed simp

lemma readItems_items:
  assumes "reads payload pos (concat (map item_bytes its) @ rest)"
    and "\<forall>it \<in> set its. item_size it < 4294967296"
  shows "\<exists>pos'. readItems payload pos (length its)
      = Inr (map (\<lambda>it. \<lparr>zi_key = encodeUtf8 (bi_key it), zi_vector = bi_vector it,
                 zi_timestamp = u64 (bi_timestamp it)\<rparr>) its, pos') \<and> reads payload pos' rest"
  using assms
proof (induction its arbitrary: pos)
  case (Cons it its)
  let ?k = "encodeUtf8 (bi_key it)" and ?v = "bi_vector it" and ?t = "bi_timestamp it"
  have len: "length ?k < 4294967296" "length ?v < 4294967296"
    using Cons.prems(2) by (auto simp: item_size_def)
  have "reads payload pos (field ?k @ field ?v @ be64 ?t @ concat (map item_bytes its) @ rest)"
    using Cons.prems(1) by (simp add: item_bytes_def [of it])
  note k = readBytesField_field [OF this len(1)]
  note v = readBytesField_field [OF k(2) len(2)]
  note t = reads_rd64 [OF v(2)]
  obtain pos' where "readItems payload (pos + (4 + length ?k) + (4 + length ?v) + 8) (length its)
      = Inr (map (\<lambda>it. \<lparr>zi_key = encodeUtf8 (bi_key it), zi_vector = bi_vector it,
                 zi_timestamp = u64 (bi_timestamp it)\<rparr>) its, pos')" "reads payload pos' rest"
    using Cons.IH [OF t(3)] Cons.prems(2) by auto
  then show ?case
    using k v t by simp
qed simp

lemma flag_bits:
  "of_nat (insert_flags w a) AND 0xFC = (0 :: byte)"
  "of_nat (insert_flags w a) AND 1 = (0 :: byte) \<longleftrightarrow> \<not> w"
  "of_nat (insert_flags w a) AND 2 = (0 :: byte) \<longleftrightarrow> \<not> a"
  by (cases w; cases a; simp add: insert_flags_def)+

lemma parse_one_field:
  assumes "length d < 4294967296"
  shows "readBytesField (field d) 0 = Inr (d, 4 + length d)"
    and "at_end (field d) (4 + length d) c = Inr c"
  using readBytesField_field [of "field d" 0 d "[]"] reads_start [of "field d"] assms reads_end
  by simp_all

lemma parse_two_fields:
  assumes "length d < 4294967296" and "length e < 4294967296"
  shows "readBytesField (field d @ field e) 0 = Inr (d, 4 + length d)"
    and "readBytesField (field d @ field e) (4 + length d) = Inr (e, 8 + length d + length e)"
    and "at_end (field d @ field e) (8 + length d + length e) c = Inr c"
proof -
  note d = readBytesField_field [OF reads_start assms(1)]
  note e = readBytesField_field [of "field d @ field e" "0 + (4 + length d)" e "[]", simplified, OF d(2) [simplified] assms(2)]
  show "readBytesField (field d @ field e) 0 = Inr (d, 4 + length d)"
    using d(1) by simp
  show "readBytesField (field d @ field e) (4 + length d) = Inr (e, 8 + length d + length e)"
    using e(1) by simp
  show "at_end (field d @ field e) (8 + length d + length e) c = Inr c"
    by (simp add: at_end_def)
qed

lemma parse_set:
  assumes "length k < 4294967296" and "length v < 4294967296"
  shows "parseCommandPayload 0x02 (of_bool w # field k @ field v) = Inr (ZSet k v w)"
proof -
  let ?p = "of_bool w # field k @ field v"
  have "reads ?p 1 (field k @ field v)"
    by (simp add: reads_def)
  note k = readBytesField_field [OF this assms(1)]
  note v = readBytesField_field [of ?p _ v "[]", simplified, OF k(2) [simplified] assms(2)]
  show ?thesis
    using k(1) v(1) reads_end [OF v(2)]
    by (cases w) (simp_all add: parseCommandPayload_def Let_def)
qed

lemma parse_exec:
  assumes "length p < 4294967296" and "length as < 4294967296" and "\<forall>a \<in> set as. length a < 4294967296"
  shows "parseCommandPayload 0x09 (field p @ be32 (length as) @ concat (map field as)) = Inr (ZExec p as)"
proof -
  let ?p = "field p @ be32 (length as) @ concat (map field as)"
  note p = readBytesField_field [OF reads_start assms(1)]
  note n = reads_rd32 [OF p(2) assms(2)]
  have "reads ?p (0 + (4 + length p) + 4) (concat (map field as) @ [])"
    using n(3) by simp
  then obtain pos where "readArgs ?p (0 + (4 + length p) + 4) (length as) = Inr (as, pos)"
      "reads ?p pos []"
    using readArgs_fields assms(3) by blast
  then show ?thesis
    using p(1) n(1,2) reads_end by (simp add: parseCommandPayload_def Let_def)
qed

lemma parse_vinsert:
  assumes "length k < 4294967296" and "length vec < 4294967296" and "length ns < 4294967296"
    and "length m < 4294967296"
  shows "parseCommandPayload 0x0D
      (field k @ field vec @ of_nat (insert_flags w a) # field ns @ field m @ be64 ts)
    = Inr (ZVinsert \<lparr>vp_key = k, vp_vector = vec, vp_worm = w, vp_namespace = ns, vp_metric = m,
        vp_timestamp = u64 ts, vp_async = a\<rparr>)"
proof -
  let ?p = "field k @ field vec @ of_nat (insert_flags w a) # field ns @ field m @ be64 ts"
  note k = readBytesField_field [OF reads_start assms(1), of "field vec @ of_nat (insert_flags w a) # field ns @ field m @ be64 ts"]
  note v = readBytesField_field [OF k(2) assms(2)]
  have fl: "?p ! (0 + (4 + length k) + (4 + length vec)) = of_nat (insert_flags w a)"
    using reads_nth [OF v(2)] .
  have "reads ?p (0 + (4 + length k) + (4 + length vec) + 1) (field ns @ field m @ be64 ts)"
    using reads_skip1 [OF v(2)] .
  note ns = readBytesField_field [OF this assms(3)]
  note m = readBytesField_field [OF ns(2) assms(4)]
  have "reads ?p (0 + (4 + length k) + (4 + length vec) + 1 + (4 + length ns) + (4 + length m)) (be64 ts @ [])"
    using m(2) by simp
  note t = reads_rd64 [OF this]
  show ?thesis
    using k(1) v(1) ns(1) m(1) t(1,2) reads_end [OF t(3)] fl reads_length [OF v(2)]
    by (simp add: parseCommandPayload_def Let_def flag_bits)
qed

lemma parse_vbulkinsert:
  assumes "length ns < 4294967296" and "length m < 4294967296" and "length its < 4294967296"
    and "\<forall>it \<in> set its. item_size it < 4294967296"
  shows "parseCommandPayload 0x0F
      (field ns @ field m @ of_nat (insert_flags w a) # be32 (length its) @ concat (map item_bytes its))
    = Inr (ZVbulkinsert ns m w a
        (map (\<lambda>it. \<lparr>zi_key = encodeUtf8 (bi_key it), zi_vector = bi_vector it,
                    zi_timestamp = u64 (bi_timestamp it)\<rparr>) its))"
proof -
  let ?r = "be32 (length its) @ concat (map item_bytes its)"
  let ?p = "field ns @ field m @ of_nat (insert_flags w a) # ?r"
  note n = readBytesField_field [OF reads_start assms(1), of "field m @ of_nat (insert_flags w a) # ?r"]
  note m = readBytesField_field [OF n(2) assms(2)]
  let ?pos = "0 + (4 + length ns) + (4 + length m)"
  have fl: "?p ! ?pos = of_nat (insert_flags w a)"
    using reads_nth [OF m(2)] .
  have "reads ?p (?pos + 1) ?r"
    using reads_skip1 [OF m(2)] .
  note c = reads_rd32 [OF this assms(3)]
  have r: "reads ?p (?pos + 5) (concat (map item_bytes its) @ [])"
    using c(3) by simp
  then obtain pos' where "readItems ?p (?pos + 5) (length its)
      = Inr (map (\<lambda>it. \<lparr>zi_key = encodeUtf8 (bi_key it), zi_vector = bi_vector it,
          zi_timestamp = u64 (bi_timestamp it)\<rparr>) its, pos')" "reads ?p pos' []"
    using readItems_items assms(4) by blast
  moreover have "16 * length its \<le> length (concat (map item_bytes its))"
    by (induction its) (simp_all add: item_size_def)
  then have "length its \<le> (length ?p - (?pos + 5)) div 16"
    using reads_length [OF r] by (simp add: less_eq_div_iff_mult_less_eq mult.commute)
  ultimately show ?thesis
    using n(1) m(1) c(1,2) fl reads_end reads_length [OF m(2)]
    by (simp add: parseCommandPayload_def Let_def flag_bits)
qed

lemma small_payload: "n \<le> MAX_PAYLOAD \<Longrightarrow> n < 4294967296"
  by (simp add: MAX_PAYLOAD_def)

lemma length_le_concat: "x \<in> set xs \<Longrightarrow> length (f x) \<le> length (concat (map f xs))"
  by (induction xs) auto

lemma length_le_fields: "length xs \<le> length (concat (map (\<lambda>x. field (f x)) xs))"
  by (induction xs) auto

lemma length_le_items: "length its \<le> length (concat (map item_bytes its))"
  by (induction its) (auto simp: item_size_def)

lemma payload_part: "length (payload_of c) \<le> MAX_PAYLOAD \<Longrightarrow> n \<le> length (payload_of c) \<Longrightarrow> n < 4294967296"
  using small_payload by (meson le_trans)

lemma parse_payload_sub:
  assumes "length (payload_of (CmdSub ch f)) \<le> MAX_PAYLOAD"
  shows "parseCommandPayload 0x06 (payload_of (CmdSub ch f)) = Inr (server_view (CmdSub ch f))"
proof (cases "f = None \<or> f = Some []")
  case True
  then show ?thesis
    using payload_part [OF assms, of "length (encodeUtf8 ch)"] by (auto simp: parseCommandPayload_def parse_one_field)
next
  case False
  then obtain t where "f = Some t" "t \<noteq> []" by auto
  then show ?thesis
    using payload_part [OF assms, of "length (encodeUtf8 ch)"] payload_part [OF assms, of "length (encodeUtf8 t)"]
    by (simp add: parseCommandPayload_def parse_two_fields)
qed

lemma parse_payload_exec:
  assumes "length (payload_of (CmdExec p as)) \<le> MAX_PAYLOAD"
  shows "parseCommandPayload 0x09 (payload_of (CmdExec p as)) = Inr (server_view (CmdExec p as))"
proof -
  note s = payload_part [OF assms]
  have "length (encode_arg x) < 4294967296" if "x \<in> set as" for x
    using length_le_concat [OF that, of "\<lambda>a. field (encode_arg a)"] s [of "length (encode_arg x)"] by simp
  then have "\<forall>a \<in> set (map encode_arg as). length a < 4294967296" by auto
  moreover have "length as < 4294967296"
    using s length_le_fields [of as encode_arg] by simp
  ultimately show ?thesis
    using s [of "length (encodeUtf8 p)"] parse_exec [of "encodeUtf8 p" "map encode_arg as"] by (simp add: o_def)
qed

lemma parse_payload_vbulkinsert:
  assumes "length (payload_of (CmdVbulkinsert ns m w a its)) \<le> MAX_PAYLOAD"
  shows "parseCommandPayload (command_code (code_of (CmdVbulkinsert ns m w a its))) (payload_of (CmdVbulkinsert ns m w a its))
    = Inr (server_view (CmdVbulkinsert ns m w a its))"
proof -
  note s = payload_part [OF assms]
  have "item_size it < 4294967296" if "it \<in> set its" for it
    using s [of "item_size it"] length_le_concat [OF that, of item_bytes] by simp
  moreover have "length its < 4294967296"
    using s length_le_items [of its] by simp
  ultimately show ?thesis
    using s [of "length (encodeUtf8 ns)"] s [of "length (encodeUtf8 (metric_text m))"] by (simp add: parse_vbulkinsert)
qed

lemma parse_payload_of:
  assumes "length (payload_of c) \<le> MAX_PAYLOAD"
  shows "parseCommandPayload (command_code (code_of c)) (payload_of c) = Inr (server_view c)"
proof -
  note s = payload_part [OF assms]
  show ?thesis
  proof (cases c)
    case (CmdVinsert k vec w ns m ts a)
    then show ?thesis
      using s [of "length (encodeUtf8 k)"] s [of "length vec"] s [of "length (encodeUtf8 ns)"]
        s [of "length (encodeUtf8 (metric_text m))"]
      by (simp add: parse_vinsert)
  next
    case (CmdSet k v w)
    then show ?thesis
      using s [of "length (encodeUtf8 k)"] s [of "length (encodeUtf8 v)"] by (simp add: parse_set)
  next
    case (CmdPub ch m)
    then show ?thesis
      using s [of "length (encodeUtf8 ch)"] s [of "length (encodeUtf8 m)"]
      by (simp add: parseCommandPayload_def parse_two_fields)
  next
    case (CmdGet k)
    then show ?thesis using s [of "length (encodeUtf8 k)"] by (simp add: parseCommandPayload_def parse_one_field)
  next
    case (CmdDel k)
    then show ?thesis using s [of "length (encodeUtf8 k)"] by (simp add: parseCommandPayload_def parse_one_field)
  next
    case (CmdUnsub k)
    then show ?thesis using s [of "length (encodeUtf8 k)"] by (simp add: parseCommandPayload_def parse_one_field)
  next
    case (CmdSub ch f)
    with assms parse_payload_sub [of ch f] show ?thesis by simp
  next
    case (CmdExec p as)
    with assms parse_payload_exec [of p as] show ?thesis by simp
  next
    case (CmdVbulkinsert ns m w a its)
    with assms parse_payload_vbulkinsert [of ns m w a its] show ?thesis by (simp only:)
  qed (simp_all add: parseCommandPayload_def at_end_def)
qed

lemma readFrameAlloc_frame:
  assumes "length p \<le> MAX_PAYLOAD" and "code < 256" and "parseCommandPayload code p = Inr c"
  shows "readFrameAlloc (frame_bytes code p @ r) = Inr (c, r)"
  using assms small_payload [OF assms(1)]
  by (simp add: readFrameAlloc_def frame_bytes_def MAX_PAYLOAD_def MAX_PAYLOAD_LENGTH_def Let_def
      drop_header)

lemma encoded_reads:
  assumes "encodeCommandFrame c = Inr b"
  shows "readFrameAlloc (b @ r) = Inr (server_view c, r)"
proof -
  have "length (payload_of c) \<le> MAX_PAYLOAD" "b = frame_bytes (command_code (code_of c)) (payload_of c)"
    using assms by (auto simp: encodeCommandFrame_framed framed_def split: if_splits)
  moreover have "command_code (code_of c) < 256" by (cases c) simp_all
  ultimately show ?thesis using readFrameAlloc_frame parse_payload_of by simp
qed

lemma encodeAuth_reads:
  assumes "encodeAuth tok = Inr b"
  shows "readFrameAlloc (b @ r) = Inr (ZAuth tok, r)"
proof -
  have l: "length (field tok) \<le> MAX_PAYLOAD" "b = frame_bytes 0x0C (field tok)"
    using assms by (auto simp: encodeAuth_framed framed_def split: if_splits)
  then have "parseCommandPayload 0x0C (field tok) = Inr (ZAuth tok)"
    using small_payload [of "length tok"] by (simp add: parseCommandPayload_def parse_one_field)
  with l show ?thesis using readFrameAlloc_frame by simp
qed

lemma encodeVdelete_reads:
  assumes "encodeVdelete k ns = Inr b"
  shows "readFrameAlloc (b @ r) = Inr (ZVdelete (encodeUtf8 k) (encodeUtf8 ns), r)"
proof -
  have l: "length (field (encodeUtf8 k) @ field (encodeUtf8 ns)) \<le> MAX_PAYLOAD"
     "b = frame_bytes 0x0E (field (encodeUtf8 k) @ field (encodeUtf8 ns))"
    using assms by (auto simp: encodeVdelete_framed framed_def split: if_splits)
  then have "parseCommandPayload 0x0E (field (encodeUtf8 k) @ field (encodeUtf8 ns))
      = Inr (ZVdelete (encodeUtf8 k) (encodeUtf8 ns))"
    using small_payload [of "length (encodeUtf8 k)"] small_payload [of "length (encodeUtf8 ns)"]
    by (simp add: parseCommandPayload_def parse_two_fields)
  with l show ?thesis using readFrameAlloc_frame by simp
qed

lemma encodeSave_reads: "encodeSave = Inr b \<Longrightarrow> readFrameAlloc (b @ r) = Inr (ZSave, r)"
  using readFrameAlloc_frame [where p = "[]" and code = "0x0B" and c = ZSave and r = r]
  by (simp add: encodeSave_framed framed_def parseCommandPayload_def at_end_def)

text \<open>The server's connection loop on a stream that holds \<open>n\<close> frames.\<close>

fun read_frames :: "nat \<Rightarrow> bytes \<Rightarrow> WireError + (ZCommand list \<times> bytes)" where
  "read_frames 0 stream = Inr ([], stream)"
| "read_frames (Suc n) stream =
     and_then (readFrameAlloc stream) (\<lambda>(c, stream).
     and_then (read_frames n stream) (\<lambda>(cs, stream). Inr (c # cs, stream)))"

lemma read_frames_encoded:
  assumes "list_all2 (\<lambda>c b. encodeCommandFrame c = Inr b) cs bs"
  shows "read_frames (length cs) (concat bs @ r) = Inr (map server_view cs, r)"
  using assms by (induction cs bs rule: list_all2_induct) (simp_all add: encoded_reads)

subsection \<open>The client reads what the server wrote\<close>

text \<open>What a response of the server means to a client, and the size of its payload.\<close>

fun client_view :: "ZResponse \<Rightarrow> WormResponse" where
  "client_view ZOk = ROk"
| "client_view (ZValue None) = RNull"
| "client_view (ZValue (Some val)) = RBulk (decodeUtf8 val)"
| "client_view (ZErr msg) = RError (decodeUtf8 msg)"
| "client_view (ZEvent channel message) = REvent (decodeUtf8 channel) (decodeUtf8 message)"

fun is_event :: "ZResponse \<Rightarrow> bool" where
  "is_event (ZEvent _ _) = True"
| "is_event _ = False"

fun response_size :: "ZResponse \<Rightarrow> nat" where
  "response_size (ZValue (Some val)) = length val"
| "response_size (ZErr msg) = length msg"
| "response_size _ = 0"

lemma writeResponse_event:
  assumes "writeResponse (ZEvent ch msg) = Inr b"
  shows "\<exists>p. b = frame_bytes 4 p \<and> wire_frame (4, p) \<and> decodeResponse 4 p = client_view (ZEvent ch msg)"
proof -
  let ?p = "writeLenPrefixed ch @ writeLenPrefixed msg"
  have sz: "8 + length ch + length msg \<le> MAX_PAYLOAD_LENGTH"
    and b: "b = writeHeader 4 (8 + length ch + length msg) @ ?p"
    using assms by (auto simp: Let_def add_ac split: if_splits)
  have l: "length ch < 4294967296" "length msg < 4294967296"
    using sz by (simp_all add: MAX_PAYLOAD_LENGTH_def)
  have m: "drop (4 + length ch) ?p = writeLenPrefixed msg"
    by (simp add: writeLenPrefixed_def)
  have "decodeResponse 4 ?p = client_view (ZEvent ch msg)"
    using l m by (simp add: decodeResponse_def readUint32BE_def subarray_def Let_def add.assoc) (simp add: writeLenPrefixed_def)
  then show ?thesis
    using sz b
    by (intro exI [of _ ?p])
      (simp add: writeHeader_def writeLenPrefixed_def frame_bytes_def wire_frame_def MAX_PAYLOAD_LENGTH_def add.assoc)
qed

lemma writeResponse_frame:
  assumes "writeResponse r = Inr b" and "response_size r < 4294967296"
  shows "\<exists>code p. b = frame_bytes code p \<and> wire_frame (code, p) \<and> decodeResponse code p = client_view r
           \<and> isEventCode code = is_event r \<and> code \<le> 4"
proof -
  note frame = writeHeader_def frame_bytes_def wire_frame_def decodeResponse_def isEventCode_def
  show ?thesis
  proof (cases r)
    case (ZValue v)
    with assms show ?thesis
      by (intro exI [of _ "if v = None then 2 else 1"] exI [of _ "case v of None \<Rightarrow> [] | Some x \<Rightarrow> x"])
        (auto simp: frame split: option.splits)
  next
    case ZOk
    with assms show ?thesis by (intro exI [of _ 0] exI [of _ "[]"]) (simp add: frame)
  next
    case (ZErr msg)
    with assms show ?thesis by (intro exI [of _ 3] exI [of _ msg]) (simp add: frame)
  next
    case (ZEvent ch msg)
    with assms writeResponse_event [of ch msg b] show ?thesis by (auto simp: isEventCode_def)
  qed
qed

end
