(* ===== verification/Write_Backlog.thy ===== *)
theory Write_Backlog
  imports Prelude
begin

section \<open>Backpressure-aware writes (\<open>client.ts\<close> and \<open>wormdb.ts\<close>)\<close>

text \<open>
  A Bun socket and the backlog both clients keep in front of it. Bun is not part of the
  repository: what a call of \<open>socket.write\<close> returns is the parameter \<open>wr\<close>, the answer to the
  \<open>k\<close>-th write on a socket with given data: the number of bytes taken, or a negative number on
  failure. A socket records how many writes it saw and the bytes it took.
\<close>

type_synonym write_oracle = "nat \<Rightarrow> bytes \<Rightarrow> int"

record sock =
  s_calls :: nat
  s_sent :: bytes

definition fresh_sock :: sock where
  "fresh_sock = \<lparr>s_calls = 0, s_sent = []\<rparr>"

definition sock_write :: "write_oracle \<Rightarrow> sock \<Rightarrow> bytes \<Rightarrow> int \<times> sock" where
  "sock_write wr s data =
     (let n = wr (s_calls s) data
      in (n, s\<lparr>s_calls := s_calls s + 1, s_sent := s_sent s @ take (nat n) data\<rparr>))"

text \<open>
  \<open>writeOrQueue(socket, data)\<close>: the first component says that it threw
  (\<open>socket.write failed\<close>).
\<close>

definition writeOrQueue :: "write_oracle \<Rightarrow> bytes list \<Rightarrow> sock \<Rightarrow> bytes \<Rightarrow> bool \<times> bytes list \<times> sock" where
  "writeOrQueue wr writeBacklog s data =
     (if length writeBacklog > 0 then (False, writeBacklog @ [data], s)
      else
        let (written, s') = sock_write wr s data
        in if written < 0 then (True, writeBacklog, s')
           else if written < int (length data) then (False, writeBacklog @ [drop (nat written) data], s')
           else (False, writeBacklog, s'))"

text \<open>
  \<open>flushBacklog(socket)\<close>, run by the \<open>drain\<close> callback: a chunk whose write fails is dropped.
\<close>

fun flushBacklog :: "write_oracle \<Rightarrow> bytes list \<Rightarrow> sock \<Rightarrow> bytes list \<times> sock" where
  "flushBacklog wr [] s = ([], s)"
| "flushBacklog wr (chunk # rest) s =
     (let (written, s') = sock_write wr s chunk
      in if written < 0 then flushBacklog wr rest s'
         else if written < int (length chunk) then (drop (nat written) chunk # rest, s')
         else flushBacklog wr rest s')"

text \<open>The same two methods as they stand in \<open>wormdb.ts\<close>.\<close>

definition db_writeOrQueue :: "write_oracle \<Rightarrow> bytes list \<Rightarrow> sock \<Rightarrow> bytes \<Rightarrow> bool \<times> bytes list \<times> sock" where
  "db_writeOrQueue wr writeBacklog s data =
     (if length writeBacklog > 0 then (False, writeBacklog @ [data], s)
      else
        let (written, s') = sock_write wr s data
        in if written < 0 then (True, writeBacklog, s')
           else if written < int (length data) then (False, writeBacklog @ [drop (nat written) data], s')
           else (False, writeBacklog, s'))"

fun db_flushBacklog :: "write_oracle \<Rightarrow> bytes list \<Rightarrow> sock \<Rightarrow> bytes list \<times> sock" where
  "db_flushBacklog wr [] s = ([], s)"
| "db_flushBacklog wr (chunk # rest) s =
     (let (written, s') = sock_write wr s chunk
      in if written < 0 then db_flushBacklog wr rest s'
         else if written < int (length chunk) then (drop (nat written) chunk # rest, s')
         else db_flushBacklog wr rest s')"

lemma db_writeOrQueue_eq [simp]: "db_writeOrQueue = writeOrQueue"
  by (intro ext) (simp add: db_writeOrQueue_def writeOrQueue_def)

lemma db_flushBacklog_eq: "db_flushBacklog wr b s = flushBacklog wr b s"
  by (induction wr b s rule: db_flushBacklog.induct) (auto simp: Let_def split: prod.splits)

subsection \<open>The byte stream towards the peer\<close>

text \<open>What the peer will have read once the backlog has drained.\<close>

definition out_stream :: "bytes list \<Rightarrow> sock \<Rightarrow> bytes" where
  "out_stream backlog s = s_sent s @ concat backlog"

text \<open>A socket that never fails: it takes some prefix of what it is given.\<close>

definition ok_socket :: "(nat \<Rightarrow> bytes \<Rightarrow> nat) \<Rightarrow> write_oracle" where
  "ok_socket accept k data = int (min (accept k data) (length data))"

lemma ok_socket_bounds [simp]:
  "\<not> ok_socket accept k data < 0" "ok_socket accept k data \<le> int (length data)"
  by (simp_all add: ok_socket_def)

definition never_fails :: "write_oracle \<Rightarrow> bool" where
  "never_fails wr \<longleftrightarrow> (\<forall>k data. 0 \<le> wr k data)"

lemma never_fails_ok_socket [simp]: "never_fails (ok_socket accept)"
  by (simp add: never_fails_def ok_socket_def)

lemma never_failsD: "never_fails wr \<Longrightarrow> \<not> wr k data < 0"
  by (simp add: never_fails_def not_less)

lemma writeOrQueue_ok:
  assumes "never_fails wr" and "writeOrQueue wr b s data = (threw, b', s')"
  shows "\<not> threw" and "out_stream b' s' = out_stream b s @ data"
  using assms never_failsD [OF assms(1), of "s_calls s" data]
  by (auto simp: writeOrQueue_def sock_write_def out_stream_def Let_def split: if_splits)

lemma flushBacklog_ok:
  "never_fails wr \<Longrightarrow> flushBacklog wr b s = (b', s') \<Longrightarrow> out_stream b' s' = out_stream b s"
proof (induction wr b s rule: flushBacklog.induct)
  case (2 wr chunk rest s)
  show ?case
  proof (cases "wr (s_calls s) chunk < int (length chunk)")
    case True
    with 2 show ?thesis
      using never_failsD [OF 2(3), of "s_calls s" chunk]
      by (auto simp: sock_write_def out_stream_def Let_def)
  next
    case False
    with 2 have "out_stream b' s' = out_stream rest
        (s\<lparr>s_calls := s_calls s + 1, s_sent := s_sent s @ chunk\<rparr>)"
      using never_failsD [OF 2(3), of "s_calls s" chunk]
      by (auto simp: sock_write_def Let_def)
    then show ?thesis by (simp add: out_stream_def)
  qed
qed (simp add: out_stream_def)

lemma writeOrQueue_backlog_nonempty:
  "b \<noteq> [] \<Longrightarrow> writeOrQueue wr b s data = (False, b @ [data], s)"
  by (simp add: writeOrQueue_def)

text \<open>
  The interface of an ordered writer: pushing appends to the stream, flushing does not change it.
  Whatever the interleaving of pushes and flushes, the stream is the pushed data in order.
\<close>

datatype write_op = Push bytes | Flush

fun pushed :: "write_op list \<Rightarrow> bytes" where
  "pushed [] = []"
| "pushed (Push d # ops) = d @ pushed ops"
| "pushed (Flush # ops) = pushed ops"

locale ordered_writer =
  fixes stream :: "'s \<Rightarrow> bytes" and push :: "'s \<Rightarrow> bytes \<Rightarrow> 's" and flush :: "'s \<Rightarrow> 's"
  assumes stream_push: "stream (push s d) = stream s @ d"
    and stream_flush: "stream (flush s) = stream s"
begin

fun apply_op :: "'s \<Rightarrow> write_op \<Rightarrow> 's" where
  "apply_op s (Push d) = push s d"
| "apply_op s Flush = flush s"

lemma stream_ops: "stream (foldl apply_op s ops) = stream s @ pushed ops"
proof (induction ops arbitrary: s)
  case (Cons op ops)
  then show ?case by (cases op) (simp_all add: stream_push stream_flush)
qed simp

end

definition wq_push :: "write_oracle \<Rightarrow> bytes list \<times> sock \<Rightarrow> bytes \<Rightarrow> bytes list \<times> sock" where
  "wq_push wr bs data = snd (writeOrQueue wr (fst bs) (snd bs) data)"

definition wq_flush :: "write_oracle \<Rightarrow> bytes list \<times> sock \<Rightarrow> bytes list \<times> sock" where
  "wq_flush wr bs = flushBacklog wr (fst bs) (snd bs)"

definition wq_apply :: "write_oracle \<Rightarrow> bytes list \<times> sock \<Rightarrow> write_op \<Rightarrow> bytes list \<times> sock" where
  "wq_apply wr bs op = (case op of Push d \<Rightarrow> wq_push wr bs d | Flush \<Rightarrow> wq_flush wr bs)"

interpretation backlog: ordered_writer "\<lambda>bs. out_stream (fst bs) (snd bs)"
  "wq_push (ok_socket accept)" "wq_flush (ok_socket accept)" for accept
proof unfold_locales
  fix bs :: "bytes list \<times> sock" and d :: bytes
  obtain threw b' s' where w: "writeOrQueue (ok_socket accept) (fst bs) (snd bs) d = (threw, b', s')"
    by (cases "writeOrQueue (ok_socket accept) (fst bs) (snd bs) d") auto
  then show "out_stream (fst (wq_push (ok_socket accept) bs d)) (snd (wq_push (ok_socket accept) bs d))
      = out_stream (fst bs) (snd bs) @ d"
    using writeOrQueue_ok(2) [OF never_fails_ok_socket w] by (simp add: wq_push_def)
next
  fix bs :: "bytes list \<times> sock"
  show "out_stream (fst (wq_flush (ok_socket accept) bs)) (snd (wq_flush (ok_socket accept) bs))
      = out_stream (fst bs) (snd bs)"
    using flushBacklog_ok [OF never_fails_ok_socket, of accept "fst bs" "snd bs"]
    by (simp add: wq_flush_def)
qed

lemma wq_apply_eq: "wq_apply (ok_socket accept) = backlog.apply_op accept"
proof (intro ext)
  fix bs op
  show "wq_apply (ok_socket accept) bs op = backlog.apply_op accept bs op"
    by (cases op) (simp_all add: wq_apply_def)
qed

text \<open>
C4: on a socket that does not fail, whatever prefix of each chunk the socket takes and whatever
the interleaving of sends and drain callbacks, the bytes already sent followed by the backlog are
exactly the bytes handed to \<open>writeOrQueue\<close>, in order: nothing is lost, duplicated or reordered.
\<close>

theorem backlog_preserves_order:
  "out_stream (fst (foldl (wq_apply (ok_socket accept)) (b, s) ops))
     (snd (foldl (wq_apply (ok_socket accept)) (b, s) ops)) = out_stream b s @ pushed ops"
  using backlog.stream_ops [of accept "(b, s)" ops] by (simp add: wq_apply_eq)

text \<open>
When the socket reports a failure while the backlog drains, the chunk it was writing is
dropped and the following chunks are sent: the peer sees the stream with that chunk, or the rest
of a frame that was partly sent before, missing.
\<close>

theorem flush_failure_drops_chunk:
  assumes "wr (s_calls s) chunk = -1"
  shows "flushBacklog wr (chunk # rest) s = flushBacklog wr rest (s\<lparr>s_calls := s_calls s + 1\<rparr>)"
  using assms by (simp add: sock_write_def)

theorem flush_failure_drops_chunk_witness:
  "flushBacklog (\<lambda>k d. if k = 0 then -1 else int (length d)) [[1, 2], [3]] fresh_sock
     = ([], \<lparr>s_calls = 2, s_sent = [3]\<rparr>)"
  using flush_failure_drops_chunk [of "\<lambda>k d. if k = 0 then -1 else int (length d)" fresh_sock "[1, 2]" "[[3]]"]
  by (simp add: fresh_sock_def sock_write_def)

end
