(* ===== verification/Client_Types.thy ===== *)
theory Client_Types
  imports Framing Write_Backlog
begin

section \<open>Errors and effects of the Bun clients\<close>

text \<open>
  The errors the clients reject with, and the effects of their handlers that reach outside the
  object: settling a caller's promise, timers, and calls of Bun. Effects are appended to a log in
  the order they happen.
\<close>

datatype js_error =
    ClientTimeoutError nat
  | ClientConnectionClosedError
  | ExternalError jstring
  | WriteFailed
  | WireFailure wire_error
  | CommandFailure command_error
  | WormServerError jstring
  | PlainError jstring

datatype 'r client_effect =
    Resolve nat 'r
  | Reject nat js_error
  | SetTimer nat
  | ClearTimer nat
  | BunConnect
  | SocketEnd nat

text \<open>The promises a log settles, in order.\<close>

fun settles :: "'r client_effect \<Rightarrow> (nat \<times> (js_error + 'r)) option" where
  "settles (Resolve i r) = Some (i, Inr r)"
| "settles (Reject i e) = Some (i, Inl e)"
| "settles _ = None"

definition settled_by :: "'r client_effect list \<Rightarrow> (nat \<times> (js_error + 'r)) list" where
  "settled_by es = List.map_filter settles es"

lemma settled_by_Nil [simp]: "settled_by [] = []"
  by (simp add: settled_by_def List.map_filter_def)

lemma settled_by_append [simp]: "settled_by (a @ b) = settled_by a @ settled_by b"
  by (simp add: settled_by_def List.map_filter_def)

lemma settled_by_Cons [simp]:
  "settled_by (e # es) = (case settles e of None \<Rightarrow> settled_by es | Some x \<Rightarrow> x # settled_by es)"
  by (simp add: settled_by_def List.map_filter_def split: option.splits)

text \<open>Rejecting a queue of requests: each timer is cleared and each promise rejected, in order.\<close>

definition reject_queue :: "js_error \<Rightarrow> nat list \<Rightarrow> 'r client_effect list" where
  "reject_queue err q = concat (map (\<lambda>i. [ClearTimer i, Reject i err]) q)"

lemma settled_by_reject_queue [simp]: "settled_by (reject_queue err q) = map (\<lambda>i. (i, Inl err)) q"
  by (induction q) (simp_all add: reject_queue_def)

lemma reject_queue_Nil [simp]: "reject_queue err [] = []"
  by (simp add: reject_queue_def)

text \<open>
  Response frames and event frames of a list of frames: an event frame never answers a request.
\<close>

definition responses :: "(nat \<times> bytes) list \<Rightarrow> (nat \<times> bytes) list" where
  "responses fs = filter (\<lambda>(c, p). \<not> isEventCode c) fs"

lemma responses_Nil [simp]: "responses [] = []"
  by (simp add: responses_def)

lemma responses_Cons [simp]:
  "responses ((c, p) # fs) = (if isEventCode c then responses fs else (c, p) # responses fs)"
  by (simp add: responses_def)

end
