(* ===== verification/Worm_Client.thy ===== *)
theory Worm_Client
  imports Client_Types
begin

section \<open>WormClient (\<open>apps/bun/src/lib/client.ts\<close>)\<close>

text \<open>
  The low-level client. With \<open>keepAlive\<close> it multiplexes requests over one connection: responses
  carry no request id, so the oldest pending request takes the next response. Without it every
  request opens a connection of its own. Requests and sockets are numbered; the response of a
  request is the argument of its \<open>Resolve\<close> effect. The body of \<open>new Promise\<close> after an \<open>await\<close> is a
  handler of its own. \<open>wr\<close> answers the socket writes.
\<close>

subsection \<open>The persistent connection\<close>

record wclient =
  wc_keepAlive :: bool
  wc_timeoutMs :: nat
  wc_socket :: "nat option"
  wc_connectPromise :: bool
  wc_inbound :: bytes
  wc_pendingQueue :: "nat list"
  wc_writeBacklog :: "bytes list"
  wc_net :: "nat \<Rightarrow> sock"
  wc_out :: "WormResponse client_effect list"

definition WormClient_new :: "nat option \<Rightarrow> bool option \<Rightarrow> wclient" where
  "WormClient_new timeoutMs keepAlive =
     \<lparr>wc_keepAlive = (case keepAlive of Some k \<Rightarrow> k | None \<Rightarrow> False),
      wc_timeoutMs = (case timeoutMs of Some t \<Rightarrow> t | None \<Rightarrow> 3000),
      wc_socket = None, wc_connectPromise = False, wc_inbound = [], wc_pendingQueue = [],
      wc_writeBacklog = [], wc_net = (\<lambda>_. fresh_sock), wc_out = []\<rparr>"

definition emit :: "wclient \<Rightarrow> WormResponse client_effect list \<Rightarrow> wclient" where
  "emit c es = c\<lparr>wc_out := wc_out c @ es\<rparr>"

definition rejectAllPending :: "wclient \<Rightarrow> js_error \<Rightarrow> wclient" where
  "rejectAllPending c err =
     (if length (wc_pendingQueue c) = 0 then c
      else
        let out = wc_pendingQueue c
        in emit (c\<lparr>wc_pendingQueue := []\<rparr>) (reject_queue err out))"

definition client_close :: "wclient \<Rightarrow> wclient" where
  "client_close c =
     (let c = rejectAllPending c ClientConnectionClosedError;
          c = (case wc_socket c of
                 None \<Rightarrow> c
               | Some s \<Rightarrow> (emit c [SocketEnd s])\<lparr>wc_socket := None\<rparr>)
      in c\<lparr>wc_connectPromise := False, wc_inbound := []\<rparr>)"

text \<open>
  \<open>getOrCreateSocket\<close>: the socket in hand, or the caller waits for \<open>connectPromise\<close>, which is
  created by \<open>Bun.connect\<close> when there is none.
\<close>

definition getOrCreateSocket :: "wclient \<Rightarrow> wclient \<times> nat option" where
  "getOrCreateSocket c =
     (case wc_socket c of
        Some s \<Rightarrow> (c, Some s)
      | None \<Rightarrow>
          if wc_connectPromise c then (c, None)
          else ((emit c [BunConnect])\<lparr>wc_connectPromise := True\<rparr>, None))"

definition on_open :: "write_oracle \<Rightarrow> wclient \<Rightarrow> nat \<Rightarrow> wclient" where
  "on_open wr c s =
     c\<lparr>wc_socket := Some s, wc_inbound := [],
       wc_net := (wc_net c)(s := snd (sock_write wr (wc_net c s) WIRE_MAGIC))\<rparr>"

definition on_frame :: "wclient \<Rightarrow> nat \<Rightarrow> bytes \<Rightarrow> wclient" where
  "on_frame c code payload =
     (if isEventCode code then c
      else
        case wc_pendingQueue c of
          [] \<Rightarrow> c
        | pending # rest \<Rightarrow>
            emit (c\<lparr>wc_pendingQueue := rest\<rparr>)
              [ClearTimer pending, Resolve pending (decodeResponse code payload)])"

definition on_data :: "wclient \<Rightarrow> bytes \<Rightarrow> wclient" where
  "on_data c chunk =
     (let (c', rest) = frame_loop on_frame (wc_inbound c @ chunk) c
      in c'\<lparr>wc_inbound := rest\<rparr>)"

definition on_drain :: "write_oracle \<Rightarrow> wclient \<Rightarrow> nat \<Rightarrow> wclient" where
  "on_drain wr c s =
     (let (b, s') = flushBacklog wr (wc_writeBacklog c) (wc_net c s)
      in c\<lparr>wc_writeBacklog := b, wc_net := (wc_net c)(s := s')\<rparr>)"

definition on_close :: "wclient \<Rightarrow> wclient" where
  "on_close c = rejectAllPending
     (c\<lparr>wc_socket := None, wc_connectPromise := False, wc_writeBacklog := []\<rparr>)
     ClientConnectionClosedError"

definition on_error :: "wclient \<Rightarrow> js_error \<Rightarrow> wclient" where
  "on_error c err = rejectAllPending
     (c\<lparr>wc_socket := None, wc_connectPromise := False, wc_writeBacklog := []\<rparr>) err"

text \<open>The reactions of \<open>connectPromise\<close>: both clear it; a failure is passed on to the waiting senders.\<close>

definition on_connect_settled :: "wclient \<Rightarrow> wclient" where
  "on_connect_settled c = c\<lparr>wc_connectPromise := False\<rparr>"

text \<open>The timer every pending request starts.\<close>

definition on_timeout :: "wclient \<Rightarrow> wclient" where
  "on_timeout c = rejectAllPending c (ClientTimeoutError (wc_timeoutMs c))"

text \<open>The body of the promise of \<open>sendPersistent\<close>, once the socket is there.\<close>

definition send_on_socket :: "write_oracle \<Rightarrow> wclient \<Rightarrow> nat \<Rightarrow> bytes \<Rightarrow> nat \<Rightarrow> wclient" where
  "send_on_socket wr c i frame s =
     (let c = emit (c\<lparr>wc_pendingQueue := wc_pendingQueue c @ [i]\<rparr>) [SetTimer i];
          (threw, b, s') = writeOrQueue wr (wc_writeBacklog c) (wc_net c s) frame;
          c = c\<lparr>wc_writeBacklog := b, wc_net := (wc_net c)(s := s')\<rparr>
      in if \<not> threw then c
         else if wc_pendingQueue c = [] then c
         else
           let pending = last (wc_pendingQueue c)
           in emit (c\<lparr>wc_pendingQueue := butlast (wc_pendingQueue c)\<rparr>)
                [ClearTimer pending, Reject pending WriteFailed])"

text \<open>
  \<open>sendPersistent\<close> up to its first suspension: the frame is encoded first, so an oversized
  command fails before a connection is opened. The second component says how it goes on.
\<close>

datatype send_progress = SendFailed | SendWaits bytes | SendHas bytes nat

definition sendPersistent :: "wclient \<Rightarrow> nat \<Rightarrow> ParsedCommand \<Rightarrow> wclient \<times> send_progress" where
  "sendPersistent c i parsed =
     (case encodeCommandFrame parsed of
        Inl e \<Rightarrow> (emit c [Reject i (WireFailure e)], SendFailed)
      | Inr outboundFrame \<Rightarrow>
          (case getOrCreateSocket c of
             (c', Some s) \<Rightarrow> (c', SendHas outboundFrame s)
           | (c', None) \<Rightarrow> (c', SendWaits outboundFrame)))"

subsection \<open>Requests on a connection of their own\<close>

record oneshot =
  os_timeoutMs :: nat
  os_settled :: bool
  os_inbound :: bytes
  os_socketRef :: "nat option"
  os_pendingBytes :: "bytes option"
  os_sock :: sock
  os_out :: "WormResponse client_effect list"

definition sendOneShotParsed :: "nat \<Rightarrow> ParsedCommand \<Rightarrow> wire_error + oneshot" where
  "sendOneShotParsed timeoutMs parsed =
     and_then (encodeCommandFrame parsed) (\<lambda>frame.
     and_then (of_opt RangeError (concatBytes [WIRE_MAGIC, frame])) (\<lambda>outboundFrame.
       Inr \<lparr>os_timeoutMs = timeoutMs, os_settled = False, os_inbound = [], os_socketRef = None,
            os_pendingBytes = Some outboundFrame, os_sock = fresh_sock,
            os_out = [SetTimer 0, BunConnect]\<rparr>))"

definition finalize :: "oneshot \<Rightarrow> WormResponse client_effect \<Rightarrow> oneshot" where
  "finalize o' fn =
     (if os_settled o' then o'
      else o'\<lparr>os_settled := True,
              os_out := os_out o' @ [ClearTimer 0]
                @ (case os_socketRef o' of None \<Rightarrow> [] | Some s \<Rightarrow> [SocketEnd s]) @ [fn]\<rparr>)"

definition os_fail :: "oneshot \<Rightarrow> js_error \<Rightarrow> oneshot" where
  "os_fail o' err = finalize o' (Reject 0 err)"

definition os_finish :: "oneshot \<Rightarrow> WormResponse \<Rightarrow> oneshot" where
  "os_finish o' v = finalize o' (Resolve 0 v)"

definition writeChunk :: "write_oracle \<Rightarrow> oneshot \<Rightarrow> oneshot" where
  "writeChunk wr o' =
     (case os_pendingBytes o' of
        None \<Rightarrow> o'
      | Some pendingBytes \<Rightarrow>
          let (written, s') = sock_write wr (os_sock o') pendingBytes;
              o' = o'\<lparr>os_sock := s'\<rparr>
          in if written < 0 then o'
             else if written < int (length pendingBytes)
             then o'\<lparr>os_pendingBytes := Some (drop (nat written) pendingBytes)\<rparr>
             else o'\<lparr>os_pendingBytes := None\<rparr>)"

text \<open>\<open>while (!settled)\<close>: event frames are skipped, the first response settles the request.\<close>

function os_loop :: "oneshot \<Rightarrow> oneshot" where
  "os_loop o' =
     (if os_settled o' then o'
      else
        case tryConsumeFrame (os_inbound o') of
          None \<Rightarrow> o'
        | Some frame \<Rightarrow>
            let o' = o'\<lparr>os_inbound := pf_remaining frame\<rparr>
            in if isEventCode (pf_code frame) then os_loop o'
               else os_finish o' (decodeResponse (pf_code frame) (pf_payload frame)))"
  by pat_completeness auto
termination
  by (relation "measure (\<lambda>o'. length (os_inbound o'))") (auto simp: tryConsumeFrame_shorter)

declare os_loop.simps [simp del]

datatype os_event =
    OsOpen | OsDrain | OsData bytes | OsClose | OsError js_error | OsTimeout
  | OsConnected nat | OsConnectFailed js_error

fun os_handle :: "write_oracle \<Rightarrow> oneshot \<Rightarrow> os_event \<Rightarrow> oneshot" where
  "os_handle wr o' OsOpen = writeChunk wr o'"
| "os_handle wr o' OsDrain = writeChunk wr o'"
| "os_handle wr o' (OsData chunk) = os_loop (o'\<lparr>os_inbound := os_inbound o' @ chunk\<rparr>)"
| "os_handle wr o' OsClose = (if os_settled o' then o' else os_fail o' ClientConnectionClosedError)"
| "os_handle wr o' (OsError err) = os_fail o' err"
| "os_handle wr o' OsTimeout = os_fail o' (ClientTimeoutError (os_timeoutMs o'))"
| "os_handle wr o' (OsConnected s) = o'\<lparr>os_socketRef := Some s\<rparr>"
| "os_handle wr o' (OsConnectFailed err) = os_fail o' err"

subsection \<open>The public methods\<close>

datatype started =
    OnConnection wclient send_progress
  | OwnConnection oneshot
  | Thrown js_error

definition sendCommand :: "wclient \<Rightarrow> nat \<Rightarrow> ParsedCommand \<Rightarrow> started" where
  "sendCommand c i parsed =
     (if wc_keepAlive c then (case sendPersistent c i parsed of (c', p) \<Rightarrow> OnConnection c' p)
      else (case sendOneShotParsed (wc_timeoutMs c) parsed of
              Inl e \<Rightarrow> Thrown (WireFailure e)
            | Inr o' \<Rightarrow> OwnConnection o'))"

definition client_send :: "wclient \<Rightarrow> nat \<Rightarrow> jstring \<Rightarrow> started" where
  "client_send c i command =
     (case parseCommand command of
        Inl e \<Rightarrow> Thrown (CommandFailure e)
      | Inr parsed \<Rightarrow>
          if wc_keepAlive c then (case sendPersistent c i parsed of (c', p) \<Rightarrow> OnConnection c' p)
          else (case sendOneShotParsed (wc_timeoutMs c) parsed of
                  Inl e \<Rightarrow> Thrown (WireFailure e)
                | Inr o' \<Rightarrow> OwnConnection o'))"

text \<open>The options of the vector commands; \<open>None\<close> is an option the caller left out.\<close>

record vector_options =
  vo_worm :: "bool option"
  vo_namespace :: "jstring option"
  vo_metric :: "Metric option"
  vo_timestamp :: "int option"
  vo_async :: "bool option"

definition vinsertNative :: "int \<Rightarrow> wclient \<Rightarrow> nat \<Rightarrow> jstring \<Rightarrow> bytes \<Rightarrow> vector_options \<Rightarrow> started" where
  "vinsertNative now c i key vector opts =
     sendCommand c i (CmdVinsert key vector (or_default (vo_worm opts) True)
       (or_default (vo_namespace opts) (js ''vec:'')) (or_default (vo_metric opts) Cosine)
       (or_default (vo_timestamp opts) now) (or_default (vo_async opts) False))"

definition vbulkinsertNative ::
  "int \<Rightarrow> wclient \<Rightarrow> nat \<Rightarrow> (jstring \<times> bytes \<times> int option) list \<Rightarrow> vector_options \<Rightarrow> started" where
  "vbulkinsertNative now c i items opts =
     sendCommand c i (CmdVbulkinsert (or_default (vo_namespace opts) (js ''vec:''))
       (or_default (vo_metric opts) Cosine) (or_default (vo_worm opts) False)
       (or_default (vo_async opts) False)
       (map (\<lambda>(key, vector, timestamp).
          \<lparr>bi_key = key, bi_vector = vector, bi_timestamp = or_default timestamp now\<rparr>) items))"

subsection \<open>Responses are matched in order\<close>

lemma emit_simps [simp]:
  "wc_out (emit c es) = wc_out c @ es"
  "wc_pendingQueue (emit c es) = wc_pendingQueue c"
  "wc_socket (emit c es) = wc_socket c"
  "wc_inbound (emit c es) = wc_inbound c"
  "wc_writeBacklog (emit c es) = wc_writeBacklog c"
  "wc_net (emit c es) = wc_net c"
  "wc_connectPromise (emit c es) = wc_connectPromise c"
  "wc_timeoutMs (emit c es) = wc_timeoutMs c"
  by (simp_all add: emit_def)

lemma emit_inbound: "emit (c\<lparr>wc_inbound := b\<rparr>) es = (emit c es)\<lparr>wc_inbound := b\<rparr>"
  by (simp add: emit_def)

lemma on_frame_inbound: "on_frame (c\<lparr>wc_inbound := b\<rparr>) code p = (on_frame c code p)\<lparr>wc_inbound := b\<rparr>"
  by (cases "wc_pendingQueue c") (simp_all add: on_frame_def emit_def)

text \<open>The pairs of a request and its answer that a list of response frames produces.\<close>

definition answered :: "nat list \<Rightarrow> (nat \<times> bytes) list \<Rightarrow> (nat \<times> (js_error + WormResponse)) list" where
  "answered q rs = map2 (\<lambda>i (code, p). (i, Inr (decodeResponse code p))) q rs"

lemma answered_simps [simp]:
  "answered [] rs = []" "answered q [] = []"
  "answered (i # q) ((c, p) # rs) = (i, Inr (decodeResponse c p)) # answered q rs"
  by (simp_all add: answered_def)

lemma on_frame_foldl:
  "wc_pendingQueue (foldl (\<lambda>s (c, p). on_frame s c p) c fs)
     = drop (length (responses fs)) (wc_pendingQueue c)"
  "settled_by (wc_out (foldl (\<lambda>s (c, p). on_frame s c p) c fs))
     = settled_by (wc_out c) @ answered (wc_pendingQueue c) (responses fs)"
  "wc_inbound (foldl (\<lambda>s (c, p). on_frame s c p) c fs) = wc_inbound c"
proof (induction fs arbitrary: c)
  case (Cons f fs)
  obtain code p where f: "f = (code, p)" by (cases f)
  {
    case 1
    show ?case using Cons(1) [of "on_frame c code p"] f
      by (cases "wc_pendingQueue c") (auto simp: on_frame_def)
  next
    case 2
    show ?case using Cons(2) [of "on_frame c code p"] f
      by (cases "wc_pendingQueue c") (auto simp: on_frame_def)
  next
    case 3
    show ?case using Cons(3) [of "on_frame c code p"] f
      by (cases "wc_pendingQueue c") (auto simp: on_frame_def)
  }
qed simp_all

lemma on_data_append: "on_data (on_data c a) b = on_data c (a @ b)"
proof -
  obtain c' r where r: "frame_loop on_frame (wc_inbound c @ a) c = (c', r)"
    by (cases "frame_loop on_frame (wc_inbound c @ a) c")
  obtain c'' r' where r': "frame_loop on_frame (r @ b) c' = (c'', r')"
    by (cases "frame_loop on_frame (r @ b) c'")
  have "frame_loop on_frame (r @ b) (c'\<lparr>wc_inbound := r\<rparr>) = (c''\<lparr>wc_inbound := r\<rparr>, r')"
    using frame_loop_commute [of on_frame "\<lambda>c. c\<lparr>wc_inbound := r\<rparr>" "r @ b" c']
    by (simp add: on_frame_inbound r')
  moreover have "frame_loop on_frame ((wc_inbound c @ a) @ b) c = (c'', r')"
    using frame_loop_append [of on_frame "wc_inbound c @ a" b c] by (simp add: r r')
  ultimately show ?thesis
    by (simp add: on_data_def r)
qed

interpretation wclient_data: chunk_consumer on_data
  by unfold_locales (rule on_data_append)

lemma on_data_stream:
  assumes "wc_inbound c = []" and "\<forall>f \<in> set fs. wire_frame f"
  shows "on_data c (stream_of fs) = foldl (\<lambda>s (c, p). on_frame s c p) c fs"
  using assms frame_loop_stream [of fs on_frame "[]" c] on_frame_foldl(3) [of c fs]
  by (simp add: on_data_def)

text \<open>
C3: however the server's bytes are cut into chunks, the persistent client answers its pending
requests in the order they were sent: the n-th response frame that is not an event resolves the
n-th pending request, event frames answer none, and the requests left over stay queued.
\<close>

theorem client_answers_in_order:
  assumes "wc_inbound c = []" and "\<forall>f \<in> set fs. wire_frame f"
    and "cs \<noteq> []" and "concat cs = stream_of fs"
  shows "settled_by (wc_out (foldl on_data c cs))
           = settled_by (wc_out c) @ answered (wc_pendingQueue c) (responses fs)
       \<and> wc_pendingQueue (foldl on_data c cs) = drop (length (responses fs)) (wc_pendingQueue c)
       \<and> wc_inbound (foldl on_data c cs) = []"
proof -
  have "foldl on_data c cs = on_data c (stream_of fs)"
    using wclient_data.same_stream [of cs "[stream_of fs]" c] assms by simp
  then show ?thesis
    using assms on_frame_foldl [of c fs] by (simp add: on_data_stream)
qed

theorem client_answers_in_order_witness:
  "settled_by (wc_out (foldl on_data ((WormClient_new None (Some True))\<lparr>wc_pendingQueue := [7, 8]\<rparr>)
      [[0, 0, 0, 0], [0, 2, 0, 0, 0, 0]])) = [(7, Inr ROk), (8, Inr RNull)]"
  using client_answers_in_order [of "(WormClient_new None (Some True))\<lparr>wc_pendingQueue := [7, 8]\<rparr>"
      "[(0, []), (2, [])]" "[[0, 0, 0, 0], [0, 2, 0, 0, 0, 0]]"]
  by (simp add: WormClient_new_def wire_frame_def stream_of_def frame_bytes_def be32_def responses_def
      isEventCode_def decodeResponse_def)

lemma rejectAllPending_simps [simp]:
  "wc_pendingQueue (rejectAllPending c err) = []"
  "wc_socket (rejectAllPending c err) = wc_socket c"
  "wc_inbound (rejectAllPending c err) = wc_inbound c"
  "wc_writeBacklog (rejectAllPending c err) = wc_writeBacklog c"
  "wc_net (rejectAllPending c err) = wc_net c"
  "wc_timeoutMs (rejectAllPending c err) = wc_timeoutMs c"
  "settled_by (wc_out (rejectAllPending c err))
     = settled_by (wc_out c) @ map (\<lambda>i. (i, Inl err)) (wc_pendingQueue c)"
  by (auto simp: rejectAllPending_def Let_def)

text \<open>
However the connection ends - \<open>close()\<close>, the socket's close or error callback, or the
timer of any request - every pending request is rejected exactly once, in order, and none is left;
when the socket is gone the backlog is dropped with it.
\<close>

theorem client_end_rejects_all:
  "settled_by (wc_out (client_close c))
     = settled_by (wc_out c) @ map (\<lambda>i. (i, Inl ClientConnectionClosedError)) (wc_pendingQueue c)
   \<and> wc_pendingQueue (client_close c) = [] \<and> wc_socket (client_close c) = None
   \<and> settled_by (wc_out (on_close c))
     = settled_by (wc_out c) @ map (\<lambda>i. (i, Inl ClientConnectionClosedError)) (wc_pendingQueue c)
   \<and> wc_pendingQueue (on_close c) = [] \<and> wc_writeBacklog (on_close c) = []
   \<and> settled_by (wc_out (on_error c err))
     = settled_by (wc_out c) @ map (\<lambda>i. (i, Inl err)) (wc_pendingQueue c)
   \<and> wc_pendingQueue (on_error c err) = [] \<and> wc_writeBacklog (on_error c err) = []
   \<and> settled_by (wc_out (on_timeout c))
     = settled_by (wc_out c)
       @ map (\<lambda>i. (i, Inl (ClientTimeoutError (wc_timeoutMs c)))) (wc_pendingQueue c)
   \<and> wc_pendingQueue (on_timeout c) = []"
  by (auto simp: client_close_def on_close_def on_error_def on_timeout_def Let_def split: option.splits)

subsection \<open>After a timeout the connection is out of step\<close>

text \<open>
A timeout of the persistent client rejects its pending requests but keeps the socket, so
the late response to a request that timed out resolves the next request sent on the connection.
\<close>

theorem client_late_response_misattributed:
  assumes "wc_socket c = Some s" and "wc_inbound c = []" and "wc_pendingQueue c = [i]"
    and "never_fails wr" and "wire_frame (code, p)" and "\<not> isEventCode code"
  shows "settled_by (wc_out
           (on_data (send_on_socket wr (on_timeout c) j frame s) (frame_bytes code p)))
       = settled_by (wc_out c) @ [(i, Inl (ClientTimeoutError (wc_timeoutMs c))),
           (j, Inr (decodeResponse code p))]"
proof -
  let ?c = "send_on_socket wr (on_timeout c) j frame s"
  obtain threw b s' where w: "writeOrQueue wr (wc_writeBacklog c) (wc_net c s) frame = (threw, b, s')"
    by (cases "writeOrQueue wr (wc_writeBacklog c) (wc_net c s) frame") auto
  then have "\<not> threw" using writeOrQueue_ok(1) [OF assms(4)] by blast
  with w have c: "wc_pendingQueue ?c = [j]" "wc_inbound ?c = []"
    "settled_by (wc_out ?c) = settled_by (wc_out c) @ [(i, Inl (ClientTimeoutError (wc_timeoutMs c)))]"
    using assms(2,3) by (simp_all add: send_on_socket_def on_timeout_def Let_def)
  have "on_data ?c (frame_bytes code p) = on_frame ?c code p"
    using on_data_stream [of ?c "[(code, p)]"] c(2) assms(5) by (simp add: stream_of_def)
  then show ?thesis
    using c assms(6) by (simp add: on_frame_def)
qed

theorem client_late_response_misattributed_witness:
  "settled_by (wc_out
     (on_data (send_on_socket (ok_socket (\<lambda>k d. length d))
        (on_timeout ((WormClient_new None (Some True))\<lparr>wc_socket := Some 1, wc_pendingQueue := [7]\<rparr>))
        8 [4, 0, 0, 0, 0] 1) (frame_bytes 0 [])))
   = [(7, Inl (ClientTimeoutError 3000)), (8, Inr ROk)]"
  using client_late_response_misattributed [of
      "(WormClient_new None (Some True))\<lparr>wc_socket := Some 1, wc_pendingQueue := [7]\<rparr>" 1 7
      "ok_socket (\<lambda>k d. length d)" 0 "[]" 8 "[4, 0, 0, 0, 0]"]
  by (simp add: WormClient_new_def wire_frame_def isEventCode_def decodeResponse_def)

subsection \<open>One-shot requests\<close>

definition os_run :: "write_oracle \<Rightarrow> oneshot \<Rightarrow> os_event list \<Rightarrow> oneshot" where
  "os_run wr o' evs = foldl (os_handle wr) o' evs"

text \<open>The request is settled at most once; the flag records whether it was.\<close>

definition os_inv :: "bytes \<Rightarrow> oneshot \<Rightarrow> bool" where
  "os_inv outbound o' \<longleftrightarrow>
     length (settled_by (os_out o')) = (if os_settled o' then 1 else 0)
     \<and> s_sent (os_sock o') @ (case os_pendingBytes o' of None \<Rightarrow> [] | Some b \<Rightarrow> b) = outbound"

lemma finalize_inv:
  "os_inv out o' \<Longrightarrow> settles fn \<noteq> None \<Longrightarrow> os_inv out (finalize o' fn)"
  by (auto simp: os_inv_def finalize_def split: option.splits)

lemma writeChunk_inv: "os_inv out o' \<Longrightarrow> os_inv out (writeChunk wr o')"
  by (auto simp: os_inv_def writeChunk_def sock_write_def Let_def split: option.splits if_splits)

lemma os_inv_inbound: "os_inv out (o'\<lparr>os_inbound := b\<rparr>) \<longleftrightarrow> os_inv out o'"
  by (simp add: os_inv_def)

lemma os_loop_inv: "os_inv out o' \<Longrightarrow> os_inv out (os_loop o')"
proof (induction o' rule: os_loop.induct)
  case (1 o')
  show ?case
  proof (cases "os_settled o' \<or> tryConsumeFrame (os_inbound o') = None")
    case True
    with 1 show ?thesis by (subst os_loop.simps) (auto split: option.splits)
  next
    case False
    then obtain f where f: "\<not> os_settled o'" "tryConsumeFrame (os_inbound o') = Some f"
      by auto
    show ?thesis
      using 1(1) [OF f refl] 1(2) f
      by (subst os_loop.simps) (auto simp: os_inv_inbound os_finish_def Let_def intro!: finalize_inv)
  qed
qed

lemma os_handle_inv: "os_inv out o' \<Longrightarrow> os_inv out (os_handle wr o' ev)"
  by (cases ev)
    (auto simp: writeChunk_inv os_loop_inv os_inv_inbound os_fail_def intro!: finalize_inv,
     simp add: os_inv_def)

lemma os_run_inv: "os_inv out o' \<Longrightarrow> os_inv out (os_run wr o' evs)"
  by (induction evs arbitrary: o') (auto simp: os_run_def os_handle_inv)

lemma sendOneShotParsed_inv:
  "encodeCommandFrame c = Inr frame \<Longrightarrow> sendOneShotParsed t c = Inr o' \<Longrightarrow> os_inv (WIRE_MAGIC @ frame) o'"
  by (auto simp: sendOneShotParsed_def concatBytes_concat os_inv_def fresh_sock_def)

text \<open>
Whatever happens on its connection - opening, drains, data, close, errors, a timeout, in
any order - a one-shot request settles its promise at most once, and the bytes the socket took
followed by the bytes still to write are the magic and the command frame.
\<close>

theorem oneshot_settles_once:
  assumes "encodeCommandFrame c = Inr frame" and "sendOneShotParsed t c = Inr o'"
  shows "length (settled_by (os_out (os_run wr o' evs))) = (if os_settled (os_run wr o' evs) then 1 else 0)
       \<and> s_sent (os_sock (os_run wr o' evs))
           @ (case os_pendingBytes (os_run wr o' evs) of None \<Rightarrow> [] | Some b \<Rightarrow> b) = WIRE_MAGIC @ frame"
  using os_run_inv [OF sendOneShotParsed_inv [OF assms], of wr evs] by (simp add: os_inv_def)

lemma encode_status: "encodeCommandFrame CmdStatus = Inr [4, 0, 0, 0, 0]"
  by (simp add: encodeCommandFrame_framed framed_def frame_bytes_def be32_def MAX_PAYLOAD_def)

lemma oneshot_status:
  "sendOneShotParsed t CmdStatus =
     Inr \<lparr>os_timeoutMs = t, os_settled = False, os_inbound = [], os_socketRef = None,
       os_pendingBytes = Some [0x57, 0x57, 4, 0, 0, 0, 0], os_sock = fresh_sock,
       os_out = [SetTimer 0, BunConnect]\<rparr>"
  by (simp add: sendOneShotParsed_def encode_status concatBytes_concat WIRE_MAGIC_def)

theorem oneshot_settles_once_witness:
  "\<exists>o'. sendOneShotParsed 3000 CmdStatus = Inr o' \<and>
     length (settled_by (os_out (os_run (ok_socket (\<lambda>k d. 3)) o' [OsOpen, OsTimeout, OsClose]))) = 1 \<and>
     s_sent (os_sock (os_run (ok_socket (\<lambda>k d. 3)) o' [OsOpen, OsTimeout, OsClose])) = [0x57, 0x57, 4]"
proof -
  let ?wr = "ok_socket (\<lambda>k d. 3)" and ?evs = "[OsOpen, OsTimeout, OsClose]"
  show ?thesis
    using oneshot_settles_once [OF encode_status oneshot_status, of ?wr 3000 ?evs]
    by (simp add: oneshot_status os_run_def writeChunk_def sock_write_def ok_socket_def fresh_sock_def
        os_fail_def finalize_def)
qed

text \<open>The first response frame answers; event frames before it are skipped.\<close>

lemma os_loop_stream:
  assumes "\<not> os_settled o'" and "\<forall>f \<in> set fs. wire_frame f" and "responses fs \<noteq> []"
  shows "os_out (os_loop (o'\<lparr>os_inbound := stream_of fs @ r\<rparr>))
       = os_out (os_finish o' (decodeResponse (fst (hd (responses fs))) (snd (hd (responses fs)))))"
  using assms
proof (induction fs arbitrary: o')
  case (Cons f fs)
  obtain c p where f: "f = (c, p)" by (cases f)
  have t: "tryConsumeFrame (stream_of (f # fs) @ r)
      = Some \<lparr>pf_code = c, pf_payload = p, pf_remaining = stream_of fs @ r\<rparr>"
    using Cons.prems(2) f tryConsumeFrame_frame_bytes [of c p "stream_of fs @ r"]
    by (simp add: stream_of_def wire_frame_def)
  show ?case
  proof (cases "isEventCode c")
    case True
    then show ?thesis
      using Cons f t by (subst os_loop.simps) (simp add: Let_def)
  next
    case False
    then show ?thesis
      using Cons.prems(1) f t
      by (subst os_loop.simps) (simp add: Let_def os_finish_def finalize_def)
  qed
qed simp

text \<open>
An open one-shot request that receives a stream of frames resolves with the first frame
that is not an event, closes its socket and settles nothing else.
\<close>

theorem oneshot_first_response:
  assumes "\<not> os_settled o'" and "os_inbound o' = []" and "os_socketRef o' = Some s"
    and "\<forall>f \<in> set fs. wire_frame f" and "responses fs = (code, p) # rs"
  shows "os_out (os_handle wr o' (OsData (stream_of fs)))
       = os_out o' @ [ClearTimer 0, SocketEnd s, Resolve 0 (decodeResponse code p)]"
  using assms os_loop_stream [of o' fs "[]"] by (simp add: os_finish_def finalize_def)

theorem oneshot_first_response_witness:
  "os_out (os_handle (ok_socket (\<lambda>k d. 3))
      \<lparr>os_timeoutMs = 3000, os_settled = False, os_inbound = [], os_socketRef = Some 1,
       os_pendingBytes = None, os_sock = fresh_sock, os_out = []\<rparr> (OsData (stream_of [(4, []), (2, [])])))
   = [ClearTimer 0, SocketEnd 1, Resolve 0 RNull]"
  using oneshot_first_response [of "\<lparr>os_timeoutMs = 3000, os_settled = False, os_inbound = [],
      os_socketRef = Some 1, os_pendingBytes = None, os_sock = fresh_sock, os_out = []\<rparr>" 1
      "[(4, []), (2, [])]" 2 "[]" "[]" "ok_socket (\<lambda>k d. 3)"]
  by (simp add: wire_frame_def isEventCode_def decodeResponse_def del: os_handle.simps)

text \<open>
A one-shot request whose timer fires before its connection is open still sends its
command when the socket opens: the caller's promise was already rejected, the whole frame goes out,
and nothing ends the socket.
\<close>

theorem oneshot_timeout_still_sends:
  assumes "encodeCommandFrame c = Inr frame" and "sendOneShotParsed t c = Inr o'"
  defines "o2 \<equiv> os_run (ok_socket (\<lambda>k d. length d)) o' [OsTimeout, OsOpen]"
  shows "settled_by (os_out o2) = [(0, Inl (ClientTimeoutError t))]
       \<and> s_sent (os_sock o2) = WIRE_MAGIC @ frame \<and> SocketEnd s \<notin> set (os_out o2)"
  using assms(1,2)
  by (auto simp: o2_def os_run_def sendOneShotParsed_def concatBytes_concat os_fail_def finalize_def
      writeChunk_def sock_write_def ok_socket_def fresh_sock_def)

theorem oneshot_timeout_still_sends_witness:
  "\<exists>o'. sendOneShotParsed 3000 CmdStatus = Inr o' \<and>
     s_sent (os_sock (os_run (ok_socket (\<lambda>k d. length d)) o' [OsTimeout, OsOpen]))
       = [0x57, 0x57, 4, 0, 0, 0, 0]"
  using oneshot_timeout_still_sends [OF encode_status oneshot_status, of 3000]
  by (simp add: oneshot_status WIRE_MAGIC_def)

end
