(* ===== verification/Browser_Wire.thy ===== *)
theory Browser_Wire
  imports Server_Wire
begin

section \<open>The browser's codec (\<open>apps/browser/src/wire.ts\<close>)\<close>

text \<open>
  The codec of the browser client: one WebSocket message is one frame. The encoders write into
  buffers of a computed size like those of the Bun library, without its limit on the payload; a
  write out of the buffer would be a \<open>RangeError\<close>, here \<open>None\<close>.
\<close>

datatype CMD = CMD_GET | CMD_SET | CMD_DEL | CMD_STATUS | CMD_CLUSTER_STATUS | CMD_SUB | CMD_UNSUB
  | CMD_PUB | CMD_EXEC | CMD_CLUSTER_PEERS | CMD_SAVE | CMD_AUTH

fun cmd_code :: "CMD \<Rightarrow> nat" where
  "cmd_code CMD_GET = 0x01"
| "cmd_code CMD_SET = 0x02"
| "cmd_code CMD_DEL = 0x03"
| "cmd_code CMD_STATUS = 0x04"
| "cmd_code CMD_CLUSTER_STATUS = 0x05"
| "cmd_code CMD_SUB = 0x06"
| "cmd_code CMD_UNSUB = 0x07"
| "cmd_code CMD_PUB = 0x08"
| "cmd_code CMD_EXEC = 0x09"
| "cmd_code CMD_CLUSTER_PEERS = 0x0A"
| "cmd_code CMD_SAVE = 0x0B"
| "cmd_code CMD_AUTH = 0x0C"

datatype RESP = RESP_OK | RESP_VALUE | RESP_NULL | RESP_ERR | RESP_EVENT

fun resp_code :: "RESP \<Rightarrow> nat" where
  "resp_code RESP_OK = 0x00"
| "resp_code RESP_VALUE = 0x01"
| "resp_code RESP_NULL = 0x02"
| "resp_code RESP_ERR = 0x03"
| "resp_code RESP_EVENT = 0x04"

datatype BResponse = BOk | BError jstring | BNull | BValue jstring | BEvent jstring jstring

subsection \<open>Encoding\<close>

definition u8 :: "jstring \<Rightarrow> bytes" where
  "u8 s = encodeUtf8 s"

definition str :: "bytes \<Rightarrow> jstring" where
  "str b = decodeUtf8 b"

definition writeU32BE :: "bytes \<Rightarrow> nat \<Rightarrow> nat \<Rightarrow> bytes option" where
  "writeU32BE target offset value = u8_set target (be32 value) offset"

definition readU32BE :: "bytes \<Rightarrow> nat \<Rightarrow> nat" where
  "readU32BE source offset = rd32 (drop offset source)"

definition bframe :: "CMD \<Rightarrow> bytes \<Rightarrow> bytes option" where
  "bframe code payload = do {
     let out = alloc (5 + length payload);
     let out = u8_put out 0 (cmd_code code);
     out \<leftarrow> writeU32BE out 1 (length payload);
     u8_set out payload 5
   }"

definition lenPrefixed :: "jstring \<Rightarrow> bytes option" where
  "lenPrefixed s = do {
     let data = u8 s;
     let out = alloc (4 + length data);
     out \<leftarrow> writeU32BE out 0 (length data);
     u8_set out data 4
   }"

definition lenPrefixedBytes :: "bytes \<Rightarrow> bytes option" where
  "lenPrefixedBytes data = do {
     let out = alloc (4 + length data);
     out \<leftarrow> writeU32BE out 0 (length data);
     u8_set out data 4
   }"

definition encodeGet :: "jstring \<Rightarrow> bytes option" where
  "encodeGet key = do { payload \<leftarrow> lenPrefixed key; bframe CMD_GET payload }"

definition encodeSet :: "jstring \<Rightarrow> jstring \<Rightarrow> bool \<Rightarrow> bytes option" where
  "encodeSet key val worm = do {
     let keyBuf = u8 key;
     let valBuf = u8 val;
     let payload = alloc (1 + 4 + length keyBuf + 4 + length valBuf);
     let payload = u8_put payload 0 (if worm then 1 else 0);
     let off = 1;
     payload \<leftarrow> writeU32BE payload off (length keyBuf);
     let off = off + 4;
     payload \<leftarrow> u8_set payload keyBuf off;
     let off = off + length keyBuf;
     payload \<leftarrow> writeU32BE payload off (length valBuf);
     let off = off + 4;
     payload \<leftarrow> u8_set payload valBuf off;
     bframe CMD_SET payload
   }"

definition encodeDel :: "jstring \<Rightarrow> bytes option" where
  "encodeDel key = do { payload \<leftarrow> lenPrefixed key; bframe CMD_DEL payload }"

definition encodeStatus :: "bytes option" where
  "encodeStatus = bframe CMD_STATUS (alloc 0)"

definition encodeSub :: "jstring \<Rightarrow> bytes option" where
  "encodeSub channel = do { payload \<leftarrow> lenPrefixed channel; bframe CMD_SUB payload }"

definition encodeUnsub :: "jstring \<Rightarrow> bytes option" where
  "encodeUnsub channel = do { payload \<leftarrow> lenPrefixed channel; bframe CMD_UNSUB payload }"

definition encodePub :: "jstring \<Rightarrow> jstring \<Rightarrow> bytes option" where
  "encodePub channel message = do {
     let chBuf = u8 channel;
     let msgBuf = u8 message;
     let payload = alloc (4 + length chBuf + 4 + length msgBuf);
     let off = 0;
     payload \<leftarrow> writeU32BE payload off (length chBuf);
     let off = off + 4;
     payload \<leftarrow> u8_set payload chBuf off;
     let off = off + length chBuf;
     payload \<leftarrow> writeU32BE payload off (length msgBuf);
     let off = off + 4;
     payload \<leftarrow> u8_set payload msgBuf off;
     bframe CMD_PUB payload
   }"

fun put_bargs :: "bytes \<Rightarrow> nat \<Rightarrow> bytes list \<Rightarrow> bytes option" where
  "put_bargs payload off [] = Some payload"
| "put_bargs payload off (a # as) = do {
     payload \<leftarrow> writeU32BE payload off (length a);
     let off = off + 4;
     payload \<leftarrow> u8_set payload a off;
     put_bargs payload (off + length a) as
   }"

definition encodeExec :: "jstring \<Rightarrow> jstring list \<Rightarrow> bytes option" where
  "encodeExec procedure args = do {
     let procBuf = u8 procedure;
     let argBufs = map u8 args;
     let size = foldl (\<lambda>size a. size + (4 + length a)) (4 + length procBuf + 4) argBufs;
     let payload = alloc size;
     let off = 0;
     payload \<leftarrow> writeU32BE payload off (length procBuf);
     let off = off + 4;
     payload \<leftarrow> u8_set payload procBuf off;
     let off = off + length procBuf;
     payload \<leftarrow> writeU32BE payload off (length argBufs);
     payload \<leftarrow> put_bargs payload (off + 4) argBufs;
     bframe CMD_EXEC payload
   }"

definition b_encodeAuth :: "bytes \<Rightarrow> bytes option" where
  "b_encodeAuth tok = do { payload \<leftarrow> lenPrefixedBytes tok; bframe CMD_AUTH payload }"

subsection \<open>Decoding\<close>

fun hex_digit :: "nat \<Rightarrow> u16" where
  "hex_digit n = (if n < 10 then of_nat (48 + n) else of_nat (87 + n))"

text \<open>\<open>code.toString(16)\<close> of a byte.\<close>

definition hex_byte :: "nat \<Rightarrow> jstring" where
  "hex_byte n = (if n < 16 then [hex_digit n] else [hex_digit (n div 16), hex_digit (n mod 16)])"

definition malformed :: BResponse where
  "malformed = BError (js ''malformed event'')"

definition b_decodeResponse :: "bytes \<Rightarrow> BResponse" where
  "b_decodeResponse data =
     (if length data < 5 then BError (js ''frame too short'')
      else
        let code = unat (data ! 0);
            payloadLen = readU32BE data 1;
            payload = subarray data 5 (5 + payloadLen)
        in if code = resp_code RESP_OK then BOk
           else if code = resp_code RESP_VALUE then BValue (str payload)
           else if code = resp_code RESP_NULL then BNull
           else if code = resp_code RESP_ERR then BError (str payload)
           else if code = resp_code RESP_EVENT then
             (if length payload < 8 then malformed
              else
                let chLen = readU32BE payload 0;
                    chStart = 4;
                    chEnd = chStart + chLen
                in if chEnd + 4 > length payload then malformed
                   else
                     let msgLen = readU32BE payload chEnd;
                         msgStart = chEnd + 4;
                         msgEnd = msgStart + msgLen
                     in if msgEnd > length payload then malformed
                        else BEvent (str (subarray payload chStart chEnd)) (str (subarray payload msgStart msgEnd)))
           else BError (js ''unknown response code: 0x'' @ hex_byte code))"

subsection \<open>The two codecs agree\<close>

lemma bframe_bytes: "bframe c p = Some (frame_bytes (cmd_code c) p)"
  by (simp add: bframe_def writeU32BE_def frame_bytes_def buf_simps)

lemma lenPrefixed_field: "lenPrefixed s = Some (field (encodeUtf8 s))"
  by (simp add: lenPrefixed_def u8_def Let_def writeU32BE_def field_def buf_simps)

lemma lenPrefixedBytes_field: "lenPrefixedBytes d = Some (field d)"
  by (simp add: lenPrefixedBytes_def writeU32BE_def field_def buf_simps)

lemma put_bargs_buf:
  assumes "off = length d" and "sum_list (map (\<lambda>a. 4 + length a) as) = n"
  shows "put_bargs (buf d n) off as = Some (d @ concat (map field as))"
  using assms
proof (induction as arbitrary: d n off)
  case (Cons a as)
  then show ?case
    by (simp add: writeU32BE_def buf_simps Cons.IH [of _ "d @ be32 (length a) @ a"] field_def)
qed (simp add: buf_def)

lemmas browser_simps = bframe_bytes lenPrefixed_field lenPrefixedBytes_field u8_def writeU32BE_def
  Let_def buf_simps

lemma encodeExec_bytes:
  "encodeExec p as = Some (frame_bytes 9 (payload_of (CmdExec p (map ArgStr as))))"
  by (simp add: encodeExec_def browser_simps foldl_add_sum put_bargs_buf o_def field_def)

lemma encode_frames:
  "encodeGet k = Some (frame_bytes 1 (payload_of (CmdGet k)))"
  "encodeSet k v w = Some (frame_bytes 2 (payload_of (CmdSet k v w)))"
  "encodeDel k = Some (frame_bytes 3 (payload_of (CmdDel k)))"
  by (simp_all add: encodeGet_def encodeSet_def encodeDel_def browser_simps field_def)

text \<open>
C16: the browser and the Bun library put the same bytes on the wire: every frame the browser's
encoders build is the frame the Bun encoder builds for the same command, or one the Bun encoder
refuses because it is over the wire limit; no browser encoder writes out of its buffer.
\<close>

theorem browser_frames_agree:
  "encodeGet k = Some (frame_bytes 1 (payload_of (CmdGet k)))
   \<and> encodeSet k v w = Some (frame_bytes 2 (payload_of (CmdSet k v w)))
   \<and> encodeDel k = Some (frame_bytes 3 (payload_of (CmdDel k)))
   \<and> encodeStatus = Some (frame_bytes 4 (payload_of CmdStatus))
   \<and> encodeSub k = Some (frame_bytes 6 (payload_of (CmdSub k None)))
   \<and> encodeUnsub k = Some (frame_bytes 7 (payload_of (CmdUnsub k)))
   \<and> encodePub k v = Some (frame_bytes 8 (payload_of (CmdPub k v)))
   \<and> encodeExec k as = Some (frame_bytes 9 (payload_of (CmdExec k (map ArgStr as))))
   \<and> b_encodeAuth tok = Some (frame_bytes 12 (field tok))
   \<and> (\<forall>c. encodeCommandFrame c =
        (if length (payload_of c) > MAX_PAYLOAD then Inl (PayloadTooLargeError (length (payload_of c)))
         else Inr (frame_bytes (command_code (code_of c)) (payload_of c))))
   \<and> encodeAuth tok =
        (if length (field tok) > MAX_PAYLOAD then Inl (PayloadTooLargeError (length (field tok)))
         else Inr (frame_bytes 12 (field tok)))"
  by (simp add: encode_frames encodeStatus_def encodeSub_def encodeUnsub_def
      encodePub_def encodeExec_bytes b_encodeAuth_def browser_simps field_def
      encodeCommandFrame_framed encodeAuth_framed framed_def)

text \<open>The browser's reading of a response of the Bun library.\<close>

fun browser_view :: "WormResponse \<Rightarrow> BResponse" where
  "browser_view ROk = BOk"
| "browser_view (RError m) = BError m"
| "browser_view RNull = BNull"
| "browser_view (RBulk v) = BValue v"
| "browser_view (REvent ch m) = BEvent ch m"

lemma b_decode_frame:
  assumes "wire_frame (code, p)" and "code \<le> 3"
  shows "b_decodeResponse (frame_bytes code p @ r) = browser_view (decodeResponse code p)"
proof -
  have "drop 5 (frame_bytes code p @ r) = p @ r" "length (frame_bytes code p @ r) \<ge> 5"
      "readU32BE (frame_bytes code p @ r) 1 = length p" "unat ((frame_bytes code p @ r) ! 0) = code"
    using assms by (auto simp: frame_bytes_def readU32BE_def wire_frame_def)
  moreover have "code = 0 \<or> code = 1 \<or> code = 2 \<or> code = 3"
    using assms(2) by linarith
  ultimately show ?thesis
    by (auto simp: b_decodeResponse_def decodeResponse_def subarray_def str_def Let_def)
qed

lemma b_decode_event:
  assumes "wire_frame (4, p)" and "decodeResponse 4 p = REvent ch m"
  shows "b_decodeResponse (frame_bytes 4 p @ r) = BEvent ch m"
proof -
  have "drop 5 (frame_bytes 4 p @ r) = p @ r" "length (frame_bytes 4 p @ r) \<ge> 5"
      "readU32BE (frame_bytes 4 p @ r) 1 = length p" "unat ((frame_bytes 4 p @ r) ! 0) = 4"
    using assms by (auto simp: frame_bytes_def readU32BE_def wire_frame_def)
  then show ?thesis
    using assms(2)
    by (auto simp: b_decodeResponse_def decodeResponse_def subarray_def str_def Let_def readU32BE_def
        readUint32BE_def malformed_event_def split: if_splits)
qed

lemma b_decode_response:
  assumes "writeResponse r = Inr b" and "response_size r < 4294967296"
  shows "b_decodeResponse b = browser_view (client_view r)"
proof -
  obtain code p where f: "b = frame_bytes code p" "wire_frame (code, p)" "decodeResponse code p = client_view r"
    "isEventCode code = is_event r" "code \<le> 4"
    using writeResponse_frame [OF assms] by blast
  show ?thesis
  proof (cases "is_event r")
    case True
    then obtain ch m where "client_view r = REvent ch m" "code = 4"
      using f(4) by (cases r) (auto simp: isEventCode_def)
    then show ?thesis using b_decode_event [of p ch m "[]"] f by simp
  next
    case False
    then have "code \<le> 3" using f(4,5) by (auto simp: isEventCode_def)
    then show ?thesis using b_decode_frame [of code p "[]"] f by simp
  qed
qed

text \<open>
C17: the browser reads every message the server writes as what the Bun library reads in the same
frame: the two decoders agree on all responses and events of the server.
\<close>

theorem browser_reads_response:
  assumes "writeResponse r = Inr b" and "response_size r < 4294967296"
  shows "b_decodeResponse b = browser_view (client_view r)"
  using assms by (rule b_decode_response)

theorem browser_reads_response_witness:
  "b_decodeResponse [2, 0, 0, 0, 0] = BNull"
  using browser_reads_response [of "ZValue None" "[2, 0, 0, 0, 0]"] by (simp add: writeHeader_def be32_def)

end
