(* ===== verification/Browser_Client.thy ===== *)
theory Browser_Client
  imports Browser_Wire "HOL-Library.Multiset"
begin

section \<open>The browser client (\<open>apps/browser/src/client.ts\<close>)\<close>

text \<open>
  The client over WebSockets: the connection with its reconnect timer and its choice of a node, the
  queue of pending requests, and the routing of events. Requests, waiting callers of \<open>connect\<close>,
  WebSockets, reconnect timers and event handlers are numbered. What a method does outside the object
  is appended to \<open>bc_out\<close>. A method with an \<open>await\<close> is split there. The promise of \<open>connectToUrl\<close>
  carries the number of its WebSocket. \<open>valid\<close> says for which URLs the constructor of WebSocket does
  not throw. A request's timer is armed exactly while its entry is queued.
\<close>

subsection \<open>State\<close>

datatype b_state = BDisconnected | BConnecting | BConnected

datatype b_error = WormDBError jstring | PlainErr jstring

datatype b_effect =
    BResolve nat BResponse
  | BReject nat b_error
  | BSend nat bytes
  | BOpenWs nat jstring
  | BCloseWs nat nat
  | BHandle nat jstring jstring
  | BConnected_ok nat
  | BConnected_fail nat b_error
  | BWaiter_ok nat
  | BWaiter_fail nat b_error
  | BProbe
  | BAskToken nat

record bclient =
  bc_urls :: "jstring list"
  bc_timeoutMs :: nat
  bc_autoReconnect :: bool
  bc_maxReconnectDelayMs :: nat
  bc_tokenProvider :: bool
  bc_ws :: "nat option"
  bc_activeUrl :: jstring
  bc_pendingQueue :: "nat list"
  bc_eventHandlers :: "(jstring \<times> nat list) list"
  bc_globalEventHandler :: "nat option"
  bc_reconnectAttempt :: nat
  bc_reconnectTimer :: "nat option"
  bc_closed :: bool
  bc_state :: b_state
  bc_connectResolvers :: "nat list"
  bc_timers :: "(nat \<times> nat) list"
  bc_wsUrl :: "nat \<Rightarrow> jstring"
  bc_detached :: "nat list"
  bc_nextRequest :: nat
  bc_nextWs :: nat
  bc_nextWaiter :: nat
  bc_nextTimer :: nat
  bc_out :: "b_effect list"

text \<open>
  The fields after \<open>bc_connectResolvers\<close> are the world around the object: the reconnect timers that
  will still fire, with their delays, the URL of each WebSocket, the WebSockets whose \<open>onclose\<close> was
  set to \<open>null\<close>, and the next numbers. Times of probes count the ticks of \<open>performance.now()\<close>.
\<close>

definition WormDB_browser ::
  "jstring list \<Rightarrow> nat option \<Rightarrow> bool option \<Rightarrow> nat option \<Rightarrow> bool \<Rightarrow> bclient" where
  "WormDB_browser urls timeoutMs autoReconnect maxReconnectDelayMs tokenProvider =
     \<lparr>bc_urls = urls, bc_timeoutMs = or_default timeoutMs 5000,
      bc_autoReconnect = or_default autoReconnect True,
      bc_maxReconnectDelayMs = or_default maxReconnectDelayMs 30000, bc_tokenProvider = tokenProvider,
      bc_ws = None, bc_activeUrl = [], bc_pendingQueue = [], bc_eventHandlers = [],
      bc_globalEventHandler = None, bc_reconnectAttempt = 0, bc_reconnectTimer = None, bc_closed = False,
      bc_state = BDisconnected, bc_connectResolvers = [], bc_timers = [], bc_wsUrl = (\<lambda>_. []),
      bc_detached = [], bc_nextRequest = 0, bc_nextWs = 0, bc_nextWaiter = 0, bc_nextTimer = 0, bc_out = []\<rparr>"

definition b_emit :: "bclient \<Rightarrow> b_effect list \<Rightarrow> bclient" where
  "b_emit bc es = bc\<lparr>bc_out := bc_out bc @ es\<rparr>"

subsection \<open>Requests\<close>

definition rejectAll :: "bclient \<Rightarrow> b_error \<Rightarrow> bclient" where
  "rejectAll bc err =
     (let queue = bc_pendingQueue bc
      in b_emit (bc\<lparr>bc_pendingQueue := []\<rparr>) (map (\<lambda>p. BReject p err) queue))"

definition b_request :: "bclient \<Rightarrow> bytes \<Rightarrow> bclient" where
  "b_request bc frame =
     (let i = bc_nextRequest bc;
          bc = bc\<lparr>bc_nextRequest := i + 1\<rparr>
      in case bc_ws bc of
           None \<Rightarrow> b_emit bc [BReject i (WormDBError (js ''not connected''))]
         | Some ws \<Rightarrow>
             if bc_state bc \<noteq> BConnected
             then b_emit bc [BReject i (WormDBError (js ''not connected''))]
             else b_emit (bc\<lparr>bc_pendingQueue := bc_pendingQueue bc @ [i]\<rparr>) [BSend ws frame])"

text \<open>The timer of a request: \<open>splice\<close> takes its entry out of the queue.\<close>

definition on_b_timeout :: "bclient \<Rightarrow> nat \<Rightarrow> bclient" where
  "on_b_timeout bc i =
     b_emit (bc\<lparr>bc_pendingQueue := remove1 i (bc_pendingQueue bc)\<rparr>)
       [BReject i (WormDBError (js ''request timed out after '' @ String_int (int (bc_timeoutMs bc)) @ js ''ms''))]"

subsection \<open>Reconnecting\<close>

definition url_at :: "jstring list \<Rightarrow> nat \<Rightarrow> jstring" where
  "url_at urls i = (if i < length urls then urls ! i else js ''undefined'')"

definition b_scheduleReconnect :: "bclient \<Rightarrow> bclient" where
  "b_scheduleReconnect bc =
     (if bc_closed bc then bc
      else
        let delay = min (1000 * 2 ^ bc_reconnectAttempt bc) (bc_maxReconnectDelayMs bc);
            t = bc_nextTimer bc
        in bc\<lparr>bc_reconnectAttempt := bc_reconnectAttempt bc + 1, bc_reconnectTimer := Some t,
              bc_nextTimer := t + 1, bc_timers := bc_timers bc @ [(t, delay)]\<rparr>)"

definition cancelReconnect :: "bclient \<Rightarrow> bclient" where
  "cancelReconnect bc =
     (case bc_reconnectTimer bc of
        None \<Rightarrow> bc
      | Some t \<Rightarrow> bc\<lparr>bc_timers := filter (\<lambda>(t', d). t' \<noteq> t) (bc_timers bc), bc_reconnectTimer := None\<rparr>)"

text \<open>\<open>connectToUrl\<close> up to the end of the promise's executor; the callbacks follow below.\<close>

definition connectToUrl :: "(jstring \<Rightarrow> bool) \<Rightarrow> bclient \<Rightarrow> jstring \<Rightarrow> bclient" where
  "connectToUrl valid bc url =
     (let ws = bc_nextWs bc;
          bc = bc\<lparr>bc_activeUrl := url, bc_nextWs := ws + 1\<rparr>
      in if \<not> valid url then b_emit bc [BConnected_fail ws (PlainErr (js ''SyntaxError''))]
         else b_emit (bc\<lparr>bc_wsUrl := (bc_wsUrl bc)(ws := url)\<rparr>) [BOpenWs ws url])"

text \<open>The callback of the reconnect timer numbered \<open>t\<close>.\<close>

definition on_b_reconnect :: "(jstring \<Rightarrow> bool) \<Rightarrow> bclient \<Rightarrow> nat \<Rightarrow> bclient" where
  "on_b_reconnect valid bc t =
     (let bc = bc\<lparr>bc_timers := filter (\<lambda>(t', d). t' \<noteq> t) (bc_timers bc)\<rparr>;
          bc = bc\<lparr>bc_reconnectTimer := None, bc_state := BConnecting\<rparr>;
          idx = bc_reconnectAttempt bc mod length (bc_urls bc)
      in connectToUrl valid bc (url_at (bc_urls bc) idx))"

subsection \<open>Connecting and closing\<close>

text \<open>\<open>connect\<close>: with one URL it dials at once, with several it first probes them.\<close>

definition b_connect :: "(jstring \<Rightarrow> bool) \<Rightarrow> bclient \<Rightarrow> bclient" where
  "b_connect valid bc =
     (if bc_state bc = BConnected then bc
      else
        let bc = bc\<lparr>bc_closed := False\<rparr>
        in if bc_state bc = BConnecting
           then bc\<lparr>bc_connectResolvers := bc_connectResolvers bc @ [bc_nextWaiter bc],
                   bc_nextWaiter := bc_nextWaiter bc + 1\<rparr>
           else
             let bc = bc\<lparr>bc_state := BConnecting\<rparr>
             in if length (bc_urls bc) = 1 then connectToUrl valid bc (bc_urls bc ! 0)
                else b_emit bc [BProbe])"

text \<open>A probe of one URL: its latency when the WebSocket opens first, a rejection otherwise.\<close>

datatype probe_event = ProbeTimeout | ProbeOpen int | ProbeError

fun probeLatency :: "int \<Rightarrow> probe_event list \<Rightarrow> int option" where
  "probeLatency start (ProbeOpen t # es) = Some (t - start)"
| "probeLatency start (ProbeTimeout # es) = None"
| "probeLatency start (ProbeError # es) = None"
| "probeLatency start [] = None"

text \<open>The loop of \<open>probeFastest\<close>; no latency yet is \<open>Infinity\<close>.\<close>

fun probe_loop :: "jstring list \<Rightarrow> nat \<Rightarrow> int option list \<Rightarrow> jstring \<times> int option \<Rightarrow> jstring" where
  "probe_loop urls i [] (bestUrl, bestLatency) = bestUrl"
| "probe_loop urls i (result # results) (bestUrl, bestLatency) =
     (case result of
        None \<Rightarrow> probe_loop urls (i + 1) results (bestUrl, bestLatency)
      | Some v \<Rightarrow>
          if (case bestLatency of None \<Rightarrow> True | Some b \<Rightarrow> v < b)
          then probe_loop urls (i + 1) results (url_at urls i, Some v)
          else probe_loop urls (i + 1) results (bestUrl, bestLatency))"

definition probeFastest :: "jstring list \<Rightarrow> int option list \<Rightarrow> jstring" where
  "probeFastest urls results = probe_loop urls 0 results (url_at urls 0, None)"

definition on_probed :: "(jstring \<Rightarrow> bool) \<Rightarrow> bclient \<Rightarrow> int option list \<Rightarrow> bclient" where
  "on_probed valid bc results = connectToUrl valid bc (probeFastest (bc_urls bc) results)"

definition b_close :: "bclient \<Rightarrow> bclient" where
  "b_close bc =
     (let bc = bc\<lparr>bc_closed := True\<rparr>;
          bc = cancelReconnect bc;
          bc = rejectAll bc (PlainErr (js ''client closed''));
          bc = (case bc_ws bc of
                  None \<Rightarrow> bc
                | Some ws \<Rightarrow> b_emit (bc\<lparr>bc_detached := ws # bc_detached bc, bc_ws := None\<rparr>) [BCloseWs ws 1000])
      in bc\<lparr>bc_state := BDisconnected, bc_activeUrl := []\<rparr>)"

subsection \<open>The callbacks of a WebSocket\<close>

fun resub_all :: "bclient \<Rightarrow> jstring list \<Rightarrow> bclient" where
  "resub_all bc [] = bc"
| "resub_all bc (channel # channels) =
     (case encodeSub channel of
        None \<Rightarrow> bc
      | Some frame \<Rightarrow> resub_all (b_request bc frame) channels)"

text \<open>The end of \<open>onopen\<close>: the channels are subscribed again and the callers of \<open>connect\<close> resolved.\<close>

definition open_done :: "bclient \<Rightarrow> nat \<Rightarrow> bclient" where
  "open_done bc ws =
     (let bc = resub_all bc (map fst (bc_eventHandlers bc));
          waiting = bc_connectResolvers bc
      in b_emit (bc\<lparr>bc_connectResolvers := []\<rparr>) (BConnected_ok ws # map BWaiter_ok waiting))"

text \<open>\<open>onopen\<close> up to its \<open>await\<close> of the token, or to its end when there is no provider.\<close>

definition on_ws_open :: "bclient \<Rightarrow> nat \<Rightarrow> bclient" where
  "on_ws_open bc ws =
     (let bc = bc\<lparr>bc_state := BConnected, bc_reconnectAttempt := 0, bc_ws := Some ws\<rparr>
      in if bc_tokenProvider bc then b_emit bc [BAskToken ws] else open_done bc ws)"

text \<open>The \<open>catch\<close> of \<open>onopen\<close>.\<close>

definition auth_failed :: "bclient \<Rightarrow> nat \<Rightarrow> b_error \<Rightarrow> bclient" where
  "auth_failed bc ws err =
     (let bc = b_emit bc [BCloseWs ws 4001, BConnected_fail ws err];
          waiting = bc_connectResolvers bc
      in b_emit (bc\<lparr>bc_connectResolvers := []\<rparr>) (map (\<lambda>r. BWaiter_fail r err) waiting))"

text \<open>The provider's answer: the token is sent with \<open>auth\<close>, an error is caught.\<close>

definition on_token :: "bclient \<Rightarrow> nat \<Rightarrow> b_error + bytes \<Rightarrow> bclient" where
  "on_token bc ws answer =
     (case answer of
        Inl err \<Rightarrow> auth_failed bc ws err
      | Inr tok \<Rightarrow>
          (case b_encodeAuth tok of
             None \<Rightarrow> auth_failed bc ws (PlainErr (js ''RangeError''))
           | Some frame \<Rightarrow> b_request bc frame))"

text \<open>The settling of the \<open>auth\<close> that \<open>onopen\<close> awaits.\<close>

definition on_authed :: "bclient \<Rightarrow> nat \<Rightarrow> b_error + unit \<Rightarrow> bclient" where
  "on_authed bc ws r = (case r of Inl err \<Rightarrow> auth_failed bc ws err | Inr _ \<Rightarrow> open_done bc ws)"

definition on_message :: "bclient \<Rightarrow> bytes \<Rightarrow> bclient" where
  "on_message bc data =
     (case b_decodeResponse data of
        BEvent channel message \<Rightarrow>
          let bc = (case map_of (bc_eventHandlers bc) channel of
                      None \<Rightarrow> bc
                    | Some handlers \<Rightarrow> b_emit bc (map (\<lambda>h. BHandle h channel message) handlers))
          in (case bc_globalEventHandler bc of
                None \<Rightarrow> bc
              | Some h \<Rightarrow> b_emit bc [BHandle h channel message])
      | resp \<Rightarrow>
          (case bc_pendingQueue bc of
             [] \<Rightarrow> bc
           | pending # rest \<Rightarrow> b_emit (bc\<lparr>bc_pendingQueue := rest\<rparr>) [BResolve pending resp]))"

definition on_ws_close :: "bclient \<Rightarrow> nat \<Rightarrow> bclient" where
  "on_ws_close bc ws =
     (let wasConnecting = (bc_state bc = BConnecting);
          bc = bc\<lparr>bc_ws := None, bc_state := BDisconnected\<rparr>;
          bc = rejectAll bc (PlainErr (js ''connection closed''));
          err = PlainErr (js ''failed to connect to '' @ bc_wsUrl bc ws);
          waiting = bc_connectResolvers bc;
          bc = (if wasConnecting
                then b_emit (bc\<lparr>bc_connectResolvers := []\<rparr>)
                       (BConnected_fail ws err # map (\<lambda>r. BWaiter_fail r err) waiting)
                else bc)
      in if \<not> bc_closed bc \<and> bc_autoReconnect bc then b_scheduleReconnect bc else bc)"

subsection \<open>Subscriptions\<close>

definition handlers_add :: "nat \<Rightarrow> nat list \<Rightarrow> nat list" where
  "handlers_add h hs = (if h \<in> set hs then hs else hs @ [h])"

text \<open>\<open>subscribe\<close> and \<open>unsubscribe\<close> before their request; the second says whether it sends one.\<close>

definition b_subscribe :: "bclient \<Rightarrow> jstring \<Rightarrow> nat \<Rightarrow> bclient" where
  "b_subscribe bc channel handler =
     (case map_of (bc_eventHandlers bc) channel of
        None \<Rightarrow> bc\<lparr>bc_eventHandlers := bc_eventHandlers bc @ [(channel, handlers_add handler [])]\<rparr>
      | Some handlers \<Rightarrow>
          bc\<lparr>bc_eventHandlers := map (\<lambda>(ch, hs).
               if ch = channel then (ch, handlers_add handler hs) else (ch, hs)) (bc_eventHandlers bc)\<rparr>)"

definition b_unsubscribe :: "bclient \<Rightarrow> jstring \<Rightarrow> nat \<Rightarrow> bclient \<times> bool" where
  "b_unsubscribe bc channel handler =
     (case map_of (bc_eventHandlers bc) channel of
        None \<Rightarrow> (bc, False)
      | Some handlers \<Rightarrow>
          let handlers = removeAll handler handlers
          in if length handlers = 0
             then (bc\<lparr>bc_eventHandlers := filter (\<lambda>(ch, hs). ch \<noteq> channel) (bc_eventHandlers bc)\<rparr>, True)
             else (bc\<lparr>bc_eventHandlers := map (\<lambda>(ch, hs).
                     if ch = channel then (ch, handlers) else (ch, hs)) (bc_eventHandlers bc)\<rparr>, False))"

definition onEvent :: "bclient \<Rightarrow> nat \<Rightarrow> bclient" where
  "onEvent bc handler = bc\<lparr>bc_globalEventHandler := Some handler\<rparr>"

subsection \<open>Commands\<close>

text \<open>
  The methods that send one command: \<open>req\<close> is \<open>request\<close>, what the request of a frame comes to. A
  frame that cannot be built would throw a \<open>RangeError\<close>.
\<close>

type_synonym b_requester = "bytes \<Rightarrow> b_error + BResponse"

definition b_sent :: "b_requester \<Rightarrow> bytes option \<Rightarrow> b_error + BResponse" where
  "b_sent req frame = and_then (of_opt (PlainErr (js ''RangeError'')) frame) req"

fun b_type :: "BResponse \<Rightarrow> jstring" where
  "b_type BOk = js ''ok''"
| "b_type (BError m) = js ''error''"
| "b_type BNull = js ''null''"
| "b_type (BValue v) = js ''value''"
| "b_type (BEvent ch m) = js ''event''"

definition unexpected :: "BResponse \<Rightarrow> b_error + 'a" where
  "unexpected resp = Inl (WormDBError (js ''unexpected response: '' @ b_type resp))"

definition b_get :: "b_requester \<Rightarrow> jstring \<Rightarrow> b_error + jstring option" where
  "b_get req key = and_then (b_sent req (encodeGet key)) (\<lambda>resp.
     case resp of
       BValue d \<Rightarrow> Inr (Some d)
     | BNull \<Rightarrow> Inr None
     | BError message \<Rightarrow> Inl (WormDBError message)
     | _ \<Rightarrow> unexpected resp)"

definition b_set :: "b_requester \<Rightarrow> jstring \<Rightarrow> jstring \<Rightarrow> bool option \<Rightarrow> b_error + unit" where
  "b_set req key val worm = and_then (b_sent req (encodeSet key val (or_default worm False))) (\<lambda>resp.
     case resp of
       BOk \<Rightarrow> Inr ()
     | BError message \<Rightarrow> Inl (WormDBError message)
     | _ \<Rightarrow> unexpected resp)"

definition b_del :: "b_requester \<Rightarrow> jstring \<Rightarrow> b_error + unit" where
  "b_del req key = and_then (b_sent req (encodeDel key)) (\<lambda>resp.
     case resp of
       BOk \<Rightarrow> Inr ()
     | BError message \<Rightarrow> Inl (WormDBError message)
     | _ \<Rightarrow> unexpected resp)"

definition b_exec :: "b_requester \<Rightarrow> jstring \<Rightarrow> jstring list \<Rightarrow> b_error + BResponse" where
  "b_exec req procedure args = b_sent req (encodeExec procedure args)"

definition b_status :: "b_requester \<Rightarrow> b_error + jstring" where
  "b_status req = and_then (b_sent req encodeStatus) (\<lambda>resp.
     case resp of
       BValue d \<Rightarrow> Inr d
     | BError message \<Rightarrow> Inl (WormDBError message)
     | _ \<Rightarrow> unexpected resp)"

definition b_publish :: "b_requester \<Rightarrow> jstring \<Rightarrow> jstring \<Rightarrow> b_error + unit" where
  "b_publish req channel message = and_then (b_sent req (encodePub channel message)) (\<lambda>resp.
     case resp of
       BError m \<Rightarrow> Inl (WormDBError m)
     | _ \<Rightarrow> Inr ())"

definition b_auth :: "b_requester \<Rightarrow> bytes \<Rightarrow> b_error + unit" where
  "b_auth req tok = and_then (b_sent req (b_encodeAuth tok)) (\<lambda>resp.
     case resp of
       BOk \<Rightarrow> Inr ()
     | BError message \<Rightarrow> Inl (WormDBError (js ''auth failed: '' @ message))
     | _ \<Rightarrow> Inl (WormDBError (js ''unexpected auth response: '' @ b_type resp)))"

subsection \<open>Runs of the client\<close>

text \<open>
  What can happen to a client, in any order: calls of its methods, callbacks of its WebSockets and
  timers. A timer fires only while it is armed and \<open>onclose\<close> only while it is set.
\<close>

datatype b_event =
    BeConnect
  | BeProbed "int option list"
  | BeCloseCall
  | BeRequest bytes
  | BeSubscribe jstring nat
  | BeUnsubscribe jstring nat
  | BeOnEvent nat
  | BeOpen nat
  | BeToken nat "b_error + bytes"
  | BeAuthed nat "b_error + unit"
  | BeMessage bytes
  | BeWsClose nat
  | BeTimeout nat
  | BeReconnect nat

definition b_request_opt :: "bclient \<Rightarrow> bytes option \<Rightarrow> bclient" where
  "b_request_opt bc frame = (case frame of None \<Rightarrow> bc | Some f \<Rightarrow> b_request bc f)"

fun b_step :: "(jstring \<Rightarrow> bool) \<Rightarrow> bclient \<Rightarrow> b_event \<Rightarrow> bclient" where
  "b_step valid bc BeConnect = b_connect valid bc"
| "b_step valid bc (BeProbed results) = on_probed valid bc results"
| "b_step valid bc BeCloseCall = b_close bc"
| "b_step valid bc (BeRequest frame) = b_request bc frame"
| "b_step valid bc (BeSubscribe ch h) = b_request_opt (b_subscribe bc ch h) (encodeSub ch)"
| "b_step valid bc (BeUnsubscribe ch h) =
     (case b_unsubscribe bc ch h of
        (bc, sends) \<Rightarrow> if sends then b_request_opt bc (encodeUnsub ch) else bc)"
| "b_step valid bc (BeOnEvent h) = onEvent bc h"
| "b_step valid bc (BeOpen ws) = on_ws_open bc ws"
| "b_step valid bc (BeToken ws answer) = on_token bc ws answer"
| "b_step valid bc (BeAuthed ws r) = on_authed bc ws r"
| "b_step valid bc (BeMessage data) = on_message bc data"
| "b_step valid bc (BeWsClose ws) = (if ws \<in> set (bc_detached bc) then bc else on_ws_close bc ws)"
| "b_step valid bc (BeTimeout i) = (if i \<in> set (bc_pendingQueue bc) then on_b_timeout bc i else bc)"
| "b_step valid bc (BeReconnect t) = (if t \<in> fst ` set (bc_timers bc) then on_b_reconnect valid bc t else bc)"

definition b_run :: "(jstring \<Rightarrow> bool) \<Rightarrow> bclient \<Rightarrow> b_event list \<Rightarrow> bclient" where
  "b_run valid = foldl (b_step valid)"

text \<open>The requests a log settles, in order, with their outcomes.\<close>

fun b_settles :: "b_effect \<Rightarrow> (nat \<times> (b_error + BResponse)) option" where
  "b_settles (BResolve i r) = Some (i, Inr r)"
| "b_settles (BReject i e) = Some (i, Inl e)"
| "b_settles _ = None"

definition b_settled :: "b_effect list \<Rightarrow> (nat \<times> (b_error + BResponse)) list" where
  "b_settled es = List.map_filter b_settles es"

lemma b_settled_simps [simp]:
  "b_settled [] = []"
  "b_settled (e # es) = (case b_settles e of None \<Rightarrow> b_settled es | Some x \<Rightarrow> x # b_settled es)"
  "b_settled (es @ fs) = b_settled es @ b_settled fs"
  by (simp_all add: b_settled_def List.map_filter_def split: option.splits)

lemma b_settled_map [simp]:
  "b_settled (map (\<lambda>p. BReject p err) q) = map (\<lambda>p. (p, Inl err)) q"
  "b_settled (map BWaiter_ok ws) = []"
  "b_settled (map (\<lambda>r. BWaiter_fail r err) ws) = []"
  "b_settled (map (\<lambda>h. BHandle h ch m) hs) = []"
  by (simp_all add: b_settled_def List.map_filter_def o_def)

lemma b_emit_simps [simp]:
  "bc_out (b_emit bc es) = bc_out bc @ es"
  "bc_pendingQueue (b_emit bc es) = bc_pendingQueue bc"
  "bc_nextRequest (b_emit bc es) = bc_nextRequest bc"
  "bc_state (b_emit bc es) = bc_state bc"
  "bc_ws (b_emit bc es) = bc_ws bc"
  "bc_closed (b_emit bc es) = bc_closed bc"
  "bc_autoReconnect (b_emit bc es) = bc_autoReconnect bc"
  "bc_timers (b_emit bc es) = bc_timers bc"
  "bc_connectResolvers (b_emit bc es) = bc_connectResolvers bc"
  "bc_eventHandlers (b_emit bc es) = bc_eventHandlers bc"
  "bc_globalEventHandler (b_emit bc es) = bc_globalEventHandler bc"
  "bc_detached (b_emit bc es) = bc_detached bc"
  "bc_nextWs (b_emit bc es) = bc_nextWs bc"
  "bc_urls (b_emit bc es) = bc_urls bc"
  "bc_reconnectAttempt (b_emit bc es) = bc_reconnectAttempt bc"
  "bc_tokenProvider (b_emit bc es) = bc_tokenProvider bc"
  "bc_maxReconnectDelayMs (b_emit bc es) = bc_maxReconnectDelayMs bc"
  "bc_nextTimer (b_emit bc es) = bc_nextTimer bc"
  "bc_reconnectTimer (b_emit bc es) = bc_reconnectTimer bc"
  "bc_wsUrl (b_emit bc es) = bc_wsUrl bc"
  by (simp_all add: b_emit_def)

subsection \<open>A ledger of requests\<close>

text \<open>
  The contract of a component that numbers requests, queues them and settles them: a step settles
  what it takes from the queue, and what is new is queued or settled. Then in every run no request
  is settled twice and none is lost.
\<close>

locale request_ledger =
  fixes step :: "'s \<Rightarrow> 'e \<Rightarrow> 's"
    and pending :: "'s \<Rightarrow> nat list" and settled :: "'s \<Rightarrow> nat list" and issued :: "'s \<Rightarrow> nat"
  assumes issued_mono: "issued s \<le> issued (step s e)"
    and balance: "mset (pending (step s e)) + mset (settled (step s e))
      = mset (pending s) + mset (settled s) + mset [issued s ..< issued (step s e)]"
begin

lemma run_balance:
  assumes "mset (pending s) + mset (settled s) = mset [0 ..< issued s]"
  shows "mset (pending (foldl step s es)) + mset (settled (foldl step s es)) = mset [0 ..< issued (foldl step s es)]"
  using assms
proof (induction es arbitrary: s)
  case (Cons e es)
  have "[0 ..< issued (step s e)] = [0 ..< issued s] @ [issued s ..< issued (step s e)]"
    using upt_add_eq_append [of 0 "issued s" "issued (step s e) - issued s"] issued_mono [of s e] by simp
  then have "mset (pending (step s e)) + mset (settled (step s e)) = mset [0 ..< issued (step s e)]"
    using balance [of s e] Cons.prems by simp
  then show ?case using Cons.IH by simp
qed simp

lemma run_accounts:
  assumes "pending s = []" and "settled s = []" and "issued s = 0"
  shows "distinct (pending (foldl step s es) @ settled (foldl step s es))
    \<and> set (pending (foldl step s es)) \<union> set (settled (foldl step s es)) = {..<issued (foldl step s es)}"
proof -
  have m: "mset (pending (foldl step s es) @ settled (foldl step s es)) = mset [0 ..< issued (foldl step s es)]"
    using run_balance [of s es] assms by simp
  then have "distinct (pending (foldl step s es) @ settled (foldl step s es))"
    using mset_eq_imp_distinct_iff by (metis distinct_upt)
  moreover from m have "set (pending (foldl step s es) @ settled (foldl step s es)) = set [0 ..< issued (foldl step s es)]"
    by (rule mset_eq_setD)
  ultimately show ?thesis by (simp add: atLeast0LessThan)
qed

end

definition b_settled_ids :: "bclient \<Rightarrow> nat list" where
  "b_settled_ids bc = map fst (b_settled (bc_out bc))"

text \<open>What each handler moves between the queue and the log.\<close>

definition b_moves :: "bclient \<Rightarrow> bclient \<Rightarrow> bool" where
  "b_moves bc bc' \<longleftrightarrow> bc_nextRequest bc \<le> bc_nextRequest bc'
     \<and> mset (bc_pendingQueue bc') + mset (b_settled_ids bc')
       = mset (bc_pendingQueue bc) + mset (b_settled_ids bc) + mset [bc_nextRequest bc ..< bc_nextRequest bc']"

lemma b_moves_refl [simp]: "b_moves bc bc"
  by (simp add: b_moves_def)

lemma b_moves_trans: "b_moves a b \<Longrightarrow> b_moves b c \<Longrightarrow> b_moves a c"
  unfolding b_moves_def
  using upt_add_eq_append [of "bc_nextRequest a" "bc_nextRequest b" "bc_nextRequest c - bc_nextRequest b"]
  by auto

lemma b_moves_same:
  assumes "bc_nextRequest bc' = bc_nextRequest bc" and "bc_pendingQueue bc' = bc_pendingQueue bc"
    and "b_settled (bc_out bc') = b_settled (bc_out bc)"
  shows "b_moves bc bc'"
  using assms by (simp add: b_moves_def b_settled_ids_def)

lemma b_request_moves: "b_moves bc (b_request bc f)"
  by (auto simp: b_moves_def b_request_def Let_def b_settled_ids_def split: option.splits)

lemma b_request_opt_moves: "b_moves bc (b_request_opt bc f)"
  by (auto simp: b_request_opt_def b_request_moves split: option.splits)

lemma rejectAll_moves: "b_moves bc (rejectAll bc err)"
  by (simp add: b_moves_def rejectAll_def Let_def b_settled_ids_def o_def)

lemma resub_all_moves: "b_moves bc (resub_all bc chs)"
  by (induction bc chs rule: resub_all.induct)
    (auto split: option.splits intro: b_moves_trans b_request_moves)

lemma b_moves_after: "b_moves a b \<Longrightarrow> bc_nextRequest c = bc_nextRequest b \<Longrightarrow>
  bc_pendingQueue c = bc_pendingQueue b \<Longrightarrow> b_settled (bc_out c) = b_settled (bc_out b) \<Longrightarrow> b_moves a c"
  using b_moves_same b_moves_trans by blast

lemma connectToUrl_simps [simp]:
  "bc_nextRequest (connectToUrl valid bc url) = bc_nextRequest bc"
  "bc_pendingQueue (connectToUrl valid bc url) = bc_pendingQueue bc"
  "b_settled (bc_out (connectToUrl valid bc url)) = b_settled (bc_out bc)"
  "bc_state (connectToUrl valid bc url) = bc_state bc"
  "bc_ws (connectToUrl valid bc url) = bc_ws bc"
  "bc_timers (connectToUrl valid bc url) = bc_timers bc"
  "bc_maxReconnectDelayMs (connectToUrl valid bc url) = bc_maxReconnectDelayMs bc"
  "bc_eventHandlers (connectToUrl valid bc url) = bc_eventHandlers bc"
  by (auto simp: connectToUrl_def Let_def b_emit_def)

lemma connectToUrl_moves: "b_moves bc (connectToUrl valid bc url)"
  by (rule b_moves_same) simp_all

lemma open_done_moves: "b_moves bc (open_done bc ws)"
  by (rule b_moves_after [OF resub_all_moves [of bc "map fst (bc_eventHandlers bc)"]])
    (simp_all add: open_done_def Let_def)

lemma auth_failed_moves: "b_moves bc (auth_failed bc ws err)"
  by (rule b_moves_same) (auto simp: auth_failed_def Let_def)

lemma on_ws_close_moves: "b_moves bc (on_ws_close bc ws)"
proof -
  have "b_moves bc (rejectAll (bc\<lparr>bc_ws := None, bc_state := BDisconnected\<rparr>) (PlainErr (js ''connection closed'')))"
    by (rule b_moves_trans [OF b_moves_same rejectAll_moves]) simp_all
  then show ?thesis
    by (rule b_moves_after) (simp_all add: on_ws_close_def Let_def b_scheduleReconnect_def)
qed

lemma b_close_moves: "b_moves bc (b_close bc)"
proof -
  have "b_moves bc (rejectAll (cancelReconnect (bc\<lparr>bc_closed := True\<rparr>)) (PlainErr (js ''client closed'')))"
    by (rule b_moves_trans [OF _ rejectAll_moves], rule b_moves_same)
      (auto simp: cancelReconnect_def split: option.splits)
  then show ?thesis
    by (rule b_moves_after) (auto simp: b_close_def Let_def split: option.splits)
qed

lemma on_message_moves: "b_moves bc (on_message bc data)"
  by (auto simp: on_message_def b_moves_def b_settled_ids_def Let_def
      split: BResponse.splits option.splits list.splits)

lemma b_step_moves: "b_moves bc (b_step valid bc e)"
proof (cases e)
  case (BeUnsubscribe ch h)
  obtain bc' sends where u: "b_unsubscribe bc ch h = (bc', sends)" by fastforce
  then have "b_moves bc bc'"
    by (intro b_moves_same) (auto simp: b_unsubscribe_def Let_def split: option.splits if_splits)
  with BeUnsubscribe u show ?thesis by (auto intro: b_moves_trans b_request_opt_moves)
next
  case (BeSubscribe ch h)
  have "b_moves bc (b_subscribe bc ch h)"
    by (rule b_moves_same) (auto simp: b_subscribe_def split: option.splits)
  with BeSubscribe show ?thesis by (auto intro: b_moves_trans b_request_opt_moves)
next
  case (BeReconnect t)
  then show ?thesis
    by (auto simp: on_b_reconnect_def Let_def intro!: b_moves_same)
next
  case BeConnect
  then show ?thesis
    by (auto simp: b_connect_def Let_def intro!: b_moves_same)
next
  case (BeOpen ws)
  have "b_moves bc (open_done (bc\<lparr>bc_state := BConnected, bc_reconnectAttempt := 0, bc_ws := Some ws\<rparr>) ws)"
    by (rule b_moves_trans [OF b_moves_same open_done_moves]) simp_all
  with BeOpen show ?thesis
    by (auto simp: on_ws_open_def Let_def intro: b_moves_same)
next
  case (BeTimeout i)
  then show ?thesis
    by (auto simp: on_b_timeout_def b_moves_def b_settled_ids_def)
qed (auto simp: on_probed_def connectToUrl_moves b_close_moves b_request_moves onEvent_def on_token_def
    on_authed_def auth_failed_moves open_done_moves on_message_moves on_ws_close_moves
    intro: b_moves_same split: sum.splits option.splits)

interpretation browser_requests: request_ledger "b_step valid" bc_pendingQueue b_settled_ids bc_nextRequest for valid
  using b_step_moves by unfold_locales (auto simp: b_moves_def)

end
