(* ===== verification/WormDB_Engine.thy ===== *)
theory WormDB_Engine
  imports Client_Types Complex_Main
begin

section \<open>The connection engine of WormDB (\<open>apps/bun/src/lib/wormdb.ts\<close>)\<close>

text \<open>
  The managed client: one connection at a time, re-opened with exponential backoff, re-authenticated
  and re-subscribed. Each method and each callback of the socket or of a timer is a function on the
  record of the fields. Requests and parked callers are numbered; a pending entry without a number
  is one of \<open>onOpen\<close>, whose promise nobody waits for. What a handler does outside the object is
  appended to \<open>db_out\<close>. Parameters: \<open>wr s\<close> answers the writes on socket \<open>s\<close>, \<open>now\<close> is
  \<open>Date.now()\<close>, \<open>rnd\<close> is \<open>Math.random()\<close>. Milliseconds are exact rationals; the timer of a request
  is armed exactly while its entry is queued, since every removal clears it. The callbacks of
  \<open>Bun.connect\<close> run in later turns of the event loop.
\<close>

subsection \<open>State\<close>

datatype WormDBState = Idle | Connecting | Ready | Reconnecting | Closed

record ReconnectOptions =
  rc_enabled :: bool
  rc_minDelayMs :: rat
  rc_maxDelayMs :: rat
  rc_maxAttempts :: "nat option"

record Pending =
  p_id :: "nat option"
  p_generation :: nat

record SubEntry =
  se_filter :: "jstring option"
  se_handlers :: "nat list"
  se_wireSubscribed :: bool

type_synonym RawFrame = "nat \<times> bytes"

datatype db_effect =
    Settle nat "js_error + RawFrame"
  | Wake nat
  | WakeFail nat js_error
  | Deliver nat jstring jstring
  | Dial
  | EndSocket nat

text \<open>\<open>subs\<close> is the map from channels to entries in insertion order; entries are shared objects.\<close>

record wormdb =
  db_timeoutMs :: nat
  db_reconnectCfg :: ReconnectOptions
  db_pingIntervalMs :: int
  db_stateValue :: WormDBState
  db_socket :: "nat option"
  db_inbound :: bytes
  db_pendingQueue :: "Pending list"
  db_writeBacklog :: "bytes list"
  db_readyWaiters :: "nat list"
  db_subs :: "(jstring \<times> nat) list"
  db_entries :: "nat \<Rightarrow> SubEntry"
  db_nextEntry :: nat
  db_authToken :: "bytes option"
  db_reconnectAttempts :: nat
  db_reconnectTimer :: "rat option"
  db_pingTimer :: bool
  db_lastActivityMs :: int
  db_connecting :: bool
  db_generation :: nat
  db_net :: "nat \<Rightarrow> sock"
  db_out :: "db_effect list"

definition DEFAULT_RECONNECT :: ReconnectOptions where
  "DEFAULT_RECONNECT = \<lparr>rc_enabled = True, rc_minDelayMs = 100, rc_maxDelayMs = 10000, rc_maxAttempts = None\<rparr>"

text \<open>The options a caller gave; \<open>None\<close> is one left out. An outer \<open>Some None\<close> attempts is \<open>Infinity\<close>.\<close>

record reconnect_given =
  rg_enabled :: "bool option"
  rg_minDelayMs :: "rat option"
  rg_maxDelayMs :: "rat option"
  rg_maxAttempts :: "nat option option"

definition no_options :: reconnect_given where
  "no_options = \<lparr>rg_enabled = None, rg_minDelayMs = None, rg_maxDelayMs = None, rg_maxAttempts = None\<rparr>"

definition no_entry :: SubEntry where
  "no_entry = \<lparr>se_filter = None, se_handlers = [], se_wireSubscribed = False\<rparr>"

definition WormDB_new :: "nat option \<Rightarrow> reconnect_given \<Rightarrow> int option \<Rightarrow> wormdb" where
  "WormDB_new timeoutMs reconnect pingIntervalMs =
     \<lparr>db_timeoutMs = or_default timeoutMs 3000,
      db_reconnectCfg =
        \<lparr>rc_enabled = or_default (rg_enabled reconnect) (rc_enabled DEFAULT_RECONNECT),
         rc_minDelayMs = or_default (rg_minDelayMs reconnect) (rc_minDelayMs DEFAULT_RECONNECT),
         rc_maxDelayMs = or_default (rg_maxDelayMs reconnect) (rc_maxDelayMs DEFAULT_RECONNECT),
         rc_maxAttempts = or_default (rg_maxAttempts reconnect) (rc_maxAttempts DEFAULT_RECONNECT)\<rparr>,
      db_pingIntervalMs = or_default pingIntervalMs 0,
      db_stateValue = Idle, db_socket = None, db_inbound = [], db_pendingQueue = [], db_writeBacklog = [],
      db_readyWaiters = [], db_subs = [], db_entries = (\<lambda>_. no_entry), db_nextEntry = 0,
      db_authToken = None, db_reconnectAttempts = 0, db_reconnectTimer = None, db_pingTimer = False,
      db_lastActivityMs = 0, db_connecting = False, db_generation = 0,
      db_net = (\<lambda>_. fresh_sock), db_out = []\<rparr>"

text \<open>A client made with no options.\<close>

definition fresh_db :: wormdb where
  "fresh_db = WormDB_new None no_options None"

definition db_emit :: "wormdb \<Rightarrow> db_effect list \<Rightarrow> wormdb" where
  "db_emit db es = db\<lparr>db_out := db_out db @ es\<rparr>"

subsection \<open>Rejecting\<close>

definition settle_pending :: "Pending \<Rightarrow> js_error + RawFrame \<Rightarrow> db_effect list" where
  "settle_pending p r = (case p_id p of None \<Rightarrow> [] | Some i \<Rightarrow> [Settle i r])"

definition db_rejectAllPending :: "wormdb \<Rightarrow> js_error \<Rightarrow> wormdb" where
  "db_rejectAllPending db err =
     (if length (db_pendingQueue db) = 0 then db
      else
        let out = db_pendingQueue db
        in db_emit (db\<lparr>db_pendingQueue := []\<rparr>) (concat (map (\<lambda>p. settle_pending p (Inl err)) out)))"

definition rejectReadyWaiters :: "wormdb \<Rightarrow> js_error \<Rightarrow> wormdb" where
  "rejectReadyWaiters db err =
     (if length (db_readyWaiters db) = 0 then db
      else
        let out = db_readyWaiters db
        in db_emit (db\<lparr>db_readyWaiters := []\<rparr>) (map (\<lambda>i. WakeFail i err) out))"

definition startPing :: "wormdb \<Rightarrow> wormdb" where
  "startPing db = (if db_pingIntervalMs db \<le> 0 \<or> db_pingTimer db then db else db\<lparr>db_pingTimer := True\<rparr>)"

definition stopPing :: "wormdb \<Rightarrow> wormdb" where
  "stopPing db = db\<lparr>db_pingTimer := False\<rparr>"

text \<open>The callback of the ping timer: whether it sends a STATUS request.\<close>

definition ping_tick :: "int \<Rightarrow> wormdb \<Rightarrow> bool" where
  "ping_tick now db =
     (if db_stateValue db \<noteq> Ready \<or> db_socket db = None then False
      else if now - db_lastActivityMs db < db_pingIntervalMs db then False
      else True)"

definition db_close :: "wormdb \<Rightarrow> wormdb" where
  "db_close db =
     (let db = db\<lparr>db_stateValue := Closed\<rparr>;
          db = db\<lparr>db_reconnectTimer := None\<rparr>;
          db = stopPing db;
          db = db_rejectAllPending db ClientConnectionClosedError;
          db = rejectReadyWaiters db ClientConnectionClosedError;
          db = (case db_socket db of
                  None \<Rightarrow> db
                | Some s \<Rightarrow> db_emit (db\<lparr>db_socket := None\<rparr>) [EndSocket s])
      in db\<lparr>db_inbound := [], db_writeBacklog := []\<rparr>)"

subsection \<open>Disconnecting and reconnecting\<close>

definition backoff_ms :: "ReconnectOptions \<Rightarrow> nat \<Rightarrow> rat" where
  "backoff_ms cfg attempts = min (rc_maxDelayMs cfg) (rc_minDelayMs cfg * 2 ^ attempts)"

definition attempts_exhausted :: "ReconnectOptions \<Rightarrow> nat \<Rightarrow> bool" where
  "attempts_exhausted cfg n = (case rc_maxAttempts cfg of None \<Rightarrow> False | Some m \<Rightarrow> n \<ge> m)"

definition scheduleReconnect :: "rat \<Rightarrow> wormdb \<Rightarrow> wormdb" where
  "scheduleReconnect rnd db =
     (if db_reconnectTimer db \<noteq> None \<or> db_connecting db \<or> db_stateValue db = Closed then db
      else if attempts_exhausted (db_reconnectCfg db) (db_reconnectAttempts db)
      then rejectReadyWaiters (db\<lparr>db_stateValue := Closed\<rparr>) ClientConnectionClosedError
      else
        let backoff = backoff_ms (db_reconnectCfg db) (db_reconnectAttempts db);
            delay = backoff / 2 + rnd * (backoff / 2)
        in db\<lparr>db_reconnectAttempts := db_reconnectAttempts db + 1, db_reconnectTimer := Some delay\<rparr>)"

definition handleDisconnect :: "rat \<Rightarrow> js_error option \<Rightarrow> wormdb \<Rightarrow> wormdb" where
  "handleDisconnect rnd cause db =
     (let err = or_default cause ClientConnectionClosedError;
          db = db\<lparr>db_socket := None, db_inbound := [], db_writeBacklog := []\<rparr>;
          db = stopPing db;
          db = db_rejectAllPending db err
      in if db_stateValue db = Closed then db
         else if \<not> rc_enabled (db_reconnectCfg db)
         then rejectReadyWaiters (db\<lparr>db_stateValue := Idle\<rparr>) err
         else scheduleReconnect rnd (db\<lparr>db_stateValue := Reconnecting\<rparr>))"

definition failConnection :: "rat \<Rightarrow> js_error \<Rightarrow> wormdb \<Rightarrow> wormdb" where
  "failConnection rnd err db =
     (let db = db_rejectAllPending db err
      in case db_socket db of
           None \<Rightarrow> db
         | Some s \<Rightarrow> handleDisconnect rnd None (db_emit (db\<lparr>db_socket := None\<rparr>) [EndSocket s]))"

definition openSocket :: "wormdb \<Rightarrow> wormdb" where
  "openSocket db =
     (if db_connecting db \<or> db_stateValue db = Closed then db
      else db_emit (db\<lparr>db_connecting := True\<rparr>) [Dial])"

text \<open>The callback of the reconnect timer.\<close>

definition on_reconnect_timer :: "wormdb \<Rightarrow> wormdb" where
  "on_reconnect_timer db = openSocket (db\<lparr>db_reconnectTimer := None\<rparr>)"

subsection \<open>Requests\<close>

definition enqueuePending :: "wormdb \<Rightarrow> nat option \<Rightarrow> wormdb" where
  "enqueuePending db i =
     db\<lparr>db_pendingQueue := db_pendingQueue db @ [\<lparr>p_id = i, p_generation = db_generation db\<rparr>]\<rparr>"

text \<open>The timer of a pending entry.\<close>

definition on_request_timer :: "rat \<Rightarrow> Pending \<Rightarrow> wormdb \<Rightarrow> wormdb" where
  "on_request_timer rnd p db =
     (if db_generation db = p_generation p
      then failConnection rnd (ClientTimeoutError (db_timeoutMs db)) db
      else db)"

text \<open>\<open>writeOrQueue\<close> and \<open>flushBacklog\<close> on the fields of the object.\<close>

definition db_write :: "(nat \<Rightarrow> write_oracle) \<Rightarrow> wormdb \<Rightarrow> nat \<Rightarrow> bytes \<Rightarrow> bool \<times> wormdb" where
  "db_write wr db s data =
     (let (threw, b, s') = db_writeOrQueue (wr s) (db_writeBacklog db) (db_net db s) data
      in (threw, db\<lparr>db_writeBacklog := b, db_net := (db_net db)(s := s')\<rparr>))"

definition on_db_drain :: "(nat \<Rightarrow> write_oracle) \<Rightarrow> wormdb \<Rightarrow> nat \<Rightarrow> wormdb" where
  "on_db_drain wr db s =
     (let (b, s') = db_flushBacklog (wr s) (db_writeBacklog db) (db_net db s)
      in db\<lparr>db_writeBacklog := b, db_net := (db_net db)(s := s')\<rparr>)"

datatype ready_outcome = Throws js_error | HasSocket nat | Waits

text \<open>\<open>ensureReady\<close> up to its first suspension, run by the caller numbered \<open>i\<close>.\<close>

function ensureReady :: "nat \<Rightarrow> wormdb \<Rightarrow> wormdb \<times> ready_outcome" where
  "ensureReady i db =
     (if db_stateValue db = Closed then (db, Throws ClientConnectionClosedError)
      else if db_socket db \<noteq> None \<and> db_stateValue db = Ready then (db, HasSocket (the (db_socket db)))
      else if \<not> db_connecting db \<and> db_reconnectTimer db = None then
        let db = (if db_stateValue db = Idle then db\<lparr>db_stateValue := Connecting\<rparr> else db)
        in ensureReady i (openSocket db)
      else (db\<lparr>db_readyWaiters := db_readyWaiters db @ [i]\<rparr>, Waits))"
  by pat_completeness auto
termination
  by (relation "measure (\<lambda>(i, db). if db_connecting db then 0 else 1)")
    (auto simp: openSocket_def db_emit_def)

declare ensureReady.simps [simp del]

text \<open>The promise of \<open>requestRaw\<close>, once \<open>ensureReady\<close> has returned the socket.\<close>

definition send_request :: "(nat \<Rightarrow> write_oracle) \<Rightarrow> int \<Rightarrow> nat \<Rightarrow> bytes \<Rightarrow> nat \<Rightarrow> wormdb \<Rightarrow> wormdb" where
  "send_request wr now i frame s db =
     (let db = enqueuePending db (Some i);
          (threw, db) = db_write wr db s frame
      in if \<not> threw then db\<lparr>db_lastActivityMs := now\<rparr>
         else if db_pendingQueue db = [] then db
         else
           let pending = last (db_pendingQueue db)
           in db_emit (db\<lparr>db_pendingQueue := butlast (db_pendingQueue db)\<rparr>)
                (settle_pending pending (Inl WriteFailed)))"

subsection \<open>Opening\<close>

text \<open>One frame of the handshake: queued first, then encoded and written.\<close>

definition send_settled ::
  "(nat \<Rightarrow> write_oracle) \<Rightarrow> nat \<Rightarrow> wire_error + bytes \<Rightarrow> wormdb \<Rightarrow> (js_error option) \<times> wormdb" where
  "send_settled wr s frame db =
     (let db = enqueuePending db None
      in case frame of
           Inl e \<Rightarrow> (Some (WireFailure e), db)
         | Inr f \<Rightarrow> (case db_write wr db s f of (threw, db) \<Rightarrow> (if threw then Some WriteFailed else None, db)))"

fun resubscribe :: "(nat \<Rightarrow> write_oracle) \<Rightarrow> nat \<Rightarrow> (jstring \<times> nat) list \<Rightarrow> wormdb \<Rightarrow> js_error option \<times> wormdb" where
  "resubscribe wr s [] db = (None, db)"
| "resubscribe wr s ((channel, e) # rest) db =
     (let entry = db_entries db e
      in if \<not> se_wireSubscribed entry then resubscribe wr s rest db
         else
           case send_settled wr s (encodeCommandFrame (CmdSub channel (se_filter entry))) db of
             (Some err, db) \<Rightarrow> (Some err, db)
           | (None, db) \<Rightarrow> resubscribe wr s rest db)"

text \<open>
  \<open>onOpen\<close> in three parts: the new generation and the magic, whose write is not checked; the
  retained token; and, after the subscriptions, the state change and the release of the waiters.
\<close>

definition open_reset :: "(nat \<Rightarrow> write_oracle) \<Rightarrow> nat \<Rightarrow> wormdb \<Rightarrow> wormdb" where
  "open_reset wr s db =
     db\<lparr>db_generation := db_generation db + 1, db_socket := Some s, db_inbound := [], db_writeBacklog := [],
        db_net := (db_net db)(s := snd (sock_write (wr s) (db_net db s) WIRE_MAGIC))\<rparr>"

definition reauth :: "(nat \<Rightarrow> write_oracle) \<Rightarrow> nat \<Rightarrow> wormdb \<Rightarrow> js_error option \<times> wormdb" where
  "reauth wr s db =
     (case db_authToken db of
        None \<Rightarrow> (None, db)
      | Some tok \<Rightarrow> send_settled wr s (encodeAuth tok) db)"

definition open_ready :: "int \<Rightarrow> wormdb \<Rightarrow> wormdb" where
  "open_ready now db =
     (let db = startPing (db\<lparr>db_stateValue := Ready, db_reconnectAttempts := 0, db_lastActivityMs := now\<rparr>);
          waiters = db_readyWaiters db
      in db_emit (db\<lparr>db_readyWaiters := []\<rparr>) (map Wake waiters))"

text \<open>The first component is the exception that left \<open>onOpen\<close>, if any.\<close>

definition onOpen :: "(nat \<Rightarrow> write_oracle) \<Rightarrow> int \<Rightarrow> nat \<Rightarrow> wormdb \<Rightarrow> js_error option \<times> wormdb" where
  "onOpen wr now s db =
     (case reauth wr s (open_reset wr s db) of
        (Some err, db) \<Rightarrow> (Some err, db)
      | (None, db) \<Rightarrow>
          (case resubscribe wr s (db_subs db) db of
             (Some err, db) \<Rightarrow> (Some err, db)
           | (None, db) \<Rightarrow> (None, open_ready now db)))"

text \<open>
  The callbacks of a dial: \<open>open\<close>, followed at once by the fulfilment of the promise of
  \<open>Bun.connect\<close>, which clears \<open>connecting\<close> again; or its rejection.
\<close>

definition on_dial_open :: "(nat \<Rightarrow> write_oracle) \<Rightarrow> int \<Rightarrow> nat \<Rightarrow> wormdb \<Rightarrow> js_error option \<times> wormdb" where
  "on_dial_open wr now s db =
     (case onOpen wr now s (db\<lparr>db_connecting := False\<rparr>) of
        (e, db) \<Rightarrow> (e, db\<lparr>db_connecting := False\<rparr>))"

definition on_dial_failed :: "rat \<Rightarrow> js_error \<Rightarrow> wormdb \<Rightarrow> wormdb" where
  "on_dial_failed rnd err db = handleDisconnect rnd (Some err) (db\<lparr>db_connecting := False\<rparr>)"

definition on_db_close :: "rat \<Rightarrow> wormdb \<Rightarrow> wormdb" where
  "on_db_close rnd db = handleDisconnect rnd None db"

definition on_db_error :: "rat \<Rightarrow> js_error \<Rightarrow> wormdb \<Rightarrow> wormdb" where
  "on_db_error rnd err db = handleDisconnect rnd (Some err) db"

subsection \<open>Receiving\<close>

definition deliveries ::
  "(nat \<Rightarrow> SubEntry) \<Rightarrow> jstring \<Rightarrow> jstring \<Rightarrow> (jstring \<times> nat) list \<Rightarrow> db_effect list" where
  "deliveries entries channel message subs =
     concat (map (\<lambda>(ch, e).
        if channel = ch \<or> startsWith channel ch
        then map (\<lambda>h. Deliver h channel message) (se_handlers (entries e)) else []) subs)"

definition dispatchEvent :: "wormdb \<Rightarrow> jstring \<Rightarrow> jstring \<Rightarrow> wormdb" where
  "dispatchEvent db channel message = db_emit db (deliveries (db_entries db) channel message (db_subs db))"

definition on_db_frame :: "wormdb \<Rightarrow> nat \<Rightarrow> bytes \<Rightarrow> wormdb" where
  "on_db_frame db code payload =
     (if isEventCode code then
        (case decodeResponse code payload of
           REvent channel message \<Rightarrow> dispatchEvent db channel message
         | _ \<Rightarrow> db)
      else
        case db_pendingQueue db of
          [] \<Rightarrow> db
        | pending # rest \<Rightarrow>
            db_emit (db\<lparr>db_pendingQueue := rest\<rparr>) (settle_pending pending (Inr (code, payload))))"

definition onData :: "int \<Rightarrow> wormdb \<Rightarrow> bytes \<Rightarrow> wormdb" where
  "onData now db chunk =
     (let inbound = db_inbound db @ chunk;
          (db, rest) = frame_loop on_db_frame inbound (db\<lparr>db_lastActivityMs := now\<rparr>)
      in db\<lparr>db_inbound := rest\<rparr>)"

subsection \<open>What the handlers change\<close>

lemma db_emit_simps [simp]:
  "db_out (db_emit db es) = db_out db @ es"
  "db_stateValue (db_emit db es) = db_stateValue db"
  "db_socket (db_emit db es) = db_socket db"
  "db_inbound (db_emit db es) = db_inbound db"
  "db_pendingQueue (db_emit db es) = db_pendingQueue db"
  "db_writeBacklog (db_emit db es) = db_writeBacklog db"
  "db_readyWaiters (db_emit db es) = db_readyWaiters db"
  "db_reconnectCfg (db_emit db es) = db_reconnectCfg db"
  "db_reconnectAttempts (db_emit db es) = db_reconnectAttempts db"
  "db_reconnectTimer (db_emit db es) = db_reconnectTimer db"
  "db_connecting (db_emit db es) = db_connecting db"
  "db_generation (db_emit db es) = db_generation db"
  "db_timeoutMs (db_emit db es) = db_timeoutMs db"
  "db_net (db_emit db es) = db_net db"
  "db_subs (db_emit db es) = db_subs db"
  "db_entries (db_emit db es) = db_entries db"
  "db_authToken (db_emit db es) = db_authToken db"
  by (simp_all add: db_emit_def)

lemma stopPing_simps [simp]:
  "db_out (stopPing db) = db_out db"
  "db_stateValue (stopPing db) = db_stateValue db"
  "db_socket (stopPing db) = db_socket db"
  "db_inbound (stopPing db) = db_inbound db"
  "db_pendingQueue (stopPing db) = db_pendingQueue db"
  "db_writeBacklog (stopPing db) = db_writeBacklog db"
  "db_readyWaiters (stopPing db) = db_readyWaiters db"
  "db_reconnectCfg (stopPing db) = db_reconnectCfg db"
  "db_reconnectAttempts (stopPing db) = db_reconnectAttempts db"
  "db_reconnectTimer (stopPing db) = db_reconnectTimer db"
  "db_connecting (stopPing db) = db_connecting db"
  "db_generation (stopPing db) = db_generation db"
  "db_timeoutMs (stopPing db) = db_timeoutMs db"
  by (simp_all add: stopPing_def)

text \<open>The rejections of a queue of pending entries.\<close>

definition reject_effects :: "Pending list \<Rightarrow> js_error \<Rightarrow> db_effect list" where
  "reject_effects q err = concat (map (\<lambda>p. settle_pending p (Inl err)) q)"

lemma db_rejectAllPending_eq:
  "db_rejectAllPending db err = db_emit (db\<lparr>db_pendingQueue := []\<rparr>) (reject_effects (db_pendingQueue db) err)"
  by (auto simp: db_rejectAllPending_def reject_effects_def db_emit_def)

lemma rejectReadyWaiters_eq:
  "rejectReadyWaiters db err
     = db_emit (db\<lparr>db_readyWaiters := []\<rparr>) (map (\<lambda>i. WakeFail i err) (db_readyWaiters db))"
  by (auto simp: rejectReadyWaiters_def db_emit_def)

lemmas reject_simps = db_rejectAllPending_eq rejectReadyWaiters_eq

subsection \<open>The invariant of the connection\<close>

definition attempts_ok :: "ReconnectOptions \<Rightarrow> nat \<Rightarrow> bool" where
  "attempts_ok cfg n \<longleftrightarrow> (case rc_maxAttempts cfg of None \<Rightarrow> True | Some m \<Rightarrow> n \<le> m)"

lemma attempts_ok_0 [simp]: "attempts_ok cfg 0"
  by (simp add: attempts_ok_def split: option.splits)

lemma attempts_ok_Suc:
  "attempts_ok cfg (Suc n) \<longleftrightarrow> \<not> attempts_exhausted cfg n"
  by (auto simp: attempts_ok_def attempts_exhausted_def split: option.splits)

text \<open>
  The invariant, on what it depends on: the state, and whether there are a socket, an outstanding
  dial, a reconnect timer, waiters, pending entries, and whether reconnecting is enabled.
\<close>

fun inv_view :: "WormDBState \<Rightarrow> bool \<Rightarrow> bool \<Rightarrow> bool \<Rightarrow> bool \<Rightarrow> bool \<Rightarrow> bool \<Rightarrow> bool" where
  "inv_view Idle socket dial timer waiters pending enabled \<longleftrightarrow>
     \<not> socket \<and> \<not> timer \<and> \<not> pending \<and> (waiters \<longrightarrow> dial)"
| "inv_view Connecting socket dial timer waiters pending enabled \<longleftrightarrow>
     \<not> socket \<and> \<not> timer \<and> \<not> pending \<and> dial"
| "inv_view Ready socket dial timer waiters pending enabled \<longleftrightarrow>
     socket \<and> \<not> timer \<and> \<not> dial \<and> \<not> waiters"
| "inv_view Reconnecting socket dial timer waiters pending enabled \<longleftrightarrow>
     \<not> socket \<and> \<not> pending \<and> enabled \<and> dial \<noteq> timer"
| "inv_view Closed socket dial timer waiters pending enabled \<longleftrightarrow>
     \<not> socket \<and> \<not> timer \<and> \<not> waiters \<and> (pending \<longrightarrow> \<not> dial)"

definition db_inv :: "wormdb \<Rightarrow> bool" where
  "db_inv db \<longleftrightarrow>
     inv_view (db_stateValue db) (db_socket db \<noteq> None) (db_connecting db) (db_reconnectTimer db \<noteq> None)
       (db_readyWaiters db \<noteq> []) (db_pendingQueue db \<noteq> []) (rc_enabled (db_reconnectCfg db))
   \<and> (\<forall>p \<in> set (db_pendingQueue db). p_generation p = db_generation db)
   \<and> attempts_ok (db_reconnectCfg db) (db_reconnectAttempts db)
   \<and> db_out db = []"

abbreviation "settle_out db \<equiv> db\<lparr>db_out := []\<rparr>"

lemma db_close_inv: "db_inv db \<Longrightarrow> db_inv (settle_out (db_close db))"
  by (cases "db_stateValue db") (auto simp: db_inv_def db_close_def Let_def reject_simps split: option.splits)

text \<open>Everything \<open>handleDisconnect\<close> leaves behind.\<close>

lemma handleDisconnect_fields [simp]:
  "db_pendingQueue (handleDisconnect rnd cause db) = []"
  "db_socket (handleDisconnect rnd cause db) = None"
  "db_inbound (handleDisconnect rnd cause db) = []"
  "db_writeBacklog (handleDisconnect rnd cause db) = []"
  "db_connecting (handleDisconnect rnd cause db) = db_connecting db"
  "db_reconnectCfg (handleDisconnect rnd cause db) = db_reconnectCfg db"
  "db_generation (handleDisconnect rnd cause db) = db_generation db"
  by (simp_all add: handleDisconnect_def scheduleReconnect_def reject_simps Let_def)

lemma handleDisconnect_outcome:
  fixes rnd cause db
  defines "db' \<equiv> handleDisconnect rnd cause db"
  shows "db_stateValue db = Closed \<and> db_stateValue db' = Closed \<and> db_readyWaiters db' = db_readyWaiters db
         \<and> db_reconnectTimer db' = db_reconnectTimer db \<and> db_reconnectAttempts db' = db_reconnectAttempts db
     \<or> db_stateValue db \<noteq> Closed \<and> \<not> rc_enabled (db_reconnectCfg db) \<and> db_stateValue db' = Idle
         \<and> db_readyWaiters db' = [] \<and> db_reconnectTimer db' = db_reconnectTimer db
         \<and> db_reconnectAttempts db' = db_reconnectAttempts db
     \<or> db_stateValue db \<noteq> Closed \<and> rc_enabled (db_reconnectCfg db) \<and> db_stateValue db' = Closed
         \<and> db_readyWaiters db' = [] \<and> db_reconnectTimer db' = None \<and> \<not> db_connecting db
         \<and> db_reconnectAttempts db' = db_reconnectAttempts db
     \<or> db_stateValue db \<noteq> Closed \<and> rc_enabled (db_reconnectCfg db) \<and> db_stateValue db' = Reconnecting
         \<and> db_readyWaiters db' = db_readyWaiters db \<and> db_reconnectTimer db' = db_reconnectTimer db
         \<and> db_reconnectAttempts db' = db_reconnectAttempts db
         \<and> (db_connecting db \<or> db_reconnectTimer db \<noteq> None)
     \<or> db_stateValue db \<noteq> Closed \<and> rc_enabled (db_reconnectCfg db) \<and> db_stateValue db' = Reconnecting
         \<and> db_readyWaiters db' = db_readyWaiters db \<and> db_reconnectTimer db = None \<and> \<not> db_connecting db
         \<and> db_reconnectTimer db' \<noteq> None \<and> db_reconnectAttempts db' = Suc (db_reconnectAttempts db)
         \<and> attempts_ok (db_reconnectCfg db) (Suc (db_reconnectAttempts db))"
  unfolding db'_def handleDisconnect_def scheduleReconnect_def Let_def reject_simps attempts_ok_Suc
  by simp

lemma handleDisconnect_inv:
  assumes "inv_view (db_stateValue db) sk con (db_reconnectTimer db \<noteq> None)
       (db_readyWaiters db \<noteq> []) pend (rc_enabled (db_reconnectCfg db))"
    and "db_connecting db = con \<or> \<not> db_connecting db"
    and "attempts_ok (db_reconnectCfg db) (db_reconnectAttempts db)"
  shows "db_inv (settle_out (handleDisconnect rnd cause db))"
  using handleDisconnect_outcome [of db rnd cause] assms
  by (elim disjE conjE; cases "db_stateValue db"; simp add: db_inv_def; metis)

lemma failConnection_inv: "db_inv db \<Longrightarrow> db_inv (settle_out (failConnection rnd err db))"
  unfolding failConnection_def Let_def reject_simps
  by (cases "db_socket db"; cases "db_stateValue db")
    (auto simp: db_inv_def [of db] db_inv_def [of "settle_out (db_emit _ _)"] intro!: handleDisconnect_inv)

lemma on_reconnect_timer_inv:
  "db_inv db \<Longrightarrow> db_reconnectTimer db \<noteq> None \<Longrightarrow> db_inv (settle_out (on_reconnect_timer db))"
  by (cases "db_stateValue db") (auto simp: db_inv_def on_reconnect_timer_def openSocket_def)

lemma db_write_simps [simp]:
  "db_write wr db s f = (threw, db') \<Longrightarrow> db_out db' = db_out db"
  "db_write wr db s f = (threw, db') \<Longrightarrow> db_stateValue db' = db_stateValue db"
  "db_write wr db s f = (threw, db') \<Longrightarrow> db_socket db' = db_socket db"
  "db_write wr db s f = (threw, db') \<Longrightarrow> db_pendingQueue db' = db_pendingQueue db"
  "db_write wr db s f = (threw, db') \<Longrightarrow> db_readyWaiters db' = db_readyWaiters db"
  "db_write wr db s f = (threw, db') \<Longrightarrow> db_reconnectCfg db' = db_reconnectCfg db"
  "db_write wr db s f = (threw, db') \<Longrightarrow> db_reconnectAttempts db' = db_reconnectAttempts db"
  "db_write wr db s f = (threw, db') \<Longrightarrow> db_reconnectTimer db' = db_reconnectTimer db"
  "db_write wr db s f = (threw, db') \<Longrightarrow> db_connecting db' = db_connecting db"
  "db_write wr db s f = (threw, db') \<Longrightarrow> db_generation db' = db_generation db"
  "db_write wr db s f = (threw, db') \<Longrightarrow> db_subs db' = db_subs db"
  "db_write wr db s f = (threw, db') \<Longrightarrow> db_entries db' = db_entries db"
  "db_write wr db s f = (threw, db') \<Longrightarrow> db_pingIntervalMs db' = db_pingIntervalMs db"
  by (auto simp: db_write_def Let_def split: prod.splits)

text \<open>What the handshake frames change: entries without a number are queued, nothing else the
  invariants speak about.\<close>

definition same_but_queue :: "wormdb \<Rightarrow> wormdb \<Rightarrow> bool" where
  "same_but_queue db db' \<longleftrightarrow>
     db_out db' = db_out db \<and> db_stateValue db' = db_stateValue db \<and> db_socket db' = db_socket db
   \<and> db_readyWaiters db' = db_readyWaiters db \<and> db_reconnectCfg db' = db_reconnectCfg db
   \<and> db_reconnectAttempts db' = db_reconnectAttempts db \<and> db_reconnectTimer db' = db_reconnectTimer db
   \<and> db_connecting db' = db_connecting db \<and> db_generation db' = db_generation db
   \<and> db_subs db' = db_subs db \<and> db_entries db' = db_entries db
   \<and> (\<exists>n. db_pendingQueue db' = db_pendingQueue db
          @ replicate n \<lparr>p_id = None, p_generation = db_generation db\<rparr>)"

lemma same_but_queue_refl [simp]: "same_but_queue db db"
  by (auto simp: same_but_queue_def intro: exI [of _ 0])

lemma same_but_queue_trans:
  "same_but_queue a b \<Longrightarrow> same_but_queue b c \<Longrightarrow> same_but_queue a c"
  by (auto simp: same_but_queue_def simp flip: replicate_add)

lemma send_settled_same: "same_but_queue db (snd (send_settled wr s frame db))"
  by (auto simp: same_but_queue_def send_settled_def enqueuePending_def Let_def
      split: sum.splits prod.splits intro: exI [of _ 1])

lemma resubscribe_same: "same_but_queue db (snd (resubscribe wr s subs db))"
proof (induction wr s subs db rule: resubscribe.induct)
  case (2 wr s channel e rest db)
  let ?f = "encodeCommandFrame (CmdSub channel (se_filter (db_entries db e)))"
  obtain err db' where "send_settled wr s ?f db = (err, db')" by (cases "send_settled wr s ?f db")
  then show ?case
    using 2 send_settled_same [of db wr s ?f] same_but_queue_trans
    by (cases err) (auto simp: Let_def)
qed simp

lemma on_dial_open_shape:
  assumes "on_dial_open wr now s db = (None, db')"
  shows "\<exists>n. db_pendingQueue db' = db_pendingQueue db
             @ replicate n \<lparr>p_id = None, p_generation = db_generation db + 1\<rparr>
       \<and> db_stateValue db' = Ready \<and> db_socket db' = Some s \<and> \<not> db_connecting db'
       \<and> db_readyWaiters db' = [] \<and> db_reconnectTimer db' = db_reconnectTimer db
       \<and> db_reconnectCfg db' = db_reconnectCfg db \<and> db_reconnectAttempts db' = 0
       \<and> db_generation db' = db_generation db + 1
       \<and> db_out db' = db_out db @ map Wake (db_readyWaiters db)"
proof -
  define db1 where "db1 = open_reset wr s (db\<lparr>db_connecting := False\<rparr>)"
  obtain e2 db2 where 2: "reauth wr s db1 = (e2, db2)" by fastforce
  obtain e3 db3 where 3: "resubscribe wr s (db_subs db2) db2 = (e3, db3)" by fastforce
  have "same_but_queue db1 db2"
    using 2 send_settled_same [of db1 wr s "encodeAuth (the (db_authToken db1))"]
    by (auto simp: reauth_def split: option.splits)
  then have "same_but_queue db1 db3"
    using 3 resubscribe_same [of db2 wr s "db_subs db2"] same_but_queue_trans by simp
  moreover have "e2 = None" "e3 = None" "db' = (open_ready now db3)\<lparr>db_connecting := False\<rparr>"
    using assms 2 3
    by (auto simp: on_dial_open_def onOpen_def simp flip: db1_def split: option.splits)
  ultimately show ?thesis
    by (auto simp: same_but_queue_def open_ready_def startPing_def db1_def open_reset_def)
qed

lemma on_dial_open_inv:
  assumes "db_inv db" and "db_connecting db" and "on_dial_open wr now s db = (None, db')"
  shows "db_inv (settle_out db')"
  using assms(1,2) on_dial_open_shape [OF assms(3)]
  by (cases "db_stateValue db") (auto simp: db_inv_def)

lemma ensureReady_waits:
  assumes "db_stateValue db \<noteq> Closed" and "db_stateValue db = Ready \<longrightarrow> db_socket db = None"
    and "db_connecting db \<or> db_reconnectTimer db \<noteq> None"
  shows "ensureReady i db = (db\<lparr>db_readyWaiters := db_readyWaiters db @ [i]\<rparr>, Waits)"
  using assms by (subst ensureReady.simps) auto

lemma ensureReady_cases:
  obtains (closed) "db_stateValue db = Closed"
      "ensureReady i db = (db, Throws ClientConnectionClosedError)"
  | (ready) s where "db_stateValue db = Ready" "db_socket db = Some s" "ensureReady i db = (db, HasSocket s)"
  | (parks) "db_stateValue db \<noteq> Closed" "db_stateValue db = Ready \<longrightarrow> db_socket db = None"
      "db_connecting db \<or> db_reconnectTimer db \<noteq> None"
      "ensureReady i db = (db\<lparr>db_readyWaiters := db_readyWaiters db @ [i]\<rparr>, Waits)"
  | (dials) "db_stateValue db \<noteq> Closed" "db_stateValue db = Ready \<longrightarrow> db_socket db = None"
      "\<not> db_connecting db" "db_reconnectTimer db = None"
      "ensureReady i db =
        ((db_emit (db\<lparr>db_stateValue := (if db_stateValue db = Idle then Connecting else db_stateValue db),
            db_connecting := True\<rparr>) [Dial])\<lparr>db_readyWaiters := db_readyWaiters db @ [i]\<rparr>, Waits)"
proof -
  consider "db_stateValue db = Closed" | s where "db_stateValue db = Ready" "db_socket db = Some s"
    | "db_stateValue db \<noteq> Closed" "db_stateValue db = Ready \<longrightarrow> db_socket db = None"
      "db_connecting db \<or> db_reconnectTimer db \<noteq> None"
    | "db_stateValue db \<noteq> Closed" "db_stateValue db = Ready \<longrightarrow> db_socket db = None"
      "\<not> db_connecting db" "db_reconnectTimer db = None"
    by (cases "db_stateValue db = Closed"; cases "db_socket db"; cases "db_connecting db \<or> db_reconnectTimer db \<noteq> None")
      auto
  then show ?thesis
  proof cases
    case 1
    then show ?thesis by (intro closed) (simp_all add: ensureReady.simps [of i db])
  next
    case (2 s)
    then show ?thesis by (intro ready) (simp_all add: ensureReady.simps [of i db])
  next
    case 3
    then show ?thesis by (intro parks) (simp_all add: ensureReady_waits)
  next
    case 4
    then show ?thesis
      by (intro dials)
        (auto simp add: ensureReady.simps [of i db] ensureReady_waits openSocket_def db_emit_def Let_def)
  qed
qed

lemma ensureReady_inv:
  assumes "db_inv db" and "ensureReady i db = (db', oc)"
  shows "db_inv (settle_out db')"
proof (cases rule: ensureReady_cases [of db i])
  case parks
  with assms show ?thesis by (cases "db_stateValue db") (auto simp: db_inv_def)
next
  case dials
  with assms show ?thesis by (cases "db_stateValue db") (auto simp: db_inv_def)
qed (use assms in \<open>auto simp: db_inv_def\<close>)

lemma send_request_inv:
  assumes "db_inv db" and "db_stateValue db = Ready \<or> db_stateValue db = Closed \<and> \<not> db_connecting db"
  shows "db_inv (settle_out (send_request wr now i f s db))"
proof -
  obtain threw db' where w: "db_write wr (enqueuePending db (Some i)) s f = (threw, db')" by fastforce
  then have "send_request wr now i f s db = (if \<not> threw then db'\<lparr>db_lastActivityMs := now\<rparr>
      else db_emit (db'\<lparr>db_pendingQueue := db_pendingQueue db\<rparr>) [Settle i (Inl WriteFailed)])"
    by (simp add: send_request_def enqueuePending_def settle_pending_def)
  with w assms show ?thesis
    by (cases "db_stateValue db") (auto simp: db_inv_def enqueuePending_def)
qed

end
