(* ===== verification/WormDB_Pubsub.thy ===== *)
theory WormDB_Pubsub
  imports WormDB_Engine "HOL-Library.Sublist"
begin

section \<open>AUTH and subscriptions of WormDB (\<open>wormdb.ts\<close>)\<close>

text \<open>
  \<open>auth\<close>, \<open>subscribe\<close>, \<open>unsubscribe\<close> and the bounded event iterator. Each method is split at its
  \<open>await\<close>: the part before the request and the part that runs with its result. Handlers are
  numbered and do not themselves subscribe or unsubscribe while an event is being delivered.
\<close>

subsection \<open>AUTH\<close>

definition auth_done :: "bytes \<Rightarrow> js_error + WormResponse \<Rightarrow> wormdb \<Rightarrow> js_error option \<times> wormdb" where
  "auth_done tokenBytes resp db =
     (case resp of
        Inl e \<Rightarrow> (Some e, db)
      | Inr (RError message) \<Rightarrow> (Some (WormServerError message), db)
      | Inr _ \<Rightarrow> (None, db\<lparr>db_authToken := Some tokenBytes\<rparr>))"

subsection \<open>Subscribing\<close>

definition set_add :: "'a \<Rightarrow> 'a list \<Rightarrow> 'a list" where
  "set_add x xs = (if x \<in> set xs then xs else xs @ [x])"

definition upd_entry :: "nat \<Rightarrow> (SubEntry \<Rightarrow> SubEntry) \<Rightarrow> wormdb \<Rightarrow> wormdb" where
  "upd_entry e f db = db\<lparr>db_entries := (db_entries db)(e := f (db_entries db e))\<rparr>"

definition delete_sub :: "jstring \<Rightarrow> wormdb \<Rightarrow> wormdb" where
  "delete_sub channel db = db\<lparr>db_subs := filter (\<lambda>(ch, e). ch \<noteq> channel) (db_subs db)\<rparr>"

text \<open>Before the request: the entry of the channel, and whether it is new and a SUB frame is sent.\<close>

definition subscribe_begin :: "jstring \<Rightarrow> nat \<Rightarrow> jstring option \<Rightarrow> wormdb \<Rightarrow> wormdb \<times> nat \<times> bool" where
  "subscribe_begin channel handler flt db =
     (let existing = map_of (db_subs db) channel;
          isNew = (existing = None);
          (db, e) =
            (case existing of
               Some e \<Rightarrow> (db, e)
             | None \<Rightarrow>
                 let e = db_nextEntry db;
                     entry = \<lparr>se_filter = flt, se_handlers = [], se_wireSubscribed = False\<rparr>
                 in (db\<lparr>db_entries := (db_entries db)(e := entry), db_nextEntry := e + 1,
                        db_subs := db_subs db @ [(channel, e)]\<rparr>, e));
          db = upd_entry e (\<lambda>entry. entry\<lparr>se_handlers := set_add handler (se_handlers entry)\<rparr>) db
      in (db, e, isNew))"

text \<open>With the result of the SUB request; a frame that cannot be encoded fails the same way.\<close>

definition subscribe_failed :: "jstring \<Rightarrow> nat \<Rightarrow> nat \<Rightarrow> wormdb \<Rightarrow> wormdb" where
  "subscribe_failed channel handler e db =
     (let db = upd_entry e (\<lambda>entry. entry\<lparr>se_handlers := removeAll handler (se_handlers entry)\<rparr>) db
      in if length (se_handlers (db_entries db e)) = 0 then delete_sub channel db else db)"

definition subscribe_done ::
  "jstring \<Rightarrow> nat \<Rightarrow> nat \<Rightarrow> js_error + WormResponse \<Rightarrow> wormdb \<Rightarrow> js_error option \<times> wormdb" where
  "subscribe_done channel handler e resp db =
     (case resp of
        Inl err \<Rightarrow> (Some err, subscribe_failed channel handler e db)
      | Inr (RError message) \<Rightarrow> (Some (WormServerError message), subscribe_failed channel handler e db)
      | Inr _ \<Rightarrow> (None, upd_entry e (\<lambda>entry. entry\<lparr>se_wireSubscribed := True\<rparr>) db))"

text \<open>\<open>removeHandler\<close>: the second component says that an UNSUB request is sent.\<close>

definition removeHandler :: "jstring \<Rightarrow> nat \<Rightarrow> wormdb \<Rightarrow> wormdb \<times> bool" where
  "removeHandler channel handler db =
     (case map_of (db_subs db) channel of
        None \<Rightarrow> (db, False)
      | Some e \<Rightarrow>
          let db = upd_entry e (\<lambda>entry. entry\<lparr>se_handlers := removeAll handler (se_handlers entry)\<rparr>) db
          in if length (se_handlers (db_entries db e)) > 0 then (db, False)
             else
               let db = delete_sub channel db
               in (db, db_socket db \<noteq> None \<and> db_stateValue db = Ready))"

text \<open>The object \<open>subscribe\<close> returns; \<open>unsubscribe\<close> acts once.\<close>

record Subscription =
  sn_channel :: jstring
  sn_handler :: nat
  sn_active :: bool

definition unsubscribe :: "Subscription \<Rightarrow> wormdb \<Rightarrow> Subscription \<times> wormdb \<times> bool" where
  "unsubscribe sn db =
     (if \<not> sn_active sn then (sn, db, False)
      else (case removeHandler (sn_channel sn) (sn_handler sn) db of
              (db, unsub) \<Rightarrow> (sn\<lparr>sn_active := False\<rparr>, db, unsub)))"

subsection \<open>The event iterator\<close>

type_synonym WormEvent = "jstring \<times> jstring"

record event_iterator =
  ei_limit :: nat
  ei_queue :: "WormEvent list"
  ei_dropped :: nat
  ei_finished :: bool
  ei_waiting :: bool

definition events_new :: "int option \<Rightarrow> event_iterator" where
  "events_new queueLimit =
     \<lparr>ei_limit = nat (max 1 (or_default queueLimit 1024)), ei_queue = [], ei_dropped = 0,
      ei_finished = False, ei_waiting = False\<rparr>"

text \<open>The handler \<open>events\<close> subscribes: the oldest event is dropped on overflow; a waiting \<open>next\<close> wakes.\<close>

definition ei_push :: "event_iterator \<Rightarrow> WormEvent \<Rightarrow> event_iterator" where
  "ei_push it evt =
     (let it = it\<lparr>ei_queue := ei_queue it @ [evt]\<rparr>;
          it = (if length (ei_queue it) > ei_limit it
                then it\<lparr>ei_queue := tl (ei_queue it), ei_dropped := ei_dropped it + 1\<rparr> else it)
      in it\<lparr>ei_waiting := False\<rparr>)"

datatype next_outcome = NextValue WormEvent | NextDone | NextWaits

text \<open>One turn of the loop of \<open>next\<close>, after the subscription succeeded.\<close>

definition ei_next :: "wormdb \<Rightarrow> event_iterator \<Rightarrow> event_iterator \<times> next_outcome" where
  "ei_next db it =
     (case ei_queue it of
        evt # rest \<Rightarrow> (it\<lparr>ei_queue := rest\<rparr>, NextValue evt)
      | [] \<Rightarrow>
          if ei_finished it \<or> db_stateValue db = Closed then (it, NextDone)
          else (it\<lparr>ei_waiting := True\<rparr>, NextWaits))"

text \<open>\<open>finish\<close>: the second component says that the subscription is removed.\<close>

definition ei_finish :: "event_iterator \<Rightarrow> event_iterator \<times> bool" where
  "ei_finish it =
     (if ei_finished it then (it, False)
      else (it\<lparr>ei_finished := True, ei_waiting := False\<rparr>, True))"

subsection \<open>The iterator keeps the most recent events\<close>

datatype iter_op = IPush WormEvent | INext

text \<open>A run of the iterator on an open client: the state and the events \<open>next\<close> returned.\<close>

fun iter_run :: "wormdb \<Rightarrow> event_iterator \<times> WormEvent list \<Rightarrow> iter_op list \<Rightarrow> event_iterator \<times> WormEvent list" where
  "iter_run db (it, taken) [] = (it, taken)"
| "iter_run db (it, taken) (IPush e # ops) = iter_run db (ei_push it e, taken) ops"
| "iter_run db (it, taken) (INext # ops) =
     (case ei_next db it of
        (it', NextValue e) \<Rightarrow> iter_run db (it', taken @ [e]) ops
      | (it', _) \<Rightarrow> iter_run db (it', taken) ops)"

fun iter_pushed :: "iter_op list \<Rightarrow> WormEvent list" where
  "iter_pushed [] = []"
| "iter_pushed (IPush e # ops) = e # iter_pushed ops"
| "iter_pushed (INext # ops) = iter_pushed ops"

definition iter_inv :: "WormEvent list \<Rightarrow> event_iterator \<times> WormEvent list \<Rightarrow> bool" where
  "iter_inv sent s \<longleftrightarrow>
     0 < ei_limit (fst s) \<and> length (ei_queue (fst s)) \<le> ei_limit (fst s)
   \<and> ei_dropped (fst s) + length (snd s) + length (ei_queue (fst s)) = length sent
   \<and> subseq (snd s @ ei_queue (fst s)) sent
   \<and> suffix (ei_queue (fst s)) sent"

lemma ei_push_inv: "iter_inv sent (it, taken) \<Longrightarrow> iter_inv (sent @ [e]) (ei_push it e, taken)"
proof -
  assume inv: "iter_inv sent (it, taken)"
  show ?thesis
  proof (cases "length (ei_queue it) < ei_limit it")
    case True
    with inv show ?thesis
      by (auto simp: iter_inv_def ei_push_def Let_def suffix_def simp flip: append_assoc)
  next
    case False
    then obtain q qs where q: "ei_queue it = q # qs" "length (q # qs) = ei_limit it"
      using inv by (cases "ei_queue it") (auto simp: iter_inv_def)
    have "subseq (taken @ qs) (taken @ q # qs)"
      by (intro subseq_append_iff [THEN iffD2]) auto
    then have "subseq (taken @ qs) sent"
      using inv q subseq_order.order_trans by (auto simp: iter_inv_def)
    then have "subseq ((taken @ qs) @ [e]) (sent @ [e])"
      by (rule list_emb_append_mono) simp
    with inv q show ?thesis
      by (auto simp: iter_inv_def ei_push_def Let_def suffix_def)
  qed
qed

lemma ei_next_inv:
  "iter_inv sent (it, taken) \<Longrightarrow> ei_queue it = e # q \<Longrightarrow> iter_inv sent (it\<lparr>ei_queue := q\<rparr>, taken @ [e])"
  by (auto simp: iter_inv_def suffix_def)

lemma iter_run_inv:
  "iter_inv sent s \<Longrightarrow> iter_inv (sent @ iter_pushed ops) (iter_run db s ops)"
proof (induction db s ops arbitrary: sent rule: iter_run.induct)
  case (2 db it taken e ops)
  then show ?case using ei_push_inv [of sent it taken e] by fastforce
next
  case (3 db it taken ops)
  show ?case
  proof (cases "ei_queue it")
    case Nil
    have w: "iter_inv sent (it\<lparr>ei_waiting := True\<rparr>, taken)"
      using "3.prems" by (simp add: iter_inv_def)
    show ?thesis
      using Nil 3 w by (auto simp: ei_next_def)
  next
    case (Cons e q)
    with 3 ei_next_inv show ?thesis by (simp add: ei_next_def)
  qed
qed simp


subsection \<open>Subscriptions\<close>

text \<open>Channels are subscribed once: the map has at most one entry per channel.\<close>

definition subs_ok :: "wormdb \<Rightarrow> bool" where
  "subs_ok db \<longleftrightarrow> distinct (map fst (db_subs db)) \<and> (\<forall>e \<in> snd ` set (db_subs db). e < db_nextEntry db)"

lemma delete_sub_fresh: "channel \<notin> fst ` set subs \<Longrightarrow> filter (\<lambda>(ch, e). ch \<noteq> channel) subs = subs"
  by (induction subs) auto

lemma subs_ok_filter:
  "subs_ok db \<Longrightarrow> subs_ok (delete_sub channel db)"
  by (auto simp: subs_ok_def delete_sub_def distinct_map inj_on_def)

lemma upd_entry_subs [simp]:
  "db_subs (upd_entry e f db) = db_subs db" "db_nextEntry (upd_entry e f db) = db_nextEntry db"
  "db_entries (upd_entry e f db) = (db_entries db)(e := f (db_entries db e))"
  by (simp_all add: upd_entry_def)

lemma subs_ok_upd [simp]: "subs_ok (upd_entry e f db) = subs_ok db"
  by (simp add: subs_ok_def)

text \<open>
The subscription methods keep the map of subscriptions well formed: one entry per channel, each
with its own entry object, so an event is never delivered twice to a handler through two entries of
one channel.
\<close>

theorem subscriptions_well_formed:
  assumes "subs_ok db"
  shows "subs_ok (fst (subscribe_begin ch h f db)) \<and> subs_ok (snd (subscribe_done ch h e r db))
       \<and> subs_ok (fst (removeHandler ch h db))"
proof (intro conjI)
  show "subs_ok (fst (subscribe_begin ch h f db))"
  proof (cases "map_of (db_subs db) ch")
    case None
    then have "ch \<notin> fst ` set (db_subs db)" by (simp add: map_of_eq_None_iff)
    with None assms show ?thesis
      by (auto simp: subscribe_begin_def subs_ok_def Let_def)
  next
    case (Some e)
    with assms show ?thesis by (simp add: subscribe_begin_def)
  qed
  show "subs_ok (snd (subscribe_done ch h e r db))"
    using assms subs_ok_filter
    by (auto simp: subscribe_done_def subscribe_failed_def Let_def split: sum.splits WormResponse.splits)
  show "subs_ok (fst (removeHandler ch h db))"
    using assms subs_ok_filter by (auto simp: removeHandler_def Let_def split: option.splits)
qed

theorem subscriptions_well_formed_witness:
  "subs_ok (fst (subscribe_begin (js ''a'') 1 None fresh_db))"
  using subscriptions_well_formed [of fresh_db "js ''a''" 1 None 0 "Inr ROk"]
  by (simp add: subs_ok_def fresh_db_def WormDB_new_def)

text \<open>
A subscription to a new channel whose SUB request fails leaves no trace: the map of subscriptions
is what it was, and the caller gets the error.
\<close>

theorem failed_subscribe_leaves_nothing:
  assumes "map_of (db_subs db) ch = None" and "subscribe_begin ch h f db = (db1, e, isNew)"
    and "subscribe_done ch h e (Inl err) db1 = (res, db2)"
  shows "isNew \<and> db_subs db2 = db_subs db \<and> res = Some err"
proof -
  have "ch \<notin> fst ` set (db_subs db)" using assms(1) by (simp add: map_of_eq_None_iff)
  with assms show ?thesis
    by (auto simp: subscribe_begin_def subscribe_done_def subscribe_failed_def set_add_def delete_sub_def
        upd_entry_def Let_def delete_sub_fresh)
qed

theorem failed_subscribe_leaves_nothing_witness:
  "\<exists>db1 e isNew res db2. subscribe_begin (js ''a'') 1 None fresh_db = (db1, e, isNew)
     \<and> subscribe_done (js ''a'') 1 e (Inl WriteFailed) db1 = (res, db2) \<and> db_subs db2 = [] \<and> res = Some WriteFailed"
proof -
  obtain db1 e isNew where 1: "subscribe_begin (js ''a'') 1 None fresh_db = (db1, e, isNew)"
    by (cases "subscribe_begin (js ''a'') 1 None fresh_db") auto
  obtain res db2 where 2: "subscribe_done (js ''a'') 1 e (Inl WriteFailed) db1 = (res, db2)" by fastforce
  have n: "db_subs fresh_db = []" by (simp add: fresh_db_def WormDB_new_def)
  then have "map_of (db_subs fresh_db) (js ''a'') = None" by simp
  from failed_subscribe_leaves_nothing [OF this 1 2] 1 2 n show ?thesis by auto
qed

text \<open>
A second subscriber that joins a channel while its first SUB request is in flight is told that it
is subscribed; when that request then fails, its handler stays in the map under an entry that was
never subscribed on the wire, which no reconnect re-subscribes and which makes every later
subscription to the channel skip the SUB request.
\<close>

theorem second_subscriber_stranded:
  assumes "map_of (db_subs db) ch = None" and "h1 \<noteq> h2"
    and "subscribe_begin ch h1 f db = (db1, e, new1)" and "subscribe_begin ch h2 f2 db1 = (db2, e2, new2)"
    and "subscribe_done ch h1 e (Inl err) db2 = (res, db3)"
  shows "\<not> new2 \<and> map_of (db_subs db3) ch = Some e \<and> se_handlers (db_entries db3 e) = [h2]
       \<and> \<not> se_wireSubscribed (db_entries db3 e) \<and> \<not> snd (snd (subscribe_begin ch h3 f3 db3))"
proof -
  have n: "map_of (db_subs db @ [(ch, db_nextEntry db)]) ch = Some (db_nextEntry db)"
    using assms(1) by (simp add: map_add_def)
  have 1: "e = db_nextEntry db" "db_subs db1 = db_subs db @ [(ch, e)]"
      "db_entries db1 e = \<lparr>se_filter = f, se_handlers = [h1], se_wireSubscribed = False\<rparr>"
    using assms(1,3) by (auto simp: subscribe_begin_def set_add_def Let_def)
  have 2: "e2 = e" "\<not> new2" "db_subs db2 = db_subs db1"
      "db_entries db2 e = \<lparr>se_filter = f, se_handlers = [h1, h2], se_wireSubscribed = False\<rparr>"
    using assms(2,4) 1 n by (auto simp: subscribe_begin_def set_add_def Let_def)
  have 3: "db_subs db3 = db_subs db1"
      "db_entries db3 e = \<lparr>se_filter = f, se_handlers = [h2], se_wireSubscribed = False\<rparr>"
    using assms(2,5) 2 by (auto simp: subscribe_done_def subscribe_failed_def Let_def)
  show ?thesis
    using 1 2 3 n by (simp add: subscribe_begin_def Let_def)
qed

theorem second_subscriber_stranded_witness:
  "\<exists>db1 e n1 db2 e2 n2 res db3. subscribe_begin (js ''a'') 1 None fresh_db = (db1, e, n1)
     \<and> subscribe_begin (js ''a'') 2 None db1 = (db2, e2, n2)
     \<and> subscribe_done (js ''a'') 1 e (Inl WriteFailed) db2 = (res, db3)
     \<and> \<not> n2 \<and> map_of (db_subs db3) (js ''a'') = Some e \<and> \<not> se_wireSubscribed (db_entries db3 e)"
proof -
  obtain db1 e n1 where 1: "subscribe_begin (js ''a'') 1 None fresh_db = (db1, e, n1)"
    by (cases "subscribe_begin (js ''a'') 1 None fresh_db") auto
  obtain db2 e2 n2 where 2: "subscribe_begin (js ''a'') 2 None db1 = (db2, e2, n2)"
    by (cases "subscribe_begin (js ''a'') 2 None db1") auto
  obtain res db3 where 3: "subscribe_done (js ''a'') 1 e (Inl WriteFailed) db2 = (res, db3)" by fastforce
  have "map_of (db_subs fresh_db) (js ''a'') = None" by (simp add: fresh_db_def WormDB_new_def)
  moreover have "(1 :: nat) \<noteq> 2" by simp
  ultimately show ?thesis
    using second_subscriber_stranded [OF _ _ 1 2 3] 1 2 3 by blast
qed

end
