(* ===== verification/Base64.thy ===== *)
theory Base64
  imports Utf8
begin

section \<open>Base64\<close>

text \<open>
  The platform's base64: \<open>atob\<close> on JavaScript strings, and the standard encoding with padding, which
  is the text form of a token and what \<open>Buffer.from(b).toString("base64")\<close> returns; with the round
  trip, and that the encoding is plain ASCII.
\<close>

text \<open>
  \<open>atob\<close> as the platform defines it: white space is removed, up to two padding characters are
  removed from a text whose length is a multiple of four, and anything outside the alphabet fails.
\<close>

definition b64_value :: "u16 \<Rightarrow> nat option" where
  "b64_value c =
     (let n = unat c in
      if 65 \<le> n \<and> n \<le> 90 then Some (n - 65)
      else if 97 \<le> n \<and> n \<le> 122 then Some (n - 71)
      else if 48 \<le> n \<and> n \<le> 57 then Some (n + 4)
      else if n = 43 then Some 62
      else if n = 47 then Some 63
      else None)"

definition ascii_ws :: "u16 \<Rightarrow> bool" where
  "ascii_ws c \<longleftrightarrow> c = 9 \<or> c = 10 \<or> c = 12 \<or> c = 13 \<or> c = 32"

definition strip_pad :: "jstring \<Rightarrow> jstring" where
  "strip_pad s =
     (if length s mod 4 = 0 \<and> s \<noteq> [] \<and> last s = 61
      then (if butlast s \<noteq> [] \<and> last (butlast s) = 61 then butlast (butlast s) else butlast s)
      else s)"

fun b64_bytes :: "nat list \<Rightarrow> nat list" where
  "b64_bytes (a # b # c # d # r) = (a * 4 + b div 16) # (b mod 16 * 16 + c div 4) # (c mod 4 * 64 + d) # b64_bytes r"
| "b64_bytes [a, b, c] = [a * 4 + b div 16, b mod 16 * 16 + c div 4]"
| "b64_bytes [a, b] = [a * 4 + b div 16]"
| "b64_bytes _ = []"

definition atob :: "jstring \<Rightarrow> jstring option" where
  "atob data =
     (let s = strip_pad (filter (\<lambda>c. \<not> ascii_ws c) data)
      in if length s mod 4 = 1 \<or> (\<exists>c \<in> set s. b64_value c = None) then None
         else Some (map of_nat (b64_bytes (map (\<lambda>c. the (b64_value c)) s))))"

text \<open>The standard encoding with padding.\<close>

definition b64_code :: "nat \<Rightarrow> nat" where
  "b64_code v =
     (if v < 26 then v + 65 else if v < 52 then v + 71 else if v < 62 then v - 4
      else if v = 62 then 43 else 47)"

definition b64_char :: "nat \<Rightarrow> u16" where
  "b64_char v = of_nat (b64_code v)"

fun b64_sextets :: "nat list \<Rightarrow> nat list" where
  "b64_sextets (a # b # c # r) =
     (a div 4) # (a mod 4 * 16 + b div 16) # (b mod 16 * 4 + c div 64) # (c mod 64) # b64_sextets r"
| "b64_sextets [a, b] = [a div 4, a mod 4 * 16 + b div 16, b mod 16 * 4]"
| "b64_sextets [a] = [a div 4, a mod 4 * 16]"
| "b64_sextets [] = []"

definition base64 :: "bytes \<Rightarrow> jstring" where
  "base64 bs = map b64_char (b64_sextets (map unat bs)) @ replicate ((3 - length bs mod 3) mod 3) 61"

lemma unat_b64_char: "v < 64 \<Longrightarrow> unat (b64_char v) = b64_code v"
  unfolding b64_char_def by (rule unat_of_nat16) (auto simp: b64_code_def)

lemma b64_value_char: "v < 64 \<Longrightarrow> b64_value (b64_char v) = Some v"
  by (simp add: b64_value_def unat_b64_char) (auto simp: b64_code_def Let_def)

lemma b64_char_plain:
  assumes "v < 64"
  shows "\<not> ascii_ws (b64_char v)" and "b64_char v \<noteq> 61"
proof -
  have "unat (b64_char v) \<notin> {9, 10, 12, 13, 32, 61}"
    using assms by (auto simp: unat_b64_char b64_code_def)
  then show "\<not> ascii_ws (b64_char v)" and "b64_char v \<noteq> 61"
    by (auto simp: ascii_ws_def)
qed

lemma b64_sextets_less: "\<forall>x \<in> set xs. x < 256 \<Longrightarrow> \<forall>v \<in> set (b64_sextets xs). v < 64"
  by (induction xs rule: b64_sextets.induct) auto

lemma b64_bytes_sextets: "\<forall>x \<in> set xs. x < 256 \<Longrightarrow> b64_bytes (b64_sextets xs) = xs"
proof (induction xs rule: b64_sextets.induct)
  case (1 a b c r)
  then have "b64_bytes (b64_sextets r) = r" by simp
  moreover have h: "b div 16 < 16" "c div 64 < 4" using 1(2) by auto
  moreover have "a div 4 * 4 + (a mod 4 * 16 + b div 16) div 16 = a"
    "(a mod 4 * 16 + b div 16) mod 16 * 16 + (b mod 16 * 4 + c div 64) div 4 = b"
    "(b mod 16 * 4 + c div 64) mod 4 * 64 + c mod 64 = c"
    using h by simp_all
  ultimately show ?case by simp
next
  case (2 a b)
  then have "b div 16 < 16" by auto
  then show ?case by simp
qed simp_all

lemma length_b64_sextets:
  "length (b64_sextets xs) = 4 * (length xs div 3) + (if length xs mod 3 = 0 then 0 else length xs mod 3 + 1)"
  by (induction xs rule: b64_sextets.induct) (auto simp: mod_Suc div_Suc)

lemma strip_pad_base64:
  fixes bs
  defines "t \<equiv> map b64_char (b64_sextets (map unat bs))"
  assumes "\<And>c. c \<in> set t \<Longrightarrow> c \<noteq> 61"
  shows "strip_pad (base64 bs) = t"
proof -
  have len: "length t = 4 * (length bs div 3) + (if length bs mod 3 = 0 then 0 else length bs mod 3 + 1)"
    by (simp add: t_def length_b64_sextets)
  have l: "last t \<noteq> 61" if "t \<noteq> []"
    using assms(2) that last_in_set by blast
  consider "length bs mod 3 = 0" | "length bs mod 3 = 1" | "length bs mod 3 = 2" by linarith
  then show ?thesis
  proof cases
    case 1
    then show ?thesis using l by (auto simp: base64_def strip_pad_def simp flip: t_def)
  next
    case 2
    then have "base64 bs = t @ [61, 61]" by (simp add: base64_def numeral_2_eq_2 flip: t_def)
    moreover have "length t mod 4 = 2" using len 2 by simp presburger
    ultimately show ?thesis by (simp add: strip_pad_def butlast_append mod_simps) presburger
  next
    case 3
    then have "base64 bs = t @ [61]" by (simp add: base64_def flip: t_def)
    moreover have "length t mod 4 = 3" "t \<noteq> []" using len 3 by auto
    ultimately show ?thesis using l by (simp add: strip_pad_def butlast_append) presburger
  qed
qed

lemma atob_base64: "atob (base64 bs) = Some (map of_nat (map unat bs))"
proof -
  let ?v = "b64_sextets (map unat bs)"
  have v: "\<forall>x \<in> set ?v. x < 64"
    by (rule b64_sextets_less) (auto simp: unat8_less)
  have plain: "\<And>c. c \<in> set (map b64_char ?v) \<Longrightarrow> c \<noteq> 61 \<and> \<not> ascii_ws c"
    using v b64_char_plain by auto
  have "filter (\<lambda>c. \<not> ascii_ws c) (base64 bs) = base64 bs"
    using plain by (auto simp: base64_def ascii_ws_def)
  moreover have "strip_pad (base64 bs) = map b64_char ?v"
    using plain by (intro strip_pad_base64) blast
  moreover have "map (\<lambda>c. the (b64_value c)) (map b64_char ?v) = ?v"
    using v by (simp add: b64_value_char map_idI)
  moreover have "length ?v mod 4 \<noteq> 1"
    by (simp add: length_b64_sextets)
  moreover have "\<not> (\<exists>c \<in> set (map b64_char ?v). b64_value c = None)"
    using v by (auto simp: b64_value_char)
  moreover have "b64_bytes ?v = map unat bs"
    by (rule b64_bytes_sextets) (auto simp: unat8_less)
  ultimately show ?thesis
    unfolding atob_def Let_def by simp
qed

lemma of_nat_unat_byte: "of_nat (unat (b :: byte)) = b"
  by simp

lemma byte_via_unit: "(of_nat (unat (of_nat (unat b) :: u16)) :: byte) = b"
proof -
  have "unat (of_nat (unat b) :: u16) = unat b"
    by (rule unat_of_nat16) (use unat8_less [of b] in linarith)
  then show ?thesis by (simp only: of_nat_unat_byte)
qed

lemma base64_unit: "c \<in> set (base64 bs) \<Longrightarrow> 43 \<le> unat c \<and> unat c \<le> 122"
proof -
  assume c: "c \<in> set (base64 bs)"
  have "\<forall>v \<in> set (b64_sextets (map unat bs)). v < 64"
    by (rule b64_sextets_less) auto
  with c show ?thesis
    by (auto simp: base64_def unat_b64_char b64_code_def)
qed

lemma base64_eq_Nil [simp]: "base64 bs = [] \<longleftrightarrow> bs = []"
proof (cases "map unat bs" rule: b64_sextets.cases)
qed (auto simp: base64_def)

end
