(* ===== verification/WormDB_Api.thy ===== *)
theory WormDB_Api
  imports WormDB_Pubsub Base64
begin

section \<open>The methods of WormDB (\<open>wormdb.ts\<close>)\<close>

text \<open>
  The wrappers around requests: key-value and admin commands, vectors, minting of tokens and the
  append-log procedures. A method encodes its frame, awaits the request and interprets the response.
  \<open>req\<close> is \<open>requestRaw\<close>: what the request of a frame comes to. \<open>parse\<close> is \<open>JSON.parse\<close> (\<open>None\<close> when
  it throws) and \<open>prop\<close> the property of a parsed document; \<open>str\<close> is \<open>String\<close> on numbers that need
  not be integers.
\<close>

type_synonym requester = "bytes \<Rightarrow> js_error + RawFrame"

subsection \<open>Requests and responses\<close>

definition request :: "requester \<Rightarrow> bytes \<Rightarrow> js_error + WormResponse" where
  "request req frame = and_then (req frame) (\<lambda>(code, payload). Inr (decodeResponse code payload))"

text \<open>The frame is built before the request; its error leaves the method.\<close>

definition encoded :: "wire_error + bytes \<Rightarrow> js_error + bytes" where
  "encoded f = (case f of Inl e \<Rightarrow> Inl (WireFailure e) | Inr b \<Rightarrow> Inr b)"

definition request_frame :: "requester \<Rightarrow> wire_error + bytes \<Rightarrow> js_error + WormResponse" where
  "request_frame req f = and_then (encoded f) (request req)"

fun response_type :: "WormResponse \<Rightarrow> jstring" where
  "response_type ROk = js ''ok''"
| "response_type (RError m) = js ''error''"
| "response_type RNull = js ''null''"
| "response_type (RBulk v) = js ''bulk''"
| "response_type (REvent ch m) = js ''event''"

definition expectOk :: "WormResponse \<Rightarrow> js_error + unit" where
  "expectOk resp =
     (case resp of
        RError message \<Rightarrow> Inl (WormServerError message)
      | ROk \<Rightarrow> Inr ()
      | _ \<Rightarrow> Inl (WormServerError (js ''unexpected response: '' @ response_type resp)))"

definition expectValue :: "WormResponse \<Rightarrow> js_error + jstring" where
  "expectValue resp =
     (case resp of
        RError message \<Rightarrow> Inl (WormServerError message)
      | RBulk v \<Rightarrow> Inr v
      | _ \<Rightarrow> Inl (WormServerError (js ''unexpected response: '' @ response_type resp)))"

definition db_sendCommand :: "requester \<Rightarrow> ParsedCommand \<Rightarrow> js_error + WormResponse" where
  "db_sendCommand req parsed = request_frame req (encodeCommandFrame parsed)"

definition db_send :: "requester \<Rightarrow> jstring \<Rightarrow> js_error + WormResponse" where
  "db_send req command =
     (case parseCommand command of
        Inl e \<Rightarrow> Inl (CommandFailure e)
      | Inr parsed \<Rightarrow> db_sendCommand req parsed)"

subsection \<open>Keys and administration\<close>

definition db_pub :: "requester \<Rightarrow> jstring \<Rightarrow> jstring \<Rightarrow> js_error + unit" where
  "db_pub req channel message =
     and_then (request_frame req (encodeCommandFrame (CmdPub channel message))) expectOk"

definition db_get :: "requester \<Rightarrow> jstring \<Rightarrow> js_error + jstring option" where
  "db_get req key =
     and_then (request_frame req (encodeCommandFrame (CmdGet key))) (\<lambda>resp.
       case resp of
         RError message \<Rightarrow> Inl (WormServerError message)
       | RNull \<Rightarrow> Inr None
       | RBulk v \<Rightarrow> Inr (Some v)
       | _ \<Rightarrow> Inl (WormServerError (js ''unexpected GET response: '' @ response_type resp)))"

definition db_getBytes :: "requester \<Rightarrow> jstring \<Rightarrow> js_error + bytes option" where
  "db_getBytes req key =
     and_then (and_then (encoded (encodeCommandFrame (CmdGet key))) req) (\<lambda>(code, payload).
       let resp = decodeResponse code payload
       in case resp of
            RError message \<Rightarrow> Inl (WormServerError message)
          | RNull \<Rightarrow> Inr None
          | RBulk v \<Rightarrow> Inr (Some payload)
          | _ \<Rightarrow> Inl (WormServerError (js ''unexpected GET response: '' @ response_type resp)))"

definition db_set :: "requester \<Rightarrow> jstring \<Rightarrow> jstring \<Rightarrow> bool option \<Rightarrow> js_error + unit" where
  "db_set req key val worm =
     and_then (request_frame req (encodeCommandFrame (CmdSet key val (or_default worm False)))) expectOk"

definition db_del :: "requester \<Rightarrow> jstring \<Rightarrow> js_error + unit" where
  "db_del req key = and_then (request_frame req (encodeCommandFrame (CmdDel key))) expectOk"

definition db_status :: "requester \<Rightarrow> js_error + jstring" where
  "db_status req = and_then (request_frame req (encodeCommandFrame CmdStatus)) expectValue"

definition db_clusterStatus :: "requester \<Rightarrow> js_error + jstring" where
  "db_clusterStatus req = and_then (request_frame req (encodeCommandFrame CmdClusterStatus)) expectValue"

definition db_clusterPeers :: "requester \<Rightarrow> js_error + jstring" where
  "db_clusterPeers req = and_then (request_frame req (encodeCommandFrame CmdClusterPeers)) expectValue"

definition db_save :: "requester \<Rightarrow> js_error + unit" where
  "db_save req = and_then (request_frame req encodeSave) expectOk"

definition db_exec :: "requester \<Rightarrow> jstring \<Rightarrow> exec_arg list \<Rightarrow> js_error + jstring" where
  "db_exec req procedure args =
     and_then (request_frame req (encodeCommandFrame (CmdExec procedure args))) (\<lambda>resp.
       case resp of
         RError message \<Rightarrow> Inl (WormServerError message)
       | RBulk v \<Rightarrow> Inr v
       | ROk \<Rightarrow> Inr []
       | _ \<Rightarrow> Inl (WormServerError (js ''unexpected EXEC response: '' @ response_type resp)))"

definition execJson :: "(jstring \<Rightarrow> 'j option) \<Rightarrow> requester \<Rightarrow> jstring \<Rightarrow> exec_arg list \<Rightarrow> js_error + 'j" where
  "execJson parse req procedure args =
     and_then (db_exec req procedure args) (\<lambda>raw.
       case parse raw of
         Some doc \<Rightarrow> Inr doc
       | None \<Rightarrow> Inl (WormServerError
           (procedure @ js '': expected JSON result, got: '' @ take 128 raw)))"

subsection \<open>Vectors\<close>

record db_vector_options =
  dv_worm :: "bool option"
  dv_namespace :: "jstring option"
  dv_metric :: "Metric option"
  dv_timestamp :: "int option"
  dv_async :: "bool option"

definition db_vinsert :: "requester \<Rightarrow> int \<Rightarrow> jstring \<Rightarrow> bytes \<Rightarrow> db_vector_options \<Rightarrow> js_error + unit" where
  "db_vinsert req now key vector opts =
     and_then (request_frame req (encodeCommandFrame (CmdVinsert key vector (or_default (dv_worm opts) True)
       (or_default (dv_namespace opts) (js ''vec:'')) (or_default (dv_metric opts) Cosine)
       (or_default (dv_timestamp opts) now) (or_default (dv_async opts) False)))) expectOk"

definition db_vbulkinsert ::
  "requester \<Rightarrow> int \<Rightarrow> (jstring \<times> bytes \<times> int option) list \<Rightarrow> db_vector_options \<Rightarrow> js_error + unit" where
  "db_vbulkinsert req now items opts =
     and_then (request_frame req (encodeCommandFrame (CmdVbulkinsert
       (or_default (dv_namespace opts) (js ''vec:'')) (or_default (dv_metric opts) Cosine)
       (or_default (dv_worm opts) False) (or_default (dv_async opts) False)
       (map (\<lambda>(key, vector, timestamp).
          \<lparr>bi_key = key, bi_vector = vector, bi_timestamp = or_default timestamp now\<rparr>) items)))) expectOk"

definition db_vdelete :: "requester \<Rightarrow> jstring \<Rightarrow> jstring \<Rightarrow> js_error + unit" where
  "db_vdelete req key namespace = and_then (request_frame req (encodeVdelete key namespace)) expectOk"

record 'n VsearchOptions =
  vs_namespace :: "jstring option"
  vs_metric :: "Metric option"
  vs_decay :: "'n option"
  vs_mode :: "jstring option"
  vs_decayTauHours :: "'n option"

definition vsearch_values :: "('n \<Rightarrow> jstring) \<Rightarrow> 'n VsearchOptions \<Rightarrow> jstring option list" where
  "vsearch_values str opts =
     [vs_namespace opts, map_option metric_text (vs_metric opts), map_option str (vs_decay opts),
      vs_mode opts, map_option str (vs_decayTauHours opts)]"

definition vsearch_defaults :: "jstring list" where
  "vsearch_defaults = [js ''vec:'', js ''cosine'', js ''0'', js ''auto'', js ''168'']"

text \<open>\<open>for (let i = 0; ...) if (values[i] != null) count = i + 1\<close>\<close>

definition vsearch_count :: "'a option list \<Rightarrow> nat" where
  "vsearch_count values = foldl (\<lambda>count i. if values ! i \<noteq> None then i + 1 else count) 0 [0..<length values]"

definition vsearch_args :: "('n \<Rightarrow> jstring) \<Rightarrow> jstring \<Rightarrow> int \<Rightarrow> 'n VsearchOptions \<Rightarrow> jstring list" where
  "vsearch_args str queryKey topK opts =
     (let values = vsearch_values str opts;
          count = vsearch_count values
      in [queryKey, String_int topK]
         @ map (\<lambda>i. or_default (values ! i) (vsearch_defaults ! i)) [0..<count])"

definition db_vsearch ::
  "('n \<Rightarrow> jstring) \<Rightarrow> (jstring \<Rightarrow> 'j option) \<Rightarrow> requester \<Rightarrow> jstring \<Rightarrow> int \<Rightarrow> 'n VsearchOptions \<Rightarrow> js_error + 'j" where
  "db_vsearch str parse req queryKey topK opts =
     execJson parse req (js ''vsearch'') (map ArgStr (vsearch_args str queryKey topK opts))"

subsection \<open>Minting tokens\<close>

record mint_options =
  mo_ttlS :: "int option"
  mo_subject :: "jstring option"
  mo_mode :: "jstring option"

definition mint_args :: "jstring \<Rightarrow> mint_options \<Rightarrow> js_error + jstring list" where
  "mint_args namespace opts =
     (let args = [namespace] @ (case mo_ttlS opts of Some t \<Rightarrow> [String_int t] | None \<Rightarrow> [])
      in and_then
           (case mo_subject opts of
              None \<Rightarrow> Inr args
            | Some subject \<Rightarrow>
                if mo_ttlS opts = None
                then Inl (PlainError (js ''authMintScoped: subject requires ttlS (positional args)''))
                else Inr (args @ [subject]))
           (\<lambda>args. case mo_mode opts of
              None \<Rightarrow> Inr args
            | Some mode \<Rightarrow>
                if mo_subject opts = None
                then Inl (PlainError (js ''authMintScoped: mode requires subject (positional args)''))
                else Inr (args @ [mode])))"

definition authMintScoped ::
  "(jstring \<Rightarrow> 'j option) \<Rightarrow> (jstring \<Rightarrow> 'j \<Rightarrow> 'v) \<Rightarrow> requester \<Rightarrow> jstring \<Rightarrow> mint_options \<Rightarrow> js_error + 'v" where
  "authMintScoped parse prop req namespace opts =
     and_then (mint_args namespace opts) (\<lambda>args.
     and_then (execJson parse req (js ''auth_mint_scoped'') (map ArgStr args)) (\<lambda>minted.
       Inr (prop (js ''token'') minted)))"

subsection \<open>The append log\<close>

definition opt_arg :: "string \<Rightarrow> jstring option \<Rightarrow> jstring list" where
  "opt_arg name x = (case x of None \<Rightarrow> [] | Some v \<Rightarrow> [js name @ v])"

definition al_append_args :: "jstring \<Rightarrow> exec_arg \<Rightarrow> int option \<Rightarrow> jstring list option \<Rightarrow> exec_arg list" where
  "al_append_args logId payload tsMs attachmentHashesHex =
     [ArgStr logId, payload] @ map ArgStr (opt_arg ''ts='' (map_option String_int tsMs))
     @ (case attachmentHashesHex of None \<Rightarrow> [] | Some hs \<Rightarrow> map ArgStr hs)"

definition al_append where
  "al_append parse req logId payload tsMs attachmentHashesHex =
     execJson parse req (js ''append_log_append'') (al_append_args logId payload tsMs attachmentHashesHex)"

definition al_verify where
  "al_verify parse req logId = execJson parse req (js ''append_log_verify'') [ArgStr logId]"

definition al_mmrProof where
  "al_mmrProof parse req logId seq =
     execJson parse req (js ''append_log_mmr_proof'') [ArgStr logId, ArgStr (String_int seq)]"

text \<open>The methods that return one property of the parsed document.\<close>

definition execProp ::
  "(jstring \<Rightarrow> 'j option) \<Rightarrow> (jstring \<Rightarrow> 'j \<Rightarrow> 'v) \<Rightarrow> requester \<Rightarrow> string \<Rightarrow> string \<Rightarrow> jstring list \<Rightarrow> js_error + 'v" where
  "execProp parse prop req procedure name args =
     and_then (execJson parse req (js procedure) (map ArgStr args)) (\<lambda>out. Inr (prop (js name) out))"

definition al_mmrVerify where
  "al_mmrVerify parse prop req recordHashHex rootHex proofHex =
     execProp parse prop req ''append_log_mmr_verify'' ''valid'' [recordHashHex, rootHex, proofHex]"

record AppendLogCheckpointOptions =
  cp_fromSeq :: int
  cp_toSeq :: int
  cp_creatorPubkeyHex :: jstring
  cp_skHex :: "jstring option"
  cp_sigHex :: "jstring option"
  cp_createdAtMs :: "int option"
  cp_ingestedAtMs :: "int option"
  cp_prevHex :: "jstring option"
  cp_extHex :: "jstring option"

definition checkpoint_args :: "jstring \<Rightarrow> AppendLogCheckpointOptions \<Rightarrow> js_error + jstring list" where
  "checkpoint_args logId opts =
     (if cp_skHex opts = None \<and> cp_sigHex opts = None
      then Inl (PlainError (js ''appendLog.checkpoint: one of skHex or sigHex is required''))
      else Inr ([logId, String_int (cp_fromSeq opts), String_int (cp_toSeq opts), cp_creatorPubkeyHex opts]
        @ (case cp_skHex opts of
             Some sk \<Rightarrow> [js ''sk='' @ sk]
           | None \<Rightarrow> opt_arg ''sig='' (cp_sigHex opts))
        @ opt_arg ''created_at_ms='' (map_option String_int (cp_createdAtMs opts))
        @ opt_arg ''ingested_at_ms='' (map_option String_int (cp_ingestedAtMs opts))
        @ opt_arg ''prev='' (cp_prevHex opts)
        @ opt_arg ''ext='' (cp_extHex opts)))"

definition al_checkpoint where
  "al_checkpoint parse req logId opts =
     and_then (checkpoint_args logId opts) (\<lambda>args.
       execJson parse req (js ''append_log_checkpoint'') (map ArgStr args))"

definition al_proofBundle where
  "al_proofBundle parse req logId fromSeq toSeq checkpointHashHex =
     execJson parse req (js ''append_log_proof_bundle'')
       (map ArgStr [logId, String_int fromSeq, String_int toSeq, checkpointHashHex])"

definition al_proofVerify where
  "al_proofVerify parse prop req logId seq recordHashHex checkpointHashHex proofHex =
     execProp parse prop req ''append_log_proof_verify'' ''valid''
       [logId, String_int seq, recordHashHex, checkpointHashHex, proofHex]"

record AppendLogWitnessOptions =
  wo_witnessPubkeyHex :: "jstring option"
  wo_skHex :: "jstring option"
  wo_sigHex :: "jstring option"
  wo_observedAtMs :: "int option"
  wo_extHex :: "jstring option"

definition witness_args :: "jstring \<Rightarrow> jstring \<Rightarrow> AppendLogWitnessOptions \<Rightarrow> jstring list" where
  "witness_args logId checkpointHashHex opts =
     [logId, checkpointHashHex] @ opt_arg '''' (wo_witnessPubkeyHex opts)
     @ (case wo_skHex opts of
          Some sk \<Rightarrow> [js ''sk='' @ sk]
        | None \<Rightarrow> opt_arg ''sig='' (wo_sigHex opts))
     @ opt_arg ''observed_at_ms='' (map_option String_int (wo_observedAtMs opts))
     @ opt_arg ''ext='' (wo_extHex opts)"

definition al_witness where
  "al_witness parse req logId checkpointHashHex opts =
     execJson parse req (js ''append_log_witness'') (map ArgStr (witness_args logId checkpointHashHex opts))"

definition al_witnessRequest where
  "al_witnessRequest parse prop req logId checkpointHashHex =
     execProp parse prop req ''append_log_witness_request'' ''requested'' [logId, checkpointHashHex]"

definition al_witnessImport where
  "al_witnessImport parse req logId checkpointHashHex canonicalWitnessHex =
     execJson parse req (js ''append_log_witness_import'')
       (map ArgStr [logId, checkpointHashHex, canonicalWitnessHex])"

definition al_witnessVerify where
  "al_witnessVerify parse prop req logId checkpointHashHex witnessPubkeyHex =
     execProp parse prop req ''append_log_witness_verify'' ''valid''
       [logId, checkpointHashHex, witnessPubkeyHex]"

subsection \<open>Tokens\<close>

definition decodeBase64 :: "jstring \<Rightarrow> js_error + bytes" where
  "decodeBase64 b64 =
     (case atob b64 of
        None \<Rightarrow> Inl (ExternalError (js ''InvalidCharacterError''))
      | Some bin \<Rightarrow> Inr (map (\<lambda>c. of_nat (unat c)) bin))"

text \<open>\<open>auth\<close> before its request: the bytes of the token and the frame.\<close>

datatype auth_token = TokenText jstring | TokenBytes bytes

definition auth_begin :: "auth_token \<Rightarrow> js_error + (bytes \<times> bytes)" where
  "auth_begin tok =
     and_then (case tok of TokenText s \<Rightarrow> decodeBase64 s | TokenBytes b \<Rightarrow> Inr b) (\<lambda>tokenBytes.
     and_then (encoded (encodeAuth tokenBytes)) (\<lambda>frame. Inr (tokenBytes, frame)))"

text \<open>
The base64 text of a token decodes to the bytes of the token, whatever its length, so \<open>auth\<close> sends
the same AUTH frame and retains the same token for either form.
\<close>

theorem auth_token_forms_agree:
  "decodeBase64 (base64 tok) = Inr tok \<and> auth_begin (TokenText (base64 tok)) = auth_begin (TokenBytes tok)"
proof -
  have "decodeBase64 (base64 tok) = Inr tok"
    unfolding decodeBase64_def atob_base64 option.case map_map
    by (simp only: Inr_inject o_def byte_via_unit map_ident)
  then show ?thesis by (simp add: auth_begin_def)
qed

subsection \<open>Positional arguments\<close>

lemma vsearch_count5:
  "vsearch_count [a, b, c, d, e] =
     (if e \<noteq> None then 5 else if d \<noteq> None then 4 else if c \<noteq> None then 3 else if b \<noteq> None then 2
      else if a \<noteq> None then 1 else 0)"
  by (simp add: vsearch_count_def upt_rec)

lemma all_less_5: "(\<forall>i < 5. P i) \<longleftrightarrow> P 0 \<and> P 1 \<and> P 2 \<and> P 3 \<and> P (4 :: nat)"
  by (auto simp: less_Suc_eq numeral_eq_Suc)

text \<open>
The arguments of a vector search are positional: every option the caller gave stands in its own
slot, every slot before the last given option that was left out holds the server's default, and no
slot follows the last given option.
\<close>

theorem vsearch_args_positional:
  "take 2 (vsearch_args str q k opts) = [q, String_int k]
   \<and> (\<forall>i < 5. case vsearch_values str opts ! i of
         Some v \<Rightarrow> 2 + i < length (vsearch_args str q k opts) \<and> vsearch_args str q k opts ! (2 + i) = v
       | None \<Rightarrow> 2 + i < length (vsearch_args str q k opts) \<longrightarrow>
           vsearch_args str q k opts ! (2 + i) = vsearch_defaults ! i)
   \<and> (2 < length (vsearch_args str q k opts) \<longrightarrow>
         vsearch_values str opts ! (length (vsearch_args str q k opts) - 3) \<noteq> None)"
proof -
  obtain a b c d e where v: "vsearch_values str opts = [a, b, c, d, e]"
    by (simp add: vsearch_values_def)
  have args: "vsearch_args str q k opts = [q, String_int k]
      @ map (\<lambda>i. or_default ([a, b, c, d, e] ! i) (vsearch_defaults ! i)) [0..<vsearch_count [a, b, c, d, e]]"
    by (simp add: vsearch_args_def v Let_def)
  show ?thesis
    unfolding v args all_less_5 vsearch_count5
    by (cases a; cases b; cases c; cases d; cases e) (simp_all add: upt_rec vsearch_defaults_def)
qed

theorem vsearch_args_positional_witness:
  "vsearch_args id (js ''q'') 3 \<lparr>vs_namespace = None, vs_metric = None, vs_decay = Some (js ''1''),
      vs_mode = None, vs_decayTauHours = None\<rparr>
     = [js ''q'', js ''3'', js ''vec:'', js ''cosine'', js ''1'']
   \<and> vsearch_args id (js ''q'') 3 \<lparr>vs_namespace = None, vs_metric = None, vs_decay = Some (js ''1''),
      vs_mode = None, vs_decayTauHours = None\<rparr> ! (2 + 2) = js ''1''"
proof -
  let ?o = "\<lparr>vs_namespace = None, vs_metric = None, vs_decay = Some (js ''1''), vs_mode = None,
      vs_decayTauHours = None\<rparr>"
  have "\<forall>i < 5. case vsearch_values id ?o ! i of
         Some v \<Rightarrow> 2 + i < length (vsearch_args id (js ''q'') 3 ?o) \<and> vsearch_args id (js ''q'') 3 ?o ! (2 + i) = v
       | None \<Rightarrow> 2 + i < length (vsearch_args id (js ''q'') 3 ?o) \<longrightarrow>
           vsearch_args id (js ''q'') 3 ?o ! (2 + i) = vsearch_defaults ! i"
    using vsearch_args_positional by blast
  then have "vsearch_args id (js ''q'') 3 ?o ! (2 + 2) = js ''1''"
    by (auto simp: vsearch_values_def dest: spec [of _ 2])
  moreover have "vsearch_args id (js ''q'') 3 ?o = [js ''q'', js ''3'', js ''vec:'', js ''cosine'', js ''1'']"
    by code_simp
  ultimately show ?thesis by blast
qed

text \<open>
The arguments of \<open>authMintScoped\<close> have no hole: the call is refused when an option is given
without the one before it, and otherwise the arguments are the namespace followed by exactly the
given options in order.
\<close>

theorem mint_args_no_hole:
  "mint_args ns opts =
     (if mo_subject opts \<noteq> None \<and> mo_ttlS opts = None
      then Inl (PlainError (js ''authMintScoped: subject requires ttlS (positional args)''))
      else if mo_mode opts \<noteq> None \<and> mo_subject opts = None
      then Inl (PlainError (js ''authMintScoped: mode requires subject (positional args)''))
      else Inr (ns # List.map_filter id
        [map_option String_int (mo_ttlS opts), mo_subject opts, mo_mode opts]))"
  by (cases "mo_ttlS opts"; cases "mo_subject opts"; cases "mo_mode opts")
    (simp_all add: mint_args_def List.map_filter_def)

end
