(* ===== verification/End_To_End.thy ===== *)
theory End_To_End
  imports WormDB_Api Server_Wire
begin

section \<open>The methods of WormDB against the server's codec\<close>

text \<open>
  A request answered by a server: the server reads the frame, a handler \<open>h\<close> answers the command, the
  server writes the response and the client takes the frame off its stream. The handler is arbitrary:
  what a method returns is stated for every answer.
\<close>

definition serve :: "(ZCommand \<Rightarrow> ZResponse) \<Rightarrow> requester" where
  "serve h frame =
     (case readFrameAlloc frame of
        Inl e \<Rightarrow> Inl ClientConnectionClosedError
      | Inr (c, rest) \<Rightarrow>
          (case writeResponse (h c) of
             Inl e \<Rightarrow> Inl ClientConnectionClosedError
           | Inr b \<Rightarrow>
               (case tryConsumeFrame b of
                  None \<Rightarrow> Inl ClientConnectionClosedError
                | Some f \<Rightarrow> Inr (pf_code f, pf_payload f))))"

text \<open>A response a connection can carry to a request.\<close>

definition sendable :: "ZResponse \<Rightarrow> bool" where
  "sendable r \<longleftrightarrow> \<not> is_event r \<and> response_size r < 4294967296"

lemma sendable_frame:
  assumes "sendable r"
  obtains code p where "writeResponse r = Inr (frame_bytes code p)" and "wire_frame (code, p)"
    and "decodeResponse code p = client_view r"
proof -
  obtain b where b: "writeResponse r = Inr b"
    using assms by (cases r rule: writeResponse.cases) (auto simp: sendable_def)
  with writeResponse_frame [OF b] assms that show thesis by (auto simp: sendable_def)
qed

lemma serve_frame:
  assumes "readFrameAlloc frame = Inr (c, [])" and "sendable (h c)"
  obtains code p where "serve h frame = Inr (code, p)" and "decodeResponse code p = client_view (h c)"
    and "writeResponse (h c) = Inr (frame_bytes code p)"
proof -
  obtain code p where "writeResponse (h c) = Inr (frame_bytes code p)" "wire_frame (code, p)"
    "decodeResponse code p = client_view (h c)"
    using sendable_frame [OF assms(2)] by blast
  moreover from this assms(1) have "serve h frame = Inr (code, p)"
    using tryConsumeFrame_frame_bytes [of code p "[]"] by (simp add: serve_def wire_frame_def)
  ultimately show thesis using that by blast
qed

lemma request_serve:
  assumes "encodeCommandFrame c = Inr b" and "sendable (h (server_view c))"
  shows "request_frame (serve h) (encodeCommandFrame c) = Inr (client_view (h (server_view c)))"
proof -
  have "readFrameAlloc b = Inr (server_view c, [])"
    using encoded_reads [OF assms(1), of "[]"] by simp
  then obtain code p where "serve h b = Inr (code, p)" "decodeResponse code p = client_view (h (server_view c))"
    using serve_frame assms(2) by blast
  then show ?thesis
    using assms(1) by (simp add: request_frame_def encoded_def request_def)
qed

text \<open>
C15: \<open>get\<close> returns what the server answered for the UTF-8 bytes of the key: \<open>null\<close> for no value, the
decoded text of a value, and a thrown server error otherwise; \<open>getBytes\<close> returns the stored bytes
unchanged. No key is too long to ask for until its frame exceeds the wire limit.
\<close>

theorem get_returns_answer:
  assumes "4 + length (encodeUtf8 key) \<le> MAX_PAYLOAD" and "sendable (h (ZGet (encodeUtf8 key)))"
  shows "db_get (serve h) key =
      (case h (ZGet (encodeUtf8 key)) of
         ZValue v \<Rightarrow> Inr (map_option decodeUtf8 v)
       | ZErr m \<Rightarrow> Inl (WormServerError (decodeUtf8 m))
       | _ \<Rightarrow> Inl (WormServerError (js ''unexpected GET response: ok'')))
    \<and> (\<forall>v. h (ZGet (encodeUtf8 key)) = ZValue v \<longrightarrow> db_getBytes (serve h) key = Inr v)"
proof -
  obtain b where b: "encodeCommandFrame (CmdGet key) = Inr b"
    using assms(1) by (simp add: encodeCommandFrame_framed framed_def)
  have r: "request_frame (serve h) (encodeCommandFrame (CmdGet key)) = Inr (client_view (h (ZGet (encodeUtf8 key))))"
    using request_serve [OF b] assms(2) by simp
  have "db_getBytes (serve h) key = Inr v" if v: "h (ZGet (encodeUtf8 key)) = ZValue v" for v
  proof -
    have "readFrameAlloc b = Inr (ZGet (encodeUtf8 key), [])"
      using encoded_reads [OF b, of "[]"] by simp
    then obtain code p where s: "serve h b = Inr (code, p)" "decodeResponse code p = client_view (ZValue v)"
        "writeResponse (ZValue v) = Inr (frame_bytes code p)"
      using serve_frame assms(2) v by metis
    have "p = (case v of Some x \<Rightarrow> x | None \<Rightarrow> [])"
    proof (cases v)
      case None
      then have "length (writeHeader 2 0) = length (frame_bytes code p)" using s(3) by simp
      with None show ?thesis by (simp add: writeHeader_def frame_bytes_def)
    next
      case (Some x)
      then show ?thesis using s(3) by (auto simp: writeHeader_def frame_bytes_def)
    qed
    then show ?thesis
      using s(1,2) b by (cases v) (auto simp: db_getBytes_def encoded_def)
  qed
  then show ?thesis
    using r assms(2)
    by (cases "h (ZGet (encodeUtf8 key))" rule: client_view.cases)
      (auto simp: db_get_def sendable_def simp flip: js_append)
qed

theorem get_returns_answer_witness:
  "db_get (serve (\<lambda>c. ZValue (Some [0x76]))) (js ''k'') = Inr (Some (js ''v''))
   \<and> db_getBytes (serve (\<lambda>c. ZValue (Some [0x76]))) (js ''k'') = Inr (Some [0x76])"
proof -
  have "decodeUtf8 [0x76] = js ''v''" "length (encodeUtf8 (js ''k'')) = 1"
    by (simp_all add: decodeUtf8_def dec_ground_def strip_bom_def of_code_points_def units_def js_simps
        encodeUtf8_def is_high_def is_low_def utf8_of_def)
  then show ?thesis
    using get_returns_answer [of "js ''k''" "\<lambda>c. ZValue (Some [0x76])"]
    by (simp add: MAX_PAYLOAD_def sendable_def)
qed

text \<open>What a method that only reports success makes of an answer.\<close>

fun ok_outcome :: "ZResponse \<Rightarrow> js_error + unit" where
  "ok_outcome ZOk = Inr ()"
| "ok_outcome (ZErr m) = Inl (WormServerError (decodeUtf8 m))"
| "ok_outcome (ZValue None) = Inl (WormServerError (js ''unexpected response: null''))"
| "ok_outcome (ZValue (Some v)) = Inl (WormServerError (js ''unexpected response: bulk''))"
| "ok_outcome (ZEvent ch m) = Inl (WormServerError (js ''unexpected response: event''))"

lemma expectOk_served: "expectOk (client_view r) = ok_outcome r"
  by (cases r rule: ok_outcome.cases) (simp_all add: expectOk_def flip: js_append)

lemma ok_request:
  assumes "sendable (h (server_view c))"
  shows "and_then (request_frame (serve h) (encodeCommandFrame c)) expectOk =
    (case encodeCommandFrame c of Inl e \<Rightarrow> Inl (WireFailure e) | Inr b \<Rightarrow> ok_outcome (h (server_view c)))"
  using request_serve [of c _ h, OF _ assms]
  by (cases "encodeCommandFrame c") (simp_all add: expectOk_served request_frame_def encoded_def)

text \<open>
\<open>set\<close>, \<open>del\<close> and \<open>pub\<close> succeed exactly when the server answered OK to the command they stand
for, with the flag the caller gave; an error answer is thrown with the server's message, any other
answer is thrown too, and a frame over the wire limit is refused before anything is sent.
\<close>

theorem writes_report_outcome:
  assumes "\<And>c. sendable (h c)"
  shows "db_set (serve h) k v worm =
      (case encodeCommandFrame (CmdSet k v (or_default worm False)) of
         Inl e \<Rightarrow> Inl (WireFailure e)
       | Inr b \<Rightarrow> ok_outcome (h (ZSet (encodeUtf8 k) (encodeUtf8 v) (or_default worm False))))
    \<and> db_del (serve h) k =
      (case encodeCommandFrame (CmdDel k) of
         Inl e \<Rightarrow> Inl (WireFailure e) | Inr b \<Rightarrow> ok_outcome (h (ZDelete (encodeUtf8 k))))
    \<and> db_pub (serve h) k v =
      (case encodeCommandFrame (CmdPub k v) of
         Inl e \<Rightarrow> Inl (WireFailure e) | Inr b \<Rightarrow> ok_outcome (h (ZPublish (encodeUtf8 k) (encodeUtf8 v))))"
  using ok_request [of h] assms by (simp add: db_set_def db_del_def db_pub_def split: sum.splits)

theorem writes_report_outcome_witness:
  "db_del (serve (\<lambda>c. ZErr [])) [] = Inl (WormServerError [])"
proof -
  have "encodeCommandFrame (CmdDel []) = Inr (frame_bytes 3 (field []))"
    by (simp add: encodeCommandFrame_framed framed_def MAX_PAYLOAD_def encodeUtf8_def)
  moreover have "decodeUtf8 [] = []"
    by (simp add: decodeUtf8_def strip_bom_def of_code_points_def)
  ultimately show ?thesis
    using writes_report_outcome [of "\<lambda>c. ZErr []" "[]" "[]" None] by (simp add: sendable_def)
qed

text \<open>
\<open>exec\<close> returns the value of the server as text and the empty text for a bare OK, and
\<open>execJson\<close> throws an error that quotes at most 128 characters of an answer that is not JSON.
\<close>

theorem exec_returns_answer:
  assumes "encodeCommandFrame (CmdExec p as) = Inr b" and "sendable (h (ZExec (encodeUtf8 p) (map encode_arg as)))"
  shows "db_exec (serve h) p as =
      (case h (ZExec (encodeUtf8 p) (map encode_arg as)) of
         ZOk \<Rightarrow> Inr []
       | ZValue (Some v) \<Rightarrow> Inr (decodeUtf8 v)
       | ZErr m \<Rightarrow> Inl (WormServerError (decodeUtf8 m))
       | _ \<Rightarrow> Inl (WormServerError (js ''unexpected EXEC response: null'')))
    \<and> (\<forall>v. h (ZExec (encodeUtf8 p) (map encode_arg as)) = ZValue (Some v) \<and> parse (decodeUtf8 v) = None \<longrightarrow>
         execJson parse (serve h) p as =
           Inl (WormServerError (p @ js '': expected JSON result, got: '' @ take 128 (decodeUtf8 v))))"
  using request_serve [OF assms(1), of h] assms(2)
  by (cases "h (ZExec (encodeUtf8 p) (map encode_arg as))" rule: client_view.cases)
    (auto simp: db_exec_def execJson_def sendable_def simp flip: js_append)

theorem exec_returns_answer_witness:
  "db_exec (serve (\<lambda>c. ZOk)) [] [] = Inr []"
proof -
  have "encodeCommandFrame (CmdExec [] []) = Inr (frame_bytes 9 (payload_of (CmdExec [] [])))"
    by (simp add: encodeCommandFrame_framed framed_def MAX_PAYLOAD_def encodeUtf8_def)
  from exec_returns_answer [OF this, of "\<lambda>c. ZOk"] show ?thesis by (simp add: sendable_def)
qed

end
