(* ===== verification/Browser_Correct.thy ===== *)
theory Browser_Correct
  imports Browser_Client End_To_End
begin

section \<open>What the browser client guarantees\<close>

text \<open>
  Correlation of requests and responses, routing of events, the invariant of the connection, the
  choice of a node, and the commands against the server's codec; and runs in which the client does
  not do what its documentation says.
\<close>

subsection \<open>Requests\<close>

text \<open>
C18: in every run of the browser client, whatever the order of calls, messages, timeouts, closes and
reconnects, every request is either still pending or was settled, exactly once: none is answered
twice, answered after its rejection, or forgotten.
\<close>

theorem browser_requests_accounted:
  fixes valid urls t a m tp and es :: "b_event list"
  defines "bc \<equiv> b_run valid (WormDB_browser urls t a m tp) es"
  shows "distinct (bc_pendingQueue bc @ b_settled_ids bc)
    \<and> set (bc_pendingQueue bc) \<union> set (b_settled_ids bc) = {..<bc_nextRequest bc}"
  unfolding bc_def b_run_def
  by (rule browser_requests.run_accounts) (simp_all add: WormDB_browser_def b_settled_ids_def)

subsection \<open>Messages\<close>

fun is_bevent :: "BResponse \<Rightarrow> bool" where
  "is_bevent (BEvent ch m) = True"
| "is_bevent _ = False"

fun b_handles :: "b_effect \<Rightarrow> (nat \<times> jstring \<times> jstring) option" where
  "b_handles (BHandle h ch m) = Some (h, ch, m)"
| "b_handles _ = None"

definition b_handled :: "b_effect list \<Rightarrow> (nat \<times> jstring \<times> jstring) list" where
  "b_handled es = List.map_filter b_handles es"

lemma b_handled_simps [simp]:
  "b_handled [] = []"
  "b_handled (e # es) = (case b_handles e of None \<Rightarrow> b_handled es | Some x \<Rightarrow> x # b_handled es)"
  "b_handled (es @ fs) = b_handled es @ b_handled fs"
  "b_handled (map (\<lambda>h. BHandle h ch m) hs) = map (\<lambda>h. (h, ch, m)) hs"
  by (simp_all add: b_handled_def List.map_filter_def o_def split: option.splits)

text \<open>The handler calls an event causes: those of its own channel, then the global one.\<close>

fun event_calls :: "bclient \<Rightarrow> BResponse \<Rightarrow> (nat \<times> jstring \<times> jstring) list" where
  "event_calls bc (BEvent ch m) =
     map (\<lambda>h. (h, ch, m)) (or_default (map_of (bc_eventHandlers bc) ch) [])
     @ (case bc_globalEventHandler bc of None \<Rightarrow> [] | Some h \<Rightarrow> [(h, ch, m)])"
| "event_calls bc _ = []"

definition b_routing :: "bclient \<Rightarrow> (jstring \<times> nat list) list \<times> nat option" where
  "b_routing bc = (bc_eventHandlers bc, bc_globalEventHandler bc)"

lemma event_calls_routing: "b_routing bc' = b_routing bc \<Longrightarrow> event_calls bc' r = event_calls bc r"
  by (cases r) (simp_all add: b_routing_def)

lemma on_message_effects:
  fixes bc d
  defines "r \<equiv> b_decodeResponse d"
  shows "b_routing (on_message bc d) = b_routing bc"
    and "bc_pendingQueue (on_message bc d) = (if is_bevent r then bc_pendingQueue bc else tl (bc_pendingQueue bc))"
    and "b_settled (bc_out (on_message bc d)) = b_settled (bc_out bc)
      @ (if is_bevent r then [] else zip (take 1 (bc_pendingQueue bc)) [Inr r])"
    and "b_handled (bc_out (on_message bc d)) = b_handled (bc_out bc) @ event_calls bc r"
  by (cases r; auto simp: on_message_def b_routing_def Let_def simp flip: r_def split: option.splits list.splits)+

text \<open>
C19: the messages of a connection that are not events settle the pending requests in the order they
were sent, each with its own response; an event settles none and calls exactly the handlers of its
channel, in the order they were added, and then the global handler.
\<close>

theorem browser_answers_in_order:
  fixes ds :: "bytes list"
  defines "rs \<equiv> map b_decodeResponse ds"
  shows "b_settled (bc_out (foldl on_message bc ds))
      = b_settled (bc_out bc) @ zip (bc_pendingQueue bc) (map Inr (filter (\<lambda>r. \<not> is_bevent r) rs))
    \<and> bc_pendingQueue (foldl on_message bc ds)
      = drop (length (filter (\<lambda>r. \<not> is_bevent r) rs)) (bc_pendingQueue bc)
    \<and> b_handled (bc_out (foldl on_message bc ds)) = b_handled (bc_out bc) @ concat (map (event_calls bc) rs)"
  unfolding rs_def
proof (induction ds arbitrary: bc)
  case (Cons d ds)
  have "event_calls (on_message bc d) = event_calls bc"
    using event_calls_routing [OF on_message_effects(1)] by (rule ext)
  with Cons.IH [of "on_message bc d"] show ?case
    by (cases "bc_pendingQueue bc") (auto simp: on_message_effects drop_Suc)
qed simp

subsection \<open>The invariant of the connection\<close>

definition b_inv :: "bclient \<Rightarrow> bool" where
  "b_inv bc \<longleftrightarrow>
     (bc_state bc = BConnected \<longrightarrow> bc_ws bc \<noteq> None)
   \<and> (\<forall>(t, d) \<in> set (bc_timers bc). d \<le> bc_maxReconnectDelayMs bc)
   \<and> distinct (map fst (bc_eventHandlers bc))
   \<and> (\<forall>(ch, hs) \<in> set (bc_eventHandlers bc). hs \<noteq> [] \<and> distinct hs)"

text \<open>The fields the invariant reads.\<close>

definition b_core :: "bclient \<Rightarrow> b_state \<times> bool \<times> (nat \<times> nat) list \<times> nat \<times> (jstring \<times> nat list) list" where
  "b_core bc = (bc_state bc, bc_ws bc \<noteq> None, bc_timers bc, bc_maxReconnectDelayMs bc, bc_eventHandlers bc)"

lemma b_core_inv: "b_core bc' = b_core bc \<Longrightarrow> b_inv bc \<Longrightarrow> b_inv bc'"
  by (simp add: b_core_def b_inv_def)

lemma b_core_emit [simp]: "b_core (b_emit bc es) = b_core bc"
  by (simp add: b_core_def)

lemma b_core_request [simp]: "b_core (b_request bc f) = b_core bc"
  by (simp add: b_core_def b_request_def Let_def split: option.splits)

lemma b_core_request_opt [simp]: "b_core (b_request_opt bc f) = b_core bc"
  by (simp add: b_request_opt_def split: option.splits)

lemma b_core_resub [simp]: "b_core (resub_all bc chs) = b_core bc"
  by (induction bc chs rule: resub_all.induct) (auto split: option.splits)

lemma b_core_resolvers [simp]:
  "b_core (bc\<lparr>bc_connectResolvers := x\<rparr>) = b_core bc" "b_core (bc\<lparr>bc_pendingQueue := q\<rparr>) = b_core bc"
  by (simp_all add: b_core_def)

lemma b_core_handlers [simp]:
  "b_core (open_done bc ws) = b_core bc" "b_core (auth_failed bc ws err) = b_core bc"
  "b_core (rejectAll bc err) = b_core bc" "b_core (on_message bc d) = b_core bc"
  "b_core (on_b_timeout bc i) = b_core bc" "b_core (onEvent bc h) = b_core bc"
  by (auto simp: open_done_def auth_failed_def rejectAll_def on_message_def on_b_timeout_def onEvent_def Let_def
      b_core_def [of "bc\<lparr>bc_globalEventHandler := _\<rparr>"] b_core_def [of bc]
      split: BResponse.splits option.splits list.splits)

lemma schedule_inv: "b_inv bc \<Longrightarrow> b_inv (b_scheduleReconnect bc)"
  by (auto simp: b_inv_def b_scheduleReconnect_def Let_def)

lemma on_ws_close_inv:
  assumes "b_inv bc"
  shows "b_inv (on_ws_close bc ws)"
proof -
  have "b_inv (bc\<lparr>bc_ws := None, bc_state := BDisconnected\<rparr>)" (is "b_inv ?bc")
    using assms by (simp add: b_inv_def)
  then have "b_inv (rejectAll ?bc err)" for err by (rule b_core_inv [rotated]) simp
  then have "b_inv (b_emit ((rejectAll ?bc err)\<lparr>bc_connectResolvers := []\<rparr>) es)" "b_inv (rejectAll ?bc err)" for err es
    using b_core_inv [of "b_emit ((rejectAll ?bc err)\<lparr>bc_connectResolvers := []\<rparr>) es" "rejectAll ?bc err"] by simp_all
  then show ?thesis
    by (simp add: on_ws_close_def Let_def schedule_inv)
qed

lemma b_close_inv:
  assumes "b_inv bc"
  shows "b_inv (b_close bc)"
proof -
  have "b_inv (cancelReconnect (bc\<lparr>bc_closed := True\<rparr>))" (is "b_inv ?bc")
    using assms by (auto simp: b_inv_def cancelReconnect_def split: option.splits)
  then have "b_inv (rejectAll ?bc err)" for err by (rule b_core_inv [rotated]) simp
  then show ?thesis
    by (auto simp: b_inv_def b_close_def Let_def split: option.splits)
qed

lemma map_fst_update [simp]:
  "map (fst \<circ> (\<lambda>(c, hs). if c = ch then (c, f hs) else (c, hs))) xs = map fst xs"
  by (induction xs) auto

lemma subscribe_inv: "b_inv bc \<Longrightarrow> b_inv (b_subscribe bc ch h)"
proof -
  assume inv: "b_inv bc"
  show ?thesis
  proof (cases "map_of (bc_eventHandlers bc) ch")
    case None
    then have "ch \<notin> fst ` set (bc_eventHandlers bc)" by (simp add: map_of_eq_None_iff)
    with None inv show ?thesis by (auto simp: b_inv_def b_subscribe_def handlers_add_def)
  next
    case (Some hs)
    with inv show ?thesis
      by (auto simp: b_inv_def b_subscribe_def handlers_add_def split: if_splits)
  qed
qed

lemma unsubscribe_inv: "b_inv bc \<Longrightarrow> b_inv (fst (b_unsubscribe bc ch h))"
proof -
  assume inv: "b_inv bc"
  show ?thesis
  proof (cases "map_of (bc_eventHandlers bc) ch")
    case None
    with inv show ?thesis by (simp add: b_unsubscribe_def)
  next
    case (Some hs)
    then have "distinct hs" using inv by (auto simp: b_inv_def dest: map_of_SomeD)
    moreover have "distinct (map fst (filter (\<lambda>(c, hs). c \<noteq> ch) (bc_eventHandlers bc)))"
      using inv by (simp add: b_inv_def distinct_map_filter)
    ultimately show ?thesis
      using Some inv by (auto simp: b_inv_def b_unsubscribe_def Let_def distinct_removeAll split: if_splits)
  qed
qed

lemma b_step_inv: "b_inv bc \<Longrightarrow> b_inv (b_step valid bc e)"
proof -
  assume inv: "b_inv bc"
  note same = b_core_inv [OF _ inv]
  show ?thesis
  proof (cases e)
    case BeConnect
    with inv show ?thesis by (auto simp: b_connect_def Let_def b_inv_def)
  next
    case (BeProbed results)
    with inv show ?thesis by (simp add: on_probed_def b_inv_def)
  next
    case (BeSubscribe ch h)
    with inv show ?thesis using b_core_inv [OF b_core_request_opt subscribe_inv] by simp
  next
    case (BeUnsubscribe ch h)
    with unsubscribe_inv [OF inv, of ch h] show ?thesis
      using b_core_inv [OF b_core_request_opt] by (auto split: prod.splits)
  next
    case (BeOpen ws)
    have "b_inv (bc\<lparr>bc_state := BConnected, bc_reconnectAttempt := 0, bc_ws := Some ws\<rparr>)" (is "b_inv ?bc")
      using inv by (simp add: b_inv_def)
    then have "b_inv (open_done ?bc ws)" "b_inv (b_emit ?bc [BAskToken ws])"
      by (rule b_core_inv [rotated], simp)+
    with BeOpen show ?thesis by (simp add: on_ws_open_def Let_def)
  next
    case (BeReconnect t)
    with inv show ?thesis by (auto simp: on_b_reconnect_def Let_def b_inv_def)
  qed (use inv in \<open>auto simp: on_token_def on_authed_def on_ws_close_inv b_close_inv
      intro: same split: sum.splits option.splits\<close>)
qed

text \<open>
C20: in every run, a connected client has a WebSocket, no reconnect is delayed longer than the
configured maximum, every channel has one entry, and no entry is empty or holds a handler twice.
\<close>

theorem browser_invariant:
  fixes valid urls t a m tp and es :: "b_event list"
  defines "bc \<equiv> b_run valid (WormDB_browser urls t a m tp) es"
  shows "(bc_state bc \<noteq> BConnected \<or> bc_ws bc \<noteq> None)
    \<and> list_all (\<lambda>(i, d). d \<le> bc_maxReconnectDelayMs bc) (bc_timers bc)
    \<and> distinct (map fst (bc_eventHandlers bc))
    \<and> list_all (\<lambda>(ch, hs). hs \<noteq> [] \<and> distinct hs) (bc_eventHandlers bc)"
proof -
  have "b_inv (foldl (b_step valid) s es)" if "b_inv s" for s
    using that by (induction es arbitrary: s) (auto intro: b_step_inv)
  moreover have "b_inv (WormDB_browser urls t a m tp)"
    by (simp add: b_inv_def WormDB_browser_def)
  ultimately have "b_inv bc" by (simp add: bc_def b_run_def)
  then show ?thesis by (auto simp: b_inv_def list_all_iff)
qed

theorem browser_invariant_witness:
  "bc_ws (b_run (\<lambda>_. True) (WormDB_browser [js ''ws://a''] None None None False) [BeConnect, BeOpen 0]) \<noteq> None"
proof -
  have "bc_state (b_run (\<lambda>_. True) (WormDB_browser [js ''ws://a''] None None None False) [BeConnect, BeOpen 0]) = BConnected"
    by (simp add: b_run_def WormDB_browser_def b_connect_def connectToUrl_def on_ws_open_def open_done_def b_emit_def Let_def)
  then show ?thesis
    using browser_invariant [of "\<lambda>_. True" "[js ''ws://a'']" None None None False "[BeConnect, BeOpen 0]"] by blast
qed

subsection \<open>The choice of a node\<close>

text \<open>\<open>(b, best)\<close> is the choice among the first \<open>n\<close> nodes.\<close>

definition probe_best :: "jstring list \<Rightarrow> int option list \<Rightarrow> nat \<Rightarrow> jstring \<Rightarrow> int option \<Rightarrow> bool" where
  "probe_best urls results n b best \<longleftrightarrow>
     (case best of
        None \<Rightarrow> b = urls ! 0 \<and> (\<forall>j < n. results ! j = None)
      | Some v \<Rightarrow> \<exists>k < n. b = urls ! k \<and> results ! k = Some v
          \<and> (\<forall>j < n. \<forall>w. results ! j = Some w \<longrightarrow> v \<le> w \<and> (w = v \<longrightarrow> k \<le> j)))"

lemma probe_best_keep:
  assumes "probe_best urls results n b best"
    and "results ! n = None \<or> (\<exists>v w. results ! n = Some w \<and> best = Some v \<and> v \<le> w)"
  shows "probe_best urls results (n + 1) b best"
proof (cases best)
  case None
  with assms show ?thesis by (auto simp: probe_best_def less_Suc_eq)
next
  case (Some v)
  with assms(1) obtain k where k: "k < n" "b = urls ! k" "results ! k = Some v"
      "\<forall>j < n. \<forall>w. results ! j = Some w \<longrightarrow> v \<le> w \<and> (w = v \<longrightarrow> k \<le> j)"
    by (auto simp: probe_best_def)
  have "\<forall>j < n + 1. \<forall>w. results ! j = Some w \<longrightarrow> v \<le> w \<and> (w = v \<longrightarrow> k \<le> j)"
    using k assms(2) Some by (auto simp: less_Suc_eq)
  with k Some show ?thesis by (auto simp: probe_best_def intro: exI [of _ k])
qed

lemma probe_best_take:
  assumes "probe_best urls results n b best" and "results ! n = Some v"
    and "case best of None \<Rightarrow> True | Some b \<Rightarrow> v < b"
  shows "probe_best urls results (n + 1) (urls ! n) (Some v)"
proof -
  have "\<forall>j < n. \<forall>w. results ! j = Some w \<longrightarrow> v < w"
    using assms by (cases best) (fastforce simp: probe_best_def)+
  then have "\<forall>j < n + 1. \<forall>w. results ! j = Some w \<longrightarrow> v \<le> w \<and> (w = v \<longrightarrow> n \<le> j)"
    using assms(2) by (force simp: less_Suc_eq)
  with assms(2) show ?thesis by (auto simp: probe_best_def intro: exI [of _ n])
qed

lemma probe_loop_best:
  assumes "probe_best urls (done @ results) (length done) b best" and "length (done @ results) \<le> length urls"
  shows "\<exists>best'. probe_best urls (done @ results) (length (done @ results))
           (probe_loop urls (length done) results (b, best)) best'"
  using assms
proof (induction results arbitrary: "done" b best)
  case (Cons r results)
  note step = Cons.IH [of "done @ [r]", simplified]
  have n: "(done @ r # results) ! length done = r" by simp
  show ?case
  proof (cases r)
    case None
    with step [of b best] probe_best_keep [OF Cons.prems(1)] Cons.prems(2) n show ?thesis by simp
  next
    case (Some v)
    show ?thesis
    proof (cases "case best of None \<Rightarrow> True | Some b \<Rightarrow> v < b")
      case True
      with step [of "urls ! length done" "Some v"] probe_best_take [OF Cons.prems(1) _ True] Cons.prems(2) n Some
      show ?thesis by (simp add: url_at_def)
    next
      case False
      then obtain w where "best = Some w" "w \<le> v" by (auto split: option.splits)
      with step [of b best] probe_best_keep [OF Cons.prems(1)] Cons.prems(2) n Some False show ?thesis by simp
    qed
  qed
qed auto

text \<open>
With several nodes the client connects to the node whose probe opened with the smallest latency,
the first of them when several are equally fast, and to the first node when no probe succeeded.
\<close>

theorem probe_picks_fastest:
  assumes "length results = length urls" and "urls \<noteq> []"
  shows "(\<forall>j < length urls. results ! j = None) \<and> probeFastest urls results = urls ! 0
    \<or> (\<exists>k < length urls. \<exists>v. probeFastest urls results = urls ! k \<and> results ! k = Some v
         \<and> (\<forall>j < length urls. \<forall>w. results ! j = Some w \<longrightarrow> v \<le> w \<and> (w = v \<longrightarrow> k \<le> j)))"
proof -
  have "probe_best urls results 0 (url_at urls 0) None"
    using assms by (simp add: probe_best_def url_at_def)
  then obtain best where "probe_best urls results (length urls) (probeFastest urls results) best"
    using probe_loop_best [of urls "[]" results] assms by (auto simp: probeFastest_def)
  then show ?thesis by (cases best) (auto simp: probe_best_def)
qed

theorem probe_picks_fastest_witness:
  "probeFastest [js ''a'', js ''b'', js ''c''] [Some 9, None, Some 4] = js ''c''
   \<and> (\<exists>k < length [js ''a'', js ''b'', js ''c'']. \<exists>v. probeFastest [js ''a'', js ''b'', js ''c''] [Some 9, None, Some 4]
        = [js ''a'', js ''b'', js ''c''] ! k \<and> [Some (9 :: int), None, Some 4] ! k = Some v)"
proof -
  let ?u = "[js ''a'', js ''b'', js ''c'']" and ?r = "[Some (9 :: int), None, Some 4]"
  have "\<not> (\<forall>j < length ?u. ?r ! j = None)" by auto
  then have "\<exists>k < length ?u. \<exists>v. probeFastest ?u ?r = ?u ! k \<and> ?r ! k = Some v"
    using probe_picks_fastest [of ?r ?u] by auto
  moreover have "probeFastest ?u ?r = js ''c''"
    by (simp add: probeFastest_def url_at_def)
  ultimately show ?thesis by blast
qed

subsection \<open>Commands against the server\<close>

text \<open>A request answered by a server that reads the frame and writes what the handler \<open>h\<close> answers.\<close>

definition b_serve :: "(ZCommand \<Rightarrow> ZResponse) \<Rightarrow> b_requester" where
  "b_serve h frame =
     (case readFrameAlloc frame of
        Inl e \<Rightarrow> Inl (PlainErr (js ''connection closed''))
      | Inr (c, rest) \<Rightarrow>
          (case writeResponse (h c) of
             Inl e \<Rightarrow> Inl (PlainErr (js ''connection closed''))
           | Inr b \<Rightarrow> Inr (b_decodeResponse b)))"

lemma b_serve_frame:
  assumes "length (payload_of c) \<le> MAX_PAYLOAD" and "sendable (h (server_view c))"
  shows "b_serve h (frame_bytes (command_code (code_of c)) (payload_of c)) = Inr (browser_view (client_view (h (server_view c))))"
proof -
  have "encodeCommandFrame c = Inr (frame_bytes (command_code (code_of c)) (payload_of c))"
    using assms(1) by (simp add: encodeCommandFrame_framed framed_def)
  then have "readFrameAlloc (frame_bytes (command_code (code_of c)) (payload_of c)) = Inr (server_view c, [])"
    using encoded_reads [of c _ "[]"] by simp
  moreover obtain code p where "writeResponse (h (server_view c)) = Inr (frame_bytes code p)"
    using sendable_frame [OF assms(2)] by blast
  moreover from this have "b_decodeResponse (frame_bytes code p) = browser_view (client_view (h (server_view c)))"
    using b_decode_response [of "h (server_view c)"] assms(2) by (simp add: sendable_def)
  ultimately show ?thesis by (simp add: b_serve_def)
qed

text \<open>
C26: \<open>get\<close> of the browser returns what the server answered for the UTF-8 bytes of the key, and \<open>set\<close>
and \<open>del\<close> succeed exactly when the server answered OK to the command with the caller's flag; an error
answer is thrown with the server's message.
\<close>

theorem browser_commands_report_answer:
  assumes "4 + length (encodeUtf8 k) \<le> MAX_PAYLOAD"
    and "9 + length (encodeUtf8 k) + length (encodeUtf8 v) \<le> MAX_PAYLOAD" and "\<And>c. sendable (h c)"
  shows "b_get (b_serve h) k =
      (case h (ZGet (encodeUtf8 k)) of
         ZValue x \<Rightarrow> Inr (map_option decodeUtf8 x)
       | ZErr m \<Rightarrow> Inl (WormDBError (decodeUtf8 m))
       | _ \<Rightarrow> Inl (WormDBError (js ''unexpected response: ok'')))
    \<and> (b_set (b_serve h) k v w = Inr () \<longleftrightarrow> h (ZSet (encodeUtf8 k) (encodeUtf8 v) (or_default w False)) = ZOk)
    \<and> (b_del (b_serve h) k = Inr () \<longleftrightarrow> h (ZDelete (encodeUtf8 k)) = ZOk)
    \<and> (\<forall>m. h (ZDelete (encodeUtf8 k)) = ZErr m \<longrightarrow> b_del (b_serve h) k = Inl (WormDBError (decodeUtf8 m)))"
proof -
  have g: "b_sent (b_serve h) (encodeGet k) = Inr (browser_view (client_view (h (ZGet (encodeUtf8 k)))))"
    using b_serve_frame [of "CmdGet k" h] assms by (simp add: b_sent_def encode_frames)
  have s: "b_sent (b_serve h) (encodeSet k v x)
      = Inr (browser_view (client_view (h (ZSet (encodeUtf8 k) (encodeUtf8 v) x))))" for x
    using b_serve_frame [of "CmdSet k v x" h] assms by (simp add: b_sent_def encode_frames)
  have d: "b_sent (b_serve h) (encodeDel k) = Inr (browser_view (client_view (h (ZDelete (encodeUtf8 k)))))"
    using b_serve_frame [of "CmdDel k" h] assms by (simp add: b_sent_def encode_frames)
  have ok: "and_then (Inr (browser_view (client_view r))) (\<lambda>resp. case resp of BOk \<Rightarrow> Inr ()
       | BError message \<Rightarrow> Inl (WormDBError message) | _ \<Rightarrow> unexpected resp) = Inr () \<longleftrightarrow> r = ZOk" for r
    by (cases r rule: client_view.cases) (simp_all add: unexpected_def)
  show ?thesis
    unfolding b_get_def b_set_def b_del_def g s d ok
    using assms(3) [of "ZGet (encodeUtf8 k)"]
    by (cases "h (ZGet (encodeUtf8 k))" rule: client_view.cases)
      (simp_all add: unexpected_def sendable_def flip: js_append)
qed

theorem browser_commands_report_answer_witness:
  "b_set (b_serve (\<lambda>c. ZOk)) [] [] None = Inr () \<and> b_del (b_serve (\<lambda>c. ZOk)) [] = Inr ()"
proof -
  have e: "encodeUtf8 [] = []" by (simp add: encodeUtf8_def)
  show ?thesis
    using browser_commands_report_answer [of "[]" "[]" "\<lambda>c. ZOk" None] by (simp add: e MAX_PAYLOAD_def sendable_def)
qed

subsection \<open>Runs that break what the documentation promises\<close>

text \<open>The dials and closes of WebSockets in a log.\<close>

definition closes_ws :: "b_effect list \<Rightarrow> nat \<Rightarrow> bool" where
  "closes_ws es ws = list_ex (\<lambda>e. case e of BCloseWs w c \<Rightarrow> w = ws | _ \<Rightarrow> False) es"

text \<open>
\<open>connect\<close> during the backoff does not cancel the reconnect timer: both dial, both WebSockets open,
and the first is left open. When it closes later, the connection on the second is taken down: the
WebSocket is forgotten without being closed and the pending requests are rejected.
\<close>

theorem connect_during_backoff_opens_two:
  assumes "bc_state bc = BDisconnected" and "bc_ws bc = None" and "t \<in> fst ` set (bc_timers bc)"
    and "bc_urls bc = [u]" and "valid u" and "\<not> bc_tokenProvider bc" and "bc_eventHandlers bc = []"
    and "bc_detached bc = []" and "bc_nextWs bc = w"
    and "bc' = b_run valid bc [BeConnect, BeReconnect t, BeOpen w, BeOpen (Suc w)]"
  shows "bc_ws bc' = Some (Suc w) \<and> BOpenWs w u \<in> set (bc_out bc') \<and> BOpenWs (Suc w) u \<in> set (bc_out bc')
    \<and> (\<exists>es. bc_out bc' = bc_out bc @ es \<and> \<not> closes_ws es w)
    \<and> bc_ws (b_step valid bc' (BeWsClose w)) = None
    \<and> bc_pendingQueue (b_step valid bc' (BeWsClose w)) = []"
  using assms
  by (simp add: b_run_def b_connect_def on_b_reconnect_def on_ws_open_def open_done_def connectToUrl_def
      url_at_def closes_ws_def list_ex_iff on_ws_close_def rejectAll_def b_scheduleReconnect_def Let_def b_emit_def)

theorem connect_during_backoff_opens_two_witness:
  "bc_ws (b_run (\<lambda>u. True) (WormDB_browser [js ''u''] None None None False)
     [BeConnect, BeWsClose 0, BeConnect, BeReconnect 0, BeOpen 1, BeOpen 2]) = Some 2"
proof -
  define bc where "bc = b_run (\<lambda>u. True) (WormDB_browser [js ''u''] None None None False) [BeConnect, BeWsClose 0]"
  have "bc_state bc = BDisconnected" "bc_ws bc = None" "0 \<in> fst ` set (bc_timers bc)" "bc_urls bc = [js ''u'']"
    "\<not> bc_tokenProvider bc" "bc_eventHandlers bc = []" "bc_detached bc = []" "bc_nextWs bc = 1"
    by (simp_all add: bc_def b_run_def b_connect_def connectToUrl_def on_ws_close_def rejectAll_def
        b_scheduleReconnect_def WormDB_browser_def Let_def b_emit_def)
  from connect_during_backoff_opens_two [OF this(1-4) _ this(5-8) refl, of "\<lambda>u. True"]
  show ?thesis unfolding bc_def b_run_def by (simp add: numeral_2_eq_2)
qed

text \<open>
\<open>close\<close> while the client is connecting does not stop the dial. When the WebSocket opens the client
is connected although it was closed; when it fails instead, the promise of \<open>connect\<close> is never settled.
\<close>

theorem close_while_connecting_ineffective:
  assumes "valid u"
    and "bc = b_run valid (WormDB_browser [u] t a m False) [BeConnect, BeCloseCall]"
  shows "bc_closed bc \<and> bc_state (b_step valid bc (BeOpen 0)) = BConnected
    \<and> bc_ws (b_step valid bc (BeOpen 0)) = Some 0
    \<and> bc_out (b_step valid bc (BeWsClose 0)) = [BOpenWs 0 u]"
  using assms
  by (simp add: b_run_def b_connect_def b_close_def cancelReconnect_def rejectAll_def connectToUrl_def
      on_ws_open_def open_done_def on_ws_close_def WormDB_browser_def Let_def b_emit_def)

theorem close_while_connecting_ineffective_witness:
  "bc_state (b_run (\<lambda>u. True) (WormDB_browser [js ''u''] None None None False) [BeConnect, BeCloseCall, BeOpen 0])
     = BConnected"
  using close_while_connecting_ineffective [of "\<lambda>u. True" "js ''u''" _ None None None]
  by (simp add: b_run_def)

text \<open>
A request that timed out is taken out of the queue, but the server still answers it: the answer
resolves the next request.
\<close>

theorem browser_timeout_shifts_answers:
  assumes "bc_pendingQueue bc = i # j # q" and "i \<noteq> j" and "\<not> is_bevent (b_decodeResponse d)"
  shows "b_settled (bc_out (on_message (on_b_timeout bc i) d))
    = b_settled (bc_out (on_b_timeout bc i)) @ [(j, Inr (b_decodeResponse d))]"
  using assms by (simp add: on_message_effects on_b_timeout_def)

theorem browser_timeout_shifts_answers_witness:
  "b_settled (bc_out (on_message (on_b_timeout
     ((WormDB_browser [] None None None False)\<lparr>bc_pendingQueue := [0, 1]\<rparr>) 0) [2, 0, 0, 0, 0]))
   = b_settled (bc_out (on_b_timeout ((WormDB_browser [] None None None False)\<lparr>bc_pendingQueue := [0, 1]\<rparr>) 0))
     @ [(1, Inr BNull)]"
proof -
  have "b_decodeResponse [2, 0, 0, 0, 0] = BNull"
    by (simp add: b_decodeResponse_def readU32BE_def rd32_def Let_def)
  then show ?thesis
    using browser_timeout_shifts_answers [of "(WormDB_browser [] None None None False)\<lparr>bc_pendingQueue := [0, 1]\<rparr>" 0 1 "[]"
        "[2, 0, 0, 0, 0]"] by simp
qed

text \<open>
A URL the constructor of WebSocket refuses leaves the client connecting with no dial under way: the
next caller of \<open>connect\<close> waits for ever.
\<close>

theorem invalid_url_never_connects:
  assumes "\<not> valid u"
    and "bc = b_run valid (WormDB_browser [u] t a m False) [BeConnect, BeConnect]"
  shows "bc_state bc = BConnecting \<and> bc_connectResolvers bc = [0] \<and> bc_timers bc = []
    \<and> bc_out bc = [BConnected_fail 0 (PlainErr (js ''SyntaxError''))]"
  using assms
  by (simp add: b_run_def b_connect_def connectToUrl_def WormDB_browser_def Let_def b_emit_def)

end
