(* ===== verification/WormDB_System.thy ===== *)
theory WormDB_System
  imports WormDB_Pubsub
begin

section \<open>Runs of a WormDB client\<close>

text \<open>
  A client object together with the calls made on it. A call of \<open>requestRaw\<close> is suspended at
  \<open>await this.ensureReady()\<close>: it is parked as a waiter, was woken and will look again, or was granted
  the socket and will queue and write its frame; then it is in flight until it is settled. Promise
  reactions run before the next callback of the event loop, so socket and timer callbacks happen
  only when no call is woken or granted; the program may call the object in between. A run is a
  list of events; an event that cannot happen in a state gives \<open>None\<close>.
\<close>

datatype call_state = Parked bytes | Woken bytes | Granted bytes nat | InFlight | Done

record dbsys =
  sy_db :: wormdb
  sy_calls :: "call_state list"
  sy_done :: "(nat \<times> (js_error + RawFrame)) list"

fun apply_effect :: "call_state list \<times> (nat \<times> (js_error + RawFrame)) list \<Rightarrow> db_effect
    \<Rightarrow> call_state list \<times> (nat \<times> (js_error + RawFrame)) list" where
  "apply_effect (cs, d) (Settle i r) = (cs[i := Done], d @ [(i, r)])"
| "apply_effect (cs, d) (WakeFail i e) = (cs[i := Done], d @ [(i, Inl e)])"
| "apply_effect (cs, d) (Wake i) =
     ((case cs ! i of Parked f \<Rightarrow> cs[i := Woken f] | _ \<Rightarrow> cs), d)"
| "apply_effect (cs, d) (Deliver h ch m) = (cs, d)"
| "apply_effect (cs, d) Dial = (cs, d)"
| "apply_effect (cs, d) (EndSocket s) = (cs, d)"

text \<open>The effects of a handler reach the calls.\<close>

definition absorb :: "dbsys \<Rightarrow> wormdb \<Rightarrow> dbsys" where
  "absorb y db =
     (let (cs, d) = foldl apply_effect (sy_calls y, sy_done y) (db_out db)
      in \<lparr>sy_db = db\<lparr>db_out := []\<rparr>, sy_calls = cs, sy_done = d\<rparr>)"

text \<open>A call runs \<open>ensureReady\<close>, for the first time or after it was woken.\<close>

definition run_ensureReady :: "dbsys \<Rightarrow> nat \<Rightarrow> bytes \<Rightarrow> dbsys" where
  "run_ensureReady y i frame =
     (case ensureReady i (sy_db y) of
        (db, Throws e) \<Rightarrow>
          absorb (y\<lparr>sy_calls := (sy_calls y)[i := Done], sy_done := sy_done y @ [(i, Inl e)]\<rparr>) db
      | (db, HasSocket s) \<Rightarrow> absorb (y\<lparr>sy_calls := (sy_calls y)[i := Granted frame s]\<rparr>) db
      | (db, Waits) \<Rightarrow> absorb (y\<lparr>sy_calls := (sy_calls y)[i := Parked frame]\<rparr>) db)"

definition start_call :: "dbsys \<Rightarrow> bytes \<Rightarrow> dbsys" where
  "start_call y frame =
     run_ensureReady (y\<lparr>sy_calls := sy_calls y @ [Woken frame]\<rparr>) (length (sy_calls y)) frame"

fun settled_state :: "call_state \<Rightarrow> bool" where
  "settled_state (Woken f) = False"
| "settled_state (Granted f s) = False"
| "settled_state _ = True"

definition quiet :: "dbsys \<Rightarrow> bool" where
  "quiet y \<longleftrightarrow> list_all settled_state (sy_calls y)"

datatype db_event =
    EvCall bytes | EvClose
  | EvSubscribe jstring nat "jstring option" | EvSubscribed jstring nat nat "js_error + WormResponse"
  | EvRemoveHandler jstring nat | EvAuthDone bytes "js_error + WormResponse"
  | EvResume nat | EvSend int nat
  | EvOpen int nat | EvDialFailed rat js_error
  | EvData int bytes | EvDrain nat | EvSockClose rat | EvSockError rat js_error
  | EvRequestTimer rat nat | EvReconnectTimer | EvPing int bytes

definition unit_interval :: "rat \<Rightarrow> bool" where
  "unit_interval r \<longleftrightarrow> 0 \<le> r \<and> r < 1"

text \<open>\<open>guarded b y\<close>: the event happens only when \<open>b\<close> holds.\<close>

definition guarded :: "bool \<Rightarrow> dbsys \<Rightarrow> dbsys option" where
  "guarded b y = (if b then Some y else None)"

fun db_react :: "(nat \<Rightarrow> write_oracle) \<Rightarrow> dbsys \<Rightarrow> db_event \<Rightarrow> dbsys option" where
  "db_react wr y (EvCall frame) = Some (start_call y frame)"
| "db_react wr y EvClose = Some (absorb y (db_close (sy_db y)))"
| "db_react wr y (EvSubscribe ch h f) = Some (absorb y (fst (subscribe_begin ch h f (sy_db y))))"
| "db_react wr y (EvSubscribed ch h e r) = Some (absorb y (snd (subscribe_done ch h e r (sy_db y))))"
| "db_react wr y (EvRemoveHandler ch h) = Some (absorb y (fst (removeHandler ch h (sy_db y))))"
| "db_react wr y (EvAuthDone tok r) = Some (absorb y (snd (auth_done tok r (sy_db y))))"
| "db_react wr y (EvResume i) =
     (if i < length (sy_calls y) then
        (case sy_calls y ! i of Woken f \<Rightarrow> Some (run_ensureReady y i f) | _ \<Rightarrow> None)
      else None)"
| "db_react wr y (EvSend now i) =
     (if i < length (sy_calls y) then
        (case sy_calls y ! i of
           Granted f s \<Rightarrow>
             Some (absorb (y\<lparr>sy_calls := (sy_calls y)[i := InFlight]\<rparr>) (send_request wr now i f s (sy_db y)))
         | _ \<Rightarrow> None)
      else None)"
| "db_react wr y (EvOpen now s) =
     (case on_dial_open wr now s (sy_db y) of
        (Some err, db) \<Rightarrow> None
      | (None, db) \<Rightarrow> guarded (quiet y \<and> db_connecting (sy_db y)) (absorb y db))"
| "db_react wr y (EvDialFailed rnd err) =
     guarded (quiet y \<and> db_connecting (sy_db y) \<and> unit_interval rnd)
       (absorb y (on_dial_failed rnd err (sy_db y)))"
| "db_react wr y (EvData now chunk) = guarded (quiet y) (absorb y (onData now (sy_db y) chunk))"
| "db_react wr y (EvDrain s) = guarded (quiet y) (absorb y (on_db_drain wr (sy_db y) s))"
| "db_react wr y (EvSockClose rnd) =
     guarded (quiet y \<and> unit_interval rnd) (absorb y (on_db_close rnd (sy_db y)))"
| "db_react wr y (EvSockError rnd err) =
     guarded (quiet y \<and> unit_interval rnd) (absorb y (on_db_error rnd err (sy_db y)))"
| "db_react wr y (EvRequestTimer rnd k) =
     (if k < length (db_pendingQueue (sy_db y))
      then guarded (quiet y \<and> unit_interval rnd)
             (absorb y (on_request_timer rnd (db_pendingQueue (sy_db y) ! k) (sy_db y)))
      else None)"
| "db_react wr y EvReconnectTimer =
     guarded (quiet y \<and> db_reconnectTimer (sy_db y) \<noteq> None) (absorb y (on_reconnect_timer (sy_db y)))"
| "db_react wr y (EvPing now frame) =
     guarded (quiet y \<and> db_pingTimer (sy_db y))
       (if ping_tick now (sy_db y) then start_call y frame else y)"

definition db_start :: "wormdb \<Rightarrow> dbsys" where
  "db_start db = \<lparr>sy_db = db, sy_calls = [], sy_done = []\<rparr>"

inductive db_reachable :: "(nat \<Rightarrow> write_oracle) \<Rightarrow> dbsys \<Rightarrow> dbsys \<Rightarrow> bool" for wr y0 where
  db_reach_init: "db_reachable wr y0 y0"
| db_reach_step: "db_reachable wr y0 y \<Longrightarrow> db_react wr y ev = Some y' \<Longrightarrow> db_reachable wr y0 y'"

text \<open>Running a list of events, and what the examples look at.\<close>

fun db_run :: "(nat \<Rightarrow> write_oracle) \<Rightarrow> dbsys \<Rightarrow> db_event list \<Rightarrow> dbsys option" where
  "db_run wr y [] = Some y"
| "db_run wr y (ev # evs) = (case db_react wr y ev of None \<Rightarrow> None | Some y' \<Rightarrow> db_run wr y' evs)"

lemma db_run_reachable:
  "db_run wr y evs = Some y' \<Longrightarrow> db_reachable wr y0 y \<Longrightarrow> db_reachable wr y0 y'"
  by (induction evs arbitrary: y) (auto split: option.splits intro: db_reach_step)

definition full_writes :: "nat \<Rightarrow> write_oracle" where
  "full_writes s k data = int (length data)"

definition brief :: "dbsys \<Rightarrow> call_state list \<times> (nat \<times> (js_error + RawFrame)) list \<times> WormDBState \<times> Pending list" where
  "brief y = (sy_calls y, sy_done y, db_stateValue (sy_db y), db_pendingQueue (sy_db y))"

subsection \<open>The calls\<close>

fun finishes :: "db_effect \<Rightarrow> (nat \<times> (js_error + RawFrame)) option" where
  "finishes (Settle i r) = Some (i, r)"
| "finishes (WakeFail i e) = Some (i, Inl e)"
| "finishes _ = None"

definition finished :: "db_effect list \<Rightarrow> (nat \<times> (js_error + RawFrame)) list" where
  "finished es = List.map_filter finishes es"

fun is_wake :: "db_effect \<Rightarrow> bool" where
  "is_wake (Wake i) = True"
| "is_wake _ = False"

definition no_wake :: "db_effect list \<Rightarrow> bool" where
  "no_wake es \<longleftrightarrow> list_all (\<lambda>e. \<not> is_wake e) es"

lemma finished_simps [simp]:
  "finished [] = []"
  "finished (es @ fs) = finished es @ finished fs"
  "finished (e # es) = (case finishes e of None \<Rightarrow> finished es | Some x \<Rightarrow> x # finished es)"
  by (simp_all add: finished_def List.map_filter_def split: option.splits)

lemma no_wake_simps [simp]:
  "no_wake []" "no_wake (es @ fs) \<longleftrightarrow> no_wake es \<and> no_wake fs" "no_wake (e # es) \<longleftrightarrow> \<not> is_wake e \<and> no_wake es"
  by (simp_all add: no_wake_def)

definition ids :: "Pending list \<Rightarrow> nat list" where
  "ids q = List.map_filter p_id q"

lemma ids_simps [simp]:
  "ids [] = []"
  "ids (p # q) = (case p_id p of None \<Rightarrow> ids q | Some i \<Rightarrow> i # ids q)"
  "ids (q @ r) = ids q @ ids r"
  by (simp_all add: ids_def List.map_filter_def split: option.splits)

lemma ids_replicate_None [simp]: "ids (replicate n \<lparr>p_id = None, p_generation = g\<rparr>) = []"
  by (induction n) simp_all

lemma finished_reject [simp]:
  "finished (reject_effects q err) = map (\<lambda>i. (i, Inl err)) (ids q)" "no_wake (reject_effects q err)"
  by (induction q) (auto simp: reject_effects_def settle_pending_def split: option.splits)

lemma reject_effects_Nil [simp]: "reject_effects [] err = []"
  by (simp add: reject_effects_def)

lemma finished_WakeFail [simp]:
  "finished (map (\<lambda>i. WakeFail i err) ws) = map (\<lambda>i. (i, Inl err)) ws"
  "no_wake (map (\<lambda>i. WakeFail i err) ws)"
  by (induction ws) simp_all

lemma foldl_apply_finished:
  "no_wake es \<Longrightarrow> foldl apply_effect (cs, d) es
     = (foldl (\<lambda>cs i. cs[i := Done]) cs (map fst (finished es)), d @ finished es)"
proof (induction es arbitrary: cs d)
  case (Cons e es)
  then show ?case by (cases e) simp_all
qed simp

lemma length_foldl_done [simp]: "length (foldl (\<lambda>cs i. cs[i := Done]) cs ks) = length cs"
  by (induction ks arbitrary: cs) simp_all

lemma nth_foldl_done:
  "i < length cs \<Longrightarrow> foldl (\<lambda>cs i. cs[i := Done]) cs ks ! i = (if i \<in> set ks then Done else cs ! i)"
  by (induction ks arbitrary: cs) (auto simp: nth_list_update)

text \<open>Which call is where: parked calls are the waiters, calls in flight the pending entries.\<close>

definition calls_inv :: "dbsys \<Rightarrow> bool" where
  "calls_inv y \<longleftrightarrow>
     distinct (db_readyWaiters (sy_db y)) \<and> distinct (ids (db_pendingQueue (sy_db y)))
   \<and> distinct (map fst (sy_done y))
   \<and> (\<forall>i. i \<in> set (db_readyWaiters (sy_db y)) \<longleftrightarrow>
        i < length (sy_calls y) \<and> (\<exists>f. sy_calls y ! i = Parked f))
   \<and> (\<forall>i. i \<in> set (ids (db_pendingQueue (sy_db y))) \<longleftrightarrow>
        i < length (sy_calls y) \<and> sy_calls y ! i = InFlight)
   \<and> (\<forall>i. i \<in> fst ` set (sy_done y) \<longleftrightarrow> i < length (sy_calls y) \<and> sy_calls y ! i = Done)
   \<and> (\<forall>i f s. i < length (sy_calls y) \<and> sy_calls y ! i = Granted f s \<longrightarrow>
        db_stateValue (sy_db y) = Ready \<or> db_stateValue (sy_db y) = Closed \<and> \<not> db_connecting (sy_db y))"

text \<open>A handler that settles a set of waiters and pending entries and keeps the others.\<close>

lemma absorb_finishing:
  assumes "calls_inv y" and "no_wake (db_out db')"
    and "db_readyWaiters (sy_db y) = ws @ db_readyWaiters db'"
    and "db_pendingQueue (sy_db y) = q @ db_pendingQueue db'"
    and "map fst (finished (db_out db')) = ids q @ ws"
    and "\<And>i f s. i < length (sy_calls y) \<Longrightarrow> sy_calls y ! i = Granted f s \<Longrightarrow>
           db_stateValue db' = Ready \<or> db_stateValue db' = Closed \<and> \<not> db_connecting db'"
  shows "calls_inv (absorb y db')"
proof -
  let ?ks = "ids q @ ws"
  define cs where "cs = foldl (\<lambda>cs i. cs[i := Done]) (sy_calls y) ?ks"
  have a: "absorb y db' = \<lparr>sy_db = db'\<lparr>db_out := []\<rparr>, sy_calls = cs,
      sy_done = sy_done y @ finished (db_out db')\<rparr>"
    using assms(2,5) by (simp add: absorb_def foldl_apply_finished cs_def)
  have l: "length cs = length (sy_calls y)"
    and nth: "\<And>i. i < length (sy_calls y) \<Longrightarrow> cs ! i = (if i \<in> set ?ks then Done else sy_calls y ! i)"
    by (simp_all add: cs_def nth_foldl_done)
  have w: "i \<in> set ws \<or> i \<in> set (db_readyWaiters db') \<longleftrightarrow>
      i < length (sy_calls y) \<and> (\<exists>f. sy_calls y ! i = Parked f)" for i
    using assms(1,3) by (auto simp: calls_inv_def)
  have p: "i \<in> set (ids q) \<or> i \<in> set (ids (db_pendingQueue db')) \<longleftrightarrow>
      i < length (sy_calls y) \<and> sy_calls y ! i = InFlight" for i
    using assms(1,4) by (auto simp: calls_inv_def)
  have d: "i \<in> fst ` set (sy_done y) \<longleftrightarrow> i < length (sy_calls y) \<and> sy_calls y ! i = Done" for i
    using assms(1) by (auto simp: calls_inv_def)
  have f: "fst ` set (finished (db_out db')) = set ?ks"
    using arg_cong [OF assms(5), of set] by simp
  have dist: "distinct (ws @ db_readyWaiters db')" "distinct (ids q @ ids (db_pendingQueue db'))"
      "distinct (map fst (sy_done y))"
    using assms(1,3,4) by (auto simp: calls_inv_def)
  have "i \<notin> set ws" if "i \<in> set (ids q)" for i
    using w [of i] p [of i] that by auto
  then have "distinct (ids q @ ws)"
    using dist by (auto simp: disjoint_iff)
  moreover have "i \<notin> fst ` set (sy_done y)" if "i \<in> set ?ks" for i
    using w [of i] p [of i] d [of i] that by auto
  ultimately have "distinct (map fst (sy_done y @ finished (db_out db')))"
    using dist(3) unfolding map_append assms(5) distinct_append set_map by blast
  moreover have "i \<in> set (db_readyWaiters db') \<longleftrightarrow> i < length cs \<and> (\<exists>f. cs ! i = Parked f)" for i
    using w [of i] p [of i] dist(1) nth [of i] l
    by (cases "sy_calls y ! i") (auto simp: disjoint_iff split: if_splits)
  moreover have "i \<in> set (ids (db_pendingQueue db')) \<longleftrightarrow> i < length cs \<and> cs ! i = InFlight" for i
    using w [of i] p [of i] dist(2) nth [of i] l
    by (cases "sy_calls y ! i") (auto simp: disjoint_iff split: if_splits)
  moreover have "i \<in> fst ` set (sy_done y @ finished (db_out db')) \<longleftrightarrow> i < length cs \<and> cs ! i = Done" for i
    using w [of i] p [of i] d [of i] f nth [of i] l by (auto simp: image_Un)
  moreover have "db_stateValue db' = Ready \<or> db_stateValue db' = Closed \<and> \<not> db_connecting db'"
    if "i < length cs" "cs ! i = Granted g s" for i g s
    using that nth [of i] l assms(6) [of i g s] by (auto split: if_splits)
  then have "\<forall>i f s. i < length cs \<and> cs ! i = Granted f s \<longrightarrow>
      db_stateValue db' = Ready \<or> db_stateValue db' = Closed \<and> \<not> db_connecting db'"
    by blast
  ultimately show ?thesis
    using dist(1,2) unfolding a calls_inv_def by simp
qed


lemma absorb_db [simp]: "sy_db (absorb y db) = settle_out db"
  by (simp add: absorb_def case_prod_unfold Let_def)

lemma db_close_calls: "calls_inv y \<Longrightarrow> db_inv (sy_db y) \<Longrightarrow> calls_inv (absorb y (db_close (sy_db y)))"
  by (rule absorb_finishing [where ws = "db_readyWaiters (sy_db y)" and q = "db_pendingQueue (sy_db y)"])
    (auto simp: db_close_def Let_def reject_simps db_inv_def calls_inv_def o_def split: option.splits)

lemma handleDisconnect_out:
  "\<exists>ws err'. db_readyWaiters db = ws @ db_readyWaiters (handleDisconnect rnd cause db)
     \<and> db_out (handleDisconnect rnd cause db) = db_out db
         @ reject_effects (db_pendingQueue db) (or_default cause ClientConnectionClosedError)
         @ map (\<lambda>i. WakeFail i err') ws"
  unfolding handleDisconnect_def scheduleReconnect_def Let_def reject_simps
  by auto

lemma quiet_not_granted: "quiet y \<Longrightarrow> i < length (sy_calls y) \<Longrightarrow> sy_calls y ! i \<noteq> Granted f s"
  by (metis list_all_length quiet_def settled_state.simps(2))

lemma quiet_not_woken: "quiet y \<Longrightarrow> i < length (sy_calls y) \<Longrightarrow> sy_calls y ! i \<noteq> Woken f"
  by (metis list_all_length quiet_def settled_state.simps(1))

lemma handleDisconnect_calls:
  assumes "calls_inv y" and "quiet y" and "db_out db = []"
    and "db_readyWaiters db = db_readyWaiters (sy_db y)" and "db_pendingQueue db = db_pendingQueue (sy_db y)"
  shows "calls_inv (absorb y (handleDisconnect rnd cause db))"
proof -
  obtain ws err' where "db_readyWaiters db = ws @ db_readyWaiters (handleDisconnect rnd cause db)"
    and "db_out (handleDisconnect rnd cause db) = db_out db
         @ reject_effects (db_pendingQueue db) (or_default cause ClientConnectionClosedError)
         @ map (\<lambda>i. WakeFail i err') ws"
    using handleDisconnect_out by blast
  with assms show ?thesis
    by (intro absorb_finishing [where ws = ws and q = "db_pendingQueue (sy_db y)"])
      (auto simp: o_def dest: quiet_not_granted)
qed

lemma failConnection_calls:
  assumes "calls_inv y" and "quiet y" and "db_inv (sy_db y)"
  shows "calls_inv (absorb y (failConnection rnd err (sy_db y)))"
proof (cases "db_socket (sy_db y)")
  case None
  with assms show ?thesis
    by (intro absorb_finishing [where ws = "[]" and q = "db_pendingQueue (sy_db y)"])
      (auto simp: failConnection_def reject_simps db_inv_def o_def dest: quiet_not_granted)
next
  case (Some s)
  define db1 where "db1 = db_emit ((db_rejectAllPending (sy_db y) err)\<lparr>db_socket := None\<rparr>) [EndSocket s]"
  have f: "failConnection rnd err (sy_db y) = handleDisconnect rnd None db1"
    using Some by (simp add: failConnection_def reject_simps db1_def)
  obtain ws err' where "db_readyWaiters db1 = ws @ db_readyWaiters (handleDisconnect rnd None db1)"
    and "db_out (handleDisconnect rnd None db1) = db_out db1
         @ reject_effects (db_pendingQueue db1) ClientConnectionClosedError
         @ map (\<lambda>i. WakeFail i err') ws"
    using handleDisconnect_out [of db1 rnd None] by auto
  with assms show ?thesis
    unfolding f
    by (intro absorb_finishing [where ws = ws and q = "db_pendingQueue (sy_db y)"])
      (auto simp: o_def db1_def reject_simps db_inv_def dest: quiet_not_granted)
qed

text \<open>Handlers that settle nothing.\<close>

lemma absorb_nothing:
  assumes "calls_inv y" and "finished (db_out db') = []" and "no_wake (db_out db')"
    and "db_readyWaiters db' = db_readyWaiters (sy_db y)" and "db_pendingQueue db' = db_pendingQueue (sy_db y)"
    and "quiet y \<or> db_stateValue db' = db_stateValue (sy_db y) \<and> db_connecting db' = db_connecting (sy_db y)"
  shows "calls_inv (absorb y db')"
  using assms
  by (intro absorb_finishing [where ws = "[]" and q = "[]"]) (auto simp: calls_inv_def dest: quiet_not_granted)

text \<open>Receiving: a prefix of the pending entries is answered.\<close>

definition answers :: "wormdb \<Rightarrow> wormdb \<Rightarrow> bool" where
  "answers db db' \<longleftrightarrow>
     (\<exists>q. db_pendingQueue db = q @ db_pendingQueue db'
        \<and> map fst (finished (db_out db')) = map fst (finished (db_out db)) @ ids q)
   \<and> (no_wake (db_out db) \<longrightarrow> no_wake (db_out db'))
   \<and> db_readyWaiters db' = db_readyWaiters db \<and> db_stateValue db' = db_stateValue db
   \<and> db_socket db' = db_socket db \<and> db_connecting db' = db_connecting db
   \<and> db_reconnectTimer db' = db_reconnectTimer db \<and> db_reconnectCfg db' = db_reconnectCfg db
   \<and> db_reconnectAttempts db' = db_reconnectAttempts db \<and> db_generation db' = db_generation db"

lemma answers_refl: "answers db db"
  by (simp add: answers_def)

lemma finished_deliveries [simp]:
  "finished (deliveries ents ch m subs) = []" "no_wake (deliveries ents ch m subs)"
proof -
  have "finished (map (\<lambda>h. Deliver h ch m) hs) = [] \<and> no_wake (map (\<lambda>h. Deliver h ch m) hs)" for hs
    by (induction hs) simp_all
  then show "finished (deliveries ents ch m subs) = []" "no_wake (deliveries ents ch m subs)"
    by (induction subs) (auto simp: deliveries_def)
qed

lemma on_db_frame_answers:
  assumes "answers db0 db"
  shows "answers db0 (on_db_frame db c p)"
proof (cases "isEventCode c")
  case True
  with assms show ?thesis
    by (auto simp: on_db_frame_def dispatchEvent_def answers_def split: WormResponse.splits)
next
  case False
  show ?thesis
  proof (cases "db_pendingQueue db")
    case Nil
    with False assms show ?thesis by (simp add: on_db_frame_def)
  next
    case (Cons pe rest)
    obtain q where "db_pendingQueue db0 = q @ db_pendingQueue db"
      "map fst (finished (db_out db)) = map fst (finished (db_out db0)) @ ids q"
      using assms by (auto simp: answers_def)
    then have "db_pendingQueue db0 = (q @ [pe]) @ rest
       \<and> map fst (finished (db_out db @ settle_pending pe r)) = map fst (finished (db_out db0)) @ ids (q @ [pe])
       \<and> no_wake (settle_pending pe r)" for r
      using Cons by (auto simp: settle_pending_def split: option.splits)
    with False Cons assms show ?thesis
      unfolding answers_def on_db_frame_def by (simp del: append_assoc)
  qed
qed

lemma onData_answers: "answers db (onData now db chunk)"
proof -
  let ?l = "frame_loop on_db_frame (db_inbound db @ chunk) (db\<lparr>db_lastActivityMs := now\<rparr>)"
  have "answers db (fst ?l)"
    by (rule frame_loop_preserves) (simp_all add: on_db_frame_answers, simp add: answers_def)
  then show ?thesis
    by (simp add: onData_def answers_def case_prod_unfold Let_def)
qed

lemma answers_inv: "answers db db' \<Longrightarrow> db_inv db \<Longrightarrow> db_inv (settle_out db')"
  by (cases "db_stateValue db") (auto simp: answers_def db_inv_def)

lemma onData_calls:
  assumes "calls_inv y" and "quiet y" and "db_inv (sy_db y)"
  shows "calls_inv (absorb y (onData now (sy_db y) chunk))"
proof -
  have a: "answers (sy_db y) (onData now (sy_db y) chunk)" by (rule onData_answers)
  then obtain q where "db_pendingQueue (sy_db y) = q @ db_pendingQueue (onData now (sy_db y) chunk)"
    "map fst (finished (db_out (onData now (sy_db y) chunk))) = ids q"
    using assms(3) by (auto simp: answers_def db_inv_def)
  with a assms show ?thesis
    by (intro absorb_finishing [where ws = "[]" and q = q])
      (auto simp: answers_def db_inv_def dest: quiet_not_granted)
qed


text \<open>Opening wakes all waiters.\<close>

lemma foldl_apply_wake:
  assumes "\<forall>i \<in> set ws. i < length cs"
  shows "\<exists>cs'. foldl apply_effect (cs, d) (map Wake ws) = (cs', d) \<and> length cs' = length cs
     \<and> (\<forall>i < length cs. cs' ! i =
          (if i \<in> set ws then (case cs ! i of Parked f \<Rightarrow> Woken f | x \<Rightarrow> x) else cs ! i))"
  using assms
proof (induction ws arbitrary: cs)
  case (Cons w ws)
  define cs1 where "cs1 = (case cs ! w of Parked f \<Rightarrow> cs[w := Woken f] | _ \<Rightarrow> cs)"
  have l: "length cs1 = length cs"
    and nth: "\<And>i. i < length cs \<Longrightarrow>
      cs1 ! i = (if i = w then (case cs ! i of Parked f \<Rightarrow> Woken f | x \<Rightarrow> x) else cs ! i)"
    using Cons.prems by (auto simp: cs1_def nth_list_update split: call_state.splits)
  obtain cs' where "foldl apply_effect (cs1, d) (map Wake ws) = (cs', d)" "length cs' = length cs1"
    "\<forall>i < length cs1. cs' ! i =
          (if i \<in> set ws then (case cs1 ! i of Parked f \<Rightarrow> Woken f | x \<Rightarrow> x) else cs1 ! i)"
    using Cons.IH [of cs1] Cons.prems l by auto
  then show ?case
    using l nth by (intro exI [of _ cs']) (auto simp: cs1_def [symmetric] split: call_state.splits)
qed simp

lemma on_dial_open_calls:
  assumes "calls_inv y" and "quiet y" and "db_inv (sy_db y)"
    and "on_dial_open wr now s (sy_db y) = (None, db')"
  shows "calls_inv (absorb y db')"
proof -
  let ?ws = "db_readyWaiters (sy_db y)"
  have "\<forall>i \<in> set ?ws. i < length (sy_calls y)"
    using assms(1) by (simp add: calls_inv_def)
  from foldl_apply_wake [OF this, of "sy_done y"] obtain cs'
    where cs': "foldl apply_effect (sy_calls y, sy_done y) (map Wake ?ws) = (cs', sy_done y)"
      "length cs' = length (sy_calls y)"
      and nth: "\<And>i. i < length (sy_calls y) \<Longrightarrow> cs' ! i = (if i \<in> set ?ws
          then (case sy_calls y ! i of Parked f \<Rightarrow> Woken f | x \<Rightarrow> x) else sy_calls y ! i)"
    by blast
  obtain n where sh: "db_pendingQueue db' = db_pendingQueue (sy_db y)
        @ replicate n \<lparr>p_id = None, p_generation = db_generation (sy_db y) + 1\<rparr>"
      "db_stateValue db' = Ready" "db_readyWaiters db' = []" "db_out db' = map Wake ?ws"
    using on_dial_open_shape [OF assms(4)] assms(3) by (auto simp: db_inv_def)
  have w: "\<And>i. i \<in> set ?ws \<longleftrightarrow> i < length (sy_calls y) \<and> (\<exists>f. sy_calls y ! i = Parked f)"
    using assms(1) by (simp add: calls_inv_def)
  have nth': "cs' ! i = (case sy_calls y ! i of Parked f \<Rightarrow> Woken f | x \<Rightarrow> x)"
    if "i < length (sy_calls y)" for i
    using that nth [of i] w [of i] by (auto split: call_state.splits)
  show ?thesis
    using assms(1) sh(1,2,3) cs'(2)
    unfolding absorb_def sh(4) cs'(1) calls_inv_def
    by (auto simp: nth' split: call_state.splits)
qed

text \<open>A call that runs \<open>ensureReady\<close>, and one that sends its frame.\<close>

lemma calls_inv_update:
  assumes "calls_inv y" and "i < length (sy_calls y)" and "\<not> settled_state (sy_calls y ! i)"
  shows "i \<notin> set (db_readyWaiters (sy_db y))" and "i \<notin> set (ids (db_pendingQueue (sy_db y)))"
    and "i \<notin> fst ` set (sy_done y)"
  using assms by (auto simp: calls_inv_def)

lemma run_ensureReady_calls:
  assumes "calls_inv y" and "db_inv (sy_db y)" and "i < length (sy_calls y)" and "sy_calls y ! i = Woken f"
  shows "calls_inv (run_ensureReady y i frame)"
proof -
  have o: "db_out (sy_db y) = []" using assms(2) by (simp add: db_inv_def)
  have st: "\<not> settled_state (sy_calls y ! i)" using assms(4) by simp
  note n = calls_inv_update [OF assms(1,3) st]
  show ?thesis
  proof (cases rule: ensureReady_cases [of "sy_db y" i])
    case closed
    then show ?thesis
      using assms n o
      by (auto simp: run_ensureReady_def absorb_def calls_inv_def nth_list_update image_Un)
  next
    case (ready s)
    then show ?thesis
      using assms n o
      by (auto simp: run_ensureReady_def absorb_def calls_inv_def nth_list_update)
  next
    case parks
    then show ?thesis
      using assms n o
      by (auto simp: run_ensureReady_def absorb_def calls_inv_def nth_list_update)
  next
    case dials
    have "db_stateValue (sy_db y) \<noteq> Ready"
      using dials assms(2) by (cases "db_stateValue (sy_db y)") (auto simp: db_inv_def)
    with dials show ?thesis
      using assms n o
      by (auto simp: run_ensureReady_def absorb_def calls_inv_def nth_list_update)
  qed
qed

lemma start_call_calls:
  assumes "calls_inv y" and "db_inv (sy_db y)"
  shows "calls_inv (start_call y frame)"
proof -
  let ?y = "y\<lparr>sy_calls := sy_calls y @ [Woken frame]\<rparr>"
  have "calls_inv ?y"
    using assms(1) by (auto simp: calls_inv_def nth_append less_Suc_eq)
  then show ?thesis
    unfolding start_call_def using assms(2) run_ensureReady_calls [of ?y "length (sy_calls y)" frame frame]
    by simp
qed

lemma send_request_shape:
  obtains db' where "send_request wr now i f s db = db'"
      "db_pendingQueue db' = db_pendingQueue db @ [\<lparr>p_id = Some i, p_generation = db_generation db\<rparr>]"
      "db_out db' = db_out db" "db_readyWaiters db' = db_readyWaiters db"
      "db_stateValue db' = db_stateValue db" "db_connecting db' = db_connecting db"
  | db' where "send_request wr now i f s db = db'" "db_pendingQueue db' = db_pendingQueue db"
      "db_out db' = db_out db @ [Settle i (Inl WriteFailed)]" "db_readyWaiters db' = db_readyWaiters db"
      "db_stateValue db' = db_stateValue db" "db_connecting db' = db_connecting db"
proof -
  obtain threw db1 where w: "db_write wr (enqueuePending db (Some i)) s f = (threw, db1)" by fastforce
  then have e: "send_request wr now i f s db = (if \<not> threw then db1\<lparr>db_lastActivityMs := now\<rparr>
      else db_emit (db1\<lparr>db_pendingQueue := db_pendingQueue db\<rparr>) [Settle i (Inl WriteFailed)])"
    by (simp add: send_request_def enqueuePending_def settle_pending_def)
  show thesis
  proof (cases threw)
    case True
    with e w show thesis by (intro that(2) [OF refl]) (simp_all add: enqueuePending_def)
  next
    case False
    with e w show thesis by (intro that(1) [OF refl]) (simp_all add: enqueuePending_def)
  qed
qed

lemma send_request_calls:
  assumes "calls_inv y" and "db_inv (sy_db y)" and "i < length (sy_calls y)" and "sy_calls y ! i = Granted f s"
  shows "calls_inv (absorb (y\<lparr>sy_calls := (sy_calls y)[i := InFlight]\<rparr>) (send_request wr now i f s (sy_db y)))"
proof -
  have o: "db_out (sy_db y) = []" using assms(2) by (simp add: db_inv_def)
  have st: "\<not> settled_state (sy_calls y ! i)" using assms(4) by simp
  note n = calls_inv_update [OF assms(1,3) st]
  show ?thesis
  proof (cases rule: send_request_shape [of wr now i f s "sy_db y"])
    case (1 db')
    then show ?thesis
      using assms n o unfolding 1(1)
      by (auto simp: absorb_def calls_inv_def nth_list_update)
  next
    case (2 db')
    then show ?thesis
      using assms n o unfolding 2(1)
      by (auto simp: absorb_def calls_inv_def nth_list_update image_Un)
  qed
qed

subsection \<open>Reachable states\<close>

text \<open>Methods that leave the connection alone.\<close>

definition same_core :: "wormdb \<Rightarrow> wormdb \<Rightarrow> bool" where
  "same_core db db' \<longleftrightarrow>
     db_out db' = db_out db \<and> db_stateValue db' = db_stateValue db \<and> db_socket db' = db_socket db
   \<and> db_readyWaiters db' = db_readyWaiters db \<and> db_pendingQueue db' = db_pendingQueue db
   \<and> db_reconnectCfg db' = db_reconnectCfg db \<and> db_reconnectAttempts db' = db_reconnectAttempts db
   \<and> db_reconnectTimer db' = db_reconnectTimer db \<and> db_connecting db' = db_connecting db
   \<and> db_generation db' = db_generation db"

lemma same_core_subs:
  "same_core db (fst (subscribe_begin ch h f db))"
  "same_core db (snd (subscribe_done ch h e r db))"
  "same_core db (fst (removeHandler ch h db))"
  "same_core db (snd (auth_done tok r db))"
  "same_core db (on_db_drain wr db s)"
  by (simp_all add: same_core_def subscribe_begin_def subscribe_done_def subscribe_failed_def
      removeHandler_def auth_done_def on_db_drain_def upd_entry_def delete_sub_def Let_def
      split: option.splits sum.splits WormResponse.splits prod.splits)

lemma same_core_inv: "same_core db db' \<Longrightarrow> db_inv db \<Longrightarrow> db_inv (settle_out db')"
  by (simp add: same_core_def db_inv_def)

lemma same_core_calls:
  "same_core (sy_db y) db' \<Longrightarrow> db_inv (sy_db y) \<Longrightarrow> calls_inv y \<Longrightarrow> calls_inv (absorb y db')"
  by (rule absorb_nothing) (simp_all add: same_core_def db_inv_def)

definition sys_inv :: "dbsys \<Rightarrow> bool" where
  "sys_inv y \<longleftrightarrow> db_inv (sy_db y) \<and> calls_inv y"

lemma run_ensureReady_inv:
  assumes "sys_inv y" and "i < length (sy_calls y)" and "sy_calls y ! i = Woken f"
  shows "sys_inv (run_ensureReady y i frame)"
proof -
  obtain db' oc where e: "ensureReady i (sy_db y) = (db', oc)" by fastforce
  have "sy_db (run_ensureReady y i frame) = settle_out db'"
    by (cases oc) (simp_all add: run_ensureReady_def e)
  with assms e show ?thesis
    using ensureReady_inv [OF _ e] run_ensureReady_calls by (simp add: sys_inv_def)
qed

lemma start_call_inv: "sys_inv y \<Longrightarrow> sys_inv (start_call y frame)"
  using start_call_calls [of y frame] ensureReady_inv [of "sy_db y" "length (sy_calls y)"]
  by (auto simp: sys_inv_def start_call_def run_ensureReady_def split: prod.splits ready_outcome.splits)

lemma absorb_inv: "db_inv (settle_out db) \<Longrightarrow> calls_inv (absorb y db) \<Longrightarrow> sys_inv (absorb y db)"
  by (simp add: sys_inv_def)

lemma on_request_timer_inv:
  assumes "sys_inv y" and "quiet y"
  shows "sys_inv (absorb y (on_request_timer rnd p (sy_db y)))"
proof (cases "db_generation (sy_db y) = p_generation p")
  case True
  with assms show ?thesis
    using failConnection_inv failConnection_calls by (simp add: on_request_timer_def sys_inv_def)
next
  case False
  with assms same_core_calls [of y "sy_db y"] show ?thesis
    by (simp add: on_request_timer_def sys_inv_def same_core_def db_inv_def)
qed

lemma on_reconnect_timer_sys:
  assumes "sys_inv y" and "quiet y" and "db_reconnectTimer (sy_db y) \<noteq> None"
  shows "sys_inv (absorb y (on_reconnect_timer (sy_db y)))"
proof (rule absorb_inv)
  show "db_inv (settle_out (on_reconnect_timer (sy_db y)))"
    using assms on_reconnect_timer_inv by (simp add: sys_inv_def)
  show "calls_inv (absorb y (on_reconnect_timer (sy_db y)))"
    using assms
    by (intro absorb_nothing) (auto simp: on_reconnect_timer_def openSocket_def sys_inv_def db_inv_def)
qed

lemma handleDisconnect_sys:
  assumes "sys_inv y" and "quiet y" and "db = sy_db y \<or> db = (sy_db y)\<lparr>db_connecting := False\<rparr>"
  shows "sys_inv (absorb y (handleDisconnect rnd cause db))"
proof (rule absorb_inv)
  show "db_inv (settle_out (handleDisconnect rnd cause db))"
    using assms
    by (intro handleDisconnect_inv [where sk = "db_socket (sy_db y) \<noteq> None" and con = "db_connecting (sy_db y)"
          and pend = "db_pendingQueue (sy_db y) \<noteq> []"]) (auto simp: sys_inv_def db_inv_def)
  show "calls_inv (absorb y (handleDisconnect rnd cause db))"
    using assms by (intro handleDisconnect_calls) (auto simp: sys_inv_def db_inv_def)
qed

lemma guarded_Some: "guarded b y = Some y' \<longleftrightarrow> b \<and> y' = y"
  by (auto simp: guarded_def)

text \<open>Events that only touch the subscriptions, the token or the backlog.\<close>

fun only_subs :: "db_event \<Rightarrow> bool" where
  "only_subs (EvSubscribe ch h f) = True"
| "only_subs (EvSubscribed ch h e r) = True"
| "only_subs (EvRemoveHandler ch h) = True"
| "only_subs (EvAuthDone tok r) = True"
| "only_subs (EvDrain s) = True"
| "only_subs _ = False"

lemma react_subs_inv: "sys_inv y \<Longrightarrow> db_react wr y ev = Some y' \<Longrightarrow> only_subs ev \<Longrightarrow> sys_inv y'"
  using same_core_subs
  by (cases ev) (auto simp: sys_inv_def guarded_Some intro!: same_core_calls same_core_inv)

lemma react_send_inv:
  assumes "sys_inv y" and "db_react wr y (EvSend now i) = Some y'"
  shows "sys_inv y'"
proof -
  from assms obtain f s where c: "i < length (sy_calls y)" "sy_calls y ! i = Granted f s"
    and y': "y' = absorb (y\<lparr>sy_calls := (sy_calls y)[i := InFlight]\<rparr>) (send_request wr now i f s (sy_db y))"
    by (auto split: if_splits call_state.splits)
  have "db_stateValue (sy_db y) = Ready \<or> db_stateValue (sy_db y) = Closed \<and> \<not> db_connecting (sy_db y)"
    using assms(1) c by (auto simp: sys_inv_def calls_inv_def)
  then show ?thesis
    using assms(1) c y' send_request_inv send_request_calls by (simp add: sys_inv_def)
qed

lemma react_open_inv:
  assumes "sys_inv y" and "db_react wr y (EvOpen now s) = Some y'"
  shows "sys_inv y'"
proof -
  from assms obtain db' where "on_dial_open wr now s (sy_db y) = (None, db')" "quiet y"
      "db_connecting (sy_db y)" "y' = absorb y db'"
    by (auto simp: guarded_Some split: prod.splits option.splits)
  with assms(1) show ?thesis
    using on_dial_open_inv on_dial_open_calls by (auto simp: sys_inv_def)
qed

lemma db_react_inv:
  assumes "sys_inv y" and "db_react wr y ev = Some y'"
  shows "sys_inv y'"
proof (cases "only_subs ev")
  case False
  then show ?thesis
  proof (cases ev)
    case (EvCall frame)
    with assms show ?thesis by (auto simp: start_call_inv)
  next
    case EvClose
    with assms show ?thesis using db_close_calls db_close_inv by (auto simp: sys_inv_def)
  next
    case (EvResume i)
    with assms show ?thesis by (auto intro!: run_ensureReady_inv split: if_splits call_state.splits)
  next
    case (EvData now chunk)
    with assms onData_answers show ?thesis
      using onData_calls by (auto simp: sys_inv_def guarded_Some intro!: answers_inv)
  next
    case (EvPing now frame)
    with assms show ?thesis by (auto simp: guarded_Some start_call_inv split: if_splits)
  next
    case (EvRequestTimer rnd k)
    with assms show ?thesis by (auto simp: guarded_Some on_request_timer_inv split: if_splits)
  next
    case EvReconnectTimer
    with assms show ?thesis by (auto simp: guarded_Some on_reconnect_timer_sys)
  next
    case (EvSend now i)
    with assms react_send_inv show ?thesis by blast
  next
    case (EvOpen now s)
    with assms react_open_inv show ?thesis by blast
  qed (use assms in \<open>auto simp: guarded_Some on_dial_failed_def on_db_close_def on_db_error_def intro!: handleDisconnect_sys\<close>)
qed (use assms react_subs_inv in blast)

lemma db_new_inv: "sys_inv (db_start (WormDB_new t r p))"
  by (simp add: sys_inv_def db_start_def WormDB_new_def db_inv_def calls_inv_def)

lemma reachable_inv:
  assumes "db_reachable wr (db_start (WormDB_new t r p)) y"
  shows "sys_inv y"
  using assms by (induction rule: db_reachable.induct) (auto simp: db_new_inv db_react_inv)

end
