(* ===== verification/WormDB_Correct.thy ===== *)
theory WormDB_Correct
  imports WormDB_System
begin

section \<open>What the WormDB client guarantees\<close>

text \<open>
  The properties of the connection engine: answers and events, the handshake of a connection, the
  account of the calls of every run, timeouts, reconnecting, and the cases the engine gets wrong.
\<close>

subsection \<open>Answers and events\<close>

text \<open>Answers of pending entries by response frames, and the handlers an event frame reaches.\<close>

definition db_answered :: "Pending list \<Rightarrow> (nat \<times> bytes) list \<Rightarrow> (nat \<times> (js_error + RawFrame)) list" where
  "db_answered q rs = List.map_filter (\<lambda>(p, r). map_option (\<lambda>i. (i, Inr r)) (p_id p)) (zip q rs)"

lemma db_answered_simps [simp]:
  "db_answered [] rs = []" "db_answered q [] = []"
  "db_answered (p # q) (r # rs) =
     (case p_id p of None \<Rightarrow> db_answered q rs | Some i \<Rightarrow> (i, Inr r) # db_answered q rs)"
  by (simp_all add: db_answered_def List.map_filter_def split: option.splits)

fun delivers :: "db_effect \<Rightarrow> (nat \<times> jstring \<times> jstring) option" where
  "delivers (Deliver h ch m) = Some (h, ch, m)"
| "delivers _ = None"

definition delivered :: "db_effect list \<Rightarrow> (nat \<times> jstring \<times> jstring) list" where
  "delivered es = List.map_filter delivers es"

lemma delivered_simps [simp]:
  "delivered [] = []"
  "delivered (es @ fs) = delivered es @ delivered fs"
  "delivered (e # es) = (case delivers e of None \<Rightarrow> delivered es | Some x \<Rightarrow> x # delivered es)"
  by (simp_all add: delivered_def List.map_filter_def split: option.splits)

text \<open>The handlers of every subscription whose channel is a prefix of the event's, in order.\<close>

definition receivers :: "(nat \<Rightarrow> SubEntry) \<Rightarrow> (jstring \<times> nat) list \<Rightarrow> jstring \<Rightarrow> nat list" where
  "receivers entries subs channel =
     concat (map (\<lambda>(ch, e). if startsWith channel ch then se_handlers (entries e) else []) subs)"

definition event_deliveries :: "wormdb \<Rightarrow> nat \<times> bytes \<Rightarrow> (nat \<times> jstring \<times> jstring) list" where
  "event_deliveries db f =
     (case decodeResponse (fst f) (snd f) of
        REvent ch m \<Rightarrow> map (\<lambda>h. (h, ch, m)) (receivers (db_entries db) (db_subs db) ch)
      | _ \<Rightarrow> [])"

lemma delivered_deliveries:
  "delivered (deliveries entries ch m subs) = map (\<lambda>h. (h, ch, m)) (receivers entries subs ch)"
proof -
  have "delivered (map (\<lambda>h. Deliver h ch m) hs) = map (\<lambda>h. (h, ch, m)) hs" for hs
    by (induction hs) simp_all
  then show ?thesis
    by (induction subs) (auto simp: deliveries_def receivers_def)
qed

lemma delivered_settle [simp]: "delivered (settle_pending p r) = []"
  by (simp add: settle_pending_def split: option.splits)

lemma not_event_decode: "\<not> isEventCode c \<Longrightarrow> decodeResponse c p \<noteq> REvent ch m"
  by (auto simp: decodeResponse_def isEventCode_def)

lemma on_db_frame_subs [simp]:
  "db_subs (on_db_frame db c p) = db_subs db" "db_entries (on_db_frame db c p) = db_entries db"
  "db_inbound (on_db_frame db c p) = db_inbound db"
  "db_lastActivityMs (on_db_frame db c p) = db_lastActivityMs db"
  by (auto simp: on_db_frame_def dispatchEvent_def db_emit_def split: WormResponse.splits list.splits)

lemma event_deliveries_frame [simp]: "event_deliveries (on_db_frame db c p) = event_deliveries db"
  by (simp add: fun_eq_iff event_deliveries_def split: WormResponse.splits)

lemma on_db_frame_event:
  assumes "isEventCode c"
  shows "db_pendingQueue (on_db_frame db c p) = db_pendingQueue db"
    and "finished (db_out (on_db_frame db c p)) = finished (db_out db)"
    and "delivered (db_out (on_db_frame db c p)) = delivered (db_out db) @ event_deliveries db (c, p)"
  using assms
  by (auto simp: on_db_frame_def dispatchEvent_def event_deliveries_def
      delivered_deliveries split: WormResponse.splits)

lemma on_db_frame_response:
  assumes "\<not> isEventCode c"
  shows "db_pendingQueue (on_db_frame db c p) = tl (db_pendingQueue db)"
    and "finished (db_out (on_db_frame db c p)) =
      finished (db_out db) @ db_answered (take 1 (db_pendingQueue db)) [(c, p)]"
    and "delivered (db_out (on_db_frame db c p)) = delivered (db_out db)"
    and "event_deliveries db (c, p) = []"
proof -
  show "event_deliveries db (c, p) = []"
    using not_event_decode [OF assms] by (auto simp: event_deliveries_def split: WormResponse.splits)
qed (use assms in \<open>auto simp: on_db_frame_def settle_pending_def split: list.splits option.splits\<close>)

lemma on_db_frame_foldl:
  "db_pendingQueue (foldl (\<lambda>s (c, p). on_db_frame s c p) db fs)
     = drop (length (responses fs)) (db_pendingQueue db)
   \<and> finished (db_out (foldl (\<lambda>s (c, p). on_db_frame s c p) db fs))
     = finished (db_out db) @ db_answered (db_pendingQueue db) (responses fs)
   \<and> delivered (db_out (foldl (\<lambda>s (c, p). on_db_frame s c p) db fs))
     = delivered (db_out db) @ concat (map (event_deliveries db) fs)
   \<and> db_inbound (foldl (\<lambda>s (c, p). on_db_frame s c p) db fs) = db_inbound db"
proof (induction fs arbitrary: db)
  case (Cons f fs)
  obtain c p where f: "f = (c, p)" by (cases f)
  show ?case
  proof (cases "isEventCode c")
    case True
    then show ?thesis
      using Cons [of "on_db_frame db c p"] on_db_frame_event [OF True, of db p] f by simp
  next
    case False
    then show ?thesis
      using Cons [of "on_db_frame db c p"] on_db_frame_response [OF False, of db p] f
      by (cases "db_pendingQueue db") (auto simp: drop_Suc split: option.splits)
  qed
qed simp

lemma on_db_frame_activity:
  "on_db_frame (db\<lparr>db_lastActivityMs := t\<rparr>) c p = (on_db_frame db c p)\<lparr>db_lastActivityMs := t\<rparr>"
  "on_db_frame (db\<lparr>db_inbound := b\<rparr>) c p = (on_db_frame db c p)\<lparr>db_inbound := b\<rparr>"
  by (auto simp: on_db_frame_def dispatchEvent_def db_emit_def
      split: WormResponse.splits list.splits)

lemma onData_append: "onData now (onData now db a) b = onData now db (a @ b)"
proof -
  let ?db = "db\<lparr>db_lastActivityMs := now\<rparr>"
  obtain db' r where r: "frame_loop on_db_frame (db_inbound db @ a) ?db = (db', r)"
    by (cases "frame_loop on_db_frame (db_inbound db @ a) ?db")
  obtain db'' r' where r': "frame_loop on_db_frame (r @ b) db' = (db'', r')"
    by (cases "frame_loop on_db_frame (r @ b) db'")
  have "db_lastActivityMs (fst (frame_loop on_db_frame (db_inbound db @ a) ?db)) = now"
    by (rule frame_loop_preserves) simp_all
  then have l: "db_lastActivityMs db' = now" by (simp add: r)
  have "frame_loop on_db_frame (r @ b) (db'\<lparr>db_inbound := r\<rparr>) = (db''\<lparr>db_inbound := r\<rparr>, r')"
    using frame_loop_commute [of on_db_frame "\<lambda>s. s\<lparr>db_inbound := r\<rparr>" "r @ b" db']
    by (simp add: on_db_frame_activity r')
  moreover have "db'\<lparr>db_inbound := r, db_lastActivityMs := now\<rparr> = db'\<lparr>db_inbound := r\<rparr>"
    by (rule wormdb.equality) (simp_all add: l)
  moreover have "frame_loop on_db_frame (db_inbound db @ a @ b) ?db = (db'', r')"
    using frame_loop_append [of on_db_frame "db_inbound db @ a" b ?db] by (simp add: r r')
  ultimately show ?thesis
    by (simp add: onData_def r)
qed

interpretation wormdb_data: chunk_consumer "onData now" for now
  by unfold_locales (rule onData_append)

lemma onData_stream:
  assumes "db_inbound db = []" and "\<forall>f \<in> set fs. wire_frame f"
  shows "onData now db (stream_of fs)
       = foldl (\<lambda>s (c, p). on_db_frame s c p) (db\<lparr>db_lastActivityMs := now\<rparr>) fs"
  using assms frame_loop_stream [of fs on_db_frame "[]" "db\<lparr>db_lastActivityMs := now\<rparr>"]
    on_db_frame_foldl [of "db\<lparr>db_lastActivityMs := now\<rparr>" fs]
  by (simp add: onData_def Let_def)

lemma event_deliveries_activity [simp]:
  "event_deliveries (db\<lparr>db_lastActivityMs := now\<rparr>) = event_deliveries db"
  by (simp add: fun_eq_iff event_deliveries_def split: WormResponse.splits)

text \<open>
C6: however the bytes of a connection are cut into chunks, the responses among its frames settle
the pending requests in the order they were sent and no event frame settles one; every event frame
is delivered, in order, to the handlers of every subscription whose channel is a prefix of the
event's channel, and to no other handler.
\<close>

theorem wormdb_answers_and_events:
  assumes "db_inbound db = []" and "\<forall>f \<in> set fs. wire_frame f"
    and "cs \<noteq> []" and "concat cs = stream_of fs"
  shows "finished (db_out (foldl (onData now) db cs))
           = finished (db_out db) @ db_answered (db_pendingQueue db) (responses fs)
       \<and> delivered (db_out (foldl (onData now) db cs))
           = delivered (db_out db) @ concat (map (event_deliveries db) fs)
       \<and> db_pendingQueue (foldl (onData now) db cs) = drop (length (responses fs)) (db_pendingQueue db)"
proof -
  have "foldl (onData now) db cs = onData now db (stream_of fs)"
    using wormdb_data.same_stream [of cs "[stream_of fs]" now db] assms by simp
  then show ?thesis
    using assms on_db_frame_foldl [of "db\<lparr>db_lastActivityMs := now\<rparr>" fs] by (simp add: onData_stream)
qed

theorem wormdb_answers_and_events_witness:
  "finished (db_out (foldl (onData 9)
      (fresh_db\<lparr>db_pendingQueue := [\<lparr>p_id = Some 7, p_generation = 1\<rparr>],
                db_subs := [(js ''a'', 0)], db_entries := (\<lambda>_. no_entry\<lparr>se_handlers := [5]\<rparr>)\<rparr>)
      [[4, 0, 0, 0, 10, 0, 0, 0, 1, 0x61], [0, 0, 0, 1, 0x62, 2, 0, 0, 0, 0]]))
     = [(7, Inr (2, []))]
   \<and> delivered (db_out (foldl (onData 9)
      (fresh_db\<lparr>db_pendingQueue := [\<lparr>p_id = Some 7, p_generation = 1\<rparr>],
                db_subs := [(js ''a'', 0)], db_entries := (\<lambda>_. no_entry\<lparr>se_handlers := [5]\<rparr>)\<rparr>)
      [[4, 0, 0, 0, 10, 0, 0, 0, 1, 0x61], [0, 0, 0, 1, 0x62, 2, 0, 0, 0, 0]]))
     = [(5, js ''a'', js ''b'')]"
proof -
  let ?db = "fresh_db\<lparr>db_pendingQueue := [\<lparr>p_id = Some 7, p_generation = 1\<rparr>],
      db_subs := [(js ''a'', 0)], db_entries := (\<lambda>_. no_entry\<lparr>se_handlers := [5]\<rparr>)\<rparr>"
  let ?fs = "[(4, [0, 0, 0, 1, 0x61, 0, 0, 0, 1, 0x62]), (2, [])]"
  have "decodeResponse 4 [0, 0, 0, 1, 0x61, 0, 0, 0, 1, 0x62] = REvent (js ''a'') (js ''b'')"
    by (simp add: decodeResponse_def readUint32BE_def rd32_def subarray_def decodeUtf8_def dec_ground_def
        strip_bom_def of_code_points_def units_def js_simps)
  moreover have "startsWith (js ''a'') (js ''a'')" by simp
  ultimately show ?thesis
    using wormdb_answers_and_events [of ?db ?fs
        "[[4, 0, 0, 0, 10, 0, 0, 0, 1, 0x61], [0, 0, 0, 1, 0x62, 2, 0, 0, 0, 0]]" 9]
    by (simp add: fresh_db_def WormDB_new_def wire_frame_def stream_of_def frame_bytes_def be32_def
        isEventCode_def event_deliveries_def receivers_def no_entry_def decodeResponse_def)
qed


subsection \<open>The handshake of a new connection\<close>

lemma db_write_ok:
  assumes "never_fails (wr s)" and "db_write wr db s f = (threw, db')"
  shows "\<not> threw"
    and "out_stream (db_writeBacklog db') (db_net db' s) = out_stream (db_writeBacklog db) (db_net db s) @ f"
proof -
  obtain t b s' where w: "writeOrQueue (wr s) (db_writeBacklog db) (db_net db s) f = (t, b, s')"
    by (cases "writeOrQueue (wr s) (db_writeBacklog db) (db_net db s) f") auto
  then show "\<not> threw"
    and "out_stream (db_writeBacklog db') (db_net db' s) = out_stream (db_writeBacklog db) (db_net db s) @ f"
    using assms(2) writeOrQueue_ok [OF assms(1) w] by (auto simp: db_write_def)
qed

lemma db_write_authToken [simp]: "db_write wr db s f = (threw, db') \<Longrightarrow> db_authToken db' = db_authToken db"
  by (auto simp: db_write_def Let_def split: prod.splits)

text \<open>The frames \<open>onOpen\<close> sends: the token, then one SUB per live subscription.\<close>

definition resub_frames :: "wormdb \<Rightarrow> (wire_error + bytes) list" where
  "resub_frames db =
     map (\<lambda>(ch, e). encodeCommandFrame (CmdSub ch (se_filter (db_entries db e))))
       (filter (\<lambda>(ch, e). se_wireSubscribed (db_entries db e)) (db_subs db))"

definition handshake_frames :: "wormdb \<Rightarrow> (wire_error + bytes) list" where
  "handshake_frames db =
     (case db_authToken db of None \<Rightarrow> [] | Some tok \<Rightarrow> [encodeAuth tok]) @ resub_frames db"

lemma send_settled_ok:
  assumes "never_fails (wr s)"
  shows "\<exists>db'. send_settled wr s (Inr f) db = (None, db')
     \<and> out_stream (db_writeBacklog db') (db_net db' s) = out_stream (db_writeBacklog db) (db_net db s) @ f
     \<and> db_pendingQueue db' = db_pendingQueue db @ [\<lparr>p_id = None, p_generation = db_generation db\<rparr>]"
proof -
  obtain threw db' where w: "db_write wr (enqueuePending db None) s f = (threw, db')" by fastforce
  then show ?thesis
    using db_write_ok [OF assms w] by (simp add: send_settled_def enqueuePending_def)
qed

lemma resubscribe_ok:
  assumes "never_fails (wr s)"
    and "map (\<lambda>(ch, e). encodeCommandFrame (CmdSub ch (se_filter (db_entries db e))))
       (filter (\<lambda>(ch, e). se_wireSubscribed (db_entries db e)) subs) = map Inr fs"
  shows "\<exists>db'. resubscribe wr s subs db = (None, db')
     \<and> out_stream (db_writeBacklog db') (db_net db' s)
         = out_stream (db_writeBacklog db) (db_net db s) @ concat fs
     \<and> db_pendingQueue db' = db_pendingQueue db
         @ replicate (length fs) \<lparr>p_id = None, p_generation = db_generation db\<rparr>"
  using assms(2)
proof (induction subs arbitrary: db fs)
  case (Cons x subs)
  obtain ch e where x: "x = (ch, e)" by (cases x)
  show ?case
  proof (cases "se_wireSubscribed (db_entries db e)")
    case False
    with Cons x show ?thesis by simp
  next
    case True
    then obtain f fs' where f: "fs = f # fs'" "encodeCommandFrame (CmdSub ch (se_filter (db_entries db e))) = Inr f"
      using Cons.prems x by (cases fs) auto
    obtain db1 where db1: "send_settled wr s (Inr f) db = (None, db1)"
      "out_stream (db_writeBacklog db1) (db_net db1 s) = out_stream (db_writeBacklog db) (db_net db s) @ f"
      "db_pendingQueue db1 = db_pendingQueue db @ [\<lparr>p_id = None, p_generation = db_generation db\<rparr>]"
      using send_settled_ok [of wr s f db] assms(1) by blast
    have same: "db_entries db1 = db_entries db" "db_generation db1 = db_generation db"
      using send_settled_same [of db wr s "Inr f"] db1(1) by (simp_all add: same_but_queue_def)
    obtain db2 where "resubscribe wr s subs db1 = (None, db2)"
      "out_stream (db_writeBacklog db2) (db_net db2 s)
         = out_stream (db_writeBacklog db1) (db_net db1 s) @ concat fs'"
      "db_pendingQueue db2 = db_pendingQueue db1
         @ replicate (length fs') \<lparr>p_id = None, p_generation = db_generation db1\<rparr>"
      using Cons.IH [of db1 fs'] Cons.prems x f True same by auto
    with db1 same f x True show ?thesis by simp
  qed
qed simp


lemma reauth_ok:
  assumes "never_fails (wr s)"
    and "(case db_authToken db of None \<Rightarrow> [] | Some tok \<Rightarrow> [encodeAuth tok]) = map Inr as"
  shows "\<exists>db'. reauth wr s db = (None, db')
      \<and> out_stream (db_writeBacklog db') (db_net db' s) = out_stream (db_writeBacklog db) (db_net db s) @ concat as
      \<and> db_pendingQueue db' = db_pendingQueue db @ replicate (length as) \<lparr>p_id = None, p_generation = db_generation db\<rparr>
      \<and> db_subs db' = db_subs db \<and> db_entries db' = db_entries db \<and> db_generation db' = db_generation db"
proof (cases "db_authToken db")
  case None
  then show ?thesis using assms(2) by (simp add: reauth_def)
next
  case (Some tok)
  then obtain a where a: "as = [a]" "encodeAuth tok = Inr a" using assms(2) by (cases as) auto
  show ?thesis
    using send_settled_ok [of wr s a db] assms(1) a Some send_settled_same [of db wr s "Inr a"]
    by (auto simp: same_but_queue_def reauth_def)
qed

lemma onOpen_ok:
  assumes "never_fails (wr s)" and "handshake_frames db = map Inr fs"
    and "wr s (s_calls (db_net db s)) WIRE_MAGIC = 2"
  shows "\<exists>db'. on_dial_open wr now s db = (None, db')
     \<and> out_stream (db_writeBacklog db') (db_net db' s) = s_sent (db_net db s) @ WIRE_MAGIC @ concat fs
     \<and> db_pendingQueue db' = db_pendingQueue db
         @ replicate (length fs) \<lparr>p_id = None, p_generation = db_generation db + 1\<rparr>"
proof -
  define db1 where "db1 = open_reset wr s (db\<lparr>db_connecting := False\<rparr>)"
  have db1: "db_authToken db1 = db_authToken db" "db_subs db1 = db_subs db" "db_entries db1 = db_entries db"
      "db_pendingQueue db1 = db_pendingQueue db" "db_generation db1 = db_generation db + 1"
      "out_stream (db_writeBacklog db1) (db_net db1 s) = s_sent (db_net db s) @ WIRE_MAGIC"
    using assms(3) by (simp_all add: db1_def open_reset_def out_stream_def sock_write_def WIRE_MAGIC_def)
  obtain as rs where f: "(case db_authToken db of None \<Rightarrow> [] | Some tok \<Rightarrow> [encodeAuth tok]) = map Inr as"
    "resub_frames db = map Inr rs" "fs = as @ rs"
    using assms(2) by (auto simp: handshake_frames_def append_eq_map_conv)
  obtain db2 where 2: "reauth wr s db1 = (None, db2)"
      "out_stream (db_writeBacklog db2) (db_net db2 s) = s_sent (db_net db s) @ WIRE_MAGIC @ concat as"
      "db_pendingQueue db2 = db_pendingQueue db1 @ replicate (length as) \<lparr>p_id = None, p_generation = db_generation db1\<rparr>"
      "db_subs db2 = db_subs db1" "db_entries db2 = db_entries db1" "db_generation db2 = db_generation db1"
    using reauth_ok [of wr s db1 as] assms(1) f(1) db1 by auto
  obtain db3 where 3: "resubscribe wr s (db_subs db2) db2 = (None, db3)"
    "out_stream (db_writeBacklog db3) (db_net db3 s)
         = out_stream (db_writeBacklog db2) (db_net db2 s) @ concat rs"
    "db_pendingQueue db3 = db_pendingQueue db2
         @ replicate (length rs) \<lparr>p_id = None, p_generation = db_generation db2\<rparr>"
    using resubscribe_ok [of wr s db2 "db_subs db2" rs] assms(1) f(2) 2(4,5) db1 by (auto simp: resub_frames_def)
  have "on_dial_open wr now s db = (None, (open_ready now db3)\<lparr>db_connecting := False\<rparr>)"
    using 2(1) 3(1) by (simp add: on_dial_open_def onOpen_def flip: db1_def)
  then show ?thesis
    using 2 3 f(3) db1 by (simp add: open_ready_def startPing_def replicate_add Let_def)
qed

text \<open>
C7: when a connection opens, the bytes on it are the magic, then the AUTH frame of the retained
token, then one SUB frame for each live subscription in order, and nothing else: no request or
unsent data of an earlier connection is replayed. One entry is queued for each of these frames, so
that their responses are not taken for the answer to a request; the client is ready and the waiting
callers are released in the order they came.
\<close>

theorem handshake_order:
  assumes "never_fails (wr s)" and "handshake_frames db = map Inr fs"
    and "wr s (s_calls (db_net db s)) WIRE_MAGIC = 2"
  shows "\<exists>db'. on_dial_open wr now s db = (None, db')
     \<and> out_stream (db_writeBacklog db') (db_net db' s) = s_sent (db_net db s) @ WIRE_MAGIC @ concat fs
     \<and> db_pendingQueue db' = db_pendingQueue db
         @ replicate (length fs) \<lparr>p_id = None, p_generation = db_generation db + 1\<rparr>
     \<and> db_stateValue db' = Ready \<and> db_socket db' = Some s
     \<and> db_out db' = db_out db @ map Wake (db_readyWaiters db) \<and> db_readyWaiters db' = []"
proof -
  obtain db' where "on_dial_open wr now s db = (None, db')"
     "out_stream (db_writeBacklog db') (db_net db' s) = s_sent (db_net db s) @ WIRE_MAGIC @ concat fs"
     "db_pendingQueue db' = db_pendingQueue db
         @ replicate (length fs) \<lparr>p_id = None, p_generation = db_generation db + 1\<rparr>"
    using onOpen_ok [of wr s db fs now] assms by blast
  then show ?thesis using on_dial_open_shape by blast
qed

theorem handshake_order_witness:
  "\<exists>db'. on_dial_open (\<lambda>s. ok_socket (\<lambda>k d. length d)) 5 1 (fresh_db\<lparr>db_authToken := Some [9],
        db_writeBacklog := [[1, 2, 3]]\<rparr>) = (None, db')
     \<and> out_stream (db_writeBacklog db') (db_net db' 1) = [0x57, 0x57, 0x0C, 0, 0, 0, 5, 0, 0, 0, 1, 9]"
proof -
  let ?db = "fresh_db\<lparr>db_authToken := Some [9], db_writeBacklog := [[1, 2, 3]]\<rparr>"
  have h: "handshake_frames ?db = map Inr [[0x0C, 0, 0, 0, 5, 0, 0, 0, 1, 9]]"
    by (simp add: handshake_frames_def resub_frames_def fresh_db_def WormDB_new_def encodeAuth_framed
        framed_def frame_bytes_def field_def be32_def MAX_PAYLOAD_def)
  show ?thesis
    using handshake_order [OF _ h, of "\<lambda>s. ok_socket (\<lambda>k d. length d)" 1 5]
    by (auto simp: fresh_db_def WormDB_new_def fresh_sock_def ok_socket_def WIRE_MAGIC_def)
qed

subsection \<open>Every call is accounted for\<close>

lemma reachable_parked:
  assumes "sys_inv y" and "i < length (sy_calls y)" and "sy_calls y ! i = Parked f"
  shows "i \<in> set (db_readyWaiters (sy_db y)) \<and> (db_connecting (sy_db y) \<or> db_reconnectTimer (sy_db y) \<noteq> None)"
proof -
  have "i \<in> set (db_readyWaiters (sy_db y))"
    using assms by (auto simp: sys_inv_def calls_inv_def)
  then have "db_readyWaiters (sy_db y) \<noteq> []" by auto
  with assms(1) show ?thesis
    using \<open>i \<in> set (db_readyWaiters (sy_db y))\<close>
    by (cases "db_stateValue (sy_db y)") (auto simp: sys_inv_def db_inv_def)
qed

lemma ids_in: "i \<in> set (ids q) \<longleftrightarrow> (\<exists>p \<in> set q. p_id p = Some i)"
  by (induction q) (auto split: option.splits)

lemma reachable_in_flight:
  assumes "sys_inv y" and "i < length (sy_calls y)" and "sy_calls y ! i = InFlight"
  shows "\<exists>p \<in> set (db_pendingQueue (sy_db y)). p_id p = Some i \<and> p_generation p = db_generation (sy_db y)"
proof -
  have "i \<in> set (ids (db_pendingQueue (sy_db y)))"
    using assms by (auto simp: sys_inv_def calls_inv_def)
  then show ?thesis
    using assms(1) by (auto simp: ids_in sys_inv_def db_inv_def)
qed



text \<open>A run of a client: a call dials, the connection opens, the call is sent.\<close>

abbreviation "status_events \<equiv> [EvCall [4, 0, 0, 0, 0], EvOpen 1 1, EvResume 0, EvSend 2 0]"

lemma status_run_brief:
  "map_option brief (db_run full_writes (db_start (WormDB_new None no_options None)) status_events)
     = Some ([InFlight], [], Ready, [\<lparr>p_id = Some 0, p_generation = 1\<rparr>])"
  by code_simp

lemma status_run:
  obtains y where "db_run full_writes (db_start (WormDB_new None no_options None)) status_events = Some y"
    and "db_reachable full_writes (db_start (WormDB_new None no_options None)) y"
    and "sy_calls y = [InFlight]" and "sy_done y = []" and "db_stateValue (sy_db y) = Ready"
    and "db_pendingQueue (sy_db y) = [\<lparr>p_id = Some 0, p_generation = 1\<rparr>]"
  using status_run_brief db_run_reachable [OF _ db_reach_init]
  by (auto simp: brief_def simp del: db_run.simps)



subsection \<open>Timeouts tear the connection down\<close>

lemma failConnection_out:
  "\<exists>es. db_out (failConnection rnd err db) = db_out db @ reject_effects (db_pendingQueue db) err @ es \<and> no_wake es"
proof (cases "db_socket db")
  case None
  then show ?thesis by (simp add: failConnection_def reject_simps)
next
  case (Some s)
  define db1 where "db1 = db_emit ((db_rejectAllPending db err)\<lparr>db_socket := None\<rparr>) [EndSocket s]"
  have "failConnection rnd err db = handleDisconnect rnd None db1"
    using Some by (simp add: failConnection_def reject_simps db1_def)
  moreover obtain ws err' where "db_out (handleDisconnect rnd None db1) = db_out db1
         @ reject_effects (db_pendingQueue db1) ClientConnectionClosedError @ map (\<lambda>i. WakeFail i err') ws"
    using handleDisconnect_out [of db1 rnd None] by auto
  ultimately show ?thesis by (simp add: db1_def reject_simps)
qed

lemma failConnection_fields:
  "db_pendingQueue (failConnection rnd err db) = []" "db_socket (failConnection rnd err db) = None"
  by (auto simp: failConnection_def Let_def reject_simps split: option.splits)

lemma absorb_done: "no_wake (db_out db) \<Longrightarrow> sy_done (absorb y db) = sy_done y @ finished (db_out db)"
  by (simp add: absorb_def foldl_apply_finished)



subsection \<open>A parked call reaches the wire\<close>

text \<open>
C11: a call that is parked while a dial is outstanding is sent when the connection opens: it is
woken, granted the socket, and its frame follows the handshake on the wire.
\<close>

theorem parked_call_is_sent:
  assumes "db_reachable wr (db_start (WormDB_new t r pg)) y" and "quiet y"
    and "i < length (sy_calls y)" and "sy_calls y ! i = Parked f" and "db_connecting (sy_db y)"
    and "never_fails (wr s)" and "handshake_frames (sy_db y) = map Inr fs"
    and "wr s (s_calls (db_net (sy_db y) s)) WIRE_MAGIC = 2"
  shows "\<exists>y'. db_run wr y [EvOpen now s, EvResume i, EvSend now i] = Some y'
    \<and> sy_calls y' ! i = InFlight
    \<and> out_stream (db_writeBacklog (sy_db y')) (db_net (sy_db y') s)
        = s_sent (db_net (sy_db y) s) @ WIRE_MAGIC @ concat fs @ f"
proof -
  have inv: "sys_inv y" using assms(1) by (rule reachable_inv)
  obtain db1 where db1: "on_dial_open wr now s (sy_db y) = (None, db1)"
     "out_stream (db_writeBacklog db1) (db_net db1 s) = s_sent (db_net (sy_db y) s) @ WIRE_MAGIC @ concat fs"
    using onOpen_ok [of wr s "sy_db y" fs now] assms(6-8) by blast
  have sh: "db_stateValue db1 = Ready" "db_socket db1 = Some s" "db_out db1 = map Wake (db_readyWaiters (sy_db y))"
    using on_dial_open_shape [OF db1(1)] inv by (auto simp: sys_inv_def db_inv_def)
  have w: "\<forall>j \<in> set (db_readyWaiters (sy_db y)). j < length (sy_calls y)" "i \<in> set (db_readyWaiters (sy_db y))"
    using inv assms(3,4) by (auto simp: sys_inv_def calls_inv_def)
  obtain cs where cs: "foldl apply_effect (sy_calls y, sy_done y) (map Wake (db_readyWaiters (sy_db y)))
      = (cs, sy_done y)" "length cs = length (sy_calls y)" "cs ! i = Woken f"
    using foldl_apply_wake [OF w(1), of "sy_done y"] w(2) assms(3,4) by auto
  define y1 where "y1 = \<lparr>sy_db = settle_out db1, sy_calls = cs, sy_done = sy_done y\<rparr>"
  have r1: "db_react wr y (EvOpen now s) = Some y1"
    using assms(2,5) db1(1) sh(3) cs(1) by (simp add: guarded_def absorb_def y1_def)
  define y2 where "y2 = y1\<lparr>sy_calls := cs[i := Granted f s]\<rparr>"
  have "ensureReady i (settle_out db1) = (settle_out db1, HasSocket s)"
    using sh by (subst ensureReady.simps) simp
  then have r2: "db_react wr y1 (EvResume i) = Some y2"
    using cs assms(3) by (simp add: y1_def y2_def run_ensureReady_def absorb_def)
  obtain threw db3 where w3: "db_write wr (enqueuePending (settle_out db1) (Some i)) s f = (threw, db3)" by fastforce
  note ok = db_write_ok [OF assms(6) w3]
  have o3: "db_out db3 = []" using w3 by (simp add: enqueuePending_def)
  define y3 where "y3 = \<lparr>sy_db = db3\<lparr>db_lastActivityMs := now, db_out := []\<rparr>,
      sy_calls = cs[i := InFlight], sy_done = sy_done y\<rparr>"
  have r3: "db_react wr y2 (EvSend now i) = Some y3"
    using cs assms(3) w3 ok(1) o3 by (simp add: y1_def y2_def y3_def send_request_def absorb_def)
  show ?thesis
    using r1 r2 r3 ok(2) db1(2) cs(2) assms(3) by (simp add: y3_def enqueuePending_def del: db_react.simps)
qed

lemma dialing_run:
  obtains y where "db_run full_writes (db_start (WormDB_new None no_options None)) [EvCall [4, 0, 0, 0, 0]] = Some y"
    and "db_reachable full_writes (db_start (WormDB_new None no_options None)) y"
    and "sy_calls y = [Parked [4, 0, 0, 0, 0]]" and "db_connecting (sy_db y)"
    and "db_authToken (sy_db y) = None" and "db_subs (sy_db y) = []" and "db_net (sy_db y) 1 = fresh_sock"
proof -
  have "map_option (\<lambda>y. (sy_calls y, db_connecting (sy_db y), db_authToken (sy_db y), db_subs (sy_db y),
        db_net (sy_db y) 1))
      (db_run full_writes (db_start (WormDB_new None no_options None)) [EvCall [4, 0, 0, 0, 0]])
     = Some ([Parked [4, 0, 0, 0, 0]], True, None, [], fresh_sock)"
    by code_simp
  then show thesis
    using that db_run_reachable [OF _ db_reach_init] by (auto simp del: db_run.simps)
qed

theorem parked_call_is_sent_witness:
  "\<exists>y y'. db_run full_writes (db_start (WormDB_new None no_options None)) [EvCall [4, 0, 0, 0, 0]] = Some y
     \<and> db_run full_writes y [EvOpen 7 1, EvResume 0, EvSend 7 0] = Some y'
     \<and> out_stream (db_writeBacklog (sy_db y')) (db_net (sy_db y') 1) = [0x57, 0x57, 4, 0, 0, 0, 0]"
proof -
  obtain y where y: "db_run full_writes (db_start (WormDB_new None no_options None)) [EvCall [4, 0, 0, 0, 0]] = Some y"
    "db_reachable full_writes (db_start (WormDB_new None no_options None)) y"
    "sy_calls y = [Parked [4, 0, 0, 0, 0]]" "db_connecting (sy_db y)"
    "db_authToken (sy_db y) = None" "db_subs (sy_db y) = []" "db_net (sy_db y) 1 = fresh_sock"
    by (rule dialing_run)
  have "quiet y" "never_fails (full_writes 1)" "handshake_frames (sy_db y) = map Inr []"
    using y by (simp_all add: quiet_def never_fails_def full_writes_def handshake_frames_def resub_frames_def)
  then show ?thesis
    using parked_call_is_sent [OF y(2), of 0 "[4, 0, 0, 0, 0]" 1 "[]" 7] y
    by (auto simp: full_writes_def WIRE_MAGIC_def fresh_sock_def simp del: db_run.simps)
qed


subsection \<open>Reconnecting\<close>

text \<open>
C12: each reconnect is scheduled after at least half and less than the whole of the backoff, which
doubles with every attempt, never exceeds the configured maximum and is the same for the same number
of attempts; the attempt is counted.
\<close>

theorem backoff_bounds:
  assumes "unit_interval rnd" and "0 < rc_minDelayMs (db_reconnectCfg db)" and "0 < rc_maxDelayMs (db_reconnectCfg db)"
    and "db_reconnectTimer db = None" and "\<not> db_connecting db" and "db_stateValue db \<noteq> Closed"
    and "\<not> attempts_exhausted (db_reconnectCfg db) (db_reconnectAttempts db)"
  shows "\<exists>d. db_reconnectTimer (scheduleReconnect rnd db) = Some d
    \<and> backoff_ms (db_reconnectCfg db) (db_reconnectAttempts db) / 2 \<le> d
    \<and> d < backoff_ms (db_reconnectCfg db) (db_reconnectAttempts db)
    \<and> d < rc_maxDelayMs (db_reconnectCfg db)
    \<and> backoff_ms (db_reconnectCfg db) (db_reconnectAttempts db)
        \<le> backoff_ms (db_reconnectCfg db) (db_reconnectAttempts (scheduleReconnect rnd db))
    \<and> db_reconnectAttempts (scheduleReconnect rnd db) = db_reconnectAttempts db + 1"
proof -
  let ?cfg = "db_reconnectCfg db" and ?n = "db_reconnectAttempts db"
  let ?b = "backoff_ms ?cfg ?n"
  have b: "0 < ?b" "?b \<le> rc_maxDelayMs ?cfg" "?b \<le> backoff_ms ?cfg (?n + 1)"
    using assms(2,3) by (auto simp: backoff_ms_def min_def)
  have "0 \<le> rnd * (?b / 2)" "rnd * (?b / 2) < 1 * (?b / 2)"
    using assms(1) b(1) by (auto simp: unit_interval_def intro: mult_strict_right_mono)
  then have "?b / 2 \<le> ?b / 2 + rnd * (?b / 2)" "?b / 2 + rnd * (?b / 2) < ?b"
    by linarith+
  then show ?thesis
    using assms(4-7) b by (auto simp: scheduleReconnect_def Let_def)
qed

theorem backoff_bounds_witness:
  "\<exists>d. db_reconnectTimer (scheduleReconnect (1 / 3) fresh_db) = Some d \<and> 50 \<le> d \<and> d < 100"
  using backoff_bounds [of "1 / 3" fresh_db]
  by (auto simp: unit_interval_def fresh_db_def WormDB_new_def no_options_def DEFAULT_RECONNECT_def
      attempts_exhausted_def backoff_ms_def)

text \<open>One failed attempt: the timer fires, the dial fails.\<close>

definition failed_attempt :: "rat \<Rightarrow> js_error \<Rightarrow> wormdb \<Rightarrow> wormdb" where
  "failed_attempt rnd err db = on_dial_failed rnd err (on_reconnect_timer db)"

lemma failed_attempt_step:
  assumes "db_stateValue db = Reconnecting" and "db_reconnectTimer db \<noteq> None" and "\<not> db_connecting db"
    and "rc_enabled (db_reconnectCfg db)" and "rc_maxAttempts (db_reconnectCfg db) = Some m"
  shows "db_reconnectCfg (failed_attempt rnd err db) = db_reconnectCfg db \<and>
     (if db_reconnectAttempts db < m then
        db_stateValue (failed_attempt rnd err db) = Reconnecting
        \<and> db_reconnectTimer (failed_attempt rnd err db) \<noteq> None
        \<and> \<not> db_connecting (failed_attempt rnd err db)
        \<and> db_reconnectAttempts (failed_attempt rnd err db) = db_reconnectAttempts db + 1
      else db_stateValue (failed_attempt rnd err db) = Closed \<and> db_readyWaiters (failed_attempt rnd err db) = [])"
  using assms
  by (simp add: failed_attempt_def on_reconnect_timer_def openSocket_def on_dial_failed_def handleDisconnect_def
      scheduleReconnect_def reject_simps attempts_exhausted_def Let_def)

lemma failed_attempts:
  assumes "db_stateValue db = Reconnecting" and "db_reconnectTimer db \<noteq> None" and "\<not> db_connecting db"
    and "rc_enabled (db_reconnectCfg db)" and "rc_maxAttempts (db_reconnectCfg db) = Some m"
    and "db_reconnectAttempts db + k = m"
  shows "db_stateValue ((failed_attempt rnd err ^^ Suc k) db) = Closed
       \<and> db_readyWaiters ((failed_attempt rnd err ^^ Suc k) db) = []"
  using assms
proof (induction k arbitrary: db)
  case 0
  then show ?case using failed_attempt_step [of db m rnd err] by simp
next
  case (Suc k)
  have s: "db_reconnectCfg (failed_attempt rnd err db) = db_reconnectCfg db"
      "db_stateValue (failed_attempt rnd err db) = Reconnecting"
      "db_reconnectTimer (failed_attempt rnd err db) \<noteq> None" "\<not> db_connecting (failed_attempt rnd err db)"
      "db_reconnectAttempts (failed_attempt rnd err db) = db_reconnectAttempts db + 1"
    using Suc.prems failed_attempt_step [of db m rnd err] by simp_all
  show ?case
    using Suc.IH [of "failed_attempt rnd err db"] s Suc.prems by (simp only: funpow_Suc_right o_apply) simp
qed

text \<open>
C13: with a limit of m attempts, a client that waits to reconnect gives up after the remaining
attempts failed: it is closed and no caller is left waiting, each was rejected.
\<close>

theorem reconnect_gives_up:
  assumes "db_inv db" and "db_stateValue db = Reconnecting" and "db_reconnectTimer db \<noteq> None"
    and "rc_maxAttempts (db_reconnectCfg db) = Some m"
  shows "db_stateValue ((failed_attempt rnd err ^^ Suc (m - db_reconnectAttempts db)) db) = Closed
       \<and> db_readyWaiters ((failed_attempt rnd err ^^ Suc (m - db_reconnectAttempts db)) db) = []"
  using assms by (intro failed_attempts) (auto simp: db_inv_def attempts_ok_def)

theorem reconnect_gives_up_witness:
  "db_stateValue ((failed_attempt (1 / 2) WriteFailed ^^ Suc (3 - 1))
     (fresh_db\<lparr>db_reconnectCfg := \<lparr>rc_enabled = True, rc_minDelayMs = 1, rc_maxDelayMs = 8, rc_maxAttempts = Some 3\<rparr>,
       db_stateValue := Reconnecting, db_reconnectTimer := Some 1, db_reconnectAttempts := 1\<rparr>)) = Closed"
  using reconnect_gives_up [of "fresh_db\<lparr>db_reconnectCfg :=
      \<lparr>rc_enabled = True, rc_minDelayMs = 1, rc_maxDelayMs = 8, rc_maxAttempts = Some 3\<rparr>,
       db_stateValue := Reconnecting, db_reconnectTimer := Some 1, db_reconnectAttempts := 1\<rparr>" 3 "1 / 2" WriteFailed]
  by (simp add: fresh_db_def WormDB_new_def db_inv_def attempts_ok_def del: funpow.simps)

subsection \<open>Where the engine falls short\<close>

text \<open>
\<open>close()\<close> during a dial is not permanent: when the dial then succeeds, the client is ready again
on the new socket.
\<close>

theorem close_during_dial_reopens:
  assumes "never_fails (wr s)" and "handshake_frames db = map Inr fs"
    and "wr s (s_calls (db_net db s)) WIRE_MAGIC = 2"
  shows "db_stateValue (db_close db) = Closed
    \<and> (\<exists>db'. on_dial_open wr now s (db_close db) = (None, db') \<and> db_stateValue db' = Ready \<and> db_socket db' = Some s)"
proof -
  have c: "db_stateValue (db_close db) = Closed" "db_net (db_close db) = db_net db"
      "handshake_frames (db_close db) = handshake_frames db"
    by (auto simp: db_close_def Let_def reject_simps stopPing_def handshake_frames_def resub_frames_def
        split: option.splits)
  obtain db' where "on_dial_open wr now s (db_close db) = (None, db')"
    using onOpen_ok [of wr s "db_close db" fs now] assms c by auto
  then show ?thesis using on_dial_open_shape c(1) by blast
qed

theorem close_during_dial_reopens_witness:
  "db_stateValue (db_close (fresh_db\<lparr>db_connecting := True\<rparr>)) = Closed
    \<and> (\<exists>db'. on_dial_open full_writes 5 1 (db_close (fresh_db\<lparr>db_connecting := True\<rparr>)) = (None, db')
          \<and> db_stateValue db' = Ready \<and> db_socket db' = Some 1)"
  using close_during_dial_reopens [of full_writes 1 "fresh_db\<lparr>db_connecting := True\<rparr>" "[]" 5]
  by (simp add: never_fails_def full_writes_def handshake_frames_def resub_frames_def fresh_db_def
      WormDB_new_def WIRE_MAGIC_def)

text \<open>
The close callback does not say which socket closed: when the callback of an earlier socket
arrives while a new connection is ready, the requests in flight on the new connection are rejected
and its socket is dropped without being ended.
\<close>

theorem stale_close_drops_connection:
  assumes "db_stateValue db = Ready" and "db_socket db = Some s"
  shows "db_socket (on_db_close rnd db) = None \<and> db_pendingQueue (on_db_close rnd db) = []
    \<and> (\<exists>es. db_out (on_db_close rnd db) = db_out db
           @ reject_effects (db_pendingQueue db) ClientConnectionClosedError @ es \<and> EndSocket s \<notin> set es)"
proof -
  obtain ws err' where "db_out (handleDisconnect rnd None db) = db_out db
         @ reject_effects (db_pendingQueue db) ClientConnectionClosedError @ map (\<lambda>i. WakeFail i err') ws"
    using handleDisconnect_out [of db rnd None] by auto
  then show ?thesis by (auto simp: on_db_close_def)
qed

theorem stale_close_drops_connection_witness:
  "db_socket (on_db_close (1 / 2) (fresh_db\<lparr>db_stateValue := Ready, db_socket := Some 2\<rparr>)) = None"
  using stale_close_drops_connection [of "fresh_db\<lparr>db_stateValue := Ready, db_socket := Some 2\<rparr>" 2 "1 / 2"]
  by simp

lemma send_settled_threw:
  "fst (send_settled wr s f db) \<noteq> None \<Longrightarrow> db_pendingQueue (snd (send_settled wr s f db)) \<noteq> []"
  by (auto simp: send_settled_def enqueuePending_def Let_def split: sum.splits prod.splits)

lemma resubscribe_threw:
  "fst (resubscribe wr s subs db) \<noteq> None \<Longrightarrow> db_pendingQueue (snd (resubscribe wr s subs db)) \<noteq> []"
proof (induction wr s subs db rule: resubscribe.induct)
  case (2 wr s channel e rest db)
  let ?f = "encodeCommandFrame (CmdSub channel (se_filter (db_entries db e)))"
  obtain err db' where r: "send_settled wr s ?f db = (err, db')" by (cases "send_settled wr s ?f db")
  show ?case
  proof (cases "se_wireSubscribed (db_entries db e)")
    case False
    then show ?thesis using 2(1) [OF refl] 2(3) by simp
  next
    case True
    then show ?thesis
      using 2(2) [OF refl _ r [symmetric]] 2(3) r send_settled_threw [of wr s ?f db] by (cases err) auto
  qed
qed simp

lemma onOpen_threw:
  assumes "on_dial_open wr now s db = (Some err, db1)"
  shows "\<exists>n. db_pendingQueue db1 = db_pendingQueue db
      @ replicate n \<lparr>p_id = None, p_generation = db_generation db + 1\<rparr>
    \<and> db_pendingQueue db1 \<noteq> [] \<and> db_generation db1 = db_generation db + 1"
proof -
  define db0 where "db0 = open_reset wr s (db\<lparr>db_connecting := False\<rparr>)"
  obtain e2 db2 where 2: "reauth wr s db0 = (e2, db2)" by fastforce
  obtain e3 db3 where 3: "resubscribe wr s (db_subs db2) db2 = (e3, db3)" by fastforce
  have a: "same_but_queue db0 db2 \<and> (e2 \<noteq> None \<longrightarrow> db_pendingQueue db2 \<noteq> [])"
    using 2 send_settled_same [of db0 wr s "encodeAuth (the (db_authToken db0))"]
      send_settled_threw [of wr s "encodeAuth (the (db_authToken db0))" db0]
    by (auto simp: reauth_def split: option.splits)
  have b: "same_but_queue db0 db3 \<and> (e3 \<noteq> None \<longrightarrow> db_pendingQueue db3 \<noteq> [])"
    using 3 a resubscribe_same [of db2 wr s "db_subs db2"] resubscribe_threw [of wr s "db_subs db2" db2]
      same_but_queue_trans by auto
  have "(e2 \<noteq> None \<and> db1 = db2\<lparr>db_connecting := False\<rparr>) \<or> (e3 \<noteq> None \<and> db1 = db3\<lparr>db_connecting := False\<rparr>)"
    using assms 2 3 by (auto simp: on_dial_open_def onOpen_def simp flip: db0_def split: option.splits prod.splits)
  then show ?thesis
    using a b by (auto simp: same_but_queue_def db0_def open_reset_def)
qed

text \<open>
When a write of the handshake fails, \<open>onOpen\<close> leaves behind the entry of the frame that was not
sent. On the next connection it is still the first of the queue, so the first response is taken for
the missing frame's, and its timer is ignored, so nothing removes it.
\<close>

theorem failed_handshake_shifts_answers:
  assumes "db_pendingQueue db = []" and "on_dial_open wr now s db = (Some err, db1)"
    and "on_dial_open wr' now' s' db1 = (None, db2)"
  shows "\<exists>p rest. db_pendingQueue db2 = p # rest \<and> p_id p = None \<and> on_request_timer rnd p db2 = db2"
proof -
  obtain n where 1: "db_pendingQueue db1 = replicate (Suc n) \<lparr>p_id = None, p_generation = db_generation db + 1\<rparr>"
      "db_generation db1 = db_generation db + 1"
    using onOpen_threw [OF assms(2)] assms(1) by (auto simp: gr0_conv_Suc)
  then show ?thesis
    using on_dial_open_shape [OF assms(3)] by (auto simp: on_request_timer_def)
qed

theorem failed_handshake_shifts_answers_witness:
  "\<exists>db1 db2 p rest. on_dial_open (\<lambda>s k d. if k = 0 then 2 else - 1) 5 1 (fresh_db\<lparr>db_authToken := Some [9]\<rparr>)
        = (Some WriteFailed, db1)
    \<and> on_dial_open full_writes 6 2 db1 = (None, db2)
    \<and> db_pendingQueue db2 = p # rest \<and> on_request_timer (1 / 2) p db2 = db2"
proof -
  let ?wr = "\<lambda>s k d. if k = 0 then 2 else - 1" and ?db = "fresh_db\<lparr>db_authToken := Some [9]\<rparr>"
  have a: "encodeAuth [9] = Inr [0x0C, 0, 0, 0, 5, 0, 0, 0, 1, 9]"
    by (simp add: encodeAuth_framed framed_def frame_bytes_def field_def be32_def MAX_PAYLOAD_def)
  let ?odb = "open_reset ?wr 1 (?db\<lparr>db_connecting := False\<rparr>)"
  have "map_prod id (\<lambda>db. (db_authToken db, db_subs db, db_net db 2))
      (send_settled ?wr 1 (Inr [0x0C, 0, 0, 0, 5, 0, 0, 0, 1, 9]) ?odb) = (Some WriteFailed, Some [9], [], fresh_sock)"
    by code_simp
  then obtain db1' where s: "send_settled ?wr 1 (Inr [0x0C, 0, 0, 0, 5, 0, 0, 0, 1, 9]) ?odb = (Some WriteFailed, db1')"
      "db_authToken db1' = Some [9]" "db_subs db1' = []" "db_net db1' 2 = fresh_sock"
    by (cases "send_settled ?wr 1 (Inr [0x0C, 0, 0, 0, 5, 0, 0, 0, 1, 9]) ?odb") auto
  have "db_authToken ?odb = Some [9]" by (simp add: open_reset_def)
  then have "reauth ?wr 1 ?odb = (Some WriteFailed, db1')" using s(1) a by (simp add: reauth_def)
  then obtain db1 where 1: "on_dial_open ?wr 5 1 ?db = (Some WriteFailed, db1)"
      "db_authToken db1 = Some [9]" "db_subs db1 = []" "db_net db1 2 = fresh_sock"
    using s by (simp add: on_dial_open_def onOpen_def)
  have h: "handshake_frames db1 = map Inr [[0x0C, 0, 0, 0, 5, 0, 0, 0, 1, 9]]"
    using 1 a by (simp add: handshake_frames_def resub_frames_def)
  obtain db2 where 2: "on_dial_open full_writes 6 2 db1 = (None, db2)"
    using onOpen_ok [of full_writes 2 db1 _ 6, OF _ h] 1
    by (auto simp: never_fails_def full_writes_def WIRE_MAGIC_def)
  have "db_pendingQueue ?db = []" by (simp add: fresh_db_def WormDB_new_def)
  from failed_handshake_shifts_answers [OF this 1(1) 2, of "1 / 2"] 1(1) 2 show ?thesis by blast
qed

end
