(* ===== verification/Json.thy ===== *)
theory Json
  imports Utf8 Js_String
begin

section \<open>\<open>JSON.stringify\<close> and \<open>JSON.parse\<close>\<close>

text \<open>
  The JSON values the servers exchange and store. A number is kept as its literal; the properties
  of an object are listed in insertion order and a repeated name replaces the earlier value, as in
  \<open>JSON.parse\<close> (names that are array indices, which JavaScript lists first, do not occur in the
  programs' documents). \<open>parse\<close> is a scanner followed by a parser with an explicit stack; the round
  trip is proved for every value.
\<close>

datatype json = JNull | JBool bool | JNum jstring | JStr jstring | JArr "json list" | JObj "(jstring \<times> json) list"

subsection \<open>Printing\<close>

definition hex_unit :: "nat \<Rightarrow> u16" where
  "hex_unit d = (if d < 10 then of_nat (48 + d) else of_nat (87 + d))"

definition hex4 :: "nat \<Rightarrow> jstring" where
  "hex4 n = map hex_unit [n div 4096 mod 16, n div 256 mod 16, n div 16 mod 16, n mod 16]"

text \<open>One code unit of a string that is not half of a surrogate pair.\<close>

definition quote_unit :: "u16 \<Rightarrow> jstring" where
  "quote_unit c =
     (if c = 8 then js [CHR 92, CHR ''b'']
      else if c = 9 then js [CHR 92, CHR ''t'']
      else if c = 10 then js [CHR 92, CHR ''n'']
      else if c = 12 then js [CHR 92, CHR ''f'']
      else if c = 13 then js [CHR 92, CHR ''r'']
      else if c = 34 then [92, 34]
      else if c = 92 then [92, 92]
      else if c < 32 \<or> is_high c \<or> is_low c then [92, 117] @ hex4 (unat c)
      else [c])"

fun quote_units :: "jstring \<Rightarrow> jstring" where
  "quote_units [] = []"
| "quote_units [c] = quote_unit c"
| "quote_units (c # d # r) =
     (if is_high c \<and> is_low d then c # d # quote_units r else quote_unit c @ quote_units (d # r))"

definition quote :: "jstring \<Rightarrow> jstring" where
  "quote s = [34] @ quote_units s @ [34]"

fun stringify :: "json \<Rightarrow> jstring" where
  "stringify JNull = js ''null''"
| "stringify (JBool b) = (if b then js ''true'' else js ''false'')"
| "stringify (JNum n) = n"
| "stringify (JStr s) = quote s"
| "stringify (JArr vs) = [91] @ join [44] (map stringify vs) @ [93]"
| "stringify (JObj ps) = [123] @ join [44] (map (\<lambda>(k, v). quote k @ [58] @ stringify v) ps) @ [125]"

subsection \<open>Scanning\<close>

datatype json_token = TLBrace | TRBrace | TLBrack | TRBrack | TColon | TComma | TTrue | TFalse | TNull
  | TStr jstring | TNum jstring

definition hex_val :: "u16 \<Rightarrow> nat option" where
  "hex_val c =
     (let n = unat c in
      if 48 \<le> n \<and> n \<le> 57 then Some (n - 48)
      else if 97 \<le> n \<and> n \<le> 102 then Some (n - 87)
      else if 65 \<le> n \<and> n \<le> 70 then Some (n - 55)
      else None)"

definition unhex4 :: "u16 \<Rightarrow> u16 \<Rightarrow> u16 \<Rightarrow> u16 \<Rightarrow> u16 option" where
  "unhex4 a b c d =
     (case (hex_val a, hex_val b, hex_val c, hex_val d) of
        (Some a, Some b, Some c, Some d) \<Rightarrow> Some (of_nat (a * 4096 + b * 256 + c * 16 + d))
      | _ \<Rightarrow> None)"

definition unescape :: "u16 \<Rightarrow> u16 option" where
  "unescape c =
     (if c = 98 then Some 8 else if c = 116 then Some 9 else if c = 110 then Some 10
      else if c = 102 then Some 12 else if c = 114 then Some 13
      else if c = 34 \<or> c = 92 \<or> c = 47 then Some c else None)"

text \<open>After a backslash: the escaped unit and what follows.\<close>

definition scan_escape :: "jstring \<Rightarrow> (u16 \<times> jstring) option" where
  "scan_escape s =
     (case s of
        [] \<Rightarrow> None
      | e # r \<Rightarrow>
          if e = 117 then
            (case r of
               h1 # h2 # h3 # h4 # r1 \<Rightarrow> map_option (\<lambda>u. (u, r1)) (unhex4 h1 h2 h3 h4)
             | _ \<Rightarrow> None)
          else map_option (\<lambda>u. (u, r)) (unescape e))"

lemma scan_escape_shorter: "scan_escape s = Some (u, r) \<Longrightarrow> length r < length s"
  by (auto simp: scan_escape_def split: list.splits if_splits)

text \<open>After the opening quote: the units of the string and what follows the closing quote.\<close>

function scan_string :: "jstring \<Rightarrow> (jstring \<times> jstring) option" where
  "scan_string [] = None"
| "scan_string (c # r) =
     (if c = 34 then Some ([], r)
      else if c = 92 then
        (case scan_escape r of
           None \<Rightarrow> None
         | Some (u, r1) \<Rightarrow> map_option (apfst ((#) u)) (scan_string r1))
      else if c < 32 then None
      else map_option (apfst ((#) c)) (scan_string r))"
  by pat_completeness auto
termination
  by (relation "measure length") (auto dest: scan_escape_shorter simp: less_SucI)

lemma scan_string_shorter: "scan_string s = Some (u, r) \<Longrightarrow> length r < length s"
proof (induction s arbitrary: u r rule: scan_string.induct)
  case (2 c s)
  then show ?case
    by (fastforce split: if_splits option.splits prod.splits dest: scan_escape_shorter)
qed simp

definition is_digit :: "u16 \<Rightarrow> bool" where
  "is_digit c \<longleftrightarrow> 48 \<le> c \<and> c \<le> 57"

definition num_unit :: "u16 \<Rightarrow> bool" where
  "num_unit c \<longleftrightarrow> is_digit c \<or> c = 43 \<or> c = 45 \<or> c = 46 \<or> c = 69 \<or> c = 101"

definition valid_exponent :: "jstring \<Rightarrow> bool" where
  "valid_exponent s =
     (case s of
        [] \<Rightarrow> True
      | c # r \<Rightarrow> (c = 69 \<or> c = 101) \<and>
          (let ds = (if r \<noteq> [] \<and> (hd r = 43 \<or> hd r = 45) then tl r else r)
           in ds \<noteq> [] \<and> list_all is_digit ds))"

definition valid_fraction :: "jstring \<Rightarrow> bool" where
  "valid_fraction s =
     (if s \<noteq> [] \<and> hd s = 46
      then takeWhile is_digit (tl s) \<noteq> [] \<and> valid_exponent (dropWhile is_digit (tl s))
      else valid_exponent s)"

definition valid_number :: "jstring \<Rightarrow> bool" where
  "valid_number s =
     (let s = (if s \<noteq> [] \<and> hd s = 45 then tl s else s);
          ds = takeWhile is_digit s
      in ds \<noteq> [] \<and> (hd ds = 48 \<longrightarrow> length ds = 1) \<and> valid_fraction (dropWhile is_digit s))"

definition json_ws :: "u16 \<Rightarrow> bool" where
  "json_ws c \<longleftrightarrow> c = 9 \<or> c = 10 \<or> c = 13 \<or> c = 32"

definition punctuation :: "u16 \<Rightarrow> json_token option" where
  "punctuation c =
     (if c = 123 then Some TLBrace else if c = 125 then Some TRBrace
      else if c = 91 then Some TLBrack else if c = 93 then Some TRBrack
      else if c = 58 then Some TColon else if c = 44 then Some TComma else None)"

definition keyword :: "jstring \<Rightarrow> (json_token \<times> jstring) option" where
  "keyword s =
     (if startsWith s (js ''true'') then Some (TTrue, drop 4 s)
      else if startsWith s (js ''false'') then Some (TFalse, drop 5 s)
      else if startsWith s (js ''null'') then Some (TNull, drop 4 s)
      else None)"

lemma keyword_shorter: "keyword s = Some (t, r) \<Longrightarrow> length r < length s"
  by (auto simp: keyword_def startsWith_iff split: if_splits)

function scan_json :: "jstring \<Rightarrow> json_token list option" where
  "scan_json [] = Some []"
| "scan_json (c # r) =
     (if json_ws c then scan_json r
      else case punctuation c of
        Some t \<Rightarrow> map_option ((#) t) (scan_json r)
      | None \<Rightarrow>
          if c = 34 then
            (case scan_string r of
               None \<Rightarrow> None
             | Some (u, r1) \<Rightarrow> map_option ((#) (TStr u)) (scan_json r1))
          else if num_unit c then
            (let n = takeWhile num_unit (c # r)
             in if valid_number n then map_option ((#) (TNum n)) (scan_json (dropWhile num_unit (c # r))) else None)
          else
            (case keyword (c # r) of
               None \<Rightarrow> None
             | Some (t, r1) \<Rightarrow> map_option ((#) t) (scan_json r1)))"
  by pat_completeness auto
termination
  by (relation "measure length")
    (auto dest!: scan_string_shorter keyword_shorter simp: less_SucI le_imp_less_Suc length_dropWhile_le)

declare scan_json.simps(2) [simp del]

subsection \<open>Parsing\<close>

text \<open>The open arrays and objects around the parser, and what it expects next.\<close>

datatype json_frame = FArr "json list" | FObj "(jstring \<times> json) list" jstring

datatype json_mode = PValue | PFirst | PKeyFirst | PKey "(jstring \<times> json) list"
  | PColon "(jstring \<times> json) list" jstring | PAfter json

definition obj_set :: "jstring \<Rightarrow> json \<Rightarrow> (jstring \<times> json) list \<Rightarrow> (jstring \<times> json) list" where
  "obj_set k v ps =
     (if k \<in> fst ` set ps then map (\<lambda>(k', v'). if k' = k then (k', v) else (k', v')) ps else ps @ [(k, v)])"

definition start_value :: "json_token \<Rightarrow> json_frame list \<Rightarrow> (json_frame list \<times> json_mode) option" where
  "start_value t st =
     (case t of
        TLBrace \<Rightarrow> Some (st, PKeyFirst)
      | TLBrack \<Rightarrow> Some (st, PFirst)
      | TTrue \<Rightarrow> Some (st, PAfter (JBool True))
      | TFalse \<Rightarrow> Some (st, PAfter (JBool False))
      | TNull \<Rightarrow> Some (st, PAfter JNull)
      | TStr u \<Rightarrow> Some (st, PAfter (JStr u))
      | TNum n \<Rightarrow> Some (st, PAfter (JNum n))
      | _ \<Rightarrow> None)"

fun json_step :: "json_frame list \<times> json_mode \<Rightarrow> json_token \<Rightarrow> (json_frame list \<times> json_mode) option" where
  "json_step (st, PValue) t = start_value t st"
| "json_step (st, PFirst) t = (if t = TRBrack then Some (st, PAfter (JArr [])) else start_value t (FArr [] # st))"
| "json_step (st, PKeyFirst) t =
     (case t of TRBrace \<Rightarrow> Some (st, PAfter (JObj [])) | TStr k \<Rightarrow> Some (st, PColon [] k) | _ \<Rightarrow> None)"
| "json_step (st, PKey ps) t = (case t of TStr k \<Rightarrow> Some (st, PColon ps k) | _ \<Rightarrow> None)"
| "json_step (st, PColon ps k) t = (if t = TColon then Some (FObj ps k # st, PValue) else None)"
| "json_step (FArr vs # st, PAfter v) t =
     (if t = TComma then Some (FArr (vs @ [v]) # st, PValue)
      else if t = TRBrack then Some (st, PAfter (JArr (vs @ [v]))) else None)"
| "json_step (FObj ps k # st, PAfter v) t =
     (if t = TComma then Some (st, PKey (obj_set k v ps))
      else if t = TRBrace then Some (st, PAfter (JObj (obj_set k v ps))) else None)"
| "json_step ([], PAfter v) t = None"

fun json_steps :: "json_frame list \<times> json_mode \<Rightarrow> json_token list \<Rightarrow> (json_frame list \<times> json_mode) option" where
  "json_steps c [] = Some c"
| "json_steps c (t # ts) = Option.bind (json_step c t) (\<lambda>c'. json_steps c' ts)"

text \<open>\<open>None\<close> is the \<open>SyntaxError\<close>.\<close>

definition JSON_parse :: "jstring \<Rightarrow> json option" where
  "JSON_parse s =
     (case scan_json s of
        None \<Rightarrow> None
      | Some ts \<Rightarrow>
          (case json_steps ([], PValue) ts of
             Some ([], PAfter v) \<Rightarrow> Some v
           | _ \<Rightarrow> None))"

subsection \<open>The round trip\<close>

text \<open>Values that exist in a program: number literals are numbers and names are not repeated.\<close>

fun json_ok :: "json \<Rightarrow> bool" where
  "json_ok (JNum n) \<longleftrightarrow> valid_number n"
| "json_ok (JArr vs) \<longleftrightarrow> (\<forall>v \<in> set vs. json_ok v)"
| "json_ok (JObj ps) \<longleftrightarrow> distinct (map fst ps) \<and> (\<forall>p \<in> set ps. json_ok (snd p))"
| "json_ok _ \<longleftrightarrow> True"

lemma unat_hex_unit: "d < 16 \<Longrightarrow> unat (hex_unit d) = (if d < 10 then 48 + d else 87 + d)"
  using unat_of_nat16 [of "48 + d"] unat_of_nat16 [of "87 + d"] by (simp add: hex_unit_def del: of_nat_add)

lemma hex_val_digit: "d < 16 \<Longrightarrow> hex_val (hex_unit d) = Some d"
  by (simp add: hex_val_def unat_hex_unit Let_def)

lemma hex_sum: "n < 65536 \<Longrightarrow> n div 4096 mod 16 * 4096 + n div 256 mod 16 * 256 + n div 16 mod 16 * 16 + n mod 16 = (n :: nat)"
proof -
  assume "n < 65536"
  have "n div 4096 = n div 256 div 16" "n div 256 = n div 16 div 16" "n div 4096 < 16"
    using \<open>n < 65536\<close> by (simp_all add: div_mult2_eq [symmetric])
  moreover from this have "n div 4096 mod 16 = n div 4096" by simp
  ultimately show ?thesis
    using div_mult_mod_eq [of n 16] div_mult_mod_eq [of "n div 16" 16] div_mult_mod_eq [of "n div 256" 16] by linarith
qed

lemma scan_escape_hex: "scan_escape (117 # hex4 (unat c) @ r) = Some (c, r)"
proof -
  have "unat c < 65536" by simp
  then have "unat c div 4096 mod 16 * 4096 + unat c div 256 mod 16 * 256 + unat c div 16 mod 16 * 16 + unat c mod 16 = unat c"
    by (rule hex_sum)
  then have "(of_nat (unat c div 4096 mod 16 * 4096 + unat c div 256 mod 16 * 256 + unat c div 16 mod 16 * 16
      + unat c mod 16) :: u16) = c"
    by (simp only: of_nat_unat16)
  then show ?thesis
    by (simp add: scan_escape_def hex4_def unhex4_def hex_val_digit del: of_nat_add of_nat_mult)
qed

lemma scan_quote_unit:
  "scan_string (quote_unit c @ r) = map_option (apfst ((#) c)) (scan_string r)"
proof (cases "c < 32 \<or> is_high c \<or> is_low c")
  case True
  then have "c \<noteq> 34 \<and> c \<noteq> 92" by (auto simp: is_high_def is_low_def)
  with True show ?thesis
    by (simp add: quote_unit_def scan_escape_hex js_simps) (simp add: scan_escape_def unescape_def)
next
  case False
  then show ?thesis by (auto simp: quote_unit_def scan_escape_def unescape_def)
qed

lemma surrogate_plain: "is_high c \<or> is_low c \<Longrightarrow> c \<noteq> 34 \<and> c \<noteq> 92 \<and> \<not> c < 32"
  by (auto simp: is_high_def is_low_def word_less_nat_alt)

lemma scan_quoted: "scan_string (quote_units s @ 34 # r) = Some (s, r)"
proof (induction s rule: quote_units.induct)
  case (3 c d s)
  then show ?case
    using surrogate_plain [of c] surrogate_plain [of d]
    by (auto simp: scan_quote_unit)
qed (auto simp: scan_quote_unit)

fun join_tokens :: "json_token \<Rightarrow> json_token list list \<Rightarrow> json_token list" where
  "join_tokens sep [] = []"
| "join_tokens sep [x] = x"
| "join_tokens sep (x # y # zs) = x @ sep # join_tokens sep (y # zs)"

fun tokens :: "json \<Rightarrow> json_token list" where
  "tokens JNull = [TNull]"
| "tokens (JBool b) = [if b then TTrue else TFalse]"
| "tokens (JNum n) = [TNum n]"
| "tokens (JStr s) = [TStr s]"
| "tokens (JArr vs) = TLBrack # join_tokens TComma (map tokens vs) @ [TRBrack]"
| "tokens (JObj ps) = TLBrace # join_tokens TComma (map (\<lambda>(k, v). TStr k # TColon # tokens v) ps) @ [TRBrace]"

text \<open>Text after a value that cannot be taken for more of a number.\<close>

definition ends_number :: "jstring \<Rightarrow> bool" where
  "ends_number r \<longleftrightarrow> r = [] \<or> \<not> num_unit (hd r)"

lemma scan_quote: "scan_json (quote s @ r) = map_option ((#) (TStr s)) (scan_json r)"
  by (simp add: quote_def scan_json.simps(2) json_ws_def punctuation_def scan_quoted)

lemma scan_punct: "punctuation c = Some t \<Longrightarrow> scan_json (c # r) = map_option ((#) t) (scan_json r)"
  by (auto simp: scan_json.simps(2) json_ws_def punctuation_def)

lemma punct_simps [simp]:
  "punctuation 123 = Some TLBrace" "punctuation 125 = Some TRBrace" "punctuation 91 = Some TLBrack"
  "punctuation 93 = Some TRBrack" "punctuation 58 = Some TColon" "punctuation 44 = Some TComma"
  by (simp_all add: punctuation_def)

lemma valid_number_units:
  assumes "valid_number n"
  shows "list_all num_unit n \<and> n \<noteq> []"
proof -
  have digits: "list_all num_unit (takeWhile is_digit s)" for s
    by (induction s) (auto simp: num_unit_def)
  have ex: "list_all num_unit s" if "valid_exponent s" for s
  proof -
    have "list_all num_unit r" if "list_all is_digit (if r \<noteq> [] \<and> (hd r = 43 \<or> hd r = 45) then tl r else r)" for r
      using that by (cases r) (auto simp: num_unit_def list_all_iff split: if_splits)
    with that show ?thesis
      by (auto simp: valid_exponent_def num_unit_def Let_def split: list.splits)
  qed
  have fr: "list_all num_unit s" if "valid_fraction s" for s
  proof (cases "s \<noteq> [] \<and> hd s = 46")
    case True
    with that have "list_all num_unit (dropWhile is_digit (tl s))"
      using ex by (simp add: valid_fraction_def)
    with digits have "list_all num_unit (tl s)"
      by (metis list_all_append takeWhile_dropWhile_id)
    with True show ?thesis by (cases s) (auto simp: num_unit_def)
  qed (use that ex in \<open>auto simp: valid_fraction_def\<close>)
  let ?s = "if n \<noteq> [] \<and> hd n = 45 then tl n else n"
  have "list_all num_unit (dropWhile is_digit ?s)" and ne: "takeWhile is_digit ?s \<noteq> []"
    using assms fr by (auto simp: valid_number_def Let_def)
  with digits have "list_all num_unit ?s"
    by (metis list_all_append takeWhile_dropWhile_id)
  with ne show ?thesis
    by (cases n) (auto simp: num_unit_def split: if_splits)
qed

lemma scan_number:
  assumes "valid_number n" and "ends_number r"
  shows "scan_json (n @ r) = map_option ((#) (TNum n)) (scan_json r)"
proof -
  have all: "list_all num_unit n" and "n \<noteq> []"
    using valid_number_units [OF assms(1)] by auto
  then obtain c t where n: "n = c # t" "num_unit c" by (cases n) auto
  have "\<not> json_ws c" "punctuation c = None" "c \<noteq> 34"
    using n(2) by (auto simp: num_unit_def is_digit_def json_ws_def punctuation_def)
  moreover have "takeWhile num_unit (c # t @ r) = n" "dropWhile num_unit (c # t @ r) = r"
    using all n assms(2) takeWhile_append2 [of n num_unit r] dropWhile_append2 [of n num_unit r]
    by (cases r; auto simp: ends_number_def list_all_iff)+
  ultimately show ?thesis
    using assms(1) n by (simp add: scan_json.simps(2) Let_def)
qed

lemma scan_keyword:
  "scan_json (js ''null'' @ r) = map_option ((#) TNull) (scan_json r)"
  "scan_json (js ''true'' @ r) = map_option ((#) TTrue) (scan_json r)"
  "scan_json (js ''false'' @ r) = map_option ((#) TFalse) (scan_json r)"
  by (simp_all add: js_simps scan_json.simps(2) json_ws_def punctuation_def num_unit_def is_digit_def
      keyword_def startsWith_def)

lemma map_option_append: "map_option ((@) (a @ b)) x = map_option ((@) a) (map_option ((@) b) x)"
  by (cases x) auto

lemma map_option_Cons: "map_option ((#) a) x = map_option ((@) [a]) x"
  by (cases x) auto

lemma scan_join:
  assumes "\<And>x r. x \<in> set xs \<Longrightarrow> ends_number r \<Longrightarrow> scan_json (f x @ r) = map_option ((@) (g x)) (scan_json r)"
    and "ends_number r"
  shows "scan_json (join [44] (map f xs) @ r) = map_option ((@) (join_tokens TComma (map g xs))) (scan_json r)"
  using assms
proof (induction xs rule: induct_list012)
  case 1
  then show ?case by (simp add: option.map_id0 [unfolded id_def] id_def option.map_ident)
next
  case (3 x y zs)
  have "scan_json (f x @ 44 # join [44] (map f (y # zs)) @ r)
      = map_option ((@) (g x)) (scan_json (44 # join [44] (map f (y # zs)) @ r))"
    by (rule "3.prems"(1)) (simp_all add: ends_number_def num_unit_def is_digit_def)
  also have "\<dots> = map_option ((@) (g x)) (map_option ((#) TComma) (scan_json (join [44] (map f (y # zs)) @ r)))"
    by (simp add: scan_punct)
  finally show ?case
    using 3 by (simp add: map_option_Cons option.map_comp o_def)
qed simp

lemma scan_stringify:
  "json_ok v \<Longrightarrow> ends_number r \<Longrightarrow> scan_json (stringify v @ r) = map_option ((@) (tokens v)) (scan_json r)"
proof (induction v arbitrary: r)
  case (JArr vs)
  have "scan_json (join [44] (map stringify vs) @ 93 # r)
      = map_option ((@) (join_tokens TComma (map tokens vs))) (scan_json (93 # r))"
    using JArr by (intro scan_join) (auto simp: ends_number_def num_unit_def is_digit_def)
  then show ?case by (simp add: scan_punct map_option_Cons option.map_comp o_def)
next
  case (JObj ps)
  have "scan_json (join [44] (map (\<lambda>(k, v). quote k @ [58] @ stringify v) ps) @ 125 # r)
      = map_option ((@) (join_tokens TComma (map (\<lambda>(k, v). TStr k # TColon # tokens v) ps))) (scan_json (125 # r))"
  proof (rule scan_join)
    fix p r assume p: "p \<in> set ps" and r: "ends_number r"
    obtain k w where kw: "p = (k, w)" by fastforce
    have "scan_json (stringify w @ r) = map_option ((@) (tokens w)) (scan_json r)"
      using p kw r JObj.prems(1) by (intro JObj.IH [of p w]) (auto simp: snds.simps)
    then show "scan_json ((case p of (k, v) \<Rightarrow> quote k @ [58] @ stringify v) @ r)
        = map_option ((@) (case p of (k, v) \<Rightarrow> TStr k # TColon # tokens v)) (scan_json r)"
      by (cases "scan_json r") (simp_all add: kw scan_quote scan_punct)
  qed (simp add: ends_number_def num_unit_def is_digit_def)
  then show ?case by (simp add: scan_punct map_option_Cons option.map_comp o_def)
qed (auto simp: scan_keyword scan_number scan_quote map_option_Cons)

lemma json_steps_append: "json_steps c (ts @ us) = Option.bind (json_steps c ts) (\<lambda>c'. json_steps c' us)"
  by (induction ts arbitrary: c) (auto simp: Option.bind_assoc intro: Option.bind_cong)

text \<open>A value read where a value is expected.\<close>

definition reads_value :: "json \<Rightarrow> bool" where
  "reads_value v \<longleftrightarrow> (\<forall>st. json_steps (st, PValue) (tokens v) = Some (st, PAfter v))"

lemma tokens_start: "tokens v = t # ts \<Longrightarrow> json_step (st, PFirst) t = json_step (FArr [] # st, PValue) t"
  by (cases v) (auto simp: start_value_def split: if_splits)

lemma tokens_not_Nil [simp]: "tokens v \<noteq> []"
  by (cases v) auto

lemma steps_elements:
  assumes "\<forall>x \<in> set (v # vs). reads_value x"
  shows "json_steps (FArr acc # st, PValue) (join_tokens TComma (map tokens (v # vs)) @ [TRBrack])
    = Some (st, PAfter (JArr (acc @ v # vs)))"
  using assms
proof (induction vs arbitrary: v acc)
  case (Cons w vs)
  then show ?case by (simp add: reads_value_def json_steps_append)
qed (simp add: reads_value_def json_steps_append)

lemma obj_set_new: "k \<notin> fst ` set ps \<Longrightarrow> obj_set k v ps = ps @ [(k, v)]"
  by (simp add: obj_set_def)

lemma steps_members:
  assumes "\<forall>x \<in> set ((k, v) # ps). reads_value (snd x)" and "distinct (map fst (acc @ (k, v) # ps))"
  shows "json_steps (st, PKey acc)
      (join_tokens TComma (map (\<lambda>(k, v). TStr k # TColon # tokens v) ((k, v) # ps)) @ [TRBrace])
    = Some (st, PAfter (JObj (acc @ (k, v) # ps)))"
  using assms
proof (induction ps arbitrary: k v acc)
  case (Cons p ps)
  obtain l w where p: "p = (l, w)" by fastforce
  with Cons.prems Cons.IH [of l w "acc @ [(k, v)]"] show ?case
    by (simp add: reads_value_def json_steps_append obj_set_new)
qed (simp add: reads_value_def json_steps_append obj_set_new)

lemma steps_value: "json_ok v \<Longrightarrow> reads_value v"
proof (induction v)
  case (JArr vs)
  show ?case
  proof (cases vs)
    case (Cons w ws)
    obtain t ts where t: "join_tokens TComma (map tokens vs) @ [TRBrack] = t # ts" "\<exists>us. tokens w = t # us"
      using Cons tokens_not_Nil [of w]
      by (cases "tokens w"; cases ws) auto
    have "json_steps (st, PFirst) (t # ts) = json_steps (FArr [] # st, PValue) (t # ts)" for st
      using t(2) tokens_start by (metis json_steps.simps(2))
    then have "json_steps (st, PFirst) (join_tokens TComma (map tokens vs) @ [TRBrack]) = Some (st, PAfter (JArr vs))" for st
      using steps_elements [of w ws "[]" st] JArr Cons t(1) by simp
    then show ?thesis by (simp add: reads_value_def start_value_def)
  qed (simp add: reads_value_def start_value_def)
next
  case (JObj ps)
  show ?case
  proof (cases ps)
    case (Cons p qs)
    obtain k w where p: "p = (k, w)" by fastforce
    have "json_steps (st, PKeyFirst) (TStr k # us) = json_steps (st, PKey []) (TStr k # us)" for st us by simp
    moreover obtain us where "join_tokens TComma (map (\<lambda>(k, v). TStr k # TColon # tokens v) ps) @ [TRBrace] = TStr k # us"
      using Cons p by (cases qs) auto
    ultimately have "json_steps (st, PKeyFirst) (join_tokens TComma (map (\<lambda>(k, v). TStr k # TColon # tokens v) ps) @ [TRBrace])
        = Some (st, PAfter (JObj ps))" for st
      using steps_members [of k w qs "[]" st] JObj Cons p by fastforce
    then show ?thesis by (simp add: reads_value_def start_value_def)
  qed (simp add: reads_value_def start_value_def)
qed (auto simp: reads_value_def start_value_def)

lemma parse_stringify:
  assumes "json_ok v"
  shows "JSON_parse (stringify v) = Some v"
proof -
  have "scan_json (stringify v) = Some (tokens v)"
    using scan_stringify [OF assms, of "[]"] by (simp add: ends_number_def)
  then show ?thesis
    using steps_value [OF assms] by (simp add: JSON_parse_def reads_value_def)
qed

end
