(* ===== verification/Http.thy ===== *)
theory Http
  imports Client_Types Json Base64
begin

section \<open>The HTTP servers: requests, responses and sequences of commands\<close>

text \<open>
  What the demo servers (\<open>bin/ui.ts\<close>, \<open>bin/explorer.ts\<close>, \<open>bin/notepad.ts\<close>) share. A handler that
  awaits commands of the database is an action: a function of the world (the database and whatever
  else a command changes) to the new world and the result or the exception thrown. JSON documents of
  requests and of the store are values of \<open>json\<close>; a property that is missing is \<open>None\<close>.
\<close>

subsection \<open>Actions\<close>

type_synonym ('w, 'a) act = "'w \<Rightarrow> 'w \<times> (js_error + 'a)"

definition act_return :: "'a \<Rightarrow> ('w, 'a) act" where
  "act_return a w = (w, Inr a)"

definition act_throw :: "js_error \<Rightarrow> ('w, 'a) act" where
  "act_throw e w = (w, Inl e)"

definition act_bind :: "('w, 'a) act \<Rightarrow> ('a \<Rightarrow> ('w, 'b) act) \<Rightarrow> ('w, 'b) act" where
  "act_bind m f w = (case m w of (w', Inl e) \<Rightarrow> (w', Inl e) | (w', Inr a) \<Rightarrow> f a w')"

definition act_catch :: "('w, 'a) act \<Rightarrow> (js_error \<Rightarrow> ('w, 'a) act) \<Rightarrow> ('w, 'a) act" where
  "act_catch m h w = (case m w of (w', Inl e) \<Rightarrow> h e w' | (w', Inr a) \<Rightarrow> (w', Inr a))"

definition act_lift :: "js_error + 'a \<Rightarrow> ('w, 'a) act" where
  "act_lift r w = (w, r)"

named_theorems act_simps \<open>evaluation of actions\<close>

lemma act_basic [act_simps]:
  "act_return a w = (w, Inr a)"
  "act_throw e w = (w, Inl e)"
  "act_lift r w = (w, r)"
  by (simp_all add: act_return_def act_throw_def act_lift_def)

lemma act_bind_ok [act_simps]: "m w = (w', Inr a) \<Longrightarrow> act_bind m f w = f a w'"
  by (simp add: act_bind_def)

lemma act_bind_err [act_simps]: "m w = (w', Inl e) \<Longrightarrow> act_bind m f w = (w', Inl e)"
  by (simp add: act_bind_def)

lemma act_catch_ok [act_simps]: "m w = (w', Inr a) \<Longrightarrow> act_catch m h w = (w', Inr a)"
  by (simp add: act_catch_def)

lemma act_catch_err [act_simps]: "m w = (w', Inl e) \<Longrightarrow> act_catch m h w = h e w'"
  by (simp add: act_catch_def)

lemmas act_eval = act_bind_def act_catch_def act_basic

subsection \<open>Requests and responses\<close>

datatype http_body = NoBody | TextBody jstring | JsonBody json | Asset jstring

datatype http_response = Respond nat http_body | Upgraded

record http_request =
  rq_method :: jstring
  rq_path :: jstring
  rq_body :: jstring
  rq_adminToken :: "jstring option"

abbreviation "text_response status s \<equiv> Respond status (TextBody (js s))"

text \<open>The pattern \<open>/^prefix([^/]+)suffix$/\<close> on a path.\<close>

definition match_segment :: "jstring \<Rightarrow> jstring \<Rightarrow> jstring \<Rightarrow> jstring option" where
  "match_segment prefix suffix path =
     (if \<not> startsWith path prefix then None
      else
        let r = drop (length prefix) path;
            seg = takeWhile (\<lambda>c. c \<noteq> 47) r
        in if seg = [] \<or> dropWhile (\<lambda>c. c \<noteq> 47) r \<noteq> suffix then None else Some seg)"

lemma is_ws_range: "is_ws c \<Longrightarrow> unat c \<le> 32 \<or> 160 \<le> unat c"
  by (auto simp: is_ws_def word_le_nat_alt)

subsection \<open>JSON documents\<close>

abbreviation "TypeError \<equiv> ExternalError (js ''TypeError'')"
abbreviation "SyntaxError \<equiv> ExternalError (js ''SyntaxError'')"

text \<open>\<open>v.k\<close>, which throws on \<open>null\<close>; only objects of these documents have own properties.\<close>

definition jfield :: "json \<Rightarrow> string \<Rightarrow> js_error + json option" where
  "jfield v k =
     (case v of
        JNull \<Rightarrow> Inl TypeError
      | JObj ps \<Rightarrow> Inr (map_of ps (js k))
      | _ \<Rightarrow> Inr None)"

text \<open>
  \<open>v.k = x\<close>: \<open>undefined\<close> makes \<open>stringify\<close> leave the property out; primitives refuse it; an array keeps
  it beside its elements, where \<open>stringify\<close> does not print it.
\<close>

definition jassign :: "json \<Rightarrow> string \<Rightarrow> json option \<Rightarrow> js_error + json" where
  "jassign v k x =
     (case v of
        JObj ps \<Rightarrow> Inr (JObj (case x of
            None \<Rightarrow> filter (\<lambda>(k', _). k' \<noteq> js k) ps
          | Some y \<Rightarrow> obj_set (js k) y ps))
      | JArr vs \<Rightarrow> Inr (JArr vs)
      | _ \<Rightarrow> Inl TypeError)"

lemma map_of_replaced:
  fixes ps :: "('a \<times> 'b) list"
  shows "x \<noteq> k \<Longrightarrow> map_of (map (\<lambda>(k', v'). if k' = k then (k', v) else (k', v')) ps) x = map_of ps x"
    and "k \<in> fst ` set ps \<Longrightarrow> map_of (map (\<lambda>(k', v'). if k' = k then (k', v) else (k', v')) ps) k = Some v"
  by (induction ps) auto

lemma map_of_obj_set: "map_of (obj_set k v ps) k' = (if k' = k then Some v else map_of ps k')"
proof (cases "k \<in> fst ` set ps")
  case True
  then show ?thesis by (simp add: obj_set_def map_of_replaced)
next
  case False
  then have "map_of ps k = None" by (simp add: map_of_eq_None_iff)
  with False show ?thesis by (auto simp: obj_set_def map_add_def split: option.split)
qed

definition obj_assign :: "jstring \<Rightarrow> json option \<Rightarrow> (jstring \<times> json) list \<Rightarrow> (jstring \<times> json) list" where
  "obj_assign k x ps = (case x of None \<Rightarrow> filter (\<lambda>(k', _). k' \<noteq> k) ps | Some y \<Rightarrow> obj_set k y ps)"

lemma jassign_obj [simp]: "jassign (JObj ps) k x = Inr (JObj (obj_assign (js k) x ps))"
  by (simp add: jassign_def obj_assign_def)

lemma map_of_filter_key:
  fixes ps :: "('a \<times> 'b) list"
  shows "map_of (filter (\<lambda>(k', _). k' \<noteq> k) ps) x = (if x = k then None else map_of ps x)"
  by (induction ps) auto

lemma map_of_obj_assign: "map_of (obj_assign k x ps) k' = (if k' = k then x else map_of ps k')"
  by (simp add: obj_assign_def map_of_obj_set map_of_filter_key split: option.split)

text \<open>Truth of a value; a number is false when its digits before the exponent are all zero.\<close>

definition zero_literal :: "jstring \<Rightarrow> bool" where
  "zero_literal n = list_all (\<lambda>c. c = 48 \<or> c = 45 \<or> c = 46) (takeWhile (\<lambda>c. c \<noteq> 69 \<and> c \<noteq> 101) n)"

fun truthy :: "json option \<Rightarrow> bool" where
  "truthy None = False"
| "truthy (Some JNull) = False"
| "truthy (Some (JBool b)) = b"
| "truthy (Some (JNum n)) = (\<not> zero_literal n)"
| "truthy (Some (JStr s)) = (s \<noteq> [])"
| "truthy (Some _) = True"

text \<open>\<open>a ?? b\<close> on properties.\<close>

fun nullish :: "json option \<Rightarrow> json option \<Rightarrow> json option" where
  "nullish None b = b"
| "nullish (Some JNull) b = b"
| "nullish (Some v) b = Some v"

text \<open>The properties \<open>...v\<close> adds to an object literal.\<close>

fun spread :: "(jstring \<times> json) list \<Rightarrow> json \<Rightarrow> (jstring \<times> json) list" where
  "spread ps (JObj qs) = foldl (\<lambda>ps (k, v). obj_set k v ps) ps qs"
| "spread ps (JArr vs) = foldl (\<lambda>ps (i, v). obj_set (String_int (int i)) v ps) ps (enumerate 0 vs)"
| "spread ps (JStr s) = foldl (\<lambda>ps (i, c). obj_set (String_int (int i)) (JStr [c]) ps) ps (enumerate 0 s)"
| "spread ps _ = ps"

definition parse_json :: "jstring \<Rightarrow> ('w, json) act" where
  "parse_json s = act_lift (of_opt SyntaxError (JSON_parse s))"

subsection \<open>Values in the store\<close>

text \<open>\<open>Buffer.from(s).toString("base64")\<close>, and \<open>toString("utf-8")\<close> of the bytes of a stored value.\<close>

definition to_base64 :: "jstring \<Rightarrow> jstring" where
  "to_base64 s = base64 (encodeUtf8 s)"

definition utf8_text :: "bytes \<Rightarrow> jstring" where
  "utf8_text b = of_code_points (dec_run Ground b)"

text \<open>
  \<open>Buffer.from(s, "base64")\<close> of the runtime is a parameter \<open>unb64\<close>; the programs rely on it to
  decode what \<open>toString("base64")\<close> wrote.
\<close>

definition decodes_base64 :: "(jstring \<Rightarrow> bytes) \<Rightarrow> bool" where
  "decodes_base64 unb64 \<longleftrightarrow> (\<forall>b. unb64 (base64 b) = b)"

text \<open>A decoder with this law: \<open>atob\<close> and the units as bytes.\<close>

definition plain_unb64 :: "jstring \<Rightarrow> bytes" where
  "plain_unb64 s = (case atob s of None \<Rightarrow> [] | Some t \<Rightarrow> map (\<lambda>c. of_nat (unat c)) t)"

lemma plain_unb64_decodes: "decodes_base64 plain_unb64"
  by (simp add: decodes_base64_def plain_unb64_def atob_base64 comp_def byte_via_unit del: of_nat_unat)

lemma utf8_text_encode: "well_formed s \<Longrightarrow> utf8_text (encodeUtf8 s) = s"
  using toWellFormed_id [of s] by (simp add: utf8_text_def dec_run_encodeUtf8 toWellFormed_def)

lemma well_formed_append: "well_formed a \<Longrightarrow> well_formed b \<Longrightarrow> well_formed (a @ b)"
  by (induction a rule: well_formed.induct) (auto, (cases b; auto)+)

lemma well_formed_ascii: "\<forall>c \<in> set s. unat c < 0xD800 \<Longrightarrow> well_formed s"
  by (induction s rule: well_formed.induct) (auto simp: is_high_def is_low_def)

lemma well_formed_js [simp]: "well_formed (js s)"
proof (rule well_formed_ascii, rule ballI)
  fix c assume "c \<in> set (js s)"
  then obtain x where "c = of_char x" by (auto simp: js_def)
  then have "unat c = of_char x" by (simp add: unat_of_char_u16)
  with of_char_less_256 [of x] show "unat c < 0xD800" by linarith
qed

lemma well_formed_hex4: "well_formed ([92, 117] @ hex4 n)"
proof -
  have "unat (hex_unit d) < 0xD800" if "d < 16" for d
    using that by (simp add: unat_hex_unit)
  then show ?thesis by (intro well_formed_ascii) (auto simp: hex4_def)
qed

lemma well_formed_quote_unit: "well_formed (quote_unit c)"
  using well_formed_hex4 [of "unat c"]
  by (simp add: quote_unit_def del: append_Cons) (simp add: is_high_def is_low_def)

lemma well_formed_quote_units: "well_formed (quote_units s)"
proof (induction s rule: quote_units.induct)
  case (3 c d r)
  then show ?case by (auto simp: well_formed_quote_unit intro: well_formed_append)
qed (auto simp: well_formed_quote_unit)

lemma well_formed_quote: "well_formed (quote s)"
  unfolding quote_def by (intro well_formed_append well_formed_quote_units) (auto simp: is_high_def is_low_def)

lemma well_formed_join: "\<forall>x \<in> set xs. well_formed x \<Longrightarrow> well_formed (join [44] xs)"
proof (induction xs rule: induct_list012)
  case (3 x y zs)
  have "well_formed (x @ [44] @ join [44] (y # zs))"
    using 3 by (intro well_formed_append) (auto simp: is_high_def is_low_def)
  then show ?case by simp
qed auto

text \<open>\<open>stringify\<close> never leaves half of a surrogate pair, so storing its text loses nothing.\<close>

lemma num_unit_ascii: "num_unit c \<Longrightarrow> unat c < 0xD800"
  by (auto simp: num_unit_def is_digit_def word_le_nat_alt)

lemma well_formed_stringify: "json_ok v \<Longrightarrow> well_formed (stringify v)"
proof (induction v)
  case (JNum n)
  then have "list_all num_unit n" by (simp add: valid_number_units)
  then show ?case by (auto intro!: well_formed_ascii simp: list_all_iff num_unit_ascii)
next
  case (JArr vs)
  then have "well_formed (join [44] (map stringify vs))" by (intro well_formed_join) auto
  then have "well_formed ([91] @ join [44] (map stringify vs) @ [93])"
    by (intro well_formed_append) (auto simp: is_high_def is_low_def)
  then show ?case by simp
next
  case (JObj ps)
  have "\<forall>p \<in> set ps. well_formed (case p of (k, v) \<Rightarrow> quote k @ [58] @ stringify v)"
  proof
    fix p assume "p \<in> set ps"
    then have "well_formed (stringify (snd p))"
      using JObj by (auto intro: JObj.IH [of p] simp: snds.simps)
    then have "well_formed (quote (fst p) @ [58] @ stringify (snd p))"
      by (intro well_formed_append well_formed_quote) (auto simp: is_high_def is_low_def)
    then show "well_formed (case p of (k, v) \<Rightarrow> quote k @ [58] @ stringify v)" by (simp add: case_prod_beta)
  qed
  then have "well_formed (join [44] (map (\<lambda>(k, v). quote k @ [58] @ stringify v) ps))"
    by (intro well_formed_join) auto
  then have "well_formed ([123] @ join [44] (map (\<lambda>(k, v). quote k @ [58] @ stringify v) ps) @ [125])"
    by (intro well_formed_append) (auto simp: is_high_def is_low_def)
  then show ?case by simp
qed (auto simp: well_formed_quote)

text \<open>A document survives its way into the store and back.\<close>

lemma stored_document:
  assumes "json_ok v" and "decodes_base64 unb64"
  shows "JSON_parse (utf8_text (unb64 (to_base64 (stringify v)))) = Some v"
  using assms
  by (simp add: to_base64_def decodes_base64_def utf8_text_encode well_formed_stringify parse_stringify)

text \<open>Text without characters to escape is printed as it is.\<close>

definition plain_unit :: "u16 \<Rightarrow> bool" where
  "plain_unit c \<longleftrightarrow> 32 \<le> unat c \<and> unat c < 0xD800 \<and> unat c \<noteq> 34 \<and> unat c \<noteq> 92"

lemma quote_unit_plain: "plain_unit c \<Longrightarrow> quote_unit c = [c] \<and> \<not> is_high c"
  by (auto simp: plain_unit_def quote_unit_def is_high_def is_low_def word_less_nat_alt)

lemma quote_plain: "list_all plain_unit s \<Longrightarrow> quote s = [34] @ s @ [34]"
proof -
  have "list_all plain_unit s \<Longrightarrow> quote_units s = s"
    by (induction s rule: quote_units.induct) (auto simp: quote_unit_plain)
  then show "list_all plain_unit s \<Longrightarrow> quote s = [34] @ s @ [34]" by (simp add: quote_def)
qed

lemma plain_js: "list_all (\<lambda>c. 32 \<le> (of_char c :: nat) \<and> c \<noteq> CHR 34 \<and> c \<noteq> CHR 92) s \<Longrightarrow> list_all plain_unit (js s)"
proof (induction s)
  case (Cons c s)
  have "(of_char c :: nat) = 34 \<longleftrightarrow> c = CHR 34" "(of_char c :: nat) = 92 \<longleftrightarrow> c = CHR 92"
    using of_char_eq_iff [of c "CHR 34", where ?'a = nat] of_char_eq_iff [of c "CHR 92", where ?'a = nat] by simp_all
  moreover have "(of_char c :: nat) < 0xD800" using of_char_less_256 [of c] by linarith
  ultimately show ?case using Cons by (simp add: js_def plain_unit_def unat_of_char_u16)
qed (simp add: js_def)

lemma quote_js: "list_all (\<lambda>c. 32 \<le> (of_char c :: nat) \<and> c \<noteq> CHR 34 \<and> c \<noteq> CHR 92) s \<Longrightarrow> quote (js s) = [34] @ js s @ [34]"
  by (simp add: quote_plain plain_js)

lemma quote_Nil [simp]: "quote [] = [34, 34]"
  by (simp add: quote_def)

declare stringify.simps [simp del]

end
