(* ===== verification/Server_Store.thy ===== *)
theory Server_Store
  imports Server_Wire Http
begin

section \<open>The key-value store behind the text commands\<close>

text \<open>
  What the servers under \<open>apps/bun/src/bin\<close> rely on: the entries of the store with their write-once
  flag (\<open>src/storage/store.zig\<close>, one thread, without its log), the dispatch of GET, SET, DELETE and
  PUBLISH (\<open>src/server/executor.zig\<close>, authorization disabled, no failing allocation), and a text command of \<open>WormClient.send\<close> against it. Stored
  procedures and the other commands are a parameter \<open>other\<close>. By the agreement of the two codecs, a
  command reaches the server as \<open>server_view\<close> and its response the client as \<open>client_view\<close>.
\<close>

record store_entry =
  en_value :: bytes
  en_worm :: bool

record store =
  st_live :: "bytes \<rightharpoonup> store_entry"
  st_frozen :: "bytes \<rightharpoonup> store_entry"

definition getValueDupe :: "store \<Rightarrow> bytes \<Rightarrow> bytes option" where
  "getValueDupe s k =
     (case st_live s k of
        Some e \<Rightarrow> Some (en_value e)
      | None \<Rightarrow> map_option en_value (st_frozen s k))"

definition worm_violation :: "store \<Rightarrow> bytes \<Rightarrow> bool" where
  "worm_violation s k =
     (case st_live s k of
        Some e \<Rightarrow> en_worm e
      | None \<Rightarrow> (case st_frozen s k of Some e \<Rightarrow> en_worm e | None \<Rightarrow> False))"

definition store_set :: "store \<Rightarrow> bytes \<Rightarrow> bytes \<Rightarrow> bool \<Rightarrow> store option" where
  "store_set s k v is_worm =
     (if worm_violation s k then None
      else Some (s\<lparr>st_live := (st_live s)(k \<mapsto> \<lparr>en_value = v, en_worm = is_worm\<rparr>)\<rparr>))"

definition store_delete :: "store \<Rightarrow> bytes \<Rightarrow> store option" where
  "store_delete s k =
     (case st_live s k of
        None \<Rightarrow> Some s
      | Some e \<Rightarrow> if en_worm e then None else Some (s\<lparr>st_live := (st_live s)(k := None)\<rparr>))"

definition worm_message :: bytes where
  "worm_message = map of_char ''WORM violation: key is immutable''"

definition execute :: "(store \<Rightarrow> ZCommand \<Rightarrow> store \<times> ZResponse) \<Rightarrow> store \<Rightarrow> ZCommand \<Rightarrow> store \<times> ZResponse" where
  "execute other s c =
     (case c of
        ZGet k \<Rightarrow> (s, ZValue (getValueDupe s k))
      | ZSet k v w \<Rightarrow> (case store_set s k v w of None \<Rightarrow> (s, ZErr worm_message) | Some s' \<Rightarrow> (s', ZOk))
      | ZDelete k \<Rightarrow> (case store_delete s k of None \<Rightarrow> (s, ZErr worm_message) | Some s' \<Rightarrow> (s', ZOk))
      | ZPublish ch m \<Rightarrow> (s, ZOk)
      | _ \<Rightarrow> other s c)"

text \<open>\<open>client.send(text)\<close> against the store.\<close>

definition store_send :: "(store \<Rightarrow> ZCommand \<Rightarrow> store \<times> ZResponse) \<Rightarrow> jstring \<Rightarrow> (store, WormResponse) act" where
  "store_send other text s =
     (case parseCommand text of
        Inl e \<Rightarrow> (s, Inl (CommandFailure e))
      | Inr c \<Rightarrow>
          (case encodeCommandFrame c of
             Inl e \<Rightarrow> (s, Inl (WireFailure e))
           | Inr b \<Rightarrow> (case execute other s (server_view c) of (s', r) \<Rightarrow> (s', Inr (client_view r)))))"

subsection \<open>The contract of the text commands\<close>

text \<open>Keys and values the servers use: single words that are not the WORM flag and fit a frame.\<close>

definition key_ok :: "jstring \<Rightarrow> bool" where
  "key_ok k \<longleftrightarrow> token k \<and> well_formed k \<and> toUpperCase k \<noteq> js ''WORM'' \<and> length k \<le> 1000000"

definition value_ok :: "jstring \<Rightarrow> bool" where
  "value_ok v \<longleftrightarrow> token v \<and> (\<forall>c \<in> set v. unat c < 128) \<and> toUpperCase v \<noteq> js ''WORM'' \<and> length v \<le> 4000000"

lemmas key_simps = key_ok_def token_def is_ws_def toUpperCase_def upper_unit_def is_high_def is_low_def js_simps

abbreviation "get_text k \<equiv> js ''GET '' @ k"
abbreviation "set_text k v \<equiv> js ''SET '' @ k @ [32] @ v"
abbreviation "lock_text k v \<equiv> js ''SET '' @ k @ [32] @ v @ js '' WORM''"
abbreviation "del_text k \<equiv> js ''DEL '' @ k"
abbreviation "pub_text ch m \<equiv> js ''PUB '' @ ch @ [32] @ m"

text \<open>A message that starts with a printed character and fits a frame.\<close>

definition message_ok :: "jstring \<Rightarrow> bool" where
  "message_ok m \<longleftrightarrow> m \<noteq> [] \<and> \<not> is_ws (hd m) \<and> length m \<le> 1000000"

locale text_store =
  fixes send :: "jstring \<Rightarrow> ('w, WormResponse) act"
    and value_of :: "'w \<Rightarrow> jstring \<Rightarrow> jstring option"
    and fixed :: "'w \<Rightarrow> jstring \<Rightarrow> bool"
  assumes get_law: "key_ok k \<Longrightarrow>
      send (get_text k) w = (w, Inr (case value_of w k of None \<Rightarrow> RNull | Some v \<Rightarrow> RBulk v))"
    and set_law: "key_ok k \<Longrightarrow> value_ok v \<Longrightarrow> \<not> fixed w k \<Longrightarrow>
      \<exists>w'. send (set_text k v) w = (w', Inr ROk) \<and> value_of w' k = Some v \<and> \<not> fixed w' k
         \<and> (\<forall>k'. key_ok k' \<longrightarrow> k' \<noteq> k \<longrightarrow> value_of w' k' = value_of w k' \<and> fixed w' k' = fixed w k')"
    and lock_law: "key_ok k \<Longrightarrow> value_ok v \<Longrightarrow> \<not> fixed w k \<Longrightarrow>
      \<exists>w'. send (lock_text k v) w = (w', Inr ROk) \<and> value_of w' k = Some v \<and> fixed w' k
         \<and> (\<forall>k'. key_ok k' \<longrightarrow> k' \<noteq> k \<longrightarrow> value_of w' k' = value_of w k' \<and> fixed w' k' = fixed w k')"
    and refused_law: "key_ok k \<Longrightarrow> value_ok v \<Longrightarrow> fixed w k \<Longrightarrow> value_of w k \<noteq> None \<Longrightarrow>
      \<exists>m. send (set_text k v) w = (w, Inr (RError m)) \<and> send (lock_text k v) w = (w, Inr (RError m))"
    and del_fixed_law: "key_ok k \<Longrightarrow> fixed w k \<Longrightarrow> \<exists>m w'. send (del_text k) w = (w', Inr m)
      \<and> (\<forall>k'. value_of w' k' = value_of w k' \<and> fixed w' k' = fixed w k')"
    and pub_law: "key_ok ch \<Longrightarrow> message_ok m \<Longrightarrow> send (pub_text ch m) w = (w, Inr ROk)"

text \<open>The text of a value the store holds, and whether its key may no longer change.\<close>

definition stored_text :: "store \<Rightarrow> jstring \<Rightarrow> jstring option" where
  "stored_text s k = map_option decodeUtf8 (getValueDupe s (encodeUtf8 k))"

definition key_fixed :: "store \<Rightarrow> jstring \<Rightarrow> bool" where
  "key_fixed s k = worm_violation s (encodeUtf8 k)"

lemma length_utf8_of: "length (utf8_of n) \<le> 4"
  by (simp add: utf8_of_def)

lemma length_encodeUtf8: "length (encodeUtf8 s) \<le> 4 * length s"
proof -
  have "length (code_points s) \<le> length s" by (induction s rule: code_points.induct) auto
  moreover have "length (concat (map utf8_of ns)) \<le> 4 * length ns" for ns
    by (induction ns) (use length_utf8_of le_trans in \<open>force simp: add_mono\<close>)+
  ultimately show ?thesis unfolding encodeUtf8_def by (meson le_trans mult_le_mono2)
qed

lemma length_ascii: "\<forall>c \<in> set v. unat c < 128 \<Longrightarrow> length (encodeUtf8 v) = length v"
  by (simp add: encodeUtf8_ascii)

lemma key_small: "key_ok k \<Longrightarrow> length (encodeUtf8 k) \<le> 4000000"
  using length_encodeUtf8 [of k] by (simp add: key_ok_def)

lemma store_send_words:
  assumes "printable c" and "length (payload_of c) \<le> MAX_PAYLOAD"
  shows "store_send other (join [32] (words_of c)) s
    = (case execute other s (server_view c) of (s', r) \<Rightarrow> (s', Inr (client_view r)))"
  using assms by (simp add: store_send_def parseCommand_words encodeCommandFrame_framed framed_def)

lemma command_texts:
  "get_text k = join [32] (words_of (CmdGet k))"
  "set_text k v = join [32] (words_of (CmdSet k v False))"
  "lock_text k v = join [32] (words_of (CmdSet k v True))"
  "del_text k = join [32] (words_of (CmdDel k))"
  by (simp_all add: js_simps)

lemma send_get: "key_ok k \<Longrightarrow> store_send other (get_text k) s
    = (s, Inr (case stored_text s k of None \<Rightarrow> RNull | Some v \<Rightarrow> RBulk v))"
  unfolding command_texts
  by (subst store_send_words)
    (use key_small [of k] in \<open>auto simp: key_ok_def MAX_PAYLOAD_def execute_def stored_text_def split: option.splits\<close>)

lemma send_set:
  assumes "key_ok k" and "value_ok v"
  shows "store_send other (join [32] (words_of (CmdSet k v w))) s
    = (case store_set s (encodeUtf8 k) (encodeUtf8 v) w of
         None \<Rightarrow> (s, Inr (client_view (ZErr worm_message))) | Some s' \<Rightarrow> (s', Inr ROk))"
  using assms key_small [of k] length_ascii [of v]
  by (subst store_send_words)
    (auto simp: key_ok_def value_ok_def MAX_PAYLOAD_def execute_def simp del: words_of.simps split: option.splits)

lemma send_del: "key_ok k \<Longrightarrow> store_send other (del_text k) s
    = (case store_delete s (encodeUtf8 k) of
         None \<Rightarrow> (s, Inr (client_view (ZErr worm_message))) | Some s' \<Rightarrow> (s', Inr ROk))"
  unfolding command_texts
  by (subst store_send_words)
    (use key_small [of k] in \<open>auto simp: key_ok_def MAX_PAYLOAD_def execute_def split: option.splits\<close>)

text \<open>The words of a published message are separated again by single spaces.\<close>

lemma trimEnd_append: "\<exists>c \<in> set m. \<not> is_ws c \<Longrightarrow> trimEnd (x @ m) = x @ trimEnd m"
  by (simp add: trimEnd_def dropWhile_append) (metis dropWhile_eq_Nil_conv set_rev)

lemma trimEnd_hd: "m \<noteq> [] \<Longrightarrow> \<not> is_ws (hd m) \<Longrightarrow> trimEnd m \<noteq> [] \<and> hd (trimEnd m) = hd m"
  by (cases m) (auto simp: trimEnd_def dropWhile_append dropWhile_eq_Nil_conv)

lemma length_trimEnd: "length (trimEnd m) \<le> length m"
  using length_dropWhile_le [of is_ws "rev m"] by (simp add: trimEnd_def)

lemma split_ws_token_rest:
  assumes "token t" and "r \<noteq> []" and "\<not> is_ws (hd r)"
  shows "split_ws (t @ 32 # r) = t # split_ws r"
proof -
  have t: "\<forall>c \<in> set t. \<not> is_ws c" using assms(1) by (simp add: token_def)
  then have "takeWhile (\<lambda>c. \<not> is_ws c) (t @ 32 # r) = t" "dropWhile (\<lambda>c. \<not> is_ws c) (t @ 32 # r) = 32 # r"
    by (simp_all add: takeWhile_append dropWhile_append)
  moreover have "dropWhile is_ws r = r" using assms by (cases r) auto
  ultimately show ?thesis by (subst split_ws.simps) (simp add: Let_def)
qed

lemma length_join_split: "length (join [32] (split_ws s)) \<le> length s"
proof (induction s rule: split_ws.induct)
  case (1 s)
  let ?w = "takeWhile (\<lambda>c. \<not> is_ws c) s" and ?r = "dropWhile (\<lambda>c. \<not> is_ws c) s"
  have l: "length ?w + length ?r = length s"
    by (metis length_append takeWhile_dropWhile_id)
  show ?case
  proof (cases "?r = []")
    case True
    then show ?thesis using l by (subst split_ws.simps) simp
  next
    case False
    then have "is_ws (hd ?r)" by (metis hd_dropWhile)
    then have "length (dropWhile is_ws ?r) < length ?r" using False by (intro length_dropWhile_less)
    moreover have "length (join [32] (split_ws (dropWhile is_ws ?r))) \<le> length (dropWhile is_ws ?r)"
      using 1 False by simp
    moreover have "length (join [32] (x # xs)) \<le> Suc (length x + length (join [32] xs))" for x xs
      by (cases xs) auto
    ultimately show ?thesis
      using False l by (subst split_ws.simps) (simp add: Let_def, smt (verit) add_Suc_right le_trans
          less_eq_Suc_le nat_add_left_cancel_le not_less_eq_eq)
  qed
qed

lemma send_pub:
  assumes "key_ok ch" and "message_ok m"
  shows "store_send other (pub_text ch m) s = (s, Inr ROk)"
proof -
  let ?m = "trimEnd m"
  have m: "m \<noteq> []" "\<not> is_ws (hd m)" "length m \<le> 1000000" using assms(2) by (auto simp: message_ok_def)
  have tm: "?m \<noteq> []" "\<not> is_ws (hd ?m)" using trimEnd_hd m by metis+
  have ch: "token ch" "ch \<noteq> []" "\<not> is_ws (hd ch)" using assms(1) by (cases ch; auto simp: key_ok_def token_def)+
  have "trim (pub_text ch m) = trimEnd (pub_text ch m)"
    by (simp add: trim_def trimStart_def js_simps is_ws_def)
  also have "\<dots> = js ''PUB'' @ 32 # ch @ 32 # ?m"
    using trimEnd_append [of m "js ''PUB '' @ ch @ [32]"] m by (cases m) (auto simp: js_simps)
  finally have t: "trim (pub_text ch m) = js ''PUB'' @ 32 # ch @ 32 # ?m" .
  have "token (js ''PUB'')" by (simp add: token_def js_simps is_ws_def)
  moreover have "\<not> is_ws (hd (ch @ 32 # ?m))" using ch by (cases ch) auto
  ultimately have "split_ws (trim (pub_text ch m)) = js ''PUB'' # split_ws (ch @ 32 # ?m)"
    unfolding t by (intro split_ws_token_rest) simp_all
  also have "split_ws (ch @ 32 # ?m) = ch # split_ws ?m"
    using ch tm by (intro split_ws_token_rest)
  finally have "split_ws (trim (pub_text ch m)) = js ''PUB'' # ch # split_ws ?m" .
  moreover have "length (split_ws ?m) \<ge> 1" by (metis One_nat_def Suc_leI length_greater_0_conv split_ws_not_Nil)
  ultimately have p: "parseCommand (pub_text ch m) = Inr (CmdPub ch (join [32] (split_ws ?m)))"
    by (simp add: parseCommand_def Let_def)
  have "length (encodeUtf8 (join [32] (split_ws ?m))) \<le> 4000000"
    using length_encodeUtf8 [of "join [32] (split_ws ?m)"] length_join_split [of ?m] length_trimEnd [of m] m(3) by linarith
  then show ?thesis
    using p key_small [OF assms(1)]
    by (simp add: store_send_def encodeCommandFrame_framed framed_def MAX_PAYLOAD_def execute_def)
qed

lemma value_ok_decode: "value_ok v \<Longrightarrow> decodeUtf8 (encodeUtf8 v) = v"
proof -
  assume v: "value_ok v"
  then have "well_formed v" by (intro well_formed_ascii) (auto simp: value_ok_def)
  moreover have "take 1 v \<noteq> [0xFEFF]" using v by (cases v) (auto simp: value_ok_def)
  ultimately show ?thesis by (simp add: decodeUtf8_encodeUtf8_id)
qed

lemma key_ok_inj: "key_ok a \<Longrightarrow> key_ok b \<Longrightarrow> encodeUtf8 a = encodeUtf8 b \<longleftrightarrow> a = b"
  using encodeUtf8_inj [of a b] by (auto simp: key_ok_def)

lemma store_set_effect:
  assumes "key_ok k" and "value_ok v" and "\<not> key_fixed s k"
  shows "\<exists>s'. store_set s (encodeUtf8 k) (encodeUtf8 v) w = Some s' \<and> stored_text s' k = Some v \<and> key_fixed s' k = w
    \<and> (\<forall>k'. key_ok k' \<longrightarrow> k' \<noteq> k \<longrightarrow> stored_text s' k' = stored_text s k' \<and> key_fixed s' k' = key_fixed s k')"
proof -
  let ?s = "s\<lparr>st_live := (st_live s)(encodeUtf8 k \<mapsto> \<lparr>en_value = encodeUtf8 v, en_worm = w\<rparr>)\<rparr>"
  have fields: "st_live ?s = (st_live s)(encodeUtf8 k \<mapsto> \<lparr>en_value = encodeUtf8 v, en_worm = w\<rparr>)"
      "st_frozen ?s = st_frozen s"
    by simp_all
  have "encodeUtf8 k' \<noteq> encodeUtf8 k" if "key_ok k'" "k' \<noteq> k" for k'
    using key_ok_inj that assms(1) by blast
  then have "stored_text ?s k = Some v \<and> key_fixed ?s k = w
    \<and> (\<forall>k'. key_ok k' \<longrightarrow> k' \<noteq> k \<longrightarrow> stored_text ?s k' = stored_text s k' \<and> key_fixed ?s k' = key_fixed s k')"
    unfolding stored_text_def key_fixed_def getValueDupe_def worm_violation_def fields
    by (simp add: value_ok_decode assms(2))
  moreover have "store_set s (encodeUtf8 k) (encodeUtf8 v) w = Some ?s"
    using assms(3) by (simp add: store_set_def key_fixed_def)
  ultimately show ?thesis by blast
qed

interpretation kv: text_store "store_send other" stored_text key_fixed for other
proof
  show "key_ok k \<Longrightarrow> store_send other (get_text k) w
      = (w, Inr (case stored_text w k of None \<Rightarrow> RNull | Some v \<Rightarrow> RBulk v))" for k w
    by (rule send_get)
next
  fix k v w assume "key_ok k" "value_ok v" "\<not> key_fixed w k"
  then show "\<exists>w'. store_send other (set_text k v) w = (w', Inr ROk) \<and> stored_text w' k = Some v \<and> \<not> key_fixed w' k
       \<and> (\<forall>k'. key_ok k' \<longrightarrow> k' \<noteq> k \<longrightarrow> stored_text w' k' = stored_text w k' \<and> key_fixed w' k' = key_fixed w k')"
    unfolding command_texts using store_set_effect [of k v w False] by (auto simp: send_set simp del: words_of.simps)
next
  fix k v w assume "key_ok k" "value_ok v" "\<not> key_fixed w k"
  then show "\<exists>w'. store_send other (lock_text k v) w = (w', Inr ROk) \<and> stored_text w' k = Some v \<and> key_fixed w' k
       \<and> (\<forall>k'. key_ok k' \<longrightarrow> k' \<noteq> k \<longrightarrow> stored_text w' k' = stored_text w k' \<and> key_fixed w' k' = key_fixed w k')"
    unfolding command_texts(3) using store_set_effect [of k v w True] by (auto simp: send_set simp del: words_of.simps)
next
  fix k v w assume k: "key_ok k" "value_ok v" "key_fixed w k" "stored_text w k \<noteq> None"
  then have "store_send other (join [32] (words_of (CmdSet k v f))) w = (w, Inr (client_view (ZErr worm_message)))" for f
    by (auto simp: send_set store_set_def key_fixed_def simp del: words_of.simps)
  then show "\<exists>m. store_send other (set_text k v) w = (w, Inr (RError m))
       \<and> store_send other (lock_text k v) w = (w, Inr (RError m))"
    using command_texts(2) [of k v] command_texts(3) [of k v] by (metis client_view.simps(4))
next
  fix k w assume k: "key_ok k" "key_fixed w k"
  then have "store_delete w (encodeUtf8 k) = None \<or> store_delete w (encodeUtf8 k) = Some w"
    by (auto simp: store_delete_def key_fixed_def worm_violation_def split: option.splits)
  with k show "\<exists>m w'. store_send other (del_text k) w = (w', Inr m)
       \<and> (\<forall>k'. stored_text w' k' = stored_text w k' \<and> key_fixed w' k' = key_fixed w k')"
    by (auto simp: send_del)
next
  show "key_ok ch \<Longrightarrow> message_ok m \<Longrightarrow> store_send other (pub_text ch m) w = (w, Inr ROk)" for ch m w
    by (rule send_pub)
qed

end
