(* ===== verification/Store_Index.thy ===== *)
theory Store_Index
  imports Server_Store
begin

section \<open>JSON documents and indices kept in the store\<close>

text \<open>
  The notepad and the explorer keep their documents as base64 of JSON, and a list of all documents
  under one key, the index. This theory has the operations on the index (\<open>getIndex\<close>, \<open>saveIndex\<close> and
  the array methods used on it), for any key and any name of the identifying property, and shows over
  the contract of the text commands that a document written is the document read.
\<close>

subsection \<open>Operations\<close>

text \<open>What \<open>getIndex\<close> makes of the stored value, and \<open>getIndex\<close>, \<open>saveIndex\<close> themselves.\<close>

definition index_of :: "(jstring \<Rightarrow> bytes) \<Rightarrow> jstring \<Rightarrow> json" where
  "index_of unb64 v = (case JSON_parse (utf8_text (unb64 v)) of Some j \<Rightarrow> j | None \<Rightarrow> JArr [])"

definition read_index :: "jstring \<Rightarrow> (jstring \<Rightarrow> bytes) \<Rightarrow> (jstring \<Rightarrow> ('w, WormResponse) act) \<Rightarrow> ('w, json) act" where
  "read_index ikey unb64 send =
     act_bind (send (js ''GET '' @ ikey)) (\<lambda>res.
       case res of
         RBulk v \<Rightarrow> if v \<noteq> [] then act_return (index_of unb64 v) else act_return (JArr [])
       | _ \<Rightarrow> act_return (JArr []))"

definition write_index :: "jstring \<Rightarrow> (jstring \<Rightarrow> ('w, WormResponse) act) \<Rightarrow> json \<Rightarrow> ('w, unit) act" where
  "write_index ikey send index =
     act_bind (send (js ''SET '' @ ikey @ [32] @ to_base64 (stringify index))) (\<lambda>_. act_return ())"

text \<open>\<open>index.unshift\<close>, \<open>index.find(i => i.f === k)\<close>, an update of the item found, \<open>index.filter(i => i.f !== k)\<close>.\<close>

definition unshift :: "json \<Rightarrow> json \<Rightarrow> js_error + json" where
  "unshift j index = (case index of JArr vs \<Rightarrow> Inr (JArr (j # vs)) | _ \<Rightarrow> Inl TypeError)"

fun find_item :: "string \<Rightarrow> jstring \<Rightarrow> json list \<Rightarrow> js_error + nat option" where
  "find_item f k [] = Inr None"
| "find_item f k (v # vs) =
     and_then (jfield v f) (\<lambda>x.
       if x = Some (JStr k) then Inr (Some 0)
       else and_then (find_item f k vs) (\<lambda>r. Inr (map_option Suc r)))"

definition find_in :: "string \<Rightarrow> jstring \<Rightarrow> json \<Rightarrow> js_error + nat option" where
  "find_in f k index = (case index of JArr vs \<Rightarrow> find_item f k vs | _ \<Rightarrow> Inl TypeError)"

fun assign_all :: "json \<Rightarrow> (string \<times> json option) list \<Rightarrow> js_error + json" where
  "assign_all v [] = Inr v"
| "assign_all v ((k, x) # xs) = and_then (jassign v k x) (\<lambda>v. assign_all v xs)"

text \<open>The item found is a part of the index, so assigning to it changes the index.\<close>

definition update_item :: "string \<Rightarrow> jstring \<Rightarrow> (string \<times> json option) list \<Rightarrow> json \<Rightarrow> js_error + json option" where
  "update_item f k xs index =
     and_then (find_in f k index) (\<lambda>r.
       case (r, index) of
         (Some i, JArr vs) \<Rightarrow> and_then (assign_all (vs ! i) xs) (\<lambda>v. Inr (Some (JArr (vs[i := v]))))
       | _ \<Rightarrow> Inr None)"

fun filter_item :: "string \<Rightarrow> jstring \<Rightarrow> json list \<Rightarrow> js_error + json list" where
  "filter_item f k [] = Inr []"
| "filter_item f k (v # vs) =
     and_then (jfield v f) (\<lambda>x.
       and_then (filter_item f k vs) (\<lambda>r. Inr (if x = Some (JStr k) then r else v # r)))"

definition remove_item :: "string \<Rightarrow> jstring \<Rightarrow> json \<Rightarrow> js_error + json" where
  "remove_item f k index =
     (case index of JArr vs \<Rightarrow> and_then (filter_item f k vs) (\<lambda>r. Inr (JArr r)) | _ \<Rightarrow> Inl TypeError)"

text \<open>\<open>err.message?.includes("WORM")\<close>.\<close>

definition mentions_worm :: "(js_error \<Rightarrow> jstring) \<Rightarrow> js_error \<Rightarrow> bool" where
  "mentions_worm msg e = (indexOf (msg e) (js ''WORM'') \<noteq> None)"

subsection \<open>Documents fit a command\<close>

text \<open>The documents of the servers are objects and arrays; the bound keeps them within one frame.\<close>

definition doc_ok :: "json \<Rightarrow> bool" where
  "doc_ok v \<longleftrightarrow> json_ok v \<and> (\<exists>r. stringify v = 91 # r \<or> stringify v = 123 # r) \<and> length (stringify v) \<le> 400000"

lemma code_points_Cons: "\<not> is_high c \<Longrightarrow> \<not> is_low c \<Longrightarrow> code_points (c # r) = unat c # code_points r"
  by (cases r) auto

lemma encodeUtf8_bracket: "encodeUtf8 (91 # r) = 91 # encodeUtf8 r" "encodeUtf8 (123 # r) = 123 # encodeUtf8 r"
  by (simp_all add: encodeUtf8_def code_points_Cons is_high_def is_low_def utf8_of_def)

lemma length_base64: "length (base64 b) \<le> 2 * length b + 5"
proof -
  let ?n = "length b"
  have "3 * (?n div 3) \<le> ?n" "(3 - ?n mod 3) mod 3 \<le> 2" "(if ?n mod 3 = 0 then 0 else ?n mod 3 + 1) \<le> 3"
    using mod_less_divisor [of 3 ?n] by (simp_all, linarith+)
  moreover have "length (base64 b) = 4 * (?n div 3) + (if ?n mod 3 = 0 then 0 else ?n mod 3 + 1) + (3 - ?n mod 3) mod 3"
    by (simp add: base64_def length_b64_sextets)
  ultimately show ?thesis by linarith
qed

lemma base64_second:
  assumes "c = 91 \<or> c = 123"
  shows "\<exists>x y r. base64 (c # b) = x # y # r \<and> toUpperCase [y] \<noteq> js ''O'' \<and> length (toUpperCase [x]) = 1"
proof -
  have m: "unat c mod 4 = 3" using assms by auto
  obtain v where v: "48 \<le> v" "v < 64" and e: "\<exists>r. b64_sextets (map unat (c # b)) = (unat c div 4) # v # r"
  proof (cases b)
    case Nil
    with m show ?thesis by (intro that [of 48]) auto
  next
    case (Cons d bs)
    have "unat d div 16 < 16" using unat8_less [of d] by linarith
    moreover have "\<exists>r. b64_sextets (map unat (c # b)) = unat c div 4 # (48 + unat d div 16) # r"
      using Cons m by (cases bs) simp_all
    ultimately show ?thesis by (intro that [of "48 + unat d div 16"]) simp_all
  qed
  have "unat (b64_char v) \<noteq> 79 \<and> unat (b64_char v) \<noteq> 111" "unat (b64_char v) < 128"
    using v by (auto simp: unat_b64_char b64_code_def)
  then have "toUpperCase [b64_char v] \<noteq> js ''O''"
    by (auto simp: toUpperCase_def upper_unit_def js_simps word_unat_eq_iff unat_sub word_le_nat_alt)
  moreover have "b64_char (unat c div 4) = (if c = 91 then 87 else 101)"
    using assms by (auto simp: b64_char_def b64_code_def)
  then have "length (toUpperCase [b64_char (unat c div 4)]) = 1"
    by (simp add: toUpperCase_def upper_unit_def)
  ultimately show ?thesis using e by (auto simp: base64_def)
qed

lemma doc_value_ok:
  assumes "doc_ok v"
  shows "value_ok (to_base64 (stringify v))"
proof -
  let ?t = "to_base64 (stringify v)"
  obtain c r where c: "c = 91 \<or> c = 123" and s: "encodeUtf8 (stringify v) = c # encodeUtf8 r"
    using assms encodeUtf8_bracket by (metis doc_ok_def)
  then obtain x y z where b: "?t = x # y # z" "toUpperCase [y] \<noteq> js ''O''" "length (toUpperCase [x]) = 1"
    using base64_second [of c "encodeUtf8 r"] by (metis to_base64_def)
  then have "toUpperCase ?t \<noteq> js ''WORM''"
    by (auto simp: toUpperCase_def js_simps length_Suc_conv upper_unit_def split: if_splits)
  moreover have u: "43 \<le> unat c \<and> unat c \<le> 122" if "c \<in> set ?t" for c
    using that base64_unit by (auto simp: to_base64_def)
  then have "token ?t"
    unfolding token_def using b(1) is_ws_range u by fastforce
  moreover have "length ?t \<le> 4000000"
    using length_base64 [of "encodeUtf8 (stringify v)"] length_encodeUtf8 [of "stringify v"] assms
    by (simp add: to_base64_def doc_ok_def)
  ultimately show ?thesis using u by (force simp: value_ok_def)
qed

lemma read_document: "doc_ok v \<Longrightarrow> decodes_base64 unb64 \<Longrightarrow>
    JSON_parse (utf8_text (unb64 (to_base64 (stringify v)))) = Some v"
  by (simp add: stored_document doc_ok_def)

lemma index_of_written: "doc_ok v \<Longrightarrow> decodes_base64 unb64 \<Longrightarrow> index_of unb64 (to_base64 (stringify v)) = v"
  by (simp add: index_of_def read_document)

lemma doc_text_not_Nil: "doc_ok v \<Longrightarrow> to_base64 (stringify v) \<noteq> []"
  by (auto simp: to_base64_def doc_ok_def stringify.simps)

lemma doc_ok_obj: "json_ok (JObj ps) \<Longrightarrow> length (stringify (JObj ps)) \<le> 400000 \<Longrightarrow> doc_ok (JObj ps)"
  by (simp add: doc_ok_def stringify.simps)

lemma doc_ok_arr: "json_ok (JArr vs) \<Longrightarrow> length (stringify (JArr vs)) \<le> 400000 \<Longrightarrow> doc_ok (JArr vs)"
  by (simp add: doc_ok_def stringify.simps)

subsection \<open>Items of the index\<close>

text \<open>Every item is an object, as in all indices the servers write.\<close>

definition all_objects :: "json list \<Rightarrow> bool" where
  "all_objects vs \<longleftrightarrow> (\<forall>v \<in> set vs. \<exists>ps. v = JObj ps)"

lemma jfield_obj [simp]: "jfield (JObj ps) f = Inr (map_of ps (js f))"
  by (simp add: jfield_def)

definition has_id :: "string \<Rightarrow> jstring \<Rightarrow> json \<Rightarrow> bool" where
  "has_id f k v = (case v of JObj ps \<Rightarrow> map_of ps (js f) = Some (JStr k) | _ \<Rightarrow> False)"

lemma filter_item_objects:
  "all_objects vs \<Longrightarrow> filter_item f k vs = Inr (filter (\<lambda>v. \<not> has_id f k v) vs)"
  by (induction vs) (auto simp: all_objects_def has_id_def)

lemma find_item_objects:
  "all_objects vs \<Longrightarrow> find_item f k vs = Inr (if \<exists>v \<in> set vs. has_id f k v
     then Some (length (takeWhile (\<lambda>v. \<not> has_id f k v) vs)) else None)"
  by (induction vs) (auto simp: all_objects_def has_id_def)

lemma remove_item_objects:
  "all_objects vs \<Longrightarrow> remove_item f k (JArr vs) = Inr (JArr (filter (\<lambda>v. \<not> has_id f k v) vs))"
  by (simp add: remove_item_def filter_item_objects)

lemma find_in_arr [simp]: "find_in f k (JArr vs) = find_item f k vs"
  by (simp add: find_in_def)

subsection \<open>The index over the contract of the store\<close>

definition index_text :: "(jstring \<Rightarrow> bytes) \<Rightarrow> jstring option \<Rightarrow> json" where
  "index_text unb64 v =
     (case v of None \<Rightarrow> JArr [] | Some t \<Rightarrow> if t = [] then JArr [] else index_of unb64 t)"

lemma index_text_written:
  "doc_ok v \<Longrightarrow> decodes_base64 unb64 \<Longrightarrow> index_text unb64 (Some (to_base64 (stringify v))) = v"
  by (simp add: index_text_def index_of_written doc_text_not_Nil)

definition only_changes :: "('w \<Rightarrow> jstring \<Rightarrow> jstring option) \<Rightarrow> ('w \<Rightarrow> jstring \<Rightarrow> bool) \<Rightarrow> jstring \<Rightarrow> 'w \<Rightarrow> 'w \<Rightarrow> bool" where
  "only_changes value_of fixed k w w' \<longleftrightarrow>
     (\<forall>k'. key_ok k' \<longrightarrow> k' \<noteq> k \<longrightarrow> value_of w' k' = value_of w k' \<and> fixed w' k' = fixed w k')"

lemma only_changesD:
  assumes "only_changes value_of fixed k w w'" and "key_ok k'" and "k' \<noteq> k"
  shows "value_of w' k' = value_of w k'" and "fixed w' k' = fixed w k'"
  using assms by (auto simp: only_changes_def)

context text_store
begin

lemma read_index: "key_ok ikey \<Longrightarrow> read_index ikey unb64 send w = (w, Inr (index_text unb64 (value_of w ikey)))"
  by (cases "value_of w ikey") (simp_all add: read_index_def act_bind_def get_law index_text_def act_simps)

text \<open>Storing a document: what is read back under its key, and that no other key changes.\<close>

lemma put_document:
  assumes "key_ok k" and "doc_ok v" and "\<not> fixed w k"
  shows "\<exists>w'. send (set_text k (to_base64 (stringify v))) w = (w', Inr ROk)
    \<and> value_of w' k = Some (to_base64 (stringify v)) \<and> \<not> fixed w' k \<and> only_changes value_of fixed k w w'"
  using set_law [OF assms(1) doc_value_ok [OF assms(2)] assms(3)] by (simp add: only_changes_def)

lemma lock_document:
  assumes "key_ok k" and "doc_ok v" and "\<not> fixed w k"
  shows "\<exists>w'. send (lock_text k (to_base64 (stringify v))) w = (w', Inr ROk)
    \<and> value_of w' k = Some (to_base64 (stringify v)) \<and> fixed w' k \<and> only_changes value_of fixed k w w'"
  using lock_law [OF assms(1) doc_value_ok [OF assms(2)] assms(3)] by (simp add: only_changes_def)

lemma write_index_ok:
  assumes "key_ok ikey" and "doc_ok v" and "\<not> fixed w ikey"
  shows "\<exists>w'. write_index ikey send v w = (w', Inr ())
    \<and> value_of w' ikey = Some (to_base64 (stringify v)) \<and> \<not> fixed w' ikey \<and> only_changes value_of fixed ikey w w'"
proof -
  from put_document [OF assms] obtain w' where w': "send (set_text ikey (to_base64 (stringify v))) w = (w', Inr ROk)"
    "value_of w' ikey = Some (to_base64 (stringify v)) \<and> \<not> fixed w' ikey \<and> only_changes value_of fixed ikey w w'"
    by blast
  from w'(1) have "write_index ikey send v w = (w', Inr ())"
    by (simp add: write_index_def act_bind_def act_simps)
  with w'(2) show ?thesis by blast
qed

end

end
