(* ===== verification/Event_Feed.thy ===== *)
theory Event_Feed
  imports Http
begin

section \<open>The feed of database events of the demo servers\<close>

text \<open>
  \<open>setupEventSubscription\<close> and \<open>broadcast\<close> of \<open>bin/notepad.ts\<close> and \<open>bin/explorer.ts\<close>: one connection
  subscribed to a channel, re-dialled three seconds after it is lost, whose events are sent on to the
  WebSocket clients. The two servers have the same code but for the channel, here a parameter. A
  state holds the subscription and, as logs, what was written to each socket, the number of dials and
  the messages handed to \<open>broadcast\<close>.
\<close>

record 'm feed =
  fd_eventSocket :: "nat option"
  fd_eventConnecting :: bool
  fd_eventInbound :: bytes
  fd_timers :: nat
  fd_writes :: "(nat \<times> bytes) list"
  fd_dials :: nat
  fd_out :: "'m list"

definition fresh_feed :: "'m feed" where
  "fresh_feed = \<lparr>fd_eventSocket = None, fd_eventConnecting = False, fd_eventInbound = [], fd_timers = 0,
     fd_writes = [], fd_dials = 0, fd_out = []\<rparr>"

definition setupEventSubscription :: "'m feed \<Rightarrow> 'm feed" where
  "setupEventSubscription f =
     (if fd_eventSocket f \<noteq> None \<or> fd_eventConnecting f then f
      else f\<lparr>fd_eventConnecting := True, fd_dials := fd_dials f + 1\<rparr>)"

text \<open>The frame of the subscription; the channels of the servers always fit.\<close>

definition sub_frame :: "jstring \<Rightarrow> bytes" where
  "sub_frame channel = (case encodeCommandFrame (CmdSub channel None) of Inl e \<Rightarrow> [] | Inr b \<Rightarrow> b)"

definition feed_open :: "jstring \<Rightarrow> nat \<Rightarrow> 'm feed \<Rightarrow> 'm feed" where
  "feed_open channel s f =
     f\<lparr>fd_eventConnecting := False, fd_eventSocket := Some s, fd_eventInbound := [],
       fd_writes := fd_writes f @ [(s, WIRE_MAGIC), (s, sub_frame channel)]\<rparr>"

text \<open>What one frame hands to \<open>broadcast\<close>: the document of an event on the channel.\<close>

definition feed_message :: "jstring \<Rightarrow> nat \<Rightarrow> bytes \<Rightarrow> json list" where
  "feed_message channel code payload =
     (if \<not> isEventCode code then []
      else
        case decodeResponse code payload of
          REvent ch m \<Rightarrow>
            (if ch = channel then (case JSON_parse m of None \<Rightarrow> [] | Some j \<Rightarrow> [j]) else [])
        | _ \<Rightarrow> [])"

text \<open>The loop of the \<open>data\<close> callback, for the messages a frame gives.\<close>

definition feed_chunk :: "(nat \<Rightarrow> bytes \<Rightarrow> 'm list) \<Rightarrow> nat \<Rightarrow> 'm feed \<Rightarrow> bytes \<Rightarrow> 'm feed" where
  "feed_chunk message s f chunk =
     (if fd_eventSocket f \<noteq> Some s then f
      else
        let (out, rest) = frame_loop (\<lambda>out code payload. out @ message code payload) (fd_eventInbound f @ chunk) (fd_out f)
        in f\<lparr>fd_eventInbound := rest, fd_out := out\<rparr>)"

definition feed_data :: "jstring \<Rightarrow> nat \<Rightarrow> json feed \<Rightarrow> bytes \<Rightarrow> json feed" where
  "feed_data channel = feed_chunk (feed_message channel)"

definition feed_close :: "nat \<Rightarrow> 'm feed \<Rightarrow> 'm feed" where
  "feed_close s f =
     (if fd_eventSocket f = Some s then f\<lparr>fd_eventSocket := None, fd_timers := fd_timers f + 1\<rparr> else f)"

definition feed_error :: "nat \<Rightarrow> 'm feed \<Rightarrow> 'm feed" where
  "feed_error s f =
     (if fd_eventSocket f \<noteq> None \<and> fd_eventSocket f = Some s
      then f\<lparr>fd_eventSocket := None, fd_eventConnecting := False, fd_timers := fd_timers f + 1\<rparr> else f)"

definition feed_failed :: "'m feed \<Rightarrow> 'm feed" where
  "feed_failed f = f\<lparr>fd_eventConnecting := False, fd_eventSocket := None, fd_timers := fd_timers f + 1\<rparr>"

definition feed_timer :: "'m feed \<Rightarrow> 'm feed" where
  "feed_timer f = (if fd_timers f = 0 then f else setupEventSubscription (f\<lparr>fd_timers := fd_timers f - 1\<rparr>))"

text \<open>\<open>broadcast\<close>: the text is sent to every client, and a client whose \<open>send\<close> throws is dropped.\<close>

definition broadcast :: "(nat \<Rightarrow> bool) \<Rightarrow> nat list \<Rightarrow> json \<Rightarrow> nat list \<times> (nat \<times> jstring) list" where
  "broadcast throws wsClients msg =
     (let payload = stringify msg
      in (filter (\<lambda>ws. \<not> throws ws) wsClients, map (\<lambda>ws. (ws, payload)) (filter (\<lambda>ws. \<not> throws ws) wsClients)))"

definition ws_open :: "nat \<Rightarrow> nat list \<Rightarrow> nat list" where
  "ws_open ws wsClients = (if ws \<in> set wsClients then wsClients else wsClients @ [ws])"

definition ws_close :: "nat \<Rightarrow> nat list \<Rightarrow> nat list" where
  "ws_close ws wsClients = removeAll ws wsClients"

subsection \<open>Chunks\<close>

lemma append_loop:
  "frame_loop (\<lambda>out code payload. out @ message code payload) b (pre @ out)
   = (let (o', r) = frame_loop (\<lambda>out code payload. out @ message code payload) b out in (pre @ o', r))"
  by (rule frame_loop_commute) simp

lemma feed_chunk_append: "feed_chunk message s (feed_chunk message s f a) b = feed_chunk message s f (a @ b)"
proof (cases "fd_eventSocket f = Some s")
  case True
  obtain o1 r1 where 1: "frame_loop (\<lambda>out code payload. out @ message code payload) (fd_eventInbound f @ a) (fd_out f) = (o1, r1)"
    by fastforce
  obtain o2 r2 where 2: "frame_loop (\<lambda>out code payload. out @ message code payload) (r1 @ b) o1 = (o2, r2)"
    by fastforce
  have "frame_loop (\<lambda>out code payload. out @ message code payload) (fd_eventInbound f @ a @ b) (fd_out f) = (o2, r2)"
    using frame_loop_append [of _ "fd_eventInbound f @ a" b "fd_out f"] 1 2 by simp
  with True 1 2 show ?thesis by (simp add: feed_chunk_def)
qed (simp add: feed_chunk_def)

interpretation event_feed: chunk_consumer "feed_chunk message s" for message s
  by unfold_locales (rule feed_chunk_append)

lemma foldl_messages:
  "foldl (\<lambda>out (c, p). out @ message c p) out fs = out @ concat (map (\<lambda>(c, p). message c p) fs)"
  by (induction fs arbitrary: out) auto

lemma feed_chunk_stream:
  assumes "fd_eventSocket f = Some s" and "fd_eventInbound f = []" and "\<forall>x \<in> set fs. wire_frame x"
  shows "fd_out (feed_chunk message s f (stream_of fs)) = fd_out f @ concat (map (\<lambda>(c, p). message c p) fs)"
  using assms frame_loop_stream [of fs _ "[]" "fd_out f"] by (simp add: feed_chunk_def foldl_messages)

lemma feed_chunks_stream:
  assumes "fd_eventSocket f = Some s" and "fd_eventInbound f = []" and "\<forall>x \<in> set fs. wire_frame x"
    and "cs \<noteq> []" and "concat cs = stream_of fs"
  shows "fd_out (foldl (feed_chunk message s) f cs) = fd_out f @ concat (map (\<lambda>(c, p). message c p) fs)"
  using event_feed.same_stream [of cs "[stream_of fs]" message s f] assms feed_chunk_stream [of f s fs message] by simp

subsection \<open>The feed never dies\<close>

datatype feed_event = FOpen nat | FData nat bytes | FClose nat | FError nat | FFailed | FTimer

fun feed_step :: "jstring \<Rightarrow> json feed \<Rightarrow> feed_event \<Rightarrow> json feed" where
  "feed_step channel f (FOpen s) = feed_open channel s f"
| "feed_step channel f (FData s chunk) = feed_data channel s f chunk"
| "feed_step channel f (FClose s) = feed_close s f"
| "feed_step channel f (FError s) = feed_error s f"
| "feed_step channel f FFailed = feed_failed f"
| "feed_step channel f FTimer = feed_timer f"

definition feed_alive :: "'m feed \<Rightarrow> bool" where
  "feed_alive f \<longleftrightarrow> fd_eventSocket f \<noteq> None \<or> fd_eventConnecting f \<or> fd_timers f > 0"

lemma feed_chunk_fields [simp]:
  "fd_eventSocket (feed_chunk message s f chunk) = fd_eventSocket f"
  "fd_eventConnecting (feed_chunk message s f chunk) = fd_eventConnecting f"
  "fd_timers (feed_chunk message s f chunk) = fd_timers f"
  by (auto simp: feed_chunk_def split: prod.splits)

lemma feed_step_alive: "feed_alive f \<Longrightarrow> feed_alive (feed_step channel f e)"
  by (cases e) (auto simp: feed_alive_def feed_open_def feed_data_def feed_close_def feed_error_def feed_failed_def
      feed_timer_def setupEventSubscription_def)

text \<open>
The event feed of the notepad and the explorer passes on exactly the JSON documents of the events
on its channel, in order and however the stream is cut into chunks, and nothing of other frames.
\<close>

theorem feed_passes_events:
  assumes "fd_eventSocket f = Some s" and "fd_eventInbound f = []" and "\<forall>x \<in> set fs. wire_frame x"
    and "cs \<noteq> []" and "concat cs = stream_of fs"
  shows "fd_out (foldl (feed_data channel s) f cs) = fd_out f @ concat (map (\<lambda>(c, p). feed_message channel c p) fs)"
  unfolding feed_data_def using assms by (rule feed_chunks_stream)

theorem feed_passes_events_witness:
  "fd_out (foldl (feed_data (js ''n'') 1) (fresh_feed\<lparr>fd_eventSocket := Some 1\<rparr>) [[0, 0], [0, 0, 0]]) = []"
proof -
  have "stream_of [(0, [])] = [0, 0, 0, 0, 0]" by (simp add: stream_of_def frame_bytes_def be32_def)
  then show ?thesis
    using feed_passes_events [of "fresh_feed\<lparr>fd_eventSocket := Some 1\<rparr>" 1 "[(0, [])]" "[[0, 0], [0, 0, 0]]" "js ''n''"]
    by (simp add: fresh_feed_def wire_frame_def feed_message_def isEventCode_def)
qed

text \<open>
Once started, the feed of the notepad and the explorer is never abandoned: whatever opens, closes,
errors and failed dials happen, it has a connection, is dialling, or will dial when a timer fires.
\<close>

theorem feed_never_abandoned:
  "feed_alive (foldl (feed_step channel) (setupEventSubscription fresh_feed) es)"
proof -
  have "feed_alive (foldl (feed_step channel) f es)" if "feed_alive f" for f
    using that by (induction es arbitrary: f) (auto intro: feed_step_alive)
  moreover have "feed_alive (setupEventSubscription fresh_feed)"
    by (simp add: feed_alive_def setupEventSubscription_def fresh_feed_def)
  ultimately show ?thesis by blast
qed

end
