(* ===== verification/Notepad_Server.thy ===== *)
theory Notepad_Server
  imports Store_Index Event_Feed
begin

section \<open>The notepad server (\<open>apps/bun/src/bin/notepad.ts\<close>)\<close>

text \<open>
  The HTTP handlers of the notepad as actions over the text commands of the database, and its feed of
  database events. Parameters: \<open>send\<close> is \<open>client.send\<close>, \<open>unb64\<close> is \<open>Buffer.from(_, "base64")\<close>,
  \<open>msg\<close> the message of an exception and \<open>shown\<close> its \<open>String(err)\<close>, \<open>now\<close> the time as \<open>toISOString\<close> prints it, \<open>ms36\<close> and \<open>uuid\<close> what
  \<open>Date.now().toString(36)\<close> and \<open>crypto.randomUUID()\<close> return. An exception that leaves \<open>fetch\<close> makes
  the runtime answer with status 500.
\<close>

subsection \<open>Identifiers and the index\<close>

definition padStart :: "nat \<Rightarrow> u16 \<Rightarrow> jstring \<Rightarrow> jstring" where
  "padStart n c s = replicate (n - length s) c @ s"

definition generateULID :: "jstring \<Rightarrow> jstring \<Rightarrow> jstring" where
  "generateULID ms36 uuid =
     (let time = padStart 10 48 ms36;
          rand = take 16 (filter (\<lambda>c. c \<noteq> 45) uuid)
      in toUpperCase (time @ rand))"

definition np_getIndex :: "(jstring \<Rightarrow> bytes) \<Rightarrow> (jstring \<Rightarrow> ('w, WormResponse) act) \<Rightarrow> ('w, json) act" where
  "np_getIndex unb64 send = read_index (js ''notes:index'') unb64 send"

definition np_saveIndex :: "(jstring \<Rightarrow> ('w, WormResponse) act) \<Rightarrow> json \<Rightarrow> ('w, unit) act" where
  "np_saveIndex send index = write_index (js ''notes:index'') send index"

subsection \<open>The handlers\<close>

definition note_key :: "jstring \<Rightarrow> jstring" where
  "note_key nid = js ''note:'' @ nid"

definition np_list :: "(jstring \<Rightarrow> bytes) \<Rightarrow> (jstring \<Rightarrow> ('w, WormResponse) act) \<Rightarrow> ('w, http_response) act" where
  "np_list unb64 send = act_bind (np_getIndex unb64 send) (\<lambda>index. act_return (Respond 200 (JsonBody index)))"

definition new_note :: "jstring \<Rightarrow> (jstring \<times> json) list" where
  "new_note now =
     [(js ''title'', JStr (js ''Untitled Note'')), (js ''body'', JStr []), (js ''author'', JStr (js ''Guest'')),
      (js ''updatedAt'', JStr now), (js ''locked'', JBool False)]"

definition index_item :: "jstring \<Rightarrow> jstring \<Rightarrow> json" where
  "index_item nid now =
     JObj [(js ''id'', JStr nid), (js ''title'', JStr (js ''Untitled Note'')), (js ''updatedAt'', JStr now),
       (js ''locked'', JBool False)]"

definition np_create :: "(jstring \<Rightarrow> bytes) \<Rightarrow> (jstring \<Rightarrow> ('w, WormResponse) act) \<Rightarrow> jstring \<Rightarrow> jstring \<Rightarrow> jstring
    \<Rightarrow> ('w, http_response) act" where
  "np_create unb64 send now ms36 uuid =
     (let nid = generateULID ms36 uuid;
          note = new_note now;
          valueB64 = to_base64 (stringify (JObj note))
      in act_bind (send (js ''SET '' @ note_key nid @ [32] @ valueB64)) (\<lambda>_.
         act_bind (np_getIndex unb64 send) (\<lambda>index.
         act_bind (act_lift (unshift (index_item nid now) index)) (\<lambda>index.
         act_bind (np_saveIndex send index) (\<lambda>_.
         act_return (Respond 201 (JsonBody (JObj (spread [(js ''id'', JStr nid)] (JObj note))))))))))"

definition np_read :: "(jstring \<Rightarrow> bytes) \<Rightarrow> (jstring \<Rightarrow> ('w, WormResponse) act) \<Rightarrow> jstring \<Rightarrow> ('w, http_response) act" where
  "np_read unb64 send nid =
     act_bind (send (js ''GET '' @ note_key nid)) (\<lambda>res.
       case res of
         RBulk v \<Rightarrow>
           (if v = [] then act_return (text_response 404 ''Not found'')
            else
              case JSON_parse (utf8_text (unb64 v)) of
                None \<Rightarrow> act_return (text_response 500 ''Invalid note format'')
              | Some d \<Rightarrow> act_return (Respond 200 (JsonBody (JObj (spread [(js ''id'', JStr nid)] d)))))
       | _ \<Rightarrow> act_return (text_response 404 ''Not found''))"

text \<open>The messages published when a note is deleted or locked.\<close>

definition deleted_message :: "jstring \<Rightarrow> json" where
  "deleted_message nid = JObj [(js ''type'', JStr (js ''note:deleted'')), (js ''id'', JStr nid)]"

definition locked_message :: "jstring \<Rightarrow> json option \<Rightarrow> json" where
  "locked_message nid author = JObj ([(js ''type'', JStr (js ''note:locked'')), (js ''id'', JStr nid)]
     @ (case author of None \<Rightarrow> [] | Some a \<Rightarrow> [(js ''author'', a)]))"

text \<open>\<open>note.f = body.f ?? note.f\<close> for the three properties, then the time.\<close>

definition merge_note :: "json \<Rightarrow> json \<Rightarrow> jstring \<Rightarrow> js_error + json" where
  "merge_note body note now =
     and_then (jfield body ''title'') (\<lambda>bt.
     and_then (jfield note ''title'') (\<lambda>nt.
     and_then (jassign note ''title'' (nullish bt nt)) (\<lambda>note.
     and_then (jfield body ''body'') (\<lambda>bb.
     and_then (jfield note ''body'') (\<lambda>nb.
     and_then (jassign note ''body'' (nullish bb nb)) (\<lambda>note.
     and_then (jfield body ''author'') (\<lambda>ba.
     and_then (jfield note ''author'') (\<lambda>na.
     and_then (jassign note ''author'' (nullish ba na)) (\<lambda>note.
     jassign note ''updatedAt'' (Some (JStr now)))))))))))"

definition np_update :: "(js_error \<Rightarrow> jstring) \<Rightarrow> (jstring \<Rightarrow> bytes) \<Rightarrow> (jstring \<Rightarrow> ('w, WormResponse) act) \<Rightarrow> jstring
    \<Rightarrow> jstring \<Rightarrow> jstring \<Rightarrow> ('w, http_response) act" where
  "np_update msg unb64 send now nid body_text =
     act_catch
       (act_bind (parse_json body_text) (\<lambda>body.
        act_bind (send (js ''GET '' @ note_key nid)) (\<lambda>res.
        act_bind (case res of
            RBulk v \<Rightarrow> if v \<noteq> [] then parse_json (utf8_text (unb64 v)) else act_return (JObj [])
          | _ \<Rightarrow> act_return (JObj [])) (\<lambda>note.
        act_bind (act_lift (jfield note ''locked'')) (\<lambda>locked.
        if truthy locked then act_return (text_response 403 ''Note is locked'')
        else
          act_bind (act_lift (merge_note body note now)) (\<lambda>note.
          act_bind (send (js ''SET '' @ note_key nid @ [32] @ to_base64 (stringify note))) (\<lambda>_.
          act_bind (np_getIndex unb64 send) (\<lambda>index.
          act_bind (act_lift (and_then (jfield note ''title'') (\<lambda>t.
              and_then (jfield note ''locked'') (\<lambda>l.
              update_item ''id'' nid [(''title'', t), (''updatedAt'', Some (JStr now)), (''locked'', Some (JBool (truthy l)))]
                index)))) (\<lambda>r.
          act_bind (case r of None \<Rightarrow> act_return () | Some index \<Rightarrow> np_saveIndex send index) (\<lambda>_.
          act_return (Respond 200 (JsonBody (JObj (spread [(js ''id'', JStr nid)] note))))))))))))))
       (\<lambda>e. if mentions_worm msg e then act_return (text_response 403 ''Note is WORM-locked'')
            else act_return (text_response 400 ''Bad request''))"

definition np_delete :: "(js_error \<Rightarrow> jstring) \<Rightarrow> (js_error \<Rightarrow> jstring) \<Rightarrow> (jstring \<Rightarrow> bytes) \<Rightarrow> (jstring \<Rightarrow> ('w, WormResponse) act) \<Rightarrow> jstring
    \<Rightarrow> ('w, http_response) act" where
  "np_delete msg shown unb64 send nid =
     act_catch
       (act_bind (send (js ''DEL '' @ note_key nid)) (\<lambda>_.
        act_bind (np_getIndex unb64 send) (\<lambda>index.
        act_bind (act_lift (remove_item ''id'' nid index)) (\<lambda>newIndex.
        act_bind (np_saveIndex send newIndex) (\<lambda>_.
        act_bind (send (js ''PUB notes '' @ stringify (deleted_message nid))) (\<lambda>_.
        act_return (Respond 204 NoBody)))))))
       (\<lambda>e. if mentions_worm msg e then act_return (text_response 403 ''Cannot delete WORM-locked note'')
            else act_return (Respond 500 (TextBody (shown e))))"

definition np_lock :: "(js_error \<Rightarrow> jstring) \<Rightarrow> (jstring \<Rightarrow> bytes) \<Rightarrow> (jstring \<Rightarrow> ('w, WormResponse) act) \<Rightarrow> jstring
    \<Rightarrow> jstring \<Rightarrow> ('w, http_response) act" where
  "np_lock shown unb64 send now nid =
     act_catch
       (act_bind (send (js ''GET '' @ note_key nid)) (\<lambda>res.
        case res of
          RBulk v \<Rightarrow>
            (if v = [] then act_return (text_response 404 ''Not found'')
             else
               act_bind (parse_json (utf8_text (unb64 v))) (\<lambda>note.
               act_bind (act_lift (assign_all note [(''locked'', Some (JBool True)), (''updatedAt'', Some (JStr now))])) (\<lambda>note.
               act_bind (send (js ''SET '' @ note_key nid @ [32] @ to_base64 (stringify note) @ js '' WORM'')) (\<lambda>_.
               act_bind (np_getIndex unb64 send) (\<lambda>index.
               act_bind (act_lift (update_item ''id'' nid
                   [(''locked'', Some (JBool True)), (''updatedAt'', Some (JStr now))] index)) (\<lambda>r.
               act_bind (case r of None \<Rightarrow> act_return () | Some index \<Rightarrow> np_saveIndex send index) (\<lambda>_.
               act_bind (act_lift (jfield note ''author'')) (\<lambda>author.
               act_bind (send (js ''PUB notes '' @ stringify (locked_message nid author))) (\<lambda>_.
               act_return (Respond 200 (JsonBody (JObj (spread [(js ''id'', JStr nid)] note)))))))))))))
        | _ \<Rightarrow> act_return (text_response 404 ''Not found'')))
       (\<lambda>e. act_return (Respond 500 (TextBody (shown e))))"

definition np_save :: "(jstring \<Rightarrow> ('w, WormResponse) act) \<Rightarrow> ('w, http_response) act" where
  "np_save send =
     act_bind (send (js ''SAVE'')) (\<lambda>_.
     act_return (Respond 200 (JsonBody (JObj [(js ''ok'', JBool True)]))))"

text \<open>\<open>pushStatus\<close>: what it hands to \<open>broadcast\<close>, if anything.\<close>

definition np_pushStatus :: "(jstring \<Rightarrow> ('w, WormResponse) act) \<Rightarrow> ('w, json option) act" where
  "np_pushStatus send =
     act_catch
       (act_bind (send (js ''STATUS'')) (\<lambda>res.
        case res of
          RBulk v \<Rightarrow>
            if v \<noteq> [] then act_return (Some (JObj [(js ''type'', JStr (js ''status'')),
              (js ''response'', JObj [(js ''value'', JStr v)])]))
            else act_return None
        | _ \<Rightarrow> act_return None))
       (\<lambda>e. act_return None)"

text \<open>The callbacks of the server's WebSocket: \<open>open\<close> also pushes the status.\<close>

definition np_ws_open :: "nat \<Rightarrow> nat list \<Rightarrow> (jstring \<Rightarrow> ('w, WormResponse) act) \<Rightarrow> (nat \<Rightarrow> bool)
    \<Rightarrow> ('w, nat list \<times> (nat \<times> jstring) list) act" where
  "np_ws_open ws wsClients send throws =
     act_bind (np_pushStatus send) (\<lambda>m.
       act_return (case m of
           None \<Rightarrow> (ws_open ws wsClients, [])
         | Some j \<Rightarrow> broadcast throws (ws_open ws wsClients) j))"

text \<open>\<open>fetch\<close>; \<open>upgrade\<close> says whether the WebSocket upgrade succeeded.\<close>

definition np_fetch where
  "np_fetch msg shown unb64 send upgrade now ms36 uuid req =
     (let path = rq_path req; m = rq_method req in
      if path = js ''/ws'' then
        (if upgrade then act_return Upgraded else act_return (text_response 400 ''Upgrade failed''))
      else if m = js ''GET'' \<and> path = js ''/'' then act_return (Respond 200 (Asset (js ''text/html'')))
      else if m = js ''GET'' \<and> path = js ''/styles.css'' then act_return (Respond 200 (Asset (js ''text/css'')))
      else if m = js ''GET'' \<and> path = js ''/app.js'' then act_return (Respond 200 (Asset (js ''application/javascript'')))
      else if path = js ''/api/notes'' \<and> m = js ''GET'' then np_list unb64 send
      else if path = js ''/api/notes'' \<and> m = js ''POST'' then np_create unb64 send now ms36 uuid
      else
        case match_segment (js ''/api/notes/'') [] path of
          Some nid \<Rightarrow>
            if m = js ''GET'' then np_read unb64 send nid
            else if m = js ''PUT'' then np_update msg unb64 send now nid (rq_body req)
            else if m = js ''DELETE'' then np_delete msg shown unb64 send nid
            else act_return (text_response 404 ''Not found'')
        | None \<Rightarrow>
            (case match_segment (js ''/api/notes/'') (js ''/lock'') path of
               Some nid \<Rightarrow>
                 if m = js ''POST'' then np_lock shown unb64 send now nid
                 else act_return (text_response 404 ''Not found'')
             | None \<Rightarrow>
                 if path = js ''/api/save'' \<and> m = js ''POST'' then np_save send
                 else act_return (text_response 404 ''Not found'')))"

subsection \<open>Notes over the contract of the store\<close>

abbreviation "index_key \<equiv> js ''notes:index''"

lemma index_key_ok [simp]: "key_ok index_key"
  by (simp add: key_ok_def token_def is_ws_def js_simps toUpperCase_def upper_unit_def is_high_def is_low_def)

lemma note_key_not_index [simp]: "note_key nid \<noteq> index_key" "index_key \<noteq> note_key nid"
  by (simp_all add: note_key_def js_simps)

text \<open>The note locked at a time, and the index with its item marked.\<close>

definition locked_note :: "jstring \<Rightarrow> (jstring \<times> json) list \<Rightarrow> (jstring \<times> json) list" where
  "locked_note now ps = obj_assign (js ''updatedAt'') (Some (JStr now)) (obj_assign (js ''locked'') (Some (JBool True)) ps)"

lemma assign_locked: "assign_all (JObj ps) [(''locked'', Some (JBool True)), (''updatedAt'', Some (JStr now))]
    = Inr (JObj (locked_note now ps))"
  by (simp add: locked_note_def)

lemma locked_note_locked [simp]: "map_of (locked_note now ps) (js ''locked'') = Some (JBool True)"
  by (simp add: locked_note_def map_of_obj_assign js_simps)

text \<open>The note after an update with a body.\<close>

definition merged_note :: "jstring \<Rightarrow> (jstring \<times> json) list \<Rightarrow> (jstring \<times> json) list \<Rightarrow> (jstring \<times> json) list" where
  "merged_note now bs ps =
     obj_assign (js ''updatedAt'') (Some (JStr now))
       (foldl (\<lambda>ps k. obj_assign (js k) (nullish (map_of bs (js k)) (map_of ps (js k))) ps) ps [''title'', ''body'', ''author''])"

lemma merge_note_objects: "merge_note (JObj bs) (JObj ps) now = Inr (JObj (merged_note now bs ps))"
  by (simp add: merge_note_def merged_note_def)

lemma map_of_merged_note:
  "map_of (merged_note now bs ps) k =
     (if k = js ''updatedAt'' then Some (JStr now)
      else if k \<in> {js ''title'', js ''body'', js ''author''} then nullish (map_of bs k) (map_of ps k)
      else map_of ps k)"
  by (simp add: merged_note_def map_of_obj_assign js_eq_iff)

lemma pub_notes_text: "js ''PUB notes '' @ m = pub_text (js ''notes'') m"
  by (simp add: js_simps)

lemma notes_key_ok [simp]: "key_ok (js ''notes'')"
  by (simp add: key_ok_def token_def is_ws_def js_simps toUpperCase_def upper_unit_def is_high_def is_low_def)

context text_store
begin

lemma np_read_stored:
  assumes "key_ok (note_key nid)" and "value_of w (note_key nid) = Some (to_base64 (stringify v))"
    and "doc_ok v" and "decodes_base64 unb64"
  shows "np_read unb64 send nid w = (w, Inr (Respond 200 (JsonBody (JObj (spread [(js ''id'', JStr nid)] v)))))"
  using assms by (simp add: np_read_def act_eval get_law read_document doc_text_not_Nil)

lemma np_list_index: "np_list unb64 send w = (w, Inr (Respond 200 (JsonBody (index_text unb64 (value_of w index_key)))))"
  by (simp add: np_list_def np_getIndex_def act_eval read_index)

lemma np_create_reads:
  fixes nid
  assumes "nid = generateULID ms36 uuid" and "decodes_base64 unb64" and "key_ok (note_key nid)"
    and "\<not> fixed w (note_key nid)" and "\<not> fixed w index_key" and "index_text unb64 (value_of w index_key) = JArr vs"
    and "doc_ok (JObj (new_note now))" and "doc_ok (JArr (index_item nid now # vs))"
  shows "\<exists>w' doc. np_create unb64 send now ms36 uuid w = (w', Inr (Respond 201 (JsonBody doc)))
    \<and> np_read unb64 send nid w' = (w', Inr (Respond 200 (JsonBody doc)))
    \<and> np_list unb64 send w' = (w', Inr (Respond 200 (JsonBody (JArr (index_item nid now # vs)))))"
proof -
  from put_document [OF assms(3) assms(7) assms(4)] obtain w1 where
    1: "send (set_text (note_key nid) (to_base64 (stringify (JObj (new_note now))))) w = (w1, Inr ROk)"
      "value_of w1 (note_key nid) = Some (to_base64 (stringify (JObj (new_note now))))"
      "only_changes value_of fixed (note_key nid) w w1"
    by blast
  have "\<not> fixed w1 index_key" using only_changesD [OF 1(3)] assms(5) by simp
  from write_index_ok [OF index_key_ok assms(8) this] obtain w2 where
    2: "write_index index_key send (JArr (index_item nid now # vs)) w1 = (w2, Inr ())"
      "value_of w2 index_key = Some (to_base64 (stringify (JArr (index_item nid now # vs))))"
      "only_changes value_of fixed index_key w1 w2"
    by blast
  have "index_text unb64 (value_of w1 index_key) = JArr vs" using only_changesD [OF 1(3)] assms(6) by simp
  then have "read_index index_key unb64 send w1 = (w1, Inr (JArr vs))" by (simp add: read_index)
  then have "np_create unb64 send now ms36 uuid w
      = (w2, Inr (Respond 201 (JsonBody (JObj (spread [(js ''id'', JStr nid)] (JObj (new_note now)))))))"
    by (simp only: np_create_def Let_def np_getIndex_def np_saveIndex_def act_bind_ok 1(1) 2(1)
        act_basic unshift_def json.case flip: assms(1))
  moreover have "np_read unb64 send nid w2
      = (w2, Inr (Respond 200 (JsonBody (JObj (spread [(js ''id'', JStr nid)] (JObj (new_note now)))))))"
    using np_read_stored [OF assms(3) _ assms(7) assms(2), of w2] 1(2) only_changesD [OF 2(3) assms(3)] by simp
  moreover have "np_list unb64 send w2 = (w2, Inr (Respond 200 (JsonBody (JArr (index_item nid now # vs)))))"
    using np_list_index [of unb64 w2] 2(2) index_text_written [OF assms(8) assms(2)] by simp
  ultimately show ?thesis by blast
qed

lemma np_update_locked:
  assumes "key_ok (note_key nid)" and "value_of w (note_key nid) = Some (to_base64 (stringify (JObj ps)))"
    and "doc_ok (JObj ps)" and "decodes_base64 unb64" and "truthy (map_of ps (js ''locked''))" and "JSON_parse body = Some b"
  shows "np_update msg unb64 send now nid body w = (w, Inr (text_response 403 ''Note is locked''))"
  using assms get_law [OF assms(1), of w]
  by (simp add: np_update_def parse_json_def act_eval read_document doc_text_not_Nil of_opt_def)

lemma save_step:
  assumes "\<not> fixed w index_key" and "key_ok k" and "k \<noteq> index_key" and "\<And>j. r = Some j \<Longrightarrow> doc_ok j"
  shows "\<exists>w'. (case r of None \<Rightarrow> act_return () | Some j \<Rightarrow> np_saveIndex send j) w = (w', Inr ())
    \<and> value_of w' k = value_of w k \<and> fixed w' k = fixed w k"
proof (cases r)
  case (Some j)
  from write_index_ok [OF index_key_ok assms(4) [OF Some] assms(1)] obtain w' where
    "write_index index_key send j w = (w', Inr ())" and c: "only_changes value_of fixed index_key w w'"
    by blast
  with only_changesD [OF c assms(2,3)] Some show ?thesis by (auto simp: np_saveIndex_def)
qed (simp add: act_basic)

lemma np_lock_fixes:
  assumes "key_ok (note_key nid)" and "value_of w (note_key nid) = Some (to_base64 (stringify (JObj ps)))"
    and "doc_ok (JObj ps)" and "decodes_base64 unb64" and "\<not> fixed w (note_key nid)" and "\<not> fixed w index_key"
    and "doc_ok (JObj (locked_note now ps))" and "index_text unb64 (value_of w index_key) = JArr vs"
    and "update_item ''id'' nid [(''locked'', Some (JBool True)), (''updatedAt'', Some (JStr now))] (JArr vs) = Inr r"
    and "\<And>j. r = Some j \<Longrightarrow> doc_ok j"
    and "message_ok (stringify (locked_message nid (map_of (locked_note now ps) (js ''author''))))"
  shows "\<exists>w'. np_lock shown unb64 send now nid w
      = (w', Inr (Respond 200 (JsonBody (JObj (spread [(js ''id'', JStr nid)] (JObj (locked_note now ps)))))))
    \<and> value_of w' (note_key nid) = Some (to_base64 (stringify (JObj (locked_note now ps)))) \<and> fixed w' (note_key nid)"
proof -
  let ?n = "JObj (locked_note now ps)"
  from lock_document [OF assms(1) assms(7) assms(5)] obtain w1 where
    1: "send (lock_text (note_key nid) (to_base64 (stringify ?n))) w = (w1, Inr ROk)"
      "value_of w1 (note_key nid) = Some (to_base64 (stringify ?n))" "fixed w1 (note_key nid)"
      "only_changes value_of fixed (note_key nid) w w1"
    by blast
  have i: "\<not> fixed w1 index_key" "read_index index_key unb64 send w1 = (w1, Inr (JArr vs))"
    using only_changesD [OF 1(4)] assms(6,8) read_index [of index_key unb64 w1] by simp_all
  from save_step [OF i(1) assms(1) note_key_not_index(1) assms(10)] obtain w2 where
    2: "(case r of None \<Rightarrow> act_return () | Some j \<Rightarrow> np_saveIndex send j) w1 = (w2, Inr ())"
      "value_of w2 (note_key nid) = value_of w1 (note_key nid)" "fixed w2 (note_key nid) = fixed w1 (note_key nid)"
    by blast
  have g: "send (get_text (note_key nid)) w = (w, Inr (RBulk (to_base64 (stringify (JObj ps)))))"
    using get_law [OF assms(1), of w] assms(2) by simp
  have p: "parse_json (utf8_text (unb64 (to_base64 (stringify (JObj ps))))) w = (w, Inr (JObj ps))"
    by (simp add: parse_json_def act_basic of_opt_def read_document assms)
  have a: "send (js ''PUB notes '' @ stringify (locked_message nid (map_of (locked_note now ps) (js ''author'')))) w2
      = (w2, Inr ROk)"
    unfolding pub_notes_text by (rule pub_law [OF notes_key_ok assms(11)])
  have "np_lock shown unb64 send now nid w = (w2, Inr (Respond 200 (JsonBody (JObj (spread [(js ''id'', JStr nid)] ?n)))))"
    unfolding np_lock_def
    by (rule act_catch_ok)
      (simp only: act_bind_ok g p 1(1) i(2) 2(1) a np_getIndex_def assign_locked assms(9) act_basic
        doc_text_not_Nil [OF assms(3)] WormResponse.case if_False jfield_obj)
  then show ?thesis using 1(2,3) 2(2,3) by simp
qed

lemma np_update_merges:
  assumes "key_ok (note_key nid)" and "value_of w (note_key nid) = Some (to_base64 (stringify (JObj ps)))"
    and "doc_ok (JObj ps)" and "decodes_base64 unb64" and "\<not> fixed w (note_key nid)" and "\<not> fixed w index_key"
    and "\<not> truthy (map_of ps (js ''locked''))" and "JSON_parse body = Some (JObj bs)"
    and "doc_ok (JObj (merged_note now bs ps))" and "index_text unb64 (value_of w index_key) = JArr vs"
    and "update_item ''id'' nid [(''title'', map_of (merged_note now bs ps) (js ''title'')), (''updatedAt'', Some (JStr now)),
        (''locked'', Some (JBool (truthy (map_of (merged_note now bs ps) (js ''locked'')))))] (JArr vs) = Inr r"
    and "\<And>j. r = Some j \<Longrightarrow> doc_ok j"
  shows "\<exists>w' doc. np_update msg unb64 send now nid body w = (w', Inr (Respond 200 (JsonBody doc)))
    \<and> doc = JObj (spread [(js ''id'', JStr nid)] (JObj (merged_note now bs ps)))
    \<and> np_read unb64 send nid w' = (w', Inr (Respond 200 (JsonBody doc)))"
proof -
  let ?n = "JObj (merged_note now bs ps)"
  from put_document [OF assms(1) assms(9) assms(5)] obtain w1 where
    1: "send (set_text (note_key nid) (to_base64 (stringify ?n))) w = (w1, Inr ROk)"
      "value_of w1 (note_key nid) = Some (to_base64 (stringify ?n))" "only_changes value_of fixed (note_key nid) w w1"
    by blast
  have i: "\<not> fixed w1 index_key" "read_index index_key unb64 send w1 = (w1, Inr (JArr vs))"
    using only_changesD [OF 1(3)] assms(6,10) read_index [of index_key unb64 w1] by simp_all
  from save_step [OF i(1) assms(1) note_key_not_index(1) assms(12)] obtain w2 where
    2: "(case r of None \<Rightarrow> act_return () | Some j \<Rightarrow> np_saveIndex send j) w1 = (w2, Inr ())"
      "value_of w2 (note_key nid) = value_of w1 (note_key nid)"
    by blast
  have g: "send (get_text (note_key nid)) w = (w, Inr (RBulk (to_base64 (stringify (JObj ps)))))"
    using get_law [OF assms(1), of w] assms(2) by simp
  have p: "parse_json (utf8_text (unb64 (to_base64 (stringify (JObj ps))))) w = (w, Inr (JObj ps))"
    "parse_json body w = (w, Inr (JObj bs))"
    by (simp_all add: parse_json_def act_basic of_opt_def read_document assms)
  have u: "np_update msg unb64 send now nid body w
      = (w2, Inr (Respond 200 (JsonBody (JObj (spread [(js ''id'', JStr nid)] ?n)))))"
    unfolding np_update_def
    by (rule act_catch_ok)
      (simp only: act_bind_ok g p 1(1) i(2) 2(1) np_getIndex_def assms(7,11) merge_note_objects and_then_simps act_basic
        doc_text_not_Nil [OF assms(3)] WormResponse.case if_True if_False jfield_obj not_False_eq_True)
  have "np_read unb64 send nid w2 = (w2, Inr (Respond 200 (JsonBody (JObj (spread [(js ''id'', JStr nid)] ?n)))))"
    using np_read_stored [OF assms(1) _ assms(9) assms(4), of w2] 1(2) 2(2) by simp
  with u show ?thesis by blast
qed

lemma np_delete_fixed:
  assumes "key_ok (note_key nid)" and "fixed w (note_key nid)" and "\<not> fixed w index_key"
    and "index_text unb64 (value_of w index_key) = JArr vs" and "all_objects vs"
    and "doc_ok (JArr (filter (\<lambda>v. \<not> has_id ''id'' nid v) vs))" and "message_ok (stringify (deleted_message nid))"
    and "decodes_base64 unb64"
  shows "\<exists>w'. np_delete msg shown unb64 send nid w = (w', Inr (Respond 204 NoBody))
    \<and> value_of w' (note_key nid) = value_of w (note_key nid) \<and> fixed w' (note_key nid)
    \<and> np_list unb64 send w' = (w', Inr (Respond 200 (JsonBody (JArr (filter (\<lambda>v. \<not> has_id ''id'' nid v) vs)))))"
proof -
  let ?vs = "filter (\<lambda>v. \<not> has_id ''id'' nid v) vs"
  from del_fixed_law [OF assms(1,2)] obtain m w1 where
    1: "send (del_text (note_key nid)) w = (w1, Inr m)" "\<And>k'. value_of w1 k' = value_of w k'" "\<And>k'. fixed w1 k' = fixed w k'"
    by blast
  have i: "\<not> fixed w1 index_key" "read_index index_key unb64 send w1 = (w1, Inr (JArr vs))"
    using 1 assms(3,4) read_index [of index_key unb64 w1] by simp_all
  from write_index_ok [OF index_key_ok assms(6) i(1)] obtain w2 where
    2: "write_index index_key send (JArr ?vs) w1 = (w2, Inr ())" "value_of w2 index_key = Some (to_base64 (stringify (JArr ?vs)))"
      "only_changes value_of fixed index_key w1 w2"
    by blast
  have a: "send (js ''PUB notes '' @ stringify (deleted_message nid)) w2 = (w2, Inr ROk)"
    unfolding pub_notes_text by (rule pub_law [OF notes_key_ok assms(7)])
  have "np_delete msg shown unb64 send nid w = (w2, Inr (Respond 204 NoBody))"
    unfolding np_delete_def
    by (rule act_catch_ok)
      (simp only: act_bind_ok 1(1) i(2) 2(1) a np_getIndex_def np_saveIndex_def remove_item_objects [OF assms(5)] act_basic)
  moreover have "np_list unb64 send w2 = (w2, Inr (Respond 200 (JsonBody (JArr ?vs))))"
    using np_list_index [of unb64 w2] 2(2) index_text_written [OF assms(6) assms(8)] by simp
  ultimately show ?thesis using only_changesD [OF 2(3) assms(1)] 1 assms(2) by auto
qed

end

subsection \<open>The notepad on the key-value store\<close>

text \<open>
A created note is stored and listed: the POST answers 201 with a document, a GET of the new identifier then
answers 200 with the same document, and the list of notes is the old one with the new item in front.
\<close>

theorem note_created_is_read:
  assumes "nid = generateULID ms36 uuid" and "decodes_base64 unb64" and "key_ok (note_key nid)"
    and "\<not> key_fixed s (note_key nid)" and "\<not> key_fixed s index_key"
    and "index_text unb64 (stored_text s index_key) = JArr vs"
    and "doc_ok (JObj (new_note now))" and "doc_ok (JArr (index_item nid now # vs))"
  shows "\<exists>s' doc. np_create unb64 (store_send other) now ms36 uuid s = (s', Inr (Respond 201 (JsonBody doc)))
    \<and> np_read unb64 (store_send other) nid s' = (s', Inr (Respond 200 (JsonBody doc)))
    \<and> np_list unb64 (store_send other) s' = (s', Inr (Respond 200 (JsonBody (JArr (index_item nid now # vs)))))"
  using assms by (rule kv.np_create_reads)

abbreviation "empty_store \<equiv> \<lparr>st_live = Map.empty, st_frozen = Map.empty\<rparr>"
abbreviation "no_other \<equiv> (\<lambda>s c. (s, ZOk))"

lemma empty_store_facts [simp]: "stored_text empty_store k = None" "\<not> key_fixed empty_store k"
  by (simp_all add: stored_text_def getValueDupe_def key_fixed_def worm_violation_def)

lemmas doc_simps = stringify.simps quote_js length_js
theorem note_created_is_read_witness:
  "\<exists>s' doc. np_create plain_unb64 (store_send no_other) (js ''t'') (js ''m'') (js ''u'') empty_store
      = (s', Inr (Respond 201 (JsonBody doc)))
    \<and> np_read plain_unb64 (store_send no_other) (js ''000000000MU'') s' = (s', Inr (Respond 200 (JsonBody doc)))
    \<and> np_list plain_unb64 (store_send no_other) s'
      = (s', Inr (Respond 200 (JsonBody (JArr [index_item (js ''000000000MU'') (js ''t'')]))))"
proof (rule note_created_is_read)
  show "js ''000000000MU'' = generateULID (js ''m'') (js ''u'')"
    by code_simp
  show "key_ok (note_key (js ''000000000MU''))" by (simp add: note_key_def key_simps)
  show "doc_ok (JObj (new_note (js ''t'')))"
    by (rule doc_ok_obj) (simp_all add: new_note_def doc_simps)
  show "doc_ok (JArr (index_item (js ''000000000MU'') (js ''t'') # []))"
    by (rule doc_ok_arr) (simp_all add: index_item_def doc_simps)
qed (simp_all add: plain_unb64_decodes index_text_def)

text \<open>
An update of an unlocked note merges the body into it: the PUT answers 200 with a document whose title, body and
author are those of the body where it has them and the note's own otherwise, whose time is the time of the update and
whose other properties are unchanged, and a GET then returns the same document.
\<close>

theorem note_update_merges:
  assumes "key_ok (note_key nid)" and "stored_text s (note_key nid) = Some (to_base64 (stringify (JObj ps)))"
    and "doc_ok (JObj ps)" and "decodes_base64 unb64" and "\<not> key_fixed s (note_key nid)" and "\<not> key_fixed s index_key"
    and "\<not> truthy (map_of ps (js ''locked''))" and "JSON_parse body = Some (JObj bs)"
    and "doc_ok (JObj (merged_note now bs ps))" and "index_text unb64 (stored_text s index_key) = JArr vs"
    and "update_item ''id'' nid [(''title'', map_of (merged_note now bs ps) (js ''title'')), (''updatedAt'', Some (JStr now)),
        (''locked'', Some (JBool (truthy (map_of (merged_note now bs ps) (js ''locked'')))))] (JArr vs) = Inr r"
    and "\<And>j. r = Some j \<Longrightarrow> doc_ok j"
  shows "\<exists>s' doc qs. np_update msg unb64 (store_send other) now nid body s = (s', Inr (Respond 200 (JsonBody doc)))
    \<and> doc = JObj (spread [(js ''id'', JStr nid)] (JObj qs))
    \<and> (\<forall>k. map_of qs k = (if k = js ''updatedAt'' then Some (JStr now)
        else if k \<in> {js ''title'', js ''body'', js ''author''} then nullish (map_of bs k) (map_of ps k) else map_of ps k))
    \<and> np_read unb64 (store_send other) nid s' = (s', Inr (Respond 200 (JsonBody doc)))"
  using kv.np_update_merges [OF assms, of msg other] map_of_merged_note [of now bs ps] by blast

text \<open>A store with one note under the identifier \<open>1\<close>, and no index.\<close>

abbreviation "one_note ps \<equiv>
  \<lparr>st_live = [encodeUtf8 (note_key (js ''1'')) \<mapsto> \<lparr>en_value = encodeUtf8 (to_base64 (stringify (JObj ps))), en_worm = False\<rparr>],
   st_frozen = Map.empty\<rparr>"

lemma key_one [simp]: "key_ok (note_key (js ''1''))"
  by (simp add: note_key_def key_simps)

lemma one_note_facts:
  "doc_ok (JObj ps) \<Longrightarrow> stored_text (one_note ps) (note_key (js ''1'')) = Some (to_base64 (stringify (JObj ps)))"
  "stored_text (one_note ps) index_key = None" "\<not> key_fixed (one_note ps) k"
proof -
  show "doc_ok (JObj ps) \<Longrightarrow> stored_text (one_note ps) (note_key (js ''1'')) = Some (to_base64 (stringify (JObj ps)))"
    by (simp add: stored_text_def getValueDupe_def value_ok_decode doc_value_ok)
  have "encodeUtf8 index_key \<noteq> encodeUtf8 (note_key (js ''1''))" using key_ok_inj by simp
  then show "stored_text (one_note ps) index_key = None" by (simp add: stored_text_def getValueDupe_def)
  show "\<not> key_fixed (one_note ps) k" by (simp add: key_fixed_def worm_violation_def)
qed

theorem note_update_merges_witness:
  "\<exists>s' doc qs. np_update (\<lambda>_. []) plain_unb64 (store_send no_other) (js ''t'') (js ''1'') (js ''{}'') (one_note [])
      = (s', Inr (Respond 200 (JsonBody doc)))
    \<and> doc = JObj (spread [(js ''id'', JStr (js ''1''))] (JObj qs))
    \<and> (\<forall>k. map_of qs k = (if k = js ''updatedAt'' then Some (JStr (js ''t''))
        else if k \<in> {js ''title'', js ''body'', js ''author''} then nullish (map_of [] k) (map_of [] k) else map_of [] k))
    \<and> np_read plain_unb64 (store_send no_other) (js ''1'') s' = (s', Inr (Respond 200 (JsonBody doc)))"
proof (rule note_update_merges)
  have d: "doc_ok (JObj [])" by (rule doc_ok_obj) (simp_all add: doc_simps)
  then show "doc_ok (JObj [])" .
  show "stored_text (one_note []) (note_key (js ''1'')) = Some (to_base64 (stringify (JObj [])))" by (rule one_note_facts(1) [OF d])
  show "doc_ok (JObj (merged_note (js ''t'') [] []))"
    by (rule doc_ok_obj) (simp_all add: merged_note_def obj_assign_def obj_set_def doc_simps)
  show "JSON_parse (js ''{}'') = Some (JObj [])" by code_simp
  show "index_text plain_unb64 (stored_text (one_note []) index_key) = JArr []"
    by (simp add: one_note_facts index_text_def)
  show "update_item ''id'' (js ''1'') [(''title'', map_of (merged_note (js ''t'') [] []) (js ''title'')), (''updatedAt'', Some (JStr (js ''t''))),
      (''locked'', Some (JBool (truthy (map_of (merged_note (js ''t'') [] []) (js ''locked'')))))] (JArr []) = Inr None"
    by (simp add: update_item_def)
qed (simp_all add: plain_unb64_decodes one_note_facts)

text \<open>
C25: locking a note is final: the lock answers 200 and writes the note with the WORM flag, and from then on every update
with a JSON body is answered 403 and leaves the store as it is.
\<close>

theorem note_lock_is_final:
  assumes "key_ok (note_key nid)" and "stored_text s (note_key nid) = Some (to_base64 (stringify (JObj ps)))"
    and "doc_ok (JObj ps)" and "decodes_base64 unb64" and "\<not> key_fixed s (note_key nid)" and "\<not> key_fixed s index_key"
    and "doc_ok (JObj (locked_note now ps))" and "index_text unb64 (stored_text s index_key) = JArr vs"
    and "update_item ''id'' nid [(''locked'', Some (JBool True)), (''updatedAt'', Some (JStr now))] (JArr vs) = Inr r"
    and "\<And>j. r = Some j \<Longrightarrow> doc_ok j"
    and "message_ok (stringify (locked_message nid (map_of (locked_note now ps) (js ''author''))))"
  shows "\<exists>s' doc. np_lock shown unb64 (store_send other) now nid s = (s', Inr (Respond 200 (JsonBody doc)))
    \<and> key_fixed s' (note_key nid)
    \<and> (\<forall>msg now' body b. JSON_parse body = Some b \<longrightarrow>
         np_update msg unb64 (store_send other) now' nid body s' = (s', Inr (text_response 403 ''Note is locked'')))"
proof -
  from kv.np_lock_fixes [OF assms, of shown other] obtain s' where
    s': "np_lock shown unb64 (store_send other) now nid s
      = (s', Inr (Respond 200 (JsonBody (JObj (spread [(js ''id'', JStr nid)] (JObj (locked_note now ps)))))))"
      "stored_text s' (note_key nid) = Some (to_base64 (stringify (JObj (locked_note now ps))))" "key_fixed s' (note_key nid)"
    by blast
  have "np_update msg unb64 (store_send other) now' nid body s' = (s', Inr (text_response 403 ''Note is locked''))"
    if "JSON_parse body = Some b" for msg now' body b
    by (rule kv.np_update_locked [OF assms(1) s'(2) assms(7) assms(4) _ that]) simp
  with s' show ?thesis by blast
qed

theorem note_lock_is_final_witness:
  "\<exists>s' doc. np_lock (\<lambda>_. []) plain_unb64 (store_send no_other) (js ''t'') (js ''1'') (one_note [])
      = (s', Inr (Respond 200 (JsonBody doc)))
    \<and> key_fixed s' (note_key (js ''1''))
    \<and> (\<forall>msg now' body b. JSON_parse body = Some b \<longrightarrow>
         np_update msg plain_unb64 (store_send no_other) now' (js ''1'') body s' = (s', Inr (text_response 403 ''Note is locked'')))"
proof (rule note_lock_is_final)
  have d: "doc_ok (JObj [])" by (rule doc_ok_obj) (simp_all add: doc_simps)
  then show "doc_ok (JObj [])" .
  show "stored_text (one_note []) (note_key (js ''1'')) = Some (to_base64 (stringify (JObj [])))" by (rule one_note_facts(1) [OF d])
  show "doc_ok (JObj (locked_note (js ''t'') []))"
    by (rule doc_ok_obj) (simp_all add: locked_note_def obj_assign_def obj_set_def doc_simps)
  show "index_text plain_unb64 (stored_text (one_note []) index_key) = JArr []"
    by (simp add: one_note_facts index_text_def)
  show "update_item ''id'' (js ''1'') [(''locked'', Some (JBool True)), (''updatedAt'', Some (JStr (js ''t'')))] (JArr []) = Inr None"
    by (simp add: update_item_def)
  show "message_ok (stringify (locked_message (js ''1'') (map_of (locked_note (js ''t'') []) (js ''author''))))"
    by (simp add: message_ok_def locked_message_def locked_note_def map_of_obj_assign doc_simps is_ws_def)
qed (simp_all add: plain_unb64_decodes one_note_facts)

text \<open>
Deleting a locked note reports success: the store refuses the DEL, but the error response is not looked at, so the
note vanishes from the index and the DELETE answers 204 while the note stays stored under its key.
\<close>

theorem note_delete_of_locked_succeeds:
  assumes "key_ok (note_key nid)" and "key_fixed s (note_key nid)" and "\<not> key_fixed s index_key"
    and "index_text unb64 (stored_text s index_key) = JArr vs" and "all_objects vs"
    and "doc_ok (JArr (filter (\<lambda>v. \<not> has_id ''id'' nid v) vs))" and "message_ok (stringify (deleted_message nid))"
    and "decodes_base64 unb64"
  shows "\<exists>s'. np_delete msg shown unb64 (store_send other) nid s = (s', Inr (Respond 204 NoBody))
    \<and> stored_text s' (note_key nid) = stored_text s (note_key nid) \<and> key_fixed s' (note_key nid)
    \<and> np_list unb64 (store_send other) s' = (s', Inr (Respond 200 (JsonBody (JArr (filter (\<lambda>v. \<not> has_id ''id'' nid v) vs)))))"
  using assms by (rule kv.np_delete_fixed)

abbreviation "fixed_note \<equiv>
  \<lparr>st_live = [encodeUtf8 (note_key (js ''1'')) \<mapsto> \<lparr>en_value = [123, 125], en_worm = True\<rparr>], st_frozen = Map.empty\<rparr>"

theorem note_delete_of_locked_succeeds_witness:
  "\<exists>s'. np_delete (\<lambda>_. []) (\<lambda>_. []) plain_unb64 (store_send no_other) (js ''1'') fixed_note = (s', Inr (Respond 204 NoBody))
    \<and> stored_text s' (note_key (js ''1'')) = stored_text fixed_note (note_key (js ''1'')) \<and> key_fixed s' (note_key (js ''1''))
    \<and> np_list plain_unb64 (store_send no_other) s'
      = (s', Inr (Respond 200 (JsonBody (JArr (filter (\<lambda>v. \<not> has_id ''id'' (js ''1'') v) [])))))"
proof (rule note_delete_of_locked_succeeds)
  have e: "encodeUtf8 index_key \<noteq> encodeUtf8 (note_key (js ''1''))" using key_ok_inj by simp
  show "key_fixed fixed_note (note_key (js ''1''))" by (simp add: key_fixed_def worm_violation_def)
  show "\<not> key_fixed fixed_note index_key" using e by (simp add: key_fixed_def worm_violation_def)
  show "index_text plain_unb64 (stored_text fixed_note index_key) = JArr []"
    using e by (simp add: stored_text_def getValueDupe_def index_text_def)
  show "doc_ok (JArr (filter (\<lambda>v. \<not> has_id ''id'' (js ''1'') v) []))"
    by (rule doc_ok_arr) (simp_all add: doc_simps)
  show "message_ok (stringify (deleted_message (js ''1'')))"
    by (simp add: message_ok_def deleted_message_def doc_simps is_ws_def)
qed (simp_all add: plain_unb64_decodes all_objects_def)

text \<open>
  The save endpoint never saves: \<open>SAVE\<close> is not a command of the text protocol, so \<open>client.send\<close>
  throws before anything is sent and the request fails.
\<close>

theorem note_save_throws:
  "np_save (store_send other) s = (s, Inl (CommandFailure (UnsupportedCommand (js ''SAVE''))))"
proof -
  have "parseCommand (js ''SAVE'') = Inl (UnsupportedCommand (js ''SAVE''))" by code_simp
  then show ?thesis by (simp add: np_save_def act_bind_def store_send_def)
qed

end
