(* ===== verification/Js_Parse.thy ===== *)
theory Js_Parse
  imports Http
begin

section \<open>Numbers and percent-encoding in text\<close>

text \<open>
  The functions of the language with which the servers read text: \<open>parseInt(s)\<close> and
  \<open>decodeURIComponent(s)\<close>. Integers are exact; the counters they read stay below \<open>2 ^ 53\<close>.
\<close>

subsection \<open>\<open>parseInt\<close>\<close>

text \<open>\<open>None\<close> is \<open>NaN\<close>.\<close>

definition radix_value :: "nat \<Rightarrow> u16 \<Rightarrow> nat option" where
  "radix_value r c = (case hex_val c of Some d \<Rightarrow> if d < r then Some d else None | None \<Rightarrow> None)"

definition digits_value :: "nat \<Rightarrow> jstring \<Rightarrow> nat" where
  "digits_value r ds = foldl (\<lambda>n c. n * r + the (radix_value r c)) 0 ds"

definition parse_digits :: "nat \<Rightarrow> jstring \<Rightarrow> nat option" where
  "parse_digits r s =
     (let ds = takeWhile (\<lambda>c. radix_value r c \<noteq> None) s
      in if ds = [] then None else Some (digits_value r ds))"

definition parseInt :: "jstring \<Rightarrow> int option" where
  "parseInt s =
     (let t = trimStart s;
          sign = (if t \<noteq> [] \<and> hd t = 45 then - 1 else 1);
          t = (if t \<noteq> [] \<and> (hd t = 43 \<or> hd t = 45) then tl t else t)
      in map_option (\<lambda>n. sign * int n)
           (if startsWith t (js ''0x'') \<or> startsWith t (js ''0X'') then parse_digits 16 (drop 2 t)
            else parse_digits 10 t))"

text \<open>A number in a response: \<open>NaN\<close> is printed as \<open>null\<close>.\<close>

definition json_int :: "int option \<Rightarrow> json" where
  "json_int n = (case n of None \<Rightarrow> JNull | Some i \<Rightarrow> JNum (String_int i))"

lemma radix_value_digit: "d < 10 \<Longrightarrow> radix_value 10 (of_nat (48 + d)) = Some d"
proof -
  assume "d < 10"
  then have "unat (of_nat (48 + d) :: u16) = 48 + d" by (intro unat_of_nat16) simp
  with \<open>d < 10\<close> show ?thesis by (simp add: radix_value_def hex_val_def Let_def del: of_nat_add)
qed

lemma digits_of_radix: "\<forall>c \<in> set (digits_of n). radix_value 10 c \<noteq> None"
proof (induction n rule: digits_of.induct)
  case (1 n)
  then show ?case
    using radix_value_digit [of n] radix_value_digit [of "n mod 10"] by (subst digits_of.simps) (auto simp del: digits_of.simps)
qed

lemma digits_value_of: "digits_value 10 (digits_of n) = n"
proof (induction n rule: digits_of.induct)
  case (1 n)
  then show ?case
    using radix_value_digit [of n] radix_value_digit [of "n mod 10"]
    by (subst digits_of.simps) (auto simp: digits_value_def simp del: digits_of.simps)
qed

lemma digits_of_not_Nil: "digits_of n \<noteq> []"
  by (subst digits_of.simps) simp

lemma digits_of_hd: "\<not> is_ws (hd (digits_of n)) \<and> hd (digits_of n) \<notin> {43, 45}"
proof -
  have "radix_value 10 (hd (digits_of n)) \<noteq> None" using digits_of_radix digits_of_not_Nil hd_in_set by blast
  then have "48 \<le> unat (hd (digits_of n)) \<and> unat (hd (digits_of n)) \<le> 102"
    by (auto simp: radix_value_def hex_val_def Let_def split: if_splits option.splits)
  then show ?thesis using is_ws_range [of "hd (digits_of n)"] by auto
qed

lemma digits_of_no_x: "\<not> startsWith (digits_of n) (js ''0x'') \<and> \<not> startsWith (digits_of n) (js ''0X'')"
proof -
  have "radix_value 10 (120 :: u16) = None" "radix_value 10 (88 :: u16) = None"
    by (simp_all add: radix_value_def hex_val_def)
  then have "120 \<notin> set (digits_of n)" "88 \<notin> set (digits_of n)" using digits_of_radix by metis+
  moreover have "(120 :: u16) \<in> set (js ''0x'')" "(88 :: u16) \<in> set (js ''0X'')" by (simp_all add: js_simps)
  ultimately show ?thesis by (auto simp: startsWith_iff)
qed

text \<open>\<open>parseInt\<close> reads back what \<open>String\<close> prints for a natural number.\<close>

lemma parseInt_digits: "parseInt (digits_of n) = Some (int n)"
proof -
  have "trimStart (digits_of n) = digits_of n"
    using digits_of_hd [of n] by (cases "digits_of n") (auto simp: trimStart_def)
  moreover have "takeWhile (\<lambda>c. radix_value 10 c \<noteq> None) (digits_of n) = digits_of n"
    using digits_of_radix by (simp add: takeWhile_eq_all_conv)
  then have "parse_digits 10 (digits_of n) = Some n"
    by (simp only: parse_digits_def Let_def digits_value_of digits_of_not_Nil if_False)
  ultimately show ?thesis
    using digits_of_hd [of n] digits_of_no_x [of n] by (simp add: parseInt_def Let_def)
qed

lemma digits_of_ascii: "c \<in> set (digits_of n) \<Longrightarrow> 48 \<le> unat c \<and> unat c \<le> 57"
proof -
  assume "c \<in> set (digits_of n)"
  then have "radix_value 10 c \<noteq> None" using digits_of_radix by blast
  then show ?thesis by (auto simp: radix_value_def hex_val_def Let_def split: if_splits option.splits)
qed

lemma length_digits_of: "n < 10 ^ Suc k \<Longrightarrow> length (digits_of n) \<le> Suc k"
proof (induction k arbitrary: n)
  case (Suc k)
  then have "n div 10 < 10 ^ Suc k" by (simp add: less_mult_imp_div_less mult.commute)
  with Suc.IH [of "n div 10"] show ?case by (subst digits_of.simps) simp
qed (subst digits_of.simps; simp)

subsection \<open>\<open>decodeURIComponent\<close>\<close>

text \<open>\<open>None\<close> is the \<open>URIError\<close>. An escaped character is the UTF-8 of one code point, each byte escaped.\<close>

definition percent_byte :: "jstring \<Rightarrow> (nat \<times> jstring) option" where
  "percent_byte s =
     (case s of
        p # a # b # r \<Rightarrow>
          if p = 37 then
            (case (hex_val a, hex_val b) of
               (Some x, Some y) \<Rightarrow> Some (x * 16 + y, r)
             | _ \<Rightarrow> None)
          else None
      | _ \<Rightarrow> None)"

fun percent_tail :: "nat \<Rightarrow> jstring \<Rightarrow> (nat list \<times> jstring) option" where
  "percent_tail 0 s = Some ([], s)"
| "percent_tail (Suc n) s =
     (case percent_byte s of
        None \<Rightarrow> None
      | Some (b, r) \<Rightarrow> map_option (apfst ((#) b)) (percent_tail n r))"

text \<open>The code point whose UTF-8 the bytes are: overlong forms, surrogates and stray bytes are refused.\<close>

definition code_point_of :: "nat list \<Rightarrow> nat option" where
  "code_point_of bs =
     (case bs of
        [] \<Rightarrow> None
      | b # r \<Rightarrow>
          let lead = (if length bs = 1 then b else if length bs = 2 then b - 192 else if length bs = 3 then b - 224 else b - 240);
              cp = foldl (\<lambda>n c. n * 64 + (c - 128)) lead r
          in if map unat (utf8_of cp) = bs \<and> \<not> (0xD800 \<le> cp \<and> cp \<le> 0xDFFF) \<and> cp \<le> 0x10FFFF then Some cp else None)"

definition percent_length :: "nat \<Rightarrow> nat option" where
  "percent_length b =
     (if b < 128 then Some 0
      else if 192 \<le> b \<and> b < 224 then Some 1
      else if 224 \<le> b \<and> b < 240 then Some 2
      else if 240 \<le> b \<and> b < 248 then Some 3
      else None)"

definition percent_char :: "jstring \<Rightarrow> (jstring \<times> jstring) option" where
  "percent_char s =
     Option.bind (percent_byte s) (\<lambda>(b, r).
     Option.bind (percent_length b) (\<lambda>n.
     Option.bind (percent_tail n r) (\<lambda>(bs, r').
     map_option (\<lambda>cp. (units cp, r')) (code_point_of (b # bs)))))"

lemma percent_byte_shorter: "percent_byte s = Some (b, r) \<Longrightarrow> length r < length s"
  by (auto simp: percent_byte_def split: list.splits if_splits option.splits)

lemma percent_tail_shorter: "percent_tail n s = Some (bs, r) \<Longrightarrow> length r \<le> length s"
  by (induction n arbitrary: s bs) (fastforce dest: percent_byte_shorter split: option.splits prod.splits)+

lemma percent_char_shorter: "percent_char s = Some (u, r) \<Longrightarrow> length r < length s"
  by (auto simp: percent_char_def bind_eq_Some_conv dest!: percent_byte_shorter percent_tail_shorter)

function decodeURIComponent :: "jstring \<Rightarrow> jstring option" where
  "decodeURIComponent [] = Some []"
| "decodeURIComponent (c # r) =
     (if c = 37 then
        (case percent_char (c # r) of
           None \<Rightarrow> None
         | Some (u, r1) \<Rightarrow> map_option ((@) u) (decodeURIComponent r1))
      else map_option ((#) c) (decodeURIComponent r))"
  by pat_completeness auto
termination
  by (relation "measure length") (auto dest!: percent_char_shorter)

declare decodeURIComponent.simps(2) [simp del]

lemma decodeURIComponent_plain: "37 \<notin> set s \<Longrightarrow> decodeURIComponent s = Some s"
  by (induction s) (auto simp: decodeURIComponent.simps(2))

end
