(* ===== verification/Kv_Procedures.thy ===== *)
theory Kv_Procedures
  imports Store_Index Js_Parse
begin

section \<open>The stored procedures of the explorer\<close>

text \<open>
  \<open>kv_put\<close>, \<open>kv_get\<close> and \<open>kv_stats\<close> (\<open>src/procedures\<close>), run by the executor on the store, with the
  operations of the procedure context they use (\<open>src/procedures/context.zig\<close>). The shard locks make a
  procedure one step; \<open>now\<close> is its timestamp; the counters stay below \<open>2 ^ 63\<close>. The rest of the
  registry is a parameter \<open>rest\<close>.
\<close>

subsection \<open>The procedure context\<close>

text \<open>\<open>Ctx.set\<close> ignores the error of the store, so a write of a WORM key is silently dropped.\<close>

definition ctx_set :: "store \<Rightarrow> bytes \<Rightarrow> bytes \<Rightarrow> store" where
  "ctx_set s k v = (case store_set s k v False of None \<Rightarrow> s | Some s' \<Rightarrow> s')"

text \<open>\<open>Ctx.fmt\<close>: a text longer than the scratch buffer is replaced by the empty one.\<close>

definition ctx_fmt :: "bytes \<Rightarrow> bytes" where
  "ctx_fmt b = (if length b \<le> 512 then b else [])"

definition lit :: "string \<Rightarrow> bytes" where
  "lit s = map of_char s"

definition decimal :: "int \<Rightarrow> bytes" where
  "decimal i = encodeUtf8 (String_int i)"

text \<open>\<open>std.fmt.parseInt(T, s, 10)\<close> for the range of \<open>T\<close>: a sign, then digits with \<open>_\<close> between them.\<close>

definition zig_digit :: "byte \<Rightarrow> nat option" where
  "zig_digit b = (if 48 \<le> unat b \<and> unat b \<le> 57 then Some (unat b - 48) else None)"

definition zig_digits :: "bytes \<Rightarrow> nat option" where
  "zig_digits b =
     (if b = [] \<or> hd b = 95 \<or> last b = 95 \<or> (\<exists>c \<in> set b. c \<noteq> 95 \<and> zig_digit c = None) then None
      else Some (foldl (\<lambda>n c. n * 10 + the (zig_digit c)) 0 (filter (\<lambda>c. c \<noteq> 95) b)))"

definition zig_parseInt :: "int \<Rightarrow> int \<Rightarrow> bytes \<Rightarrow> int option" where
  "zig_parseInt lo hi b =
     (let i = (if b \<noteq> [] \<and> hd b = 45 then map_option (\<lambda>n. - int n) (zig_digits (tl b))
               else if b \<noteq> [] \<and> hd b = 43 then map_option int (zig_digits (tl b))
               else map_option int (zig_digits b))
      in case i of None \<Rightarrow> None | Some i \<Rightarrow> if lo \<le> i \<and> i \<le> hi then Some i else None)"

abbreviation "parse_i64 \<equiv> zig_parseInt (- (2 ^ 63)) (2 ^ 63 - 1)"
abbreviation "parse_u64 \<equiv> zig_parseInt 0 (2 ^ 64 - 1)"

definition ctx_getInt :: "store \<Rightarrow> bytes \<Rightarrow> int option" where
  "ctx_getInt s k = (case getValueDupe s k of None \<Rightarrow> None | Some v \<Rightarrow> parse_i64 v)"

definition ctx_setInt :: "store \<Rightarrow> bytes \<Rightarrow> int \<Rightarrow> store" where
  "ctx_setInt s k i = ctx_set s k (decimal i)"

text \<open>The lines of a text; a final line break opens no line.\<close>

fun splitLines :: "bytes \<Rightarrow> bytes list" where
  "splitLines [] = []"
| "splitLines (c # r) =
     (if c = 10 then [] # splitLines r
      else case splitLines r of
        [] \<Rightarrow> [[c]]
      | l # ls \<Rightarrow> (c # l) # ls)"

definition line_value :: "string \<Rightarrow> bytes \<Rightarrow> bytes option" where
  "line_value prefix line =
     (if take (length prefix) line = lit prefix then Some (drop (length prefix) line) else None)"

abbreviation "ascii_bytes \<equiv> map (\<lambda>c :: u16. of_nat (unat c) :: byte)"

lemma lit_ascii: "lit s = ascii_bytes (js s)"
  by (simp only: lit_def js_def map_map comp_def unat_of_char_u16 of_nat_of_char)

lemma decimal_ascii: "decimal (int n) = ascii_bytes (digits_of n)"
  unfolding decimal_def String_int_def using digits_of_ascii [of _ n] by (subst encodeUtf8_ascii) force+

text \<open>The server reads the decimal text of a number as that number.\<close>

lemma digit_byte:
  assumes "c \<in> set (digits_of n)"
  defines "b \<equiv> of_nat (unat c) :: byte"
  shows "unat b = unat c" and "48 \<le> unat c \<and> unat c \<le> 57" and "zig_digit b = Some (the (radix_value 10 c))"
proof -
  show r: "48 \<le> unat c \<and> unat c \<le> 57" using assms(1) by (rule digits_of_ascii)
  then show u: "unat b = unat c" unfolding b_def by (intro unat_of_nat8) simp
  from r have "unat c - 48 < 10" by linarith
  with r show "zig_digit b = Some (the (radix_value 10 c))"
    unfolding zig_digit_def u by (simp add: radix_value_def hex_val_def Let_def)
qed

lemma digit_byte_range: "b \<in> set (ascii_bytes (digits_of n)) \<Longrightarrow> 48 \<le> unat b \<and> unat b \<le> 57"
  using digit_byte(1,2) [of _ n] by (auto simp del: of_nat_unat)

lemma zig_digits_of: "zig_digits (ascii_bytes (digits_of n)) = Some n"
proof -
  let ?b = "ascii_bytes (digits_of n)"
  have n: "b \<noteq> 95 \<and> zig_digit b \<noteq> None" if "b \<in> set ?b" for b
    using digit_byte_range [OF that] by (auto simp: zig_digit_def)
  have "?b \<noteq> []" using digits_of_not_Nil by simp
  then have "hd ?b \<noteq> 95" "last ?b \<noteq> 95" using n hd_in_set last_in_set by blast+
  moreover have "filter (\<lambda>c. c \<noteq> 95) ?b = ?b" using n by (intro filter_True) blast
  moreover have "foldl (\<lambda>v c. v * 10 + the (zig_digit c)) 0 ?b = digits_value 10 (digits_of n)"
    unfolding digits_value_def foldl_map
    by (rule foldl_cong) (simp_all add: digit_byte(3) [of _ n] del: of_nat_unat)
  ultimately show ?thesis
    using n \<open>?b \<noteq> []\<close> unfolding zig_digits_def by (auto simp: digits_value_of simp del: of_nat_unat)
qed

lemma zig_parseInt_digits:
  assumes "lo \<le> int n" and "int n \<le> hi"
  shows "zig_parseInt lo hi (encodeUtf8 (digits_of n)) = Some (int n)"
proof -
  have e: "encodeUtf8 (digits_of n) = ascii_bytes (digits_of n)"
    using decimal_ascii [of n] by (simp add: decimal_def String_int_def)
  have "hd (ascii_bytes (digits_of n)) \<in> set (ascii_bytes (digits_of n))" using digits_of_not_Nil by (intro hd_in_set) simp
  then have "hd (ascii_bytes (digits_of n)) \<noteq> 45" "hd (ascii_bytes (digits_of n)) \<noteq> 43"
    using digit_byte_range by fastforce+
  then show ?thesis
    using assms unfolding e zig_parseInt_def by (simp add: zig_digits_of Let_def del: of_nat_unat)
qed

subsection \<open>The procedures\<close>

definition meta_key :: "bytes \<Rightarrow> bytes" where
  "meta_key k = ctx_fmt (lit ''meta:'' @ k)"

definition meta_text :: "int \<Rightarrow> int \<Rightarrow> int \<Rightarrow> int \<Rightarrow> bytes" where
  "meta_text created updated wrs rds =
     ctx_fmt (lit ''created='' @ decimal created @ [10] @ lit ''updated='' @ decimal updated
       @ [10] @ lit ''writes='' @ decimal wrs @ [10] @ lit ''reads='' @ decimal rds)"

text \<open>The last line that has the prefix and a number.\<close>

definition meta_field :: "(bytes \<Rightarrow> int option) \<Rightarrow> string \<Rightarrow> bytes option \<Rightarrow> int option" where
  "meta_field parse prefix raw =
     (case raw of
        None \<Rightarrow> None
      | Some b \<Rightarrow> foldl (\<lambda>r line. case Option.bind (line_value prefix line) parse of None \<Rightarrow> r | Some n \<Rightarrow> Some n) None
          (splitLines b))"

definition kv_put :: "int \<Rightarrow> bytes list \<Rightarrow> store \<Rightarrow> store \<times> ZResponse" where
  "kv_put now as s =
     (case as of
        key # val # _ \<Rightarrow>
          let mk = meta_key key;
              s = ctx_set s key val;
              s = ctx_setInt s (lit ''stats:writes'') ((case ctx_getInt s (lit ''stats:writes'') of Some n \<Rightarrow> n | None \<Rightarrow> 0) + 1);
              raw = getValueDupe s mk;
              wrs = (case meta_field parse_i64 ''writes='' raw of Some n \<Rightarrow> n + 1 | None \<Rightarrow> 1);
              created = (case meta_field parse_u64 ''created='' raw of Some n \<Rightarrow> n | None \<Rightarrow> now)
          in (ctx_set s mk (meta_text created now wrs 0), ZOk)
      | _ \<Rightarrow> (s, ZErr (lit ''kv_put requires 2 args: <key> <value>'')))"

definition kv_get :: "int \<Rightarrow> bytes list \<Rightarrow> store \<Rightarrow> store \<times> ZResponse" where
  "kv_get now as s =
     (case as of
        key # _ \<Rightarrow>
          (case getValueDupe s key of
             None \<Rightarrow> (s, ZErr (lit ''key_not_found''))
           | Some val \<Rightarrow>
               let mk = meta_key key;
                   s = ctx_setInt s (lit ''stats:reads'') ((case ctx_getInt s (lit ''stats:reads'') of Some n \<Rightarrow> n | None \<Rightarrow> 0) + 1);
                   raw = getValueDupe s mk;
                   rds = (case meta_field parse_i64 ''reads='' raw of Some n \<Rightarrow> n + 1 | None \<Rightarrow> 1);
                   created = (case meta_field parse_u64 ''created='' raw of Some n \<Rightarrow> n | None \<Rightarrow> now);
                   wrs = (case meta_field parse_i64 ''writes='' raw of Some n \<Rightarrow> n | None \<Rightarrow> 0)
               in (ctx_set s mk (meta_text created now wrs rds), ZValue (Some val)))
      | [] \<Rightarrow> (s, ZErr (lit ''kv_get requires 1 arg: <key>'')))"

definition kv_stats :: "store \<Rightarrow> store \<times> ZResponse" where
  "kv_stats s =
     (let rds = (case ctx_getInt s (lit ''stats:reads'') of Some n \<Rightarrow> n | None \<Rightarrow> 0);
          wrs = (case ctx_getInt s (lit ''stats:writes'') of Some n \<Rightarrow> n | None \<Rightarrow> 0)
      in (s, ZValue (Some (ctx_fmt (lit ''reads='' @ decimal rds @ [10] @ lit ''writes='' @ decimal wrs)))))"

definition kv_procs :: "int \<Rightarrow> (store \<Rightarrow> ZCommand \<Rightarrow> store \<times> ZResponse) \<Rightarrow> store \<Rightarrow> ZCommand \<Rightarrow> store \<times> ZResponse" where
  "kv_procs now rest s c =
     (case c of
        ZExec p as \<Rightarrow>
          if p = lit ''kv_put'' then kv_put now as s
          else if p = lit ''kv_get'' then kv_get now as s
          else if p = lit ''kv_stats'' then kv_stats s
          else rest s c
      | _ \<Rightarrow> rest s c)"

subsection \<open>The contract of the procedures\<close>

text \<open>A user's key: not one of the counters, and short enough for its metadata key.\<close>

definition own_key :: "jstring \<Rightarrow> bool" where
  "own_key k \<longleftrightarrow> key_ok k \<and> k \<noteq> js ''stats:writes'' \<and> k \<noteq> js ''stats:reads'' \<and> length k \<le> 100"

definition bookkeeping :: "jstring \<Rightarrow> jstring set" where
  "bookkeeping k = {js ''stats:writes'', js ''stats:reads'', js ''meta:'' @ k}"

text \<open>An argument: one word of ASCII.\<close>

definition arg_ok :: "jstring \<Rightarrow> bool" where
  "arg_ok v \<longleftrightarrow> token v \<and> (\<forall>c \<in> set v. unat c < 128) \<and> length v \<le> 4000000"

abbreviation "put_text k v \<equiv> js ''EXEC kv_put '' @ k @ [32] @ v"
abbreviation "read_text k \<equiv> js ''EXEC kv_get '' @ k"

definition changes_only :: "('w \<Rightarrow> jstring \<Rightarrow> jstring option) \<Rightarrow> ('w \<Rightarrow> jstring \<Rightarrow> bool) \<Rightarrow> jstring set \<Rightarrow> 'w \<Rightarrow> 'w \<Rightarrow> bool" where
  "changes_only value_of fixed ks w w' \<longleftrightarrow>
     (\<forall>k'. key_ok k' \<longrightarrow> k' \<notin> ks \<longrightarrow> value_of w' k' = value_of w k' \<and> fixed w' k' = fixed w k')"

lemma changes_onlyD:
  assumes "changes_only value_of fixed ks w w'" and "key_ok k'" and "k' \<notin> ks"
  shows "value_of w' k' = value_of w k'" and "fixed w' k' = fixed w k'"
  using assms by (auto simp: changes_only_def)

locale proc_store = text_store send value_of fixed
  for send :: "jstring \<Rightarrow> ('w, WormResponse) act" and value_of and fixed +
  assumes put_law: "own_key k \<Longrightarrow> arg_ok v \<Longrightarrow> \<not> fixed w k \<Longrightarrow>
      \<exists>w'. send (put_text k v) w = (w', Inr ROk) \<and> value_of w' k = Some v \<and> \<not> fixed w' k
         \<and> changes_only value_of fixed (insert k (bookkeeping k)) w w'"
    and put_fixed_law: "own_key k \<Longrightarrow> arg_ok v \<Longrightarrow> fixed w k \<Longrightarrow>
      \<exists>w'. send (put_text k v) w = (w', Inr ROk) \<and> changes_only value_of fixed (bookkeeping k) w w'"
    and read_law: "own_key k \<Longrightarrow>
      \<exists>w'. send (read_text k) w
          = (w', Inr (case value_of w k of None \<Rightarrow> RError (js ''key_not_found'') | Some v \<Rightarrow> RBulk v))
         \<and> changes_only value_of fixed (bookkeeping k) w w'"

lemma lit_utf8: "list_all (\<lambda>c. (of_char c :: nat) < 128) s \<Longrightarrow> encodeUtf8 (js s) = lit s"
proof -
  assume a: "list_all (\<lambda>c. (of_char c :: nat) < 128) s"
  then have "\<forall>c \<in> set (js s). unat c < 128" by (auto simp: js_def list_all_iff unat_of_char_u16)
  then have "encodeUtf8 (js s) = map (\<lambda>c. of_nat (unat c)) (js s)" by (rule encodeUtf8_ascii)
  also have "\<dots> = map (\<lambda>c. of_nat (unat (of_char c :: u16))) s" by (simp only: js_def map_map comp_def)
  also have "\<dots> = lit s" by (simp only: unat_of_char_u16 of_nat_of_char lit_def)
  finally show ?thesis .
qed

lemma stats_key_ok: "key_ok (js ''stats:writes'')" "key_ok (js ''stats:reads'')"
  by (simp_all add: key_ok_def token_def is_ws_def js_simps toUpperCase_def upper_unit_def is_high_def is_low_def)

lemma encodeUtf8_meta: "encodeUtf8 (js ''meta:'' @ k) = lit ''meta:'' @ encodeUtf8 k"
  by (simp add: encodeUtf8_def code_points_Cons js_simps lit_def is_high_def is_low_def utf8_of_def)

lemma meta_key_ok: "own_key k \<Longrightarrow> key_ok (js ''meta:'' @ k)"
proof -
  assume k: "own_key k"
  then have "token (js ''meta:'' @ k)" by (auto simp: own_key_def key_ok_def token_def js_simps is_ws_def)
  moreover have "toUpperCase (js ''meta:'' @ k) \<noteq> js ''WORM''" by (simp add: toUpperCase_def js_simps upper_unit_def)
  moreover have "well_formed (js ''meta:'' @ k)" using k by (intro well_formed_append) (auto simp: own_key_def key_ok_def)
  ultimately show ?thesis using k by (simp add: own_key_def key_ok_def)
qed

lemma meta_key_utf8: "own_key k \<Longrightarrow> meta_key (encodeUtf8 k) = encodeUtf8 (js ''meta:'' @ k)"
  using length_encodeUtf8 [of k] by (simp add: meta_key_def ctx_fmt_def encodeUtf8_meta own_key_def lit_def)

lemma bookkeeping_ok: "own_key k \<Longrightarrow> k' \<in> bookkeeping k \<Longrightarrow> key_ok k'"
  using stats_key_ok meta_key_ok by (auto simp: bookkeeping_def)

lemma own_not_bookkeeping: "own_key k \<Longrightarrow> k \<notin> bookkeeping k"
proof -
  have "js ''meta:'' @ k \<noteq> k" by (metis append_self_conv2 js_eq_iff js_def list.distinct(1) list.map_disc_iff)
  then show "own_key k \<Longrightarrow> k \<notin> bookkeeping k" by (auto simp: bookkeeping_def own_key_def)
qed

lemma ctx_set_cases:
  "worm_violation s k \<Longrightarrow> ctx_set s k v = s"
  "\<not> worm_violation s k \<Longrightarrow> ctx_set s k v = s\<lparr>st_live := (st_live s)(k \<mapsto> \<lparr>en_value = v, en_worm = False\<rparr>)\<rparr>"
  by (simp_all add: ctx_set_def store_set_def)

lemma ctx_set_other:
  assumes "key_ok k" and "key_ok k'" and "k' \<noteq> k"
  shows "stored_text (ctx_set s (encodeUtf8 k) v) k' = stored_text s k'"
    and "key_fixed (ctx_set s (encodeUtf8 k) v) k' = key_fixed s k'"
proof -
  have ne: "encodeUtf8 k' \<noteq> encodeUtf8 k" using key_ok_inj assms by blast
  have "stored_text (ctx_set s (encodeUtf8 k) v) k' = stored_text s k'
    \<and> key_fixed (ctx_set s (encodeUtf8 k) v) k' = key_fixed s k'"
  proof (cases "worm_violation s (encodeUtf8 k)")
    case False
    let ?s = "s\<lparr>st_live := (st_live s)(encodeUtf8 k \<mapsto> \<lparr>en_value = v, en_worm = False\<rparr>)\<rparr>"
    have fields: "st_live ?s = (st_live s)(encodeUtf8 k \<mapsto> \<lparr>en_value = v, en_worm = False\<rparr>)" "st_frozen ?s = st_frozen s"
      by simp_all
    show ?thesis
      unfolding ctx_set_cases(2) [OF False] stored_text_def key_fixed_def getValueDupe_def worm_violation_def fields
      by (simp add: ne)
  qed (simp only: ctx_set_cases)
  then show "stored_text (ctx_set s (encodeUtf8 k) v) k' = stored_text s k'"
    and "key_fixed (ctx_set s (encodeUtf8 k) v) k' = key_fixed s k'"
    by blast+
qed

lemma arg_decode: "arg_ok v \<Longrightarrow> decodeUtf8 (encodeUtf8 v) = v"
proof -
  assume v: "arg_ok v"
  then have "well_formed v" by (intro well_formed_ascii) (auto simp: arg_ok_def)
  moreover have "take 1 v \<noteq> [0xFEFF]" using v by (cases v) (auto simp: arg_ok_def)
  ultimately show ?thesis by (simp add: decodeUtf8_encodeUtf8_id)
qed

lemma ctx_set_same:
  assumes "\<not> key_fixed s k" and "arg_ok v"
  shows "stored_text (ctx_set s (encodeUtf8 k) (encodeUtf8 v)) k = Some v"
    and "\<not> key_fixed (ctx_set s (encodeUtf8 k) (encodeUtf8 v)) k"
proof -
  have c: "ctx_set s (encodeUtf8 k) (encodeUtf8 v)
      = s\<lparr>st_live := (st_live s)(encodeUtf8 k \<mapsto> \<lparr>en_value = encodeUtf8 v, en_worm = False\<rparr>)\<rparr>"
    using assms by (simp add: key_fixed_def ctx_set_cases)
  show "stored_text (ctx_set s (encodeUtf8 k) (encodeUtf8 v)) k = Some v"
    and "\<not> key_fixed (ctx_set s (encodeUtf8 k) (encodeUtf8 v)) k"
    unfolding c by (simp_all add: stored_text_def key_fixed_def getValueDupe_def worm_violation_def arg_decode assms)
qed

lemma ctx_set_fixed: "key_fixed s k \<Longrightarrow> ctx_set s (encodeUtf8 k) v = s"
  by (simp add: key_fixed_def ctx_set_cases)

text \<open>Writes to the bookkeeping keys leave every other key alone.\<close>

lemma bookkeeping_writes:
  assumes "own_key k" and "a \<in> bookkeeping k" and "b \<in> bookkeeping k"
  shows "changes_only stored_text key_fixed (bookkeeping k) s (ctx_set (ctx_set s (encodeUtf8 a) u) (encodeUtf8 b) v)"
  unfolding changes_only_def using ctx_set_other bookkeeping_ok [OF assms(1)] assms(2,3) by metis

lemma send_exec:
  assumes "token p" and "\<forall>a \<in> set as. token a" and "length (payload_of (CmdExec p (map ArgStr as))) \<le> MAX_PAYLOAD"
  shows "store_send (kv_procs now rest) (join [32] (js ''EXEC'' # p # as)) s
    = (case kv_procs now rest s (ZExec (encodeUtf8 p) (map encodeUtf8 as)) of (s', r) \<Rightarrow> (s', Inr (client_view r)))"
proof -
  have "store_send (kv_procs now rest) (join [32] (words_of (CmdExec p (map ArgStr as)))) s
    = (case execute (kv_procs now rest) s (server_view (CmdExec p (map ArgStr as))) of (s', r) \<Rightarrow> (s', Inr (client_view r)))"
    using assms by (intro store_send_words) auto
  then show ?thesis by (simp add: comp_def execute_def)
qed

lemma exec_texts:
  "put_text k v = join [32] (js ''EXEC'' # js ''kv_put'' # [k, v])"
  "read_text k = join [32] (js ''EXEC'' # js ''kv_get'' # [k])"
  by (simp_all add: js_simps)

lemma proc_names:
  "encodeUtf8 (js ''kv_put'') = lit ''kv_put''" "encodeUtf8 (js ''kv_get'') = lit ''kv_get''"
  "encodeUtf8 (js ''stats:writes'') = lit ''stats:writes''" "encodeUtf8 (js ''stats:reads'') = lit ''stats:reads''"
  "lit ''kv_get'' \<noteq> lit ''kv_put''" "token (js ''kv_put'')" "token (js ''kv_get'')"
  by (simp_all add: lit_utf8) (simp_all add: lit_def token_def is_ws_def js_simps)

lemma send_put:
  assumes "own_key k" and "arg_ok v"
  shows "store_send (kv_procs now rest) (put_text k v) s
    = (case kv_put now [encodeUtf8 k, encodeUtf8 v] s of (s', r) \<Rightarrow> (s', Inr (client_view r)))"
proof -
  have "length (encodeUtf8 k) \<le> 400" "length (encodeUtf8 v) \<le> 4000000"
    using assms length_encodeUtf8 [of k] length_ascii [of v] by (simp_all add: own_key_def arg_ok_def)
  moreover have "length (encodeUtf8 (js ''kv_put'')) = 6" by (simp add: proc_names lit_def)
  ultimately show ?thesis
    unfolding exec_texts using assms
    by (subst send_exec) (auto simp: own_key_def key_ok_def arg_ok_def proc_names MAX_PAYLOAD_def kv_procs_def)
qed

lemma send_read:
  assumes "own_key k"
  shows "store_send (kv_procs now rest) (read_text k) s
    = (case kv_get now [encodeUtf8 k] s of (s', r) \<Rightarrow> (s', Inr (client_view r)))"
proof -
  have "length (encodeUtf8 k) \<le> 400" using assms length_encodeUtf8 [of k] by (simp add: own_key_def)
  moreover have "length (encodeUtf8 (js ''kv_get'')) = 6" by (simp add: proc_names lit_def)
  ultimately show ?thesis
    unfolding exec_texts using assms
    by (subst send_exec) (auto simp: own_key_def key_ok_def proc_names MAX_PAYLOAD_def kv_procs_def)
qed

text \<open>What the two procedures write: the value, a counter and the metadata.\<close>

lemma kv_put_writes:
  assumes "own_key k"
  shows "\<exists>a b. kv_put now [encodeUtf8 k, v] s
    = (ctx_set (ctx_set (ctx_set s (encodeUtf8 k) v) (encodeUtf8 (js ''stats:writes'')) a) (encodeUtf8 (js ''meta:'' @ k)) b, ZOk)"
  unfolding kv_put_def ctx_setInt_def Let_def proc_names by (simp add: meta_key_utf8 [OF assms]) blast

lemma kv_get_writes:
  assumes "own_key k" and "getValueDupe s (encodeUtf8 k) = Some v"
  shows "\<exists>a b. kv_get now [encodeUtf8 k] s
    = (ctx_set (ctx_set s (encodeUtf8 (js ''stats:reads'')) a) (encodeUtf8 (js ''meta:'' @ k)) b, ZValue (Some v))"
  unfolding kv_get_def ctx_setInt_def Let_def proc_names by (simp add: assms meta_key_utf8 [OF assms(1)]) blast

lemma put_changes:
  assumes "own_key k"
  shows "\<exists>s'. kv_put now [encodeUtf8 k, v] s = (s', ZOk)
    \<and> changes_only stored_text key_fixed (bookkeeping k) (ctx_set s (encodeUtf8 k) v) s'"
proof -
  have "js ''stats:writes'' \<in> bookkeeping k" "js ''meta:'' @ k \<in> bookkeeping k" by (auto simp: bookkeeping_def)
  with kv_put_writes [OF assms, of now v s] bookkeeping_writes [OF assms] show ?thesis by metis
qed

lemma changes_only_insert:
  "own_key k \<Longrightarrow> changes_only stored_text key_fixed (bookkeeping k) (ctx_set s (encodeUtf8 k) v) s'
    \<Longrightarrow> changes_only stored_text key_fixed (insert k (bookkeeping k)) s s'"
  unfolding changes_only_def using ctx_set_other [of k] by (auto simp: own_key_def)

interpretation kvp: proc_store "store_send (kv_procs now rest)" stored_text key_fixed for now rest
proof unfold_locales
  fix k v w assume k: "own_key k" and v: "arg_ok v" and f: "\<not> key_fixed w k"
  from put_changes [OF k, of now "encodeUtf8 v" w] obtain s' where
    s': "kv_put now [encodeUtf8 k, encodeUtf8 v] w = (s', ZOk)"
      "changes_only stored_text key_fixed (bookkeeping k) (ctx_set w (encodeUtf8 k) (encodeUtf8 v)) s'"
    by blast
  have "stored_text s' k = Some v" "\<not> key_fixed s' k"
    using changes_onlyD [OF s'(2) _ own_not_bookkeeping [OF k]] ctx_set_same [OF f v] k by (auto simp: own_key_def)
  with s' changes_only_insert [OF k s'(2)]
  show "\<exists>w'. store_send (kv_procs now rest) (put_text k v) w = (w', Inr ROk) \<and> stored_text w' k = Some v \<and> \<not> key_fixed w' k
     \<and> changes_only stored_text key_fixed (insert k (bookkeeping k)) w w'"
    unfolding send_put [OF k v] by auto
next
  fix k v w assume k: "own_key k" and v: "arg_ok v" and f: "key_fixed w k"
  from put_changes [OF k, of now "encodeUtf8 v" w]
  show "\<exists>w'. store_send (kv_procs now rest) (put_text k v) w = (w', Inr ROk)
     \<and> changes_only stored_text key_fixed (bookkeeping k) w w'"
    unfolding send_put [OF k v] ctx_set_fixed [OF f] by auto
next
  fix k w assume k: "own_key k"
  show "\<exists>w'. store_send (kv_procs now rest) (read_text k) w
      = (w', Inr (case stored_text w k of None \<Rightarrow> RError (js ''key_not_found'') | Some v \<Rightarrow> RBulk v))
     \<and> changes_only stored_text key_fixed (bookkeeping k) w w'"
  proof (cases "getValueDupe w (encodeUtf8 k)")
    case None
    have "lit ''key_not_found'' = encodeUtf8 (js ''key_not_found'')" by (simp add: lit_utf8)
    moreover have "take 1 (js ''key_not_found'') \<noteq> [0xFEFF]" by (simp add: js_simps)
    ultimately have "decodeUtf8 (lit ''key_not_found'') = js ''key_not_found''" by (simp add: decodeUtf8_encodeUtf8_id)
    with None show ?thesis
      by (simp add: send_read [OF k] kv_get_def stored_text_def changes_only_def)
  next
    case (Some v)
    have "js ''stats:reads'' \<in> bookkeeping k" "js ''meta:'' @ k \<in> bookkeeping k" by (auto simp: bookkeeping_def)
    with kv_get_writes [OF k Some, of now] bookkeeping_writes [OF k] obtain s' where
      "kv_get now [encodeUtf8 k] w = (s', ZValue (Some v))" "changes_only stored_text key_fixed (bookkeeping k) w s'"
      by metis
    with Some show ?thesis by (auto simp: send_read [OF k] stored_text_def)
  qed
qed

end
