(* ===== verification/Explorer_Server.thy ===== *)
theory Explorer_Server
  imports Notepad_Server Js_Parse Kv_Procedures
begin

section \<open>The key-value explorer (\<open>apps/bun/src/bin/explorer.ts\<close>)\<close>

text \<open>
  The HTTP handlers of the explorer, which writes through the stored procedures \<open>kv_put\<close>, \<open>kv_get\<close> and
  \<open>kv_stats\<close>, the parsers of their results, and its event feed. Parameters as in the notepad; \<open>buffer_of\<close> is
  \<open>Buffer.from(v)\<close> on a JSON value, which the server uses on strings and which refuses numbers,
  booleans and \<open>null\<close>.
\<close>

subsection \<open>Parsers\<close>

text \<open>An object used as a dictionary of strings; the setter \<open>__proto__\<close> ignores them.\<close>

type_synonym text_map = "jstring \<rightharpoonup> jstring"

definition kv_line :: "text_map \<Rightarrow> jstring \<Rightarrow> text_map" where
  "kv_line kv line =
     (case split_on 61 line of
        key # rest \<Rightarrow>
          if key \<noteq> [] \<and> rest \<noteq> [] \<and> trim key \<noteq> js ''__proto__'' then kv(trim key \<mapsto> trim (join [61] rest)) else kv
      | [] \<Rightarrow> kv)"

definition parseKV :: "jstring \<Rightarrow> text_map" where
  "parseKV text = foldl kv_line Map.empty (split_on 10 text)"

text \<open>\<open>kv.k || "0"\<close>.\<close>

definition or_zero :: "text_map \<Rightarrow> string \<Rightarrow> jstring" where
  "or_zero kv k = (case kv (js k) of Some v \<Rightarrow> if v \<noteq> [] then v else js ''0'' | None \<Rightarrow> js ''0'')"

definition parseMeta :: "jstring \<Rightarrow> json" where
  "parseMeta raw =
     (let kv = parseKV raw
      in JObj [(js ''created'', JStr (or_zero kv ''created'')), (js ''updated'', JStr (or_zero kv ''updated'')),
           (js ''writes'', json_int (parseInt (or_zero kv ''writes''))),
           (js ''reads'', json_int (parseInt (or_zero kv ''reads'')))])"

subsection \<open>The index and the pushes\<close>

definition ex_getIndex :: "(jstring \<Rightarrow> bytes) \<Rightarrow> (jstring \<Rightarrow> ('w, WormResponse) act) \<Rightarrow> ('w, json) act" where
  "ex_getIndex unb64 send = read_index (js ''kv:index'') unb64 send"

definition ex_saveIndex :: "(jstring \<Rightarrow> ('w, WormResponse) act) \<Rightarrow> json \<Rightarrow> ('w, unit) act" where
  "ex_saveIndex send index = write_index (js ''kv:index'') send index"

definition ex_pushStatus :: "(jstring \<Rightarrow> ('w, WormResponse) act) \<Rightarrow> ('w, json option) act" where
  "ex_pushStatus send =
     act_catch
       (act_bind (send (js ''STATUS'')) (\<lambda>res.
        case res of
          RBulk v \<Rightarrow>
            if v \<noteq> [] then act_return (Some (JObj [(js ''type'', JStr (js ''status'')),
              (js ''response'', JObj [(js ''value'', JStr v)])]))
            else act_return None
        | _ \<Rightarrow> act_return None))
       (\<lambda>e. act_return None)"

definition ex_pushStats :: "(jstring \<Rightarrow> ('w, WormResponse) act) \<Rightarrow> ('w, json option) act" where
  "ex_pushStats send =
     act_catch
       (act_bind (send (js ''EXEC kv_stats'')) (\<lambda>res.
        case res of
          RBulk v \<Rightarrow>
            if v \<noteq> [] then
              (let kv = parseKV v
               in act_return (Some (JObj [(js ''type'', JStr (js ''stats'')),
                    (js ''reads'', json_int (parseInt (or_zero kv ''reads''))),
                    (js ''writes'', json_int (parseInt (or_zero kv ''writes'')))])))
            else act_return None
        | _ \<Rightarrow> act_return None))
       (\<lambda>e. act_return None)"

subsection \<open>The event feed\<close>

text \<open>The code is the notepad's with another channel.\<close>

definition ex_setupEventSubscription :: "'m feed \<Rightarrow> 'm feed" where
  "ex_setupEventSubscription = setupEventSubscription"

definition ex_open :: "nat \<Rightarrow> 'm feed \<Rightarrow> 'm feed" where
  "ex_open = feed_open (js ''kv_events'')"

definition ex_data :: "nat \<Rightarrow> json feed \<Rightarrow> bytes \<Rightarrow> json feed" where
  "ex_data = feed_data (js ''kv_events'')"

definition ex_close :: "nat \<Rightarrow> 'm feed \<Rightarrow> 'm feed" where
  "ex_close = feed_close"

definition ex_error :: "nat \<Rightarrow> 'm feed \<Rightarrow> 'm feed" where
  "ex_error = feed_error"

definition ex_failed :: "'m feed \<Rightarrow> 'm feed" where
  "ex_failed = feed_failed"

definition ex_broadcast :: "(nat \<Rightarrow> bool) \<Rightarrow> nat list \<Rightarrow> json \<Rightarrow> nat list \<times> (nat \<times> jstring) list" where
  "ex_broadcast = broadcast"

subsection \<open>The handlers\<close>

text \<open>\<open>err.message || d\<close>.\<close>

definition err_text :: "(js_error \<Rightarrow> jstring) \<Rightarrow> js_error \<Rightarrow> string \<Rightarrow> http_body" where
  "err_text msg e d = TextBody (if msg e \<noteq> [] then msg e else js d)"

text \<open>\<open>body.key?.trim()\<close> and \<open>body.value ?? ""\<close>.\<close>

definition body_key :: "json \<Rightarrow> js_error + jstring option" where
  "body_key body =
     and_then (jfield body ''key'') (\<lambda>k.
       case k of
         None \<Rightarrow> Inr None
       | Some JNull \<Rightarrow> Inr None
       | Some (JStr s) \<Rightarrow> Inr (Some (trim s))
       | Some _ \<Rightarrow> Inl TypeError)"

definition body_value :: "json \<Rightarrow> js_error + json" where
  "body_value body =
     and_then (jfield body ''value'') (\<lambda>v. Inr (case nullish v None of Some x \<Rightarrow> x | None \<Rightarrow> JStr []))"

definition kv_event :: "string \<Rightarrow> jstring \<Rightarrow> json" where
  "kv_event type key = JObj [(js ''type'', JStr (js type)), (js ''key'', JStr key)]"

definition ex_publish :: "(jstring \<Rightarrow> ('w, WormResponse) act) \<Rightarrow> string \<Rightarrow> jstring \<Rightarrow> ('w, WormResponse) act" where
  "ex_publish send type key = send (js ''PUB kv_events '' @ stringify (kv_event type key))"

definition ex_meta :: "(jstring \<Rightarrow> ('w, WormResponse) act) \<Rightarrow> jstring \<Rightarrow> ('w, json) act" where
  "ex_meta send key =
     act_bind (send (js ''GET meta:'' @ key)) (\<lambda>res.
       act_return (case res of RBulk v \<Rightarrow> if v \<noteq> [] then parseMeta v else JNull | _ \<Rightarrow> JNull))"

definition ex_list :: "(jstring \<Rightarrow> bytes) \<Rightarrow> (jstring \<Rightarrow> ('w, WormResponse) act) \<Rightarrow> ('w, http_response) act" where
  "ex_list unb64 send = act_bind (ex_getIndex unb64 send) (\<lambda>index. act_return (Respond 200 (JsonBody index)))"

definition ex_create :: "(js_error \<Rightarrow> jstring) \<Rightarrow> (jstring \<Rightarrow> bytes) \<Rightarrow> (json \<Rightarrow> js_error + bytes)
    \<Rightarrow> (jstring \<Rightarrow> ('w, WormResponse) act) \<Rightarrow> jstring \<Rightarrow> ('w, http_response) act" where
  "ex_create msg unb64 buffer_of send body_text =
     act_catch
       (act_bind (parse_json body_text) (\<lambda>body.
        act_bind (act_lift (body_key body)) (\<lambda>key.
        act_bind (act_lift (body_value body)) (\<lambda>value.
        if key = None \<or> key = Some [] then act_return (text_response 400 ''Missing key'')
        else
          let key = the key in
          act_bind (act_lift (buffer_of value)) (\<lambda>b.
          act_bind (send (js ''EXEC kv_put '' @ key @ [32] @ base64 b)) (\<lambda>res.
          case res of
            RError m \<Rightarrow> act_return (Respond 400 (TextBody m))
          | _ \<Rightarrow>
              act_bind (ex_getIndex unb64 send) (\<lambda>index.
              act_bind (act_lift (find_in ''key'' key index)) (\<lambda>found.
              act_bind
                (if found = None then
                   act_bind (act_lift (unshift (JObj [(js ''key'', JStr key), (js ''locked'', JBool False)]) index))
                     (ex_saveIndex send)
                 else act_return ()) (\<lambda>_.
              act_bind (ex_publish send ''kv:updated'' key) (\<lambda>_.
              act_bind (ex_meta send key) (\<lambda>meta.
              act_return (Respond 201 (JsonBody (JObj [(js ''key'', JStr key), (js ''value'', value), (js ''meta'', meta)]))))))))))))))
       (\<lambda>e. act_return (Respond 400 (err_text msg e ''Bad request'')))"

definition bulk_or_empty :: "WormResponse \<Rightarrow> jstring" where
  "bulk_or_empty res = (case res of RBulk v \<Rightarrow> v | _ \<Rightarrow> [])"

text \<open>The item of the index with the key: \<open>index.find((e) => e.key === key)\<close>, and \<open>entry?.locked\<close>.\<close>

definition entry_locked :: "jstring \<Rightarrow> json \<Rightarrow> js_error + json option" where
  "entry_locked key index =
     and_then (find_in ''key'' key index) (\<lambda>r.
       case (r, index) of
         (Some i, JArr vs) \<Rightarrow> jfield (vs ! i) ''locked''
       | _ \<Rightarrow> Inr None)"

definition ex_read :: "(js_error \<Rightarrow> jstring) \<Rightarrow> (jstring \<Rightarrow> bytes) \<Rightarrow> (jstring \<Rightarrow> ('w, WormResponse) act) \<Rightarrow> jstring
    \<Rightarrow> ('w, http_response) act" where
  "ex_read msg unb64 send key =
     act_catch
       (act_bind (send (js ''EXEC kv_get '' @ key)) (\<lambda>res.
        case res of
          RError m \<Rightarrow> act_return (Respond 404 (TextBody m))
        | _ \<Rightarrow>
            let rawValue = bulk_or_empty res;
                value = (if rawValue \<noteq> [] then utf8_text (unb64 rawValue) else [])
            in act_bind (ex_getIndex unb64 send) (\<lambda>index.
               act_bind (act_lift (entry_locked key index)) (\<lambda>locked.
               act_bind (ex_meta send key) (\<lambda>meta.
               act_return (Respond 200 (JsonBody (JObj
                 [(js ''key'', JStr key), (js ''value'', JStr value),
                  (js ''locked'', case nullish locked None of Some l \<Rightarrow> l | None \<Rightarrow> JBool False), (js ''meta'', meta)]))))))))
       (\<lambda>e. act_return (Respond 500 (err_text msg e ''Error'')))"

definition ex_update :: "(js_error \<Rightarrow> jstring) \<Rightarrow> (jstring \<Rightarrow> bytes) \<Rightarrow> (json \<Rightarrow> js_error + bytes)
    \<Rightarrow> (jstring \<Rightarrow> ('w, WormResponse) act) \<Rightarrow> jstring \<Rightarrow> jstring \<Rightarrow> ('w, http_response) act" where
  "ex_update msg unb64 buffer_of send key body_text =
     act_catch
       (act_bind (parse_json body_text) (\<lambda>body.
        act_bind (act_lift (body_value body)) (\<lambda>value.
        act_bind (ex_getIndex unb64 send) (\<lambda>index.
        act_bind (act_lift (entry_locked key index)) (\<lambda>locked.
        if truthy locked then act_return (text_response 403 ''Key is WORM-locked'')
        else
          act_bind (act_lift (buffer_of value)) (\<lambda>b.
          act_bind (send (js ''EXEC kv_put '' @ key @ [32] @ base64 b)) (\<lambda>res.
          case res of
            RError m \<Rightarrow> act_return (Respond 400 (TextBody m))
          | _ \<Rightarrow>
              act_bind (ex_publish send ''kv:updated'' key) (\<lambda>_.
              act_bind (ex_meta send key) (\<lambda>meta.
              act_return (Respond 200 (JsonBody (JObj [(js ''key'', JStr key), (js ''value'', value), (js ''meta'', meta)]))))))))))))
       (\<lambda>e. if mentions_worm msg e then act_return (text_response 403 ''WORM-locked'')
            else act_return (Respond 400 (err_text msg e ''Error'')))"

definition ex_delete :: "(js_error \<Rightarrow> jstring) \<Rightarrow> (jstring \<Rightarrow> bytes) \<Rightarrow> (jstring \<Rightarrow> ('w, WormResponse) act) \<Rightarrow> jstring
    \<Rightarrow> ('w, http_response) act" where
  "ex_delete msg unb64 send key =
     act_catch
       (act_bind (ex_getIndex unb64 send) (\<lambda>index.
        act_bind (act_lift (entry_locked key index)) (\<lambda>locked.
        if truthy locked then act_return (text_response 403 ''Cannot delete WORM-locked key'')
        else
          act_bind (send (js ''DEL '' @ key)) (\<lambda>_.
          act_bind (send (js ''DEL meta:'' @ key)) (\<lambda>_.
          act_bind (act_lift (remove_item ''key'' key index)) (\<lambda>newIndex.
          act_bind (ex_saveIndex send newIndex) (\<lambda>_.
          act_bind (ex_publish send ''kv:deleted'' key) (\<lambda>_.
          act_return (Respond 204 NoBody)))))))))
       (\<lambda>e. if mentions_worm msg e then act_return (text_response 403 ''Cannot delete WORM-locked key'')
            else act_return (Respond 500 (err_text msg e ''Error'')))"

definition ex_lock :: "(js_error \<Rightarrow> jstring) \<Rightarrow> (jstring \<Rightarrow> bytes) \<Rightarrow> (jstring \<Rightarrow> ('w, WormResponse) act) \<Rightarrow> jstring
    \<Rightarrow> ('w, http_response) act" where
  "ex_lock msg unb64 send key =
     act_catch
       (act_bind (send (js ''EXEC kv_get '' @ key)) (\<lambda>res.
        case res of
          RError m \<Rightarrow> act_return (Respond 404 (TextBody m))
        | _ \<Rightarrow>
            act_bind (send (js ''SET '' @ key @ [32] @ bulk_or_empty res @ js '' WORM'')) (\<lambda>_.
            act_bind (ex_getIndex unb64 send) (\<lambda>index.
            act_bind (act_lift (update_item ''key'' key [(''locked'', Some (JBool True))] index)) (\<lambda>r.
            act_bind (case r of None \<Rightarrow> act_return () | Some index \<Rightarrow> ex_saveIndex send index) (\<lambda>_.
            act_bind (ex_publish send ''kv:locked'' key) (\<lambda>_.
            act_return (Respond 200 (JsonBody (JObj [(js ''key'', JStr key), (js ''locked'', JBool True)]))))))))))
       (\<lambda>e. act_return (Respond 500 (err_text msg e ''Error'')))"

definition ex_stats :: "(jstring \<Rightarrow> ('w, WormResponse) act) \<Rightarrow> ('w, http_response) act" where
  "ex_stats send =
     (let counts = (\<lambda>r w. Respond 200 (JsonBody (JObj [(js ''reads'', r), (js ''writes'', w)])));
          zero = counts (JNum (js ''0'')) (JNum (js ''0''))
      in act_catch
           (act_bind (send (js ''EXEC kv_stats'')) (\<lambda>res.
            case res of
              RBulk v \<Rightarrow>
                if v \<noteq> [] then
                  (let kv = parseKV v
                   in act_return (counts (json_int (parseInt (or_zero kv ''reads''))) (json_int (parseInt (or_zero kv ''writes'')))))
                else act_return zero
            | _ \<Rightarrow> act_return zero))
           (\<lambda>e. act_return zero))"

definition ex_fetch where
  "ex_fetch msg unb64 buffer_of send upgrade req =
     (let path = rq_path req; m = rq_method req;
          rest = (case match_segment (js ''/api/keys/'') (js ''/lock'') path of
              Some seg \<Rightarrow>
                if m = js ''POST'' then
                  (case decodeURIComponent seg of
                     None \<Rightarrow> act_throw (ExternalError (js ''URIError''))
                   | Some key \<Rightarrow> ex_lock msg unb64 send key)
                else act_return (text_response 404 ''Not found'')
            | None \<Rightarrow>
                if path = js ''/api/stats'' \<and> m = js ''GET'' then ex_stats send
                else act_return (text_response 404 ''Not found''))
      in
      if path = js ''/ws'' then
        (if upgrade then act_return Upgraded else act_return (text_response 400 ''Upgrade failed''))
      else if m = js ''GET'' \<and> path = js ''/'' then act_return (Respond 200 (Asset (js ''text/html'')))
      else if m = js ''GET'' \<and> path = js ''/styles.css'' then act_return (Respond 200 (Asset (js ''text/css'')))
      else if m = js ''GET'' \<and> path = js ''/app.js'' then act_return (Respond 200 (Asset (js ''application/javascript'')))
      else if path = js ''/api/keys'' \<and> m = js ''GET'' then ex_list unb64 send
      else if path = js ''/api/keys'' \<and> m = js ''POST'' then ex_create msg unb64 buffer_of send (rq_body req)
      else
        case match_segment (js ''/api/keys/'') [] path of
          Some seg \<Rightarrow>
            (case decodeURIComponent seg of
               None \<Rightarrow> act_throw (ExternalError (js ''URIError''))
             | Some key \<Rightarrow>
                 if m = js ''GET'' then ex_read msg unb64 send key
                 else if m = js ''PUT'' then ex_update msg unb64 buffer_of send key (rq_body req)
                 else if m = js ''DELETE'' then ex_delete msg unb64 send key
                 else rest)
        | None \<Rightarrow> rest)"

text \<open>The callbacks of the server's WebSocket: \<open>open\<close> also pushes the status and the counters.\<close>

definition ex_ws_open :: "nat \<Rightarrow> nat list \<Rightarrow> (jstring \<Rightarrow> ('w, WormResponse) act) \<Rightarrow> (nat \<Rightarrow> bool)
    \<Rightarrow> ('w, nat list \<times> (nat \<times> jstring) list) act" where
  "ex_ws_open ws wsClients send throws =
     act_bind (ex_pushStatus send) (\<lambda>m1.
     act_bind (ex_pushStats send) (\<lambda>m2.
       act_return (foldl (\<lambda>(cs, out) m. case m of
             None \<Rightarrow> (cs, out)
           | Some j \<Rightarrow> (case ex_broadcast throws cs j of (cs', out') \<Rightarrow> (cs', out @ out')))
         (ws_open ws wsClients, []) [m1, m2])))"

definition ex_ws_close :: "nat \<Rightarrow> nat list \<Rightarrow> nat list" where
  "ex_ws_close = ws_close"

subsection \<open>Keys over the contract of the procedures\<close>

abbreviation "kv_index \<equiv> js ''kv:index''"

lemma kv_index_ok [simp]: "key_ok kv_index"
  by (simp add: key_simps)

lemma kv_index_free [simp]: "kv_index \<notin> bookkeeping k"
  by (simp add: bookkeeping_def js_simps)

lemma kv_events_ok [simp]: "key_ok (js ''kv_events'')"
  by (simp add: key_simps)

lemma explorer_texts:
  "js ''PUB kv_events '' @ m = pub_text (js ''kv_events'') m"
  "js ''GET meta:'' @ k = get_text (js ''meta:'' @ k)"
  by (simp_all add: js_simps)

lemma find_in_objects: "all_objects vs \<Longrightarrow> \<exists>r. find_in ''key'' k (JArr vs) = Inr r"
  by (simp add: find_item_objects)

lemma find_item_bound: "find_item f k vs = Inr (Some i) \<Longrightarrow> i < length vs"
proof (induction vs arbitrary: i)
  case (Cons v vs)
  then show ?case
    by (cases "jfield v f"; cases "find_item f k vs") (auto split: if_splits)
qed simp

lemma entry_locked_objects: "all_objects vs \<Longrightarrow> \<exists>l. entry_locked k (JArr vs) = Inr l"
proof -
  assume o: "all_objects vs"
  then obtain r where r: "find_item ''key'' k vs = Inr r" by (auto simp: find_item_objects)
  show ?thesis
  proof (cases r)
    case (Some i)
    then have "vs ! i \<in> set vs" using find_item_bound r by (auto intro: nth_mem)
    with o Some r show ?thesis by (auto simp: entry_locked_def all_objects_def)
  qed (simp add: entry_locked_def r)
qed

lemma base64_arg_ok:
  assumes "v \<noteq> []" and "length v \<le> 400000"
  shows "arg_ok (base64 (encodeUtf8 v))"
proof -
  have u: "43 \<le> unat c \<and> unat c \<le> 122" if "c \<in> set (base64 (encodeUtf8 v))" for c
    using that base64_unit by auto
  have "base64 (encodeUtf8 v) \<noteq> []" using assms by simp
  then have "token (base64 (encodeUtf8 v))" unfolding token_def using is_ws_range u by fastforce
  moreover have "length (base64 (encodeUtf8 v)) \<le> 4000000"
    using length_base64 [of "encodeUtf8 v"] length_encodeUtf8 [of v] assms by linarith
  ultimately show ?thesis using u by (force simp: arg_ok_def)
qed

context text_store
begin

text \<open>An entry marked as locked stops updates and deletes before anything is written.\<close>

lemma ex_locked_refused:
  assumes "index_text unb64 (value_of w kv_index) = index" and "entry_locked k index = Inr l" and "truthy l"
  shows "ex_delete msg unb64 send k w = (w, Inr (text_response 403 ''Cannot delete WORM-locked key''))"
    and "JSON_parse body = Some b \<Longrightarrow> b \<noteq> JNull \<Longrightarrow>
      ex_update msg unb64 buffer_of send k body w = (w, Inr (text_response 403 ''Key is WORM-locked''))"
proof -
  have i: "read_index kv_index unb64 send w = (w, Inr index)" using assms(1) read_index [of kv_index unb64 w] by simp
  show "ex_delete msg unb64 send k w = (w, Inr (text_response 403 ''Cannot delete WORM-locked key''))"
    unfolding ex_delete_def
    by (rule act_catch_ok) (simp only: act_bind_ok act_basic i ex_getIndex_def assms(2,3) if_True)
  assume b: "JSON_parse body = Some b" "b \<noteq> JNull"
  obtain v where v: "body_value b = Inr v" using b(2) by (cases b) (auto simp: body_value_def jfield_def)
  have p: "parse_json body w = (w, Inr b)" by (simp add: parse_json_def act_basic of_opt_def b(1))
  show "ex_update msg unb64 buffer_of send k body w = (w, Inr (text_response 403 ''Key is WORM-locked''))"
    unfolding ex_update_def
    by (rule act_catch_ok) (simp only: act_bind_ok act_basic p v i ex_getIndex_def assms(2,3) if_True)
qed

end

context proc_store
begin

lemma ex_meta_ok: "own_key k \<Longrightarrow> \<exists>meta. ex_meta send k w = (w, Inr meta)"
  unfolding ex_meta_def explorer_texts using get_law [OF meta_key_ok, of k w] by (auto simp: act_eval split: option.splits)

lemma ex_publish_ok: "message_ok (stringify (kv_event type k)) \<Longrightarrow> ex_publish send type k w = (w, Inr ROk)"
  unfolding ex_publish_def explorer_texts by (rule pub_law [OF kv_events_ok])

lemma ex_read_ok:
  assumes "own_key k" and "value_of w k = Some (base64 (encodeUtf8 v))" and "v \<noteq> []" and "well_formed v"
    and "decodes_base64 unb64" and "index_text unb64 (value_of w kv_index) = JArr vs" and "all_objects vs"
  shows "\<exists>w' locked meta. ex_read msg unb64 send k w = (w', Inr (Respond 200 (JsonBody (JObj
      [(js ''key'', JStr k), (js ''value'', JStr v), (js ''locked'', locked), (js ''meta'', meta)]))))"
proof -
  from read_law [OF assms(1), of w] assms(2) obtain w1 where
    1: "send (read_text k) w = (w1, Inr (RBulk (base64 (encodeUtf8 v))))" "changes_only value_of fixed (bookkeeping k) w w1"
    by auto
  have i: "read_index kv_index unb64 send w1 = (w1, Inr (JArr vs))"
    using changes_onlyD [OF 1(2) kv_index_ok kv_index_free] assms(6) read_index [of kv_index unb64 w1] by simp
  obtain l where l: "entry_locked k (JArr vs) = Inr l" using entry_locked_objects [OF assms(7)] by blast
  obtain meta where m: "ex_meta send k w1 = (w1, Inr meta)" using ex_meta_ok [OF assms(1)] by blast
  have t: "utf8_text (unb64 (base64 (encodeUtf8 v))) = v" "base64 (encodeUtf8 v) \<noteq> []"
    using assms(3,4,5) by (simp_all add: decodes_base64_def utf8_text_encode)
  have "ex_read msg unb64 send k w = (w1, Inr (Respond 200 (JsonBody (JObj
      [(js ''key'', JStr k), (js ''value'', JStr v), (js ''locked'', case nullish l None of Some l \<Rightarrow> l | None \<Rightarrow> JBool False),
       (js ''meta'', meta)]))))"
    unfolding ex_read_def
    by (rule act_catch_ok)
      (simp only: act_bind_ok 1(1) i l m ex_getIndex_def act_basic WormResponse.case Let_def bulk_or_empty_def t
        not_False_eq_True if_True)
  then show ?thesis by blast
qed

text \<open>Adding the key to the index when it is not there.\<close>

lemma ex_index_step:
  assumes "\<not> fixed w kv_index" and "all_objects vs" and "find_item ''key'' k vs = Inr found"
    and "index_text unb64 (value_of w kv_index) = JArr vs" and "decodes_base64 unb64"
    and "doc_ok (JArr (JObj [(js ''key'', JStr k), (js ''locked'', JBool False)] # vs))"
  shows "\<exists>w' vs'. (if found = None then
        act_bind (act_lift (unshift (JObj [(js ''key'', JStr k), (js ''locked'', JBool False)]) (JArr vs))) (ex_saveIndex send)
      else act_return ()) w = (w', Inr ())
    \<and> index_text unb64 (value_of w' kv_index) = JArr vs' \<and> all_objects vs'
    \<and> only_changes value_of fixed kv_index w w'"
proof (cases found)
  case None
  let ?vs = "JObj [(js ''key'', JStr k), (js ''locked'', JBool False)] # vs"
  from write_index_ok [OF kv_index_ok assms(6,1)] obtain w' where
    w': "write_index kv_index send (JArr ?vs) w = (w', Inr ())" "value_of w' kv_index = Some (to_base64 (stringify (JArr ?vs)))"
      "only_changes value_of fixed kv_index w w'"
    by blast
  moreover have "index_text unb64 (value_of w' kv_index) = JArr ?vs"
    using w'(2) index_text_written [OF assms(6,5)] by simp
  moreover have "all_objects ?vs" using assms(2) by (simp add: all_objects_def)
  moreover have "act_bind (act_lift (unshift (JObj [(js ''key'', JStr k), (js ''locked'', JBool False)]) (JArr vs))) (ex_saveIndex send) w
      = (w', Inr ())"
    by (simp only: act_bind_ok act_basic unshift_def json.case ex_saveIndex_def w'(1))
  ultimately show ?thesis unfolding None by auto
next
  case (Some i)
  then show ?thesis using assms by (auto simp: act_basic only_changes_def)
qed

lemma ex_create_reads:
  assumes "JSON_parse body = Some (JObj bs)" and "map_of bs (js ''key'') = Some (JStr name)" and "trim name = k"
    and "map_of bs (js ''value'') = Some (JStr v)" and "v \<noteq> []" and "well_formed v" and "length v \<le> 400000"
    and "own_key k" and "k \<noteq> kv_index" and "\<not> fixed w k" and "\<not> fixed w kv_index"
    and "decodes_base64 unb64" and "buffer_of (JStr v) = Inr (encodeUtf8 v)"
    and "index_text unb64 (value_of w kv_index) = JArr vs" and "all_objects vs"
    and "doc_ok (JArr (JObj [(js ''key'', JStr k), (js ''locked'', JBool False)] # vs))"
    and "message_ok (stringify (kv_event ''kv:updated'' k))"
  shows "\<exists>w1 m1 w2 locked m2.
      ex_create msg unb64 buffer_of send body w = (w1, Inr (Respond 201 (JsonBody (JObj
        [(js ''key'', JStr k), (js ''value'', JStr v), (js ''meta'', m1)]))))
    \<and> ex_read msg unb64 send k w1 = (w2, Inr (Respond 200 (JsonBody (JObj
        [(js ''key'', JStr k), (js ''value'', JStr v), (js ''locked'', locked), (js ''meta'', m2)]))))"
proof -
  let ?b = "base64 (encodeUtf8 v)"
  from put_law [OF assms(8) base64_arg_ok [OF assms(5,7)] assms(10)] obtain w1 where
    1: "send (put_text k ?b) w = (w1, Inr ROk)" "value_of w1 k = Some ?b"
      "changes_only value_of fixed (insert k (bookkeeping k)) w w1"
    by blast
  have c: "kv_index \<notin> insert k (bookkeeping k)" using assms(9) by auto
  have i: "read_index kv_index unb64 send w1 = (w1, Inr (JArr vs))" "\<not> fixed w1 kv_index"
      "index_text unb64 (value_of w1 kv_index) = JArr vs"
    using changes_onlyD [OF 1(3) kv_index_ok c] assms(11,14) read_index [of kv_index unb64 w1] by simp_all
  obtain found where f: "find_item ''key'' k vs = Inr found" using find_in_objects [OF assms(15)] by auto
  from ex_index_step [OF i(2) assms(15) f i(3) assms(12,16)] obtain w2 vs' where
    2: "(if found = None then
        act_bind (act_lift (unshift (JObj [(js ''key'', JStr k), (js ''locked'', JBool False)]) (JArr vs))) (ex_saveIndex send)
      else act_return ()) w1 = (w2, Inr ())"
      "index_text unb64 (value_of w2 kv_index) = JArr vs'" "all_objects vs'" "only_changes value_of fixed kv_index w1 w2"
    by blast
  have k: "key_ok k" "k \<noteq> []" using assms(8) by (auto simp: own_key_def key_ok_def token_def)
  have v2: "value_of w2 k = Some ?b" using only_changesD [OF 2(4) k(1) assms(9)] 1(2) by simp
  obtain m1 where m: "ex_meta send k w2 = (w2, Inr m1)" using ex_meta_ok [OF assms(8)] by blast
  have p: "parse_json body w = (w, Inr (JObj bs))" by (simp add: parse_json_def act_basic of_opt_def assms(1))
  have b: "body_key (JObj bs) = Inr (Some k)" "body_value (JObj bs) = Inr (JStr v)"
    by (simp_all add: body_key_def body_value_def assms(2,3,4))
  have g: "\<not> (Some k = None \<or> Some k = Some [])" using k by simp
  have "ex_create msg unb64 buffer_of send body w = (w2, Inr (Respond 201 (JsonBody (JObj
        [(js ''key'', JStr k), (js ''value'', JStr v), (js ''meta'', m1)]))))"
    unfolding ex_create_def
    by (rule act_catch_ok)
      (simp only: act_bind_ok act_basic p b g if_False Let_def option.sel assms(13) 1(1) i(1) f 2(1) m find_in_arr
        WormResponse.case ex_getIndex_def ex_publish_ok [OF assms(17)])
  moreover obtain w3 l m2 where "ex_read msg unb64 send k w2 = (w3, Inr (Respond 200 (JsonBody (JObj
        [(js ''key'', JStr k), (js ''value'', JStr v), (js ''locked'', l), (js ''meta'', m2)]))))"
    using ex_read_ok [OF assms(8) v2 assms(5,6,12) 2(2,3), of msg] by blast
  ultimately show ?thesis by blast
qed

text \<open>A key locked in the store but not in the index: the procedure drops the write and answers OK.\<close>

lemma ex_update_fixed:
  assumes "index_text unb64 (value_of w kv_index) = index" and "entry_locked k index = Inr l" and "\<not> truthy l"
    and "JSON_parse body = Some (JObj bs)" and "map_of bs (js ''value'') = Some (JStr v)" and "v \<noteq> []" and "length v \<le> 400000"
    and "own_key k" and "fixed w k" and "buffer_of (JStr v) = Inr (encodeUtf8 v)"
    and "message_ok (stringify (kv_event ''kv:updated'' k))"
  shows "\<exists>w' meta. ex_update msg unb64 buffer_of send k body w = (w', Inr (Respond 200 (JsonBody (JObj
        [(js ''key'', JStr k), (js ''value'', JStr v), (js ''meta'', meta)]))))
    \<and> value_of w' k = value_of w k"
proof -
  have i: "read_index kv_index unb64 send w = (w, Inr index)" using assms(1) read_index [of kv_index unb64 w] by simp
  from put_fixed_law [OF assms(8) base64_arg_ok [OF assms(6,7)] assms(9)] obtain w1 where
    1: "send (put_text k (base64 (encodeUtf8 v))) w = (w1, Inr ROk)" "changes_only value_of fixed (bookkeeping k) w w1"
    by blast
  obtain meta where m: "ex_meta send k w1 = (w1, Inr meta)" using ex_meta_ok [OF assms(8)] by blast
  have p: "parse_json body w = (w, Inr (JObj bs))" by (simp add: parse_json_def act_basic of_opt_def assms(4))
  have b: "body_value (JObj bs) = Inr (JStr v)" by (simp add: body_value_def assms(5))
  have "ex_update msg unb64 buffer_of send k body w = (w1, Inr (Respond 200 (JsonBody (JObj
        [(js ''key'', JStr k), (js ''value'', JStr v), (js ''meta'', meta)]))))"
    unfolding ex_update_def
    by (rule act_catch_ok)
      (simp only: act_bind_ok act_basic p b i ex_getIndex_def assms(2,3,10) if_False 1(1) m WormResponse.case
        ex_publish_ok [OF assms(11)])
  moreover have "value_of w1 k = value_of w k"
    using changes_onlyD [OF 1(2) _ own_not_bookkeeping [OF assms(8)]] assms(8) by (simp add: own_key_def)
  ultimately show ?thesis by blast
qed

end

subsection \<open>The explorer on the store with its procedures\<close>

text \<open>
C26: a key created through the explorer is read back: the POST answers 201, and a GET of the key then answers 200 with
the value posted, through the base64 of the procedure arguments, the text protocol, both codecs and the procedures.
\<close>

theorem key_created_is_read:
  assumes "JSON_parse body = Some (JObj bs)" and "map_of bs (js ''key'') = Some (JStr name)" and "trim name = k"
    and "map_of bs (js ''value'') = Some (JStr v)" and "v \<noteq> []" and "well_formed v" and "length v \<le> 400000"
    and "own_key k" and "k \<noteq> kv_index" and "\<not> key_fixed s k" and "\<not> key_fixed s kv_index"
    and "decodes_base64 unb64" and "buffer_of (JStr v) = Inr (encodeUtf8 v)"
    and "index_text unb64 (stored_text s kv_index) = JArr vs" and "all_objects vs"
    and "doc_ok (JArr (JObj [(js ''key'', JStr k), (js ''locked'', JBool False)] # vs))"
    and "message_ok (stringify (kv_event ''kv:updated'' k))"
  shows "\<exists>s1 m1 s2 locked m2.
      ex_create msg unb64 buffer_of (store_send (kv_procs now rest)) body s = (s1, Inr (Respond 201 (JsonBody (JObj
        [(js ''key'', JStr k), (js ''value'', JStr v), (js ''meta'', m1)]))))
    \<and> ex_read msg unb64 (store_send (kv_procs now rest)) k s1 = (s2, Inr (Respond 200 (JsonBody (JObj
        [(js ''key'', JStr k), (js ''value'', JStr v), (js ''locked'', locked), (js ''meta'', m2)]))))"
  using assms by (rule kvp.ex_create_reads)

abbreviation "text_buffer \<equiv> (\<lambda>j. case j of JStr s \<Rightarrow> Inr (encodeUtf8 s) | _ \<Rightarrow> Inl TypeError)"
abbreviation "post_ab \<equiv> stringify (JObj [(js ''key'', JStr (js ''a'')), (js ''value'', JStr (js ''b''))])"

lemma post_ab: "JSON_parse post_ab = Some (JObj [(js ''key'', JStr (js ''a'')), (js ''value'', JStr (js ''b''))])"
  by (rule parse_stringify) simp

lemma trim_word: "\<forall>c \<in> set s. \<not> is_ws c \<Longrightarrow> trim s = s"
proof -
  assume a: "\<forall>c \<in> set s. \<not> is_ws c"
  then have "trimStart s = s" by (cases s) (auto simp: trimStart_def)
  moreover have "trimEnd s = s" using a by (cases s rule: rev_cases) (auto simp: trimEnd_def)
  ultimately show ?thesis by (simp add: trim_def)
qed

lemma key_a [simp]: "own_key (js ''a'')" "js ''a'' \<noteq> kv_index"
  by (simp_all add: own_key_def key_simps)

lemma trim_a [simp]: "trim (js ''a'') = js ''a''"
  by (rule trim_word) (simp add: js_simps is_ws_def)

lemma message_a [simp]: "message_ok (stringify (kv_event ''kv:updated'' (js ''a'')))"
  by (simp add: message_ok_def kv_event_def doc_simps is_ws_def)

theorem key_created_is_read_witness:
  "\<exists>s1 m1 s2 locked m2.
      ex_create (\<lambda>_. []) plain_unb64 text_buffer (store_send (kv_procs 7 no_other)) post_ab empty_store
        = (s1, Inr (Respond 201 (JsonBody (JObj [(js ''key'', JStr (js ''a'')), (js ''value'', JStr (js ''b'')), (js ''meta'', m1)]))))
    \<and> ex_read (\<lambda>_. []) plain_unb64 (store_send (kv_procs 7 no_other)) (js ''a'') s1 = (s2, Inr (Respond 200 (JsonBody (JObj
        [(js ''key'', JStr (js ''a'')), (js ''value'', JStr (js ''b'')), (js ''locked'', locked), (js ''meta'', m2)]))))"
proof (rule key_created_is_read [OF post_ab])
  show "trim (js ''a'') = js ''a''" by simp
  show "js ''b'' \<noteq> []" by (simp add: js_simps)
  show "doc_ok (JArr (JObj [(js ''key'', JStr (js ''a'')), (js ''locked'', JBool False)] # []))"
    by (rule doc_ok_arr) (simp_all add: doc_simps)
qed (simp_all add: plain_unb64_decodes index_text_def all_objects_def)

text \<open>
C27: an entry marked as locked in the index protects its key: a DELETE is answered 403, a PUT with a JSON body other than
null is answered 403, and both leave the store as it is.
\<close>

theorem key_locked_is_refused:
  assumes "entry_locked k (index_text unb64 (stored_text s kv_index)) = Inr l" and "truthy l"
  shows "ex_delete msg unb64 (store_send other) k s = (s, Inr (text_response 403 ''Cannot delete WORM-locked key''))
    \<and> (\<forall>body b. JSON_parse body = Some b \<longrightarrow> b \<noteq> JNull \<longrightarrow>
         ex_update msg unb64 buffer_of (store_send other) k body s = (s, Inr (text_response 403 ''Key is WORM-locked'')))"
  using kv.ex_locked_refused [OF refl assms] by blast

abbreviation "locked_index \<equiv> JArr [JObj [(js ''key'', JStr (js ''a'')), (js ''locked'', JBool True)]]"
abbreviation "locked_a \<equiv>
  \<lparr>st_live = [encodeUtf8 kv_index \<mapsto> \<lparr>en_value = encodeUtf8 (to_base64 (stringify locked_index)), en_worm = False\<rparr>],
   st_frozen = Map.empty\<rparr>"

theorem key_locked_is_refused_witness:
  "ex_delete (\<lambda>_. []) plain_unb64 (store_send no_other) (js ''a'') locked_a
      = (locked_a, Inr (text_response 403 ''Cannot delete WORM-locked key''))
    \<and> ex_update (\<lambda>_. []) plain_unb64 text_buffer (store_send no_other) (js ''a'') post_ab locked_a
        = (locked_a, Inr (text_response 403 ''Key is WORM-locked''))"
proof -
  have d: "doc_ok locked_index" by (rule doc_ok_arr) (simp_all add: doc_simps)
  then have "stored_text locked_a kv_index = Some (to_base64 (stringify locked_index))"
    by (simp add: stored_text_def getValueDupe_def value_ok_decode doc_value_ok)
  then have l: "entry_locked (js ''a'') (index_text plain_unb64 (stored_text locked_a kv_index)) = Inr (Some (JBool True))"
    using d by (simp add: index_text_written plain_unb64_decodes entry_locked_def)
  have "truthy (Some (JBool True))" by simp
  from key_locked_is_refused [OF l this, of "\<lambda>_. []" no_other text_buffer] post_ab show ?thesis by blast
qed

text \<open>
The protection is only in the index: a PUT on a key that the store holds as WORM but whose index entry is not marked
answers 200 with the new value, although the procedure dropped the write and the old value is still stored.
\<close>

theorem key_update_of_fixed_claims_success:
  assumes "entry_locked k (index_text unb64 (stored_text s kv_index)) = Inr l" and "\<not> truthy l"
    and "JSON_parse body = Some (JObj bs)" and "map_of bs (js ''value'') = Some (JStr v)" and "v \<noteq> []" and "length v \<le> 400000"
    and "own_key k" and "key_fixed s k" and "buffer_of (JStr v) = Inr (encodeUtf8 v)"
    and "message_ok (stringify (kv_event ''kv:updated'' k))"
  shows "\<exists>s' meta. ex_update msg unb64 buffer_of (store_send (kv_procs now rest)) k body s
      = (s', Inr (Respond 200 (JsonBody (JObj [(js ''key'', JStr k), (js ''value'', JStr v), (js ''meta'', meta)]))))
    \<and> stored_text s' k = stored_text s k"
  by (rule kvp.ex_update_fixed [where index = "index_text unb64 (stored_text s kv_index)"]) (use assms in simp_all)

abbreviation "fixed_a \<equiv>
  \<lparr>st_live = [encodeUtf8 (js ''a'') \<mapsto> \<lparr>en_value = [99], en_worm = True\<rparr>], st_frozen = Map.empty\<rparr>"

theorem key_update_of_fixed_claims_success_witness:
  "\<exists>s' meta. ex_update (\<lambda>_. []) plain_unb64 text_buffer (store_send (kv_procs 7 no_other)) (js ''a'') post_ab fixed_a
      = (s', Inr (Respond 200 (JsonBody (JObj [(js ''key'', JStr (js ''a'')), (js ''value'', JStr (js ''b'')), (js ''meta'', meta)]))))
    \<and> stored_text s' (js ''a'') = stored_text fixed_a (js ''a'')"
proof (rule key_update_of_fixed_claims_success [OF _ _ post_ab])
  have "encodeUtf8 kv_index \<noteq> encodeUtf8 (js ''a'')" using key_ok_inj [of kv_index "js ''a''"] by (simp add: key_simps)
  then show "entry_locked (js ''a'') (index_text plain_unb64 (stored_text fixed_a kv_index)) = Inr None"
    by (simp add: stored_text_def getValueDupe_def index_text_def entry_locked_def)
  show "js ''b'' \<noteq> []" by (simp add: js_simps)
qed (simp_all add: key_fixed_def worm_violation_def)

subsection \<open>Metadata\<close>

lemma split_on_plain: "c \<notin> set a \<Longrightarrow> split_on c a = [a]" "c \<notin> set a \<Longrightarrow> split_on c (a @ c # b) = a # split_on c b"
  by (induction a) auto

lemma split_on_join: "\<forall>l \<in> set ls. c \<notin> set l \<Longrightarrow> ls \<noteq> [] \<Longrightarrow> split_on c (join [c] ls) = ls"
  by (induction ls rule: induct_list012) (auto simp: split_on_plain)

text \<open>The text the procedures write, as the explorer reads it.\<close>

definition meta_lines :: "nat \<Rightarrow> nat \<Rightarrow> nat \<Rightarrow> nat \<Rightarrow> jstring list" where
  "meta_lines c u w r =
     [js ''created='' @ digits_of c, js ''updated='' @ digits_of u, js ''writes='' @ digits_of w, js ''reads='' @ digits_of r]"

lemma meta_text_decode:
  assumes "c < 2 ^ 64" and "u < 2 ^ 64" and "w < 2 ^ 63" and "r < 2 ^ 63"
  shows "decodeUtf8 (meta_text (int c) (int u) (int w) (int r)) = join [10] (meta_lines c u w r)"
proof -
  let ?t = "join [10] (meta_lines c u w r)"
  have "length (digits_of n) \<le> 20" if "n < 2 ^ 64" for n
    using that length_digits_of [of n 19] by simp
  then have "length (digits_of c) \<le> 20" "length (digits_of u) \<le> 20" "length (digits_of w) \<le> 20" "length (digits_of r) \<le> 20"
    using assms by simp_all
  then have "length ?t \<le> 512" by (simp add: meta_lines_def)
  then have "meta_text (int c) (int u) (int w) (int r) = ascii_bytes ?t"
    unfolding meta_text_def ctx_fmt_def meta_lines_def lit_ascii decimal_ascii by (simp del: of_nat_unat)
  moreover have a: "\<forall>x \<in> set ?t. unat x < 128"
    using digits_of_ascii by (force simp: meta_lines_def js_simps)
  moreover have "decodeUtf8 (encodeUtf8 ?t) = ?t"
    using a by (intro decodeUtf8_encodeUtf8_id well_formed_ascii) (force, simp add: meta_lines_def js_simps)
  ultimately show ?thesis by (simp only: encodeUtf8_ascii)
qed

lemma trim_digits: "trim (digits_of n) = digits_of n"
proof -
  have "\<not> is_ws c" if "c \<in> set (digits_of n)" for c
    using digits_of_ascii [OF that] is_ws_range [of c] by linarith
  then show ?thesis by (simp add: trim_word)
qed

lemma kv_line_digits:
  assumes "61 \<notin> set (js f)" and "token (js f)" and "f \<noteq> ''__proto__''"
  shows "kv_line kv (js (f @ ''='') @ digits_of n) = kv(js f \<mapsto> digits_of n)"
proof -
  have e: "js (f @ ''='') @ digits_of n = js f @ 61 # digits_of n" by (simp add: js_def)
  have "61 \<notin> set (digits_of n)" using digits_of_ascii by fastforce
  then have "split_on 61 (js f @ 61 # digits_of n) = [js f, digits_of n]"
    using assms(1) by (simp add: split_on_plain)
  moreover have "trim (js f) = js f" using assms(2) by (simp add: token_def trim_word)
  ultimately show ?thesis unfolding e using assms(2,3) by (simp add: kv_line_def trim_digits token_def)
qed

lemma meta_line:
  "kv_line kv (js ''created='' @ digits_of n) = kv(js ''created'' \<mapsto> digits_of n)"
  "kv_line kv (js ''updated='' @ digits_of n) = kv(js ''updated'' \<mapsto> digits_of n)"
  "kv_line kv (js ''writes='' @ digits_of n) = kv(js ''writes'' \<mapsto> digits_of n)"
  "kv_line kv (js ''reads='' @ digits_of n) = kv(js ''reads'' \<mapsto> digits_of n)"
  using kv_line_digits [of "''created''" kv n] kv_line_digits [of "''updated''" kv n]
    kv_line_digits [of "''writes''" kv n] kv_line_digits [of "''reads''" kv n]
  by (simp_all add: token_def is_ws_def js_simps)

text \<open>
The explorer reads the metadata the procedures write: for timestamps and counters of the procedures' types the text
that \<open>kv_put\<close> and \<open>kv_get\<close> store is parsed back to the same four numbers.
\<close>

theorem metadata_is_read_back:
  assumes "c < 2 ^ 64" and "u < 2 ^ 64" and "w < 2 ^ 63" and "r < 2 ^ 63"
  shows "parseMeta (decodeUtf8 (meta_text (int c) (int u) (int w) (int r)))
    = JObj [(js ''created'', JStr (digits_of c)), (js ''updated'', JStr (digits_of u)),
        (js ''writes'', JNum (digits_of w)), (js ''reads'', JNum (digits_of r))]"
proof -
  have nl: "10 \<notin> set (digits_of n)" for n using digits_of_ascii by fastforce
  have "split_on 10 (join [10] (meta_lines c u w r)) = meta_lines c u w r"
    using nl by (intro split_on_join) (auto simp: meta_lines_def js_simps)
  then have "parseKV (join [10] (meta_lines c u w r))
      = [js ''created'' \<mapsto> digits_of c, js ''updated'' \<mapsto> digits_of u, js ''writes'' \<mapsto> digits_of w, js ''reads'' \<mapsto> digits_of r]"
    by (simp only: parseKV_def) (simp only: meta_lines_def foldl.simps meta_line)
  then show ?thesis
    unfolding meta_text_decode [OF assms]
    by (simp add: parseMeta_def or_zero_def parseInt_digits json_int_def String_int_def digits_of_not_Nil)
qed

theorem metadata_is_read_back_witness:
  "parseMeta (decodeUtf8 (meta_text 5 6 2 1))
    = JObj [(js ''created'', JStr (digits_of 5)), (js ''updated'', JStr (digits_of 6)),
        (js ''writes'', JNum (digits_of 2)), (js ''reads'', JNum (digits_of 1))]"
  using metadata_is_read_back [of 5 6 2 1] by simp

subsection \<open>Empty values\<close>

lemma parseCommand_space: "t \<noteq> [] \<Longrightarrow> \<not> is_ws (hd t) \<Longrightarrow> parseCommand (t @ [32]) = parseCommand t"
proof -
  assume "t \<noteq> []" "\<not> is_ws (hd t)"
  then have "trim (t @ [32]) = trim t" by (cases t) (auto simp: trim_def trimStart_def trimEnd_def)
  then show ?thesis by (simp only: parseCommand_def)
qed

lemma send_put_empty:
  assumes "own_key k"
  shows "store_send (kv_procs now rest) (put_text k []) s = (s, Inr (RError (js ''kv_put requires 2 args: <key> <value>'')))"
proof -
  let ?t = "join [32] (js ''EXEC'' # js ''kv_put'' # [k])"
  have "put_text k [] = ?t @ [32]" by (simp add: js_simps)
  moreover have "?t \<noteq> []" "\<not> is_ws (hd ?t)" by (simp_all add: js_simps is_ws_def)
  ultimately have "parseCommand (put_text k []) = parseCommand ?t" using parseCommand_space by metis
  then have "store_send (kv_procs now rest) (put_text k []) s = store_send (kv_procs now rest) ?t s"
    by (simp only: store_send_def)
  moreover have "length (encodeUtf8 k) \<le> 400" using assms length_encodeUtf8 [of k] by (simp add: own_key_def)
  moreover have "length (encodeUtf8 (js ''kv_put'')) = 6" by (simp add: proc_names lit_def)
  ultimately have "store_send (kv_procs now rest) (put_text k []) s
      = (s, Inr (client_view (ZErr (lit ''kv_put requires 2 args: <key> <value>''))))"
    using assms send_exec [of "js ''kv_put''" "[k]" now rest s]
    by (simp add: own_key_def key_ok_def proc_names MAX_PAYLOAD_def kv_procs_def kv_put_def)
  moreover have "lit ''kv_put requires 2 args: <key> <value>'' = encodeUtf8 (js ''kv_put requires 2 args: <key> <value>'')"
    by (simp add: lit_utf8)
  moreover have "take 1 (js ''kv_put requires 2 args: <key> <value>'') \<noteq> [0xFEFF]" by (simp add: js_simps)
  ultimately show ?thesis by (simp add: decodeUtf8_encodeUtf8_id)
qed

text \<open>
A key cannot be created with the empty value: its base64 is empty, so the command line has one argument less and the
POST answers 400 with the procedure's complaint about missing arguments.
\<close>

theorem key_empty_value_is_rejected:
  assumes "JSON_parse body = Some (JObj bs)" and "map_of bs (js ''key'') = Some (JStr name)" and "trim name = k"
    and "map_of bs (js ''value'') = None \<or> map_of bs (js ''value'') = Some (JStr [])" and "own_key k"
    and "buffer_of (JStr []) = Inr []"
  shows "ex_create msg unb64 buffer_of (store_send (kv_procs now rest)) body s
    = (s, Inr (Respond 400 (TextBody (js ''kv_put requires 2 args: <key> <value>''))))"
proof -
  have p: "parse_json body s = (s, Inr (JObj bs))" by (simp add: parse_json_def act_basic of_opt_def assms(1))
  have b: "body_key (JObj bs) = Inr (Some k)" "body_value (JObj bs) = Inr (JStr [])"
    using assms(2,3,4) by (auto simp: body_key_def body_value_def)
  have g: "\<not> (Some k = None \<or> Some k = Some [])" using assms(5) by (auto simp: own_key_def key_ok_def token_def)
  have e: "base64 [] = []" by simp
  show ?thesis
    unfolding ex_create_def
    by (rule act_catch_ok)
      (simp only: act_bind_ok act_basic p b g if_False Let_def option.sel assms(6) e send_put_empty [OF assms(5)] WormResponse.case)
qed

theorem key_empty_value_is_rejected_witness:
  "ex_create (\<lambda>_. []) plain_unb64 text_buffer (store_send (kv_procs 7 no_other)) (stringify (JObj [(js ''key'', JStr (js ''a''))])) empty_store
    = (empty_store, Inr (Respond 400 (TextBody (js ''kv_put requires 2 args: <key> <value>''))))"
proof (rule key_empty_value_is_rejected)
  show "JSON_parse (stringify (JObj [(js ''key'', JStr (js ''a''))])) = Some (JObj [(js ''key'', JStr (js ''a''))])"
    by (rule parse_stringify) simp
  show "map_of [(js ''key'', JStr (js ''a''))] (js ''key'') = Some (JStr (js ''a''))" by simp
  show "trim (js ''a'') = js ''a''" by simp
qed simp_all

end
