(* ===== verification/Ui_Cluster.thy ===== *)
theory Ui_Cluster
  imports Event_Feed Js_Parse "HOL-Library.AList"
begin

section \<open>Endpoints, failover and the event feed of the dashboard (\<open>apps/bun/src/bin/ui.ts\<close>)\<close>

text \<open>
  The module state of \<open>ui.ts\<close> and every function that changes it: the parser of CLUSTER PEERS, the
  discovery of endpoints, failover, the event subscription with its timer, and the periodic status.
  Numbers are a type \<open>'n\<close> with the parameters \<open>Number\<close> (the conversion of a string), \<open>pos\<close> (\<open>n > 0\<close>)
  and \<open>num\<close> (\<open>String(n)\<close>). A status push is two steps, its requests and the continuation, since
  anything may happen while it waits.
\<close>

subsection \<open>Peers\<close>

record peer =
  pr_meshIp :: jstring
  pr_state :: jstring
  pr_gossipEndpoint :: "jstring option"
  pr_wormwire :: jstring

lemma indexOf_bound: "indexOf s p = Some i \<Longrightarrow> i + length p \<le> length s"
proof (induction s arbitrary: i)
  case (Cons x s)
  then show ?case
    by (auto simp: startsWith_def split: if_splits) (metis length_Cons length_take min_def nat_le_linear)
qed (auto split: if_splits)

lemma indexOf_rest: "indexOf s sep = Some i \<Longrightarrow> sep \<noteq> [] \<Longrightarrow> length s - (i + length sep) < length s"
  using indexOf_bound [of s sep i] by (cases sep) auto

text \<open>\<open>s.split(sep)\<close> for a separator that is not empty.\<close>

function split_str :: "jstring \<Rightarrow> jstring \<Rightarrow> jstring list" where
  "split_str sep s =
     (if sep = [] then [s]
      else case indexOf s sep of
        None \<Rightarrow> [s]
      | Some i \<Rightarrow> take i s # split_str sep (drop (i + length sep) s))"
  by pat_completeness auto
termination
  by (relation "measure (\<lambda>(sep, s). length s)") (auto dest: indexOf_rest)

declare split_str.simps [simp del]

text \<open>\<open>kv.k || d\<close>.\<close>

definition or_text :: "(jstring \<rightharpoonup> jstring) \<Rightarrow> string \<Rightarrow> jstring \<Rightarrow> jstring" where
  "or_text kv k d = (case kv (js k) of Some v \<Rightarrow> if v \<noteq> [] then v else d | None \<Rightarrow> d)"

definition section_line :: "(jstring \<rightharpoonup> jstring) \<Rightarrow> jstring \<Rightarrow> (jstring \<rightharpoonup> jstring)" where
  "section_line kv line =
     (case indexOf line [61] of
        None \<Rightarrow> kv
      | Some eq \<Rightarrow>
          if eq > 0 \<and> take eq line \<noteq> js ''__proto__'' then kv(take eq line \<mapsto> drop (eq + 1) line) else kv)"

definition section_kv :: "jstring \<Rightarrow> (jstring \<rightharpoonup> jstring)" where
  "section_kv s = foldl section_line Map.empty (split_on 10 s)"

definition peer_of :: "(jstring \<rightharpoonup> jstring) \<Rightarrow> peer" where
  "peer_of kv =
     \<lparr>pr_meshIp = or_text kv ''mesh_ip'' [], pr_state = or_text kv ''state'' (js ''unknown''),
      pr_gossipEndpoint = (let g = or_text kv ''gossip_endpoint'' [] in if g = [] then None else Some g),
      pr_wormwire = or_text kv ''wormwire'' (js ''disconnected'')\<rparr>"

record 'n cluster_view =
  cv_selfIp :: jstring
  cv_selfPort :: 'n
  cv_peers :: "peer list"

text \<open>One section: the first may describe the node itself, any other with a mesh address is a peer.\<close>

definition peer_section :: "(jstring \<Rightarrow> 'n) \<Rightarrow> 'n cluster_view \<Rightarrow> nat \<times> jstring \<Rightarrow> 'n cluster_view" where
  "peer_section Number v sec =
     (case sec of (i, s) \<Rightarrow>
        let kv = section_kv s in
        if i = 0 \<and> or_text kv ''self_mesh_ip'' [] \<noteq> [] then
          v\<lparr>cv_selfIp := or_text kv ''self_mesh_ip'' [], cv_selfPort := Number (or_text kv ''self_port'' (js ''0''))\<rparr>
        else if or_text kv ''mesh_ip'' [] \<noteq> [] then v\<lparr>cv_peers := cv_peers v @ [peer_of kv]\<rparr>
        else v)"

definition gossip_ip :: "jstring \<Rightarrow> jstring" where
  "gossip_ip g = hd (split_on 58 g)"

definition keep_peer :: "(jstring \<times> peer) list \<Rightarrow> peer \<Rightarrow> (jstring \<times> peer) list" where
  "keep_peer byGossipIp peer =
     (case pr_gossipEndpoint peer of
        None \<Rightarrow> byGossipIp
      | Some g \<Rightarrow>
          let ip = gossip_ip g in
          case map_of byGossipIp ip of
            None \<Rightarrow> AList.update ip peer byGossipIp
          | Some existing \<Rightarrow>
              if pr_state existing = js ''dead'' \<and> pr_state peer \<noteq> js ''dead'' then AList.update ip peer byGossipIp
              else byGossipIp)"

definition dedupe_peers :: "peer list \<Rightarrow> peer list" where
  "dedupe_peers rawPeers = map snd (foldl keep_peer [] rawPeers)"

definition raw_view :: "(jstring \<Rightarrow> 'n) \<Rightarrow> 'n \<Rightarrow> jstring \<Rightarrow> 'n cluster_view" where
  "raw_view Number zero text =
     foldl (peer_section Number) \<lparr>cv_selfIp = js ''0.0.0.0'', cv_selfPort = zero, cv_peers = []\<rparr>
       (enumerate 0 (filter (\<lambda>s. trim s \<noteq> []) (split_str (js ''---'' @ [10]) text)))"

definition parsePeersResponse :: "(jstring \<Rightarrow> 'n) \<Rightarrow> 'n \<Rightarrow> jstring \<Rightarrow> 'n cluster_view" where
  "parsePeersResponse Number zero text =
     (let v = raw_view Number zero text in v\<lparr>cv_peers := dedupe_peers (cv_peers v)\<rparr>)"

subsection \<open>State\<close>

record 'n endpoint =
  ep_host :: jstring
  ep_port :: 'n
  ep_meshIp :: "jstring option"

record 'n ui =
  ui_activeEndpoint :: "'n endpoint"
  ui_knownEndpoints :: "'n endpoint list"
  ui_consecutiveFailures :: nat
  ui_lastPeers :: "peer list"
  ui_eventSocket :: "nat option"
  ui_eventConnecting :: bool
  ui_eventInbound :: bytes
  ui_eventReconnectTimer :: bool
  ui_writes :: "(nat \<times> bytes) list"
  ui_dials :: "(jstring \<times> 'n) list"
  ui_ended :: "nat list"
  ui_broadcasts :: "json list"

definition initial_ui :: "jstring \<Rightarrow> 'n \<Rightarrow> 'n ui" where
  "initial_ui host port =
     \<lparr>ui_activeEndpoint = \<lparr>ep_host = host, ep_port = port, ep_meshIp = None\<rparr>,
      ui_knownEndpoints = [\<lparr>ep_host = host, ep_port = port, ep_meshIp = None\<rparr>],
      ui_consecutiveFailures = 0, ui_lastPeers = [], ui_eventSocket = None, ui_eventConnecting = False,
      ui_eventInbound = [], ui_eventReconnectTimer = False, ui_writes = [], ui_dials = [], ui_ended = [], ui_broadcasts = []\<rparr>"

definition getActiveTarget :: "'n ui \<Rightarrow> jstring \<times> 'n" where
  "getActiveTarget u = (ep_host (ui_activeEndpoint u), ep_port (ui_activeEndpoint u))"

text \<open>\<open>broadcast(type, payload)\<close> as the message sent to every client.\<close>

definition ui_broadcast :: "string \<Rightarrow> (jstring \<times> json) list \<Rightarrow> 'n ui \<Rightarrow> 'n ui" where
  "ui_broadcast type payload u =
     u\<lparr>ui_broadcasts := ui_broadcasts u @ [JObj (spread [(js ''type'', JStr (js type))] (JObj payload))]\<rparr>"

subsection \<open>The event subscription\<close>

definition scheduleEventReconnect :: "'n ui \<Rightarrow> 'n ui" where
  "scheduleEventReconnect u = (if ui_eventReconnectTimer u then u else u\<lparr>ui_eventReconnectTimer := True\<rparr>)"

definition ui_setupEventSubscription :: "'n ui \<Rightarrow> 'n ui" where
  "ui_setupEventSubscription u =
     (if ui_eventSocket u \<noteq> None \<or> ui_eventConnecting u then u
      else u\<lparr>ui_eventConnecting := True, ui_dials := ui_dials u @ [getActiveTarget u]\<rparr>)"

definition on_event_timer :: "'n ui \<Rightarrow> 'n ui" where
  "on_event_timer u =
     (if ui_eventReconnectTimer u then ui_setupEventSubscription (u\<lparr>ui_eventReconnectTimer := False\<rparr>) else u)"

definition on_event_open :: "nat \<Rightarrow> 'n ui \<Rightarrow> 'n ui" where
  "on_event_open s u =
     u\<lparr>ui_eventConnecting := False, ui_eventSocket := Some s, ui_eventInbound := [],
       ui_writes := ui_writes u @ [(s, WIRE_MAGIC), (s, sub_frame (js ''cluster''))]\<rparr>"

definition event_broadcast :: "'n ui \<Rightarrow> nat \<Rightarrow> bytes \<Rightarrow> 'n ui" where
  "event_broadcast u code payload =
     (if \<not> isEventCode code then u
      else
        case decodeResponse code payload of
          REvent channel message \<Rightarrow>
            ui_broadcast ''event'' [(js ''channel'', JStr channel), (js ''message'', JStr message)] u
        | _ \<Rightarrow> u)"

definition on_event_data :: "nat \<Rightarrow> 'n ui \<Rightarrow> bytes \<Rightarrow> 'n ui" where
  "on_event_data s u chunk =
     (if ui_eventSocket u \<noteq> Some s then u
      else
        let (u', rest) = frame_loop event_broadcast (ui_eventInbound u @ chunk) u
        in u'\<lparr>ui_eventInbound := rest\<rparr>)"

definition on_event_close :: "nat \<Rightarrow> 'n ui \<Rightarrow> 'n ui" where
  "on_event_close s u =
     (if ui_eventSocket u \<noteq> Some s then u
      else scheduleEventReconnect (u\<lparr>ui_eventSocket := None, ui_eventInbound := []\<rparr>))"

definition on_event_error :: "nat \<Rightarrow> 'n ui \<Rightarrow> 'n ui" where
  "on_event_error s u =
     (if ui_eventSocket u \<noteq> None \<and> ui_eventSocket u \<noteq> Some s then u
      else scheduleEventReconnect (u\<lparr>ui_eventSocket := None, ui_eventConnecting := False, ui_eventInbound := []\<rparr>))"

definition on_event_failed :: "'n ui \<Rightarrow> 'n ui" where
  "on_event_failed u =
     scheduleEventReconnect (u\<lparr>ui_eventConnecting := False, ui_eventSocket := None, ui_eventInbound := []\<rparr>)"

subsection \<open>Discovery and failover\<close>

text \<open>\<open>s.lastIndexOf(c)\<close>.\<close>

definition lastIndexOf :: "jstring \<Rightarrow> u16 \<Rightarrow> nat option" where
  "lastIndexOf s c = (if c \<in> set s then Some (length s - 1 - length (takeWhile (\<lambda>x. x \<noteq> c) (rev s))) else None)"

definition peer_host :: "jstring \<Rightarrow> jstring" where
  "peer_host g = (case lastIndexOf g 58 of Some i \<Rightarrow> if i > 0 then take i g else g | None \<Rightarrow> g)"

definition discover_peer :: "'n \<Rightarrow> 'n ui \<Rightarrow> peer \<Rightarrow> 'n ui" where
  "discover_peer wormPort u peer =
     (case pr_gossipEndpoint peer of
        None \<Rightarrow> u
      | Some g \<Rightarrow>
          if pr_state peer \<noteq> js ''alive'' \<or> g = [] then u
          else
            let peerIp = peer_host g in
            if peerIp = [] \<or> peerIp = js ''0.0.0.0'' then u
            else if \<exists>ep \<in> set (ui_knownEndpoints u). ep_host ep = peerIp \<and> ep_port ep = wormPort then u
            else u\<lparr>ui_knownEndpoints := ui_knownEndpoints u
                   @ [\<lparr>ep_host = peerIp, ep_port = wormPort, ep_meshIp = Some (pr_meshIp peer)\<rparr>]\<rparr>)"

definition discoverEndpoints :: "peer list \<Rightarrow> 'n \<Rightarrow> 'n ui \<Rightarrow> 'n ui" where
  "discoverEndpoints peers wormPort u = foldl (discover_peer wormPort) u peers"

definition target_text :: "('n \<Rightarrow> jstring) \<Rightarrow> jstring \<times> 'n \<Rightarrow> jstring" where
  "target_text num t = fst t @ [58] @ num (snd t)"

definition endpoint_text :: "('n \<Rightarrow> jstring) \<Rightarrow> 'n endpoint \<Rightarrow> jstring" where
  "endpoint_text num ep = target_text num (ep_host ep, ep_port ep)"

definition failoverToNext :: "('n \<Rightarrow> jstring) \<Rightarrow> 'n ui \<Rightarrow> 'n ui \<times> bool" where
  "failoverToNext num u =
     (case filter (\<lambda>ep. endpoint_text num ep \<noteq> endpoint_text num (ui_activeEndpoint u)) (ui_knownEndpoints u) of
        [] \<Rightarrow> (u, False)
      | next # _ \<Rightarrow>
          let u = u\<lparr>ui_activeEndpoint := next, ui_consecutiveFailures := 0\<rparr>;
              u = (case ui_eventSocket u of
                     None \<Rightarrow> u
                   | Some s \<Rightarrow> u\<lparr>ui_ended := ui_ended u @ [s], ui_eventSocket := None\<rparr>)
          in (ui_setupEventSubscription u, True))"

subsection \<open>The status push\<close>

fun response_json :: "WormResponse \<Rightarrow> json" where
  "response_json ROk = JObj [(js ''type'', JStr (js ''ok''))]"
| "response_json (RError m) = JObj [(js ''type'', JStr (js ''error'')), (js ''message'', JStr m)]"
| "response_json RNull = JObj [(js ''type'', JStr (js ''null''))]"
| "response_json (RBulk v) = JObj [(js ''type'', JStr (js ''bulk'')), (js ''value'', JStr v)]"
| "response_json (REvent c m) = JObj [(js ''type'', JStr (js ''event'')), (js ''channel'', JStr c), (js ''message'', JStr m)]"

definition peer_json :: "peer \<Rightarrow> json" where
  "peer_json p =
     JObj [(js ''meshIp'', JStr (pr_meshIp p)), (js ''state'', JStr (pr_state p)),
       (js ''gossipEndpoint'', case pr_gossipEndpoint p of None \<Rightarrow> JNull | Some g \<Rightarrow> JStr g),
       (js ''wormwire'', JStr (pr_wormwire p))]"

definition json_nat :: "nat \<Rightarrow> json" where
  "json_nat n = JNum (digits_of n)"

text \<open>The continuation when both status requests were answered; the peers request may have failed.\<close>

definition pushStatus_done :: "(jstring \<Rightarrow> 'n) \<Rightarrow> 'n \<Rightarrow> ('n \<Rightarrow> bool) \<Rightarrow> ('n \<Rightarrow> jstring) \<Rightarrow> jstring \<times> 'n
    \<Rightarrow> WormResponse \<Rightarrow> WormResponse \<Rightarrow> WormResponse option \<Rightarrow> 'n ui \<Rightarrow> 'n ui" where
  "pushStatus_done Number zero pos num target response cluster peersResp u =
     (let u = u\<lparr>ui_consecutiveFailures := 0\<rparr>;
          (selfMeshIp, peers, u) =
            (case peersResp of
               Some (RBulk v) \<Rightarrow>
                 if v \<noteq> [] then
                   let parsed = parsePeersResponse Number zero v;
                       peers = cv_peers parsed;
                       u = u\<lparr>ui_lastPeers := peers\<rparr>
                   in (cv_selfIp parsed, peers,
                       if pos (cv_selfPort parsed) \<and> peers \<noteq> [] then discoverEndpoints peers (cv_selfPort parsed) u else u)
                 else ([], [], u)
             | _ \<Rightarrow> ([], [], u))
      in ui_broadcast ''status''
           [(js ''target'', JStr (target_text num target)), (js ''selfMeshIp'', JStr selfMeshIp),
            (js ''response'', response_json response), (js ''cluster'', response_json cluster),
            (js ''peers'', JArr (map peer_json peers)),
            (js ''knownEndpoints'', json_nat (length (ui_knownEndpoints u))), (js ''connected'', JBool True)] u)"

definition pushStatus_failed :: "('n \<Rightarrow> jstring) \<Rightarrow> jstring \<times> 'n \<Rightarrow> 'n ui \<Rightarrow> 'n ui" where
  "pushStatus_failed num target u =
     (let u = u\<lparr>ui_consecutiveFailures := ui_consecutiveFailures u + 1\<rparr>;
          u = ui_broadcast ''status''
            [(js ''target'', JStr (target_text num target)), (js ''connected'', JBool False),
             (js ''failureCount'', json_nat (ui_consecutiveFailures u))] u
      in if ui_consecutiveFailures u \<ge> 2 \<and> length (ui_knownEndpoints u) > 1 then fst (failoverToNext num u) else u)"

subsection \<open>Peers are deduplicated\<close>

definition peer_ip :: "peer \<Rightarrow> jstring" where
  "peer_ip p = (case pr_gossipEndpoint p of Some g \<Rightarrow> gossip_ip g | None \<Rightarrow> [])"

abbreviation "is_dead p \<equiv> pr_state p = js ''dead''"

definition kept :: "peer list \<Rightarrow> (jstring \<times> peer) list \<Rightarrow> bool" where
  "kept raw acc \<longleftrightarrow> distinct (map fst acc)
     \<and> (\<forall>ip p. (ip, p) \<in> set acc \<longrightarrow> p \<in> set raw \<and> pr_gossipEndpoint p \<noteq> None \<and> peer_ip p = ip)
     \<and> (\<forall>p \<in> set raw. pr_gossipEndpoint p \<noteq> None \<longrightarrow>
          (\<exists>q. map_of acc (peer_ip p) = Some q \<and> (\<not> is_dead p \<longrightarrow> \<not> is_dead q)))"

lemma keptD:
  assumes "kept raw acc"
  shows "distinct (map fst acc)"
    and "(ip, p) \<in> set acc \<Longrightarrow> p \<in> set raw \<and> pr_gossipEndpoint p \<noteq> None \<and> peer_ip p = ip"
    and "p \<in> set raw \<Longrightarrow> pr_gossipEndpoint p \<noteq> None \<Longrightarrow>
      \<exists>q. map_of acc (peer_ip p) = Some q \<and> (\<not> is_dead p \<longrightarrow> \<not> is_dead q)"
  using assms unfolding kept_def by blast+

lemma set_update: "x \<in> set (AList.update k v al) \<Longrightarrow> x = (k, v) \<or> x \<in> set al"
  by (induction al) (auto split: if_splits)

lemma kept_update:
  assumes "kept raw acc" and "pr_gossipEndpoint p \<noteq> None"
    and "\<And>q. map_of acc (peer_ip p) = Some q \<Longrightarrow> is_dead q \<and> \<not> is_dead p"
  shows "kept (raw @ [p]) (AList.update (peer_ip p) p acc)"
proof -
  let ?acc = "AList.update (peer_ip p) p acc"
  have "distinct (map fst ?acc)" using assms(1) by (simp add: kept_def distinct_update)
  moreover have "pa \<in> set (raw @ [p]) \<and> pr_gossipEndpoint pa \<noteq> None \<and> peer_ip pa = ip" if "(ip, pa) \<in> set ?acc" for ip pa
    using set_update [OF that] assms(1,2) by (auto simp: kept_def)
  moreover have "\<exists>q. map_of ?acc (peer_ip pa) = Some q \<and> (\<not> is_dead pa \<longrightarrow> \<not> is_dead q)"
    if pa: "pa \<in> set (raw @ [p])" "pr_gossipEndpoint pa \<noteq> None" for pa
  proof (cases "peer_ip pa = peer_ip p")
    case True
    have "\<not> is_dead p" if "pa \<noteq> p"
    proof -
      have "pa \<in> set raw" using pa that by simp
      with keptD(3) [OF assms(1)] pa(2) obtain q where "map_of acc (peer_ip pa) = Some q" by blast
      with assms(3) True show ?thesis by simp
    qed
    then show ?thesis using True by (auto simp: update_conv')
  next
    case False
    then have "pa \<in> set raw" using pa by auto
    with keptD(3) [OF assms(1)] pa(2) False show ?thesis by (simp add: update_conv')
  qed
  ultimately show ?thesis unfolding kept_def by blast
qed

lemma kept_same: "kept raw acc \<Longrightarrow> pr_gossipEndpoint p = None \<or> (\<exists>q. map_of acc (peer_ip p) = Some q \<and> (\<not> is_dead p \<longrightarrow> \<not> is_dead q))
    \<Longrightarrow> kept (raw @ [p]) acc"
  unfolding kept_def by auto

lemma keep_peer_kept:
  assumes "kept raw acc"
  shows "kept (raw @ [p]) (keep_peer acc p)"
proof (cases "pr_gossipEndpoint p")
  case None
  then show ?thesis using kept_same [OF assms] by (simp add: keep_peer_def)
next
  case (Some g)
  then have ip: "gossip_ip g = peer_ip p" by (simp add: peer_ip_def)
  show ?thesis
  proof (cases "map_of acc (peer_ip p)")
    case None
    then show ?thesis using kept_update [OF assms, of p] Some by (simp add: keep_peer_def ip)
  next
    case (Some q)
    then show ?thesis
      using kept_update [OF assms, of p] kept_same [OF assms, of p] \<open>pr_gossipEndpoint p = Some g\<close>
      by (auto simp: keep_peer_def ip)
  qed
qed

lemma keep_peers_kept: "kept raw acc \<Longrightarrow> kept (raw @ ps) (foldl keep_peer acc ps)"
proof (induction ps arbitrary: raw acc)
  case (Cons p ps)
  then show ?case using Cons.IH [OF keep_peer_kept [OF Cons.prems, of p]] by simp
qed simp

text \<open>
The parser of CLUSTER PEERS keeps one peer per gossip address: the addresses of its peers are distinct, every peer it
returns was in the response, every peer with a gossip endpoint is represented by one at the same address, and the
representative is not dead when any peer at the address is not dead.
\<close>

theorem peers_deduplicated:
  "distinct (map peer_ip (cv_peers (parsePeersResponse Number zero text)))
   \<and> set (cv_peers (parsePeersResponse Number zero text)) \<subseteq> set (cv_peers (raw_view Number zero text))
   \<and> (\<forall>p \<in> set (cv_peers (raw_view Number zero text)). pr_gossipEndpoint p \<noteq> None \<longrightarrow>
        (\<exists>q \<in> set (cv_peers (parsePeersResponse Number zero text)). peer_ip q = peer_ip p \<and> (\<not> is_dead p \<longrightarrow> \<not> is_dead q)))"
proof -
  let ?raw = "cv_peers (raw_view Number zero text)"
  let ?acc = "foldl keep_peer [] ?raw"
  have "kept [] []" by (simp add: kept_def)
  from keep_peers_kept [OF this, of ?raw] have k: "kept ?raw ?acc" by simp
  have ps: "cv_peers (parsePeersResponse Number zero text) = map snd ?acc"
    by (simp add: parsePeersResponse_def dedupe_peers_def Let_def)
  have "map peer_ip (map snd ?acc) = map fst ?acc"
    using keptD(2) [OF k] by auto
  moreover have "distinct (map fst ?acc)" by (rule keptD(1) [OF k])
  ultimately have "distinct (map peer_ip (map snd ?acc))" by (simp only:)
  moreover have "set (map snd ?acc) \<subseteq> set ?raw" using keptD(2) [OF k] by auto
  moreover have "\<exists>q \<in> set (map snd ?acc). peer_ip q = peer_ip p \<and> (\<not> is_dead p \<longrightarrow> \<not> is_dead q)"
    if "p \<in> set ?raw" "pr_gossipEndpoint p \<noteq> None" for p
  proof -
    from keptD(3) [OF k that] obtain q where q: "map_of ?acc (peer_ip p) = Some q" "\<not> is_dead p \<longrightarrow> \<not> is_dead q" by blast
    from q(1) have i: "(peer_ip p, q) \<in> set ?acc" by (rule map_of_SomeD)
    then have "q \<in> set (map snd ?acc)" by force
    with keptD(2) [OF k i] q(2) show ?thesis by blast
  qed
  ultimately show ?thesis unfolding ps by blast
qed

definition two_peers_text :: jstring where
  "two_peers_text = concat (map (\<lambda>l. js l @ [10])
     [''mesh_ip=a'', ''state=dead'', ''gossip_endpoint=9:1'', ''---'', ''mesh_ip=b'', ''state=alive'', ''gossip_endpoint=9:2''])"

theorem peers_deduplicated_witness:
  "\<exists>q \<in> set (cv_peers (parsePeersResponse (\<lambda>_. 0) (0 :: int) two_peers_text)). peer_ip q = js ''9'' \<and> \<not> is_dead q"
proof -
  let ?p = "\<lparr>pr_meshIp = js ''b'', pr_state = js ''alive'', pr_gossipEndpoint = Some (js ''9:2''), pr_wormwire = js ''disconnected''\<rparr>"
  have "?p \<in> set (cv_peers (raw_view (\<lambda>_. 0) (0 :: int) two_peers_text))" by code_simp
  moreover have "peer_ip ?p = js ''9''" "\<not> is_dead ?p" by code_simp+
  ultimately show ?thesis using peers_deduplicated [of "\<lambda>_. 0" "0 :: int" two_peers_text] by fastforce
qed

subsection \<open>Runs of the dashboard\<close>

inductive ui_step :: "(jstring \<Rightarrow> 'n) \<Rightarrow> 'n \<Rightarrow> ('n \<Rightarrow> bool) \<Rightarrow> ('n \<Rightarrow> jstring) \<Rightarrow> 'n ui \<Rightarrow> 'n ui \<Rightarrow> bool"
  for Number zero pos num where
  timer: "ui_step Number zero pos num u (on_event_timer u)"
| opened: "ui_step Number zero pos num u (on_event_open s u)"
| data: "ui_step Number zero pos num u (on_event_data s u chunk)"
| closed: "ui_step Number zero pos num u (on_event_close s u)"
| error: "ui_step Number zero pos num u (on_event_error s u)"
| failed: "ui_step Number zero pos num u (on_event_failed u)"
| push_done: "ui_step Number zero pos num u (pushStatus_done Number zero pos num t response cluster peersResp u)"
| push_failed: "ui_step Number zero pos num u (pushStatus_failed num t u)"

definition endpoint_key :: "'n endpoint \<Rightarrow> jstring \<times> 'n" where
  "endpoint_key ep = (ep_host ep, ep_port ep)"

text \<open>
  Known endpoints are listed once, the active one is among them, and the event feed is connected,
  dialling or about to dial.
\<close>

definition ui_inv :: "'n ui \<Rightarrow> bool" where
  "ui_inv u \<longleftrightarrow> distinct (map endpoint_key (ui_knownEndpoints u)) \<and> ui_activeEndpoint u \<in> set (ui_knownEndpoints u)
     \<and> (ui_eventSocket u \<noteq> None \<or> ui_eventConnecting u \<or> ui_eventReconnectTimer u)"

lemma ui_broadcast_fields [simp]:
  "ui_activeEndpoint (ui_broadcast t p u) = ui_activeEndpoint u" "ui_knownEndpoints (ui_broadcast t p u) = ui_knownEndpoints u"
  "ui_eventSocket (ui_broadcast t p u) = ui_eventSocket u" "ui_eventConnecting (ui_broadcast t p u) = ui_eventConnecting u"
  "ui_eventReconnectTimer (ui_broadcast t p u) = ui_eventReconnectTimer u"
  "ui_consecutiveFailures (ui_broadcast t p u) = ui_consecutiveFailures u" "ui_dials (ui_broadcast t p u) = ui_dials u"
  "ui_ended (ui_broadcast t p u) = ui_ended u"
  by (simp_all add: ui_broadcast_def)

lemma ui_inv_broadcast [simp]: "ui_inv (ui_broadcast t p u) = ui_inv u"
  by (simp add: ui_inv_def)

lemma event_loop_inv: "ui_inv u \<Longrightarrow> ui_inv (fst (frame_loop event_broadcast b u))"
  by (rule frame_loop_preserves) (auto simp: event_broadcast_def split: WormResponse.splits)

lemma on_event_data_inv: "ui_inv u \<Longrightarrow> ui_inv (on_event_data s u chunk)"
  using event_loop_inv [of u "ui_eventInbound u @ chunk"]
  by (auto simp: on_event_data_def ui_inv_def split: prod.splits)

lemma discover_peer_inv: "ui_inv u \<Longrightarrow> ui_inv (discover_peer wormPort u p)"
  by (auto simp: discover_peer_def ui_inv_def endpoint_key_def Let_def split: option.splits)

lemma discoverEndpoints_inv: "ui_inv u \<Longrightarrow> ui_inv (discoverEndpoints ps wormPort u)"
  unfolding discoverEndpoints_def by (induction ps arbitrary: u) (auto intro: discover_peer_inv)

lemma ui_inv_fields: "ui_inv (u\<lparr>ui_consecutiveFailures := n\<rparr>) = ui_inv u" "ui_inv (u\<lparr>ui_lastPeers := ps\<rparr>) = ui_inv u"
  by (simp_all add: ui_inv_def)

lemma pushStatus_done_inv: "ui_inv u \<Longrightarrow> ui_inv (pushStatus_done Number zero pos num t response cluster peersResp u)"
  by (auto simp: pushStatus_done_def Let_def ui_inv_fields discoverEndpoints_inv split: option.splits WormResponse.splits)

lemma failoverToNext_cases:
  fixes u :: "'n ui" and num :: "'n \<Rightarrow> jstring"
  defines "cs \<equiv> filter (\<lambda>ep. endpoint_text num ep \<noteq> endpoint_text num (ui_activeEndpoint u)) (ui_knownEndpoints u)"
  shows "cs = [] \<and> failoverToNext num u = (u, False)
    \<or> (\<exists>u'. cs \<noteq> [] \<and> failoverToNext num u = (u', True) \<and> ui_activeEndpoint u' = hd cs \<and> ui_consecutiveFailures u' = 0
        \<and> ui_knownEndpoints u' = ui_knownEndpoints u \<and> ui_eventSocket u' = None \<and> ui_eventConnecting u'
        \<and> ui_ended u' = ui_ended u @ (case ui_eventSocket u of None \<Rightarrow> [] | Some s \<Rightarrow> [s])
        \<and> ui_dials u' = ui_dials u @ (if ui_eventConnecting u then [] else [endpoint_key (hd cs)]))"
proof (cases cs)
  case Nil
  then show ?thesis by (simp add: failoverToNext_def cs_def)
next
  case (Cons c r)
  then show ?thesis
    unfolding failoverToNext_def cs_def
    by (cases "ui_eventSocket u") (auto simp: ui_setupEventSubscription_def Let_def endpoint_key_def getActiveTarget_def)
qed

lemma failover_inv: "ui_inv u \<Longrightarrow> ui_inv (fst (failoverToNext num u))"
  using failoverToNext_cases [of num u] hd_in_set by (fastforce simp: ui_inv_def)

lemma pushStatus_failed_inv: "ui_inv u \<Longrightarrow> ui_inv (pushStatus_failed num t u)"
  by (simp add: pushStatus_failed_def Let_def ui_inv_fields failover_inv)

lemma ui_step_inv: "ui_step Number zero pos num u u' \<Longrightarrow> ui_inv u \<Longrightarrow> ui_inv u'"
  by (induction rule: ui_step.induct)
    (simp_all add: on_event_data_inv pushStatus_done_inv pushStatus_failed_inv,
     auto simp: ui_inv_def on_event_timer_def on_event_open_def on_event_close_def on_event_error_def on_event_failed_def
       scheduleEventReconnect_def ui_setupEventSubscription_def)

text \<open>
In every run of the dashboard the known endpoints are listed once each, the active endpoint is one of them, and the
event feed is connected, dialling or waiting for its timer.
\<close>

theorem dashboard_invariant:
  assumes "(ui_step Number zero pos num)\<^sup>*\<^sup>* (ui_setupEventSubscription (initial_ui host port)) u"
  shows "ui_inv u"
  using assms
proof (induction rule: rtranclp_induct)
  case base
  show ?case by (simp add: ui_inv_def ui_setupEventSubscription_def initial_ui_def)
next
  case (step u v)
  then show ?case by (blast intro: ui_step_inv)
qed

theorem dashboard_invariant_witness:
  "ui_inv (on_event_open 1 (ui_setupEventSubscription (initial_ui (js ''h'') (6389 :: nat))))"
  by (rule dashboard_invariant [of "\<lambda>_. 0" 0 "\<lambda>n. n > 0" digits_of "js ''h''" 6389])
    (rule r_into_rtranclp, rule ui_step.opened)

text \<open>
The dashboard fails over on the second failed status in a row: the first failure leaves the active endpoint alone, the
second makes the first known endpoint with another address the active one, resets the count, ends an open event
connection and dials the new endpoint unless a dial is under way.
\<close>

theorem second_failure_fails_over:
  assumes "ui_inv u" and "ui_consecutiveFailures u = 0"
    and "filter (\<lambda>ep. endpoint_text num ep \<noteq> endpoint_text num (ui_activeEndpoint u)) (ui_knownEndpoints u) = next # others"
  shows "ui_activeEndpoint (pushStatus_failed num t1 u) = ui_activeEndpoint u
    \<and> ui_activeEndpoint (pushStatus_failed num t2 (pushStatus_failed num t1 u)) = next
    \<and> ui_consecutiveFailures (pushStatus_failed num t2 (pushStatus_failed num t1 u)) = 0
    \<and> ui_eventSocket (pushStatus_failed num t2 (pushStatus_failed num t1 u)) = None
    \<and> ui_ended (pushStatus_failed num t2 (pushStatus_failed num t1 u))
        = ui_ended u @ (case ui_eventSocket u of None \<Rightarrow> [] | Some s \<Rightarrow> [s])
    \<and> ui_dials (pushStatus_failed num t2 (pushStatus_failed num t1 u))
        = ui_dials u @ (if ui_eventConnecting u then [] else [endpoint_key next])"
proof -
  have "next \<in> set (filter (\<lambda>ep. endpoint_text num ep \<noteq> endpoint_text num (ui_activeEndpoint u)) (ui_knownEndpoints u))"
    unfolding assms(3) by simp
  then have ne: "next \<in> set (ui_knownEndpoints u)" "next \<noteq> ui_activeEndpoint u" by auto
  have len: "length (ui_knownEndpoints u) > 1"
  proof (cases "ui_knownEndpoints u")
    case (Cons a r)
    with ne assms(1) show ?thesis by (cases r) (auto simp: ui_inv_def)
  qed (use ne in simp)
  define u1 where "u1 = pushStatus_failed num t1 u"
  have 1: "ui_activeEndpoint u1 = ui_activeEndpoint u" "ui_knownEndpoints u1 = ui_knownEndpoints u"
      "ui_consecutiveFailures u1 = 1" "ui_eventSocket u1 = ui_eventSocket u" "ui_ended u1 = ui_ended u"
      "ui_dials u1 = ui_dials u" "ui_eventConnecting u1 = ui_eventConnecting u"
    using assms(2) by (simp_all add: u1_def pushStatus_failed_def Let_def)
  define u2 where "u2 = ui_broadcast ''status''
    [(js ''target'', JStr (target_text num t2)), (js ''connected'', JBool False), (js ''failureCount'', json_nat 2)]
    (u1\<lparr>ui_consecutiveFailures := 2\<rparr>)"
  have 2: "ui_activeEndpoint u2 = ui_activeEndpoint u" "ui_knownEndpoints u2 = ui_knownEndpoints u"
      "ui_eventSocket u2 = ui_eventSocket u" "ui_ended u2 = ui_ended u"
      "ui_dials u2 = ui_dials u" "ui_eventConnecting u2 = ui_eventConnecting u"
    using 1 by (simp_all add: u2_def)
  have "pushStatus_failed num t2 u1 = fst (failoverToNext num u2)"
    using 1 len by (simp add: pushStatus_failed_def Let_def u2_def numeral_2_eq_2)
  with failoverToNext_cases [of num u2] show ?thesis
    unfolding u1_def [symmetric] using 1(1) assms(3) by (auto simp: 2)
qed

abbreviation "seed \<equiv> \<lparr>ep_host = js ''h'', ep_port = (1 :: nat), ep_meshIp = None\<rparr>"
abbreviation "spare \<equiv> \<lparr>ep_host = js ''k'', ep_port = (1 :: nat), ep_meshIp = None\<rparr>"
abbreviation "two_endpoints \<equiv> (ui_setupEventSubscription (initial_ui (js ''h'') 1))\<lparr>ui_knownEndpoints := [seed, spare]\<rparr>"

lemma two_endpoints:
  "ui_activeEndpoint two_endpoints = seed" "ui_eventSocket two_endpoints = None" "ui_eventConnecting two_endpoints"
  "ui_dials two_endpoints = [(js ''h'', 1)]" "ui_ended two_endpoints = []" "ui_consecutiveFailures two_endpoints = 0"
  "ui_inv two_endpoints"
  by (simp_all add: ui_setupEventSubscription_def initial_ui_def getActiveTarget_def ui_inv_def endpoint_key_def)

lemma two_endpoints_other: "filter (\<lambda>ep. endpoint_text digits_of ep \<noteq> endpoint_text digits_of seed) [seed, spare] = [spare]"
  by (simp add: endpoint_text_def target_text_def js_simps)

theorem second_failure_fails_over_witness:
  "ui_activeEndpoint (pushStatus_failed digits_of (js ''h'', 1) (pushStatus_failed digits_of (js ''h'', 1) two_endpoints)) = spare"
  using second_failure_fails_over [of two_endpoints digits_of spare "[]" "(js ''h'', 1)" "(js ''h'', 1)"] two_endpoints two_endpoints_other by simp

text \<open>
  A failover while the event connection is being dialled does not move the feed: nothing is dialled
  for the new endpoint, and when the old dial opens the feed is subscribed at the old endpoint.
\<close>

theorem failover_keeps_pending_dial:
  assumes "ui_eventConnecting u" and "failoverToNext num u = (u', True)"
  shows "ui_dials u' = ui_dials u \<and> ui_eventSocket (on_event_open s u') = Some s"
  using assms failoverToNext_cases [of num u] by (auto simp: on_event_open_def)

text \<open>
  A late error of a socket that is gone, while the next connection is being dialled, clears the flag
  of the dial: the timer it sets then dials a second connection.
\<close>

theorem late_error_dials_twice:
  assumes "ui_eventSocket u = None" and "ui_eventConnecting u"
  shows "ui_dials (on_event_timer (on_event_error s u)) = ui_dials u @ [getActiveTarget u]"
  using assms by (simp add: on_event_error_def scheduleEventReconnect_def on_event_timer_def ui_setupEventSubscription_def
      getActiveTarget_def)

end
