(* ===== verification/Ui_Server.thy ===== *)
theory Ui_Server
  imports Ui_Cluster
begin

section \<open>The HTTP and WebSocket interface of the dashboard (\<open>apps/bun/src/bin/ui.ts\<close>)\<close>

text \<open>
  The routes of \<open>fetch\<close>, the messages of the WebSocket and the relay of server-sent events. Parameters:
  \<open>admin\<close> is the environment's \<open>WORMDB_ADMIN_TOKEN\<close>, \<open>send\<close> is \<open>client.send\<close> to the active endpoint,
  \<open>run\<close> spawns a process and waits for its exit code and output (or throws), \<open>ecode\<close> and \<open>msg\<close> are the
  code and the message of an exception, \<open>shown\<close> its \<open>String(err)\<close>, and \<open>str_of\<close> is \<open>String(v)\<close> of a JSON value.
\<close>

subsection \<open>Diagnostics\<close>

definition isValidPort :: "('n \<Rightarrow> int option) \<Rightarrow> 'n \<Rightarrow> bool" where
  "isValidPort to_int v = (case to_int v of Some n \<Rightarrow> n \<ge> 1 \<and> n \<le> 65535 | None \<Rightarrow> False)"

record diagnostic =
  dg_code :: "jstring option"
  dg_error :: jstring
  dg_hint :: jstring

definition formatConnectionDiagnostic :: "(js_error \<Rightarrow> jstring option) \<Rightarrow> (js_error \<Rightarrow> jstring) \<Rightarrow> js_error
    \<Rightarrow> jstring \<Rightarrow> jstring \<Rightarrow> diagnostic" where
  "formatConnectionDiagnostic ecode msg err host port =
     (let code = ecode err; target = host @ [58] @ port in
      if code = Some (js ''ECONNREFUSED'') then
        \<lparr>dg_code = code, dg_error = js ''Connection refused by WormDB at '' @ target @ js ''.'',
         dg_hint = js ''Start WormDB and confirm it listens on '' @ target @ js '' (default port is 6389).''\<rparr>
      else if code = Some (js ''ENOTFOUND'') \<or> code = Some (js ''EAI_AGAIN'') then
        \<lparr>dg_code = code, dg_error = js ''Unable to resolve WormDB host '' @ [39] @ host @ [39] @ js ''.'',
         dg_hint = js ''Verify WORMDB_HOST and DNS/network configuration.''\<rparr>
      else if code = Some (js ''ETIMEDOUT'') then
        \<lparr>dg_code = code, dg_error = js ''Timed out connecting to WormDB at '' @ target @ js ''.'',
         dg_hint = js ''Verify firewall/routing and that WormDB is reachable from this machine.''\<rparr>
      else if code = Some (js ''EHOSTUNREACH'') \<or> code = Some (js ''ENETUNREACH'') then
        \<lparr>dg_code = code, dg_error = js ''Network unreachable for WormDB target '' @ target @ js ''.'',
         dg_hint = js ''Check host reachability and local network routes.''\<rparr>
      else
        \<lparr>dg_code = code, dg_error = js ''Failed to reach WormDB at '' @ target @ js '': '' @ msg err,
         dg_hint = js ''Verify WORMDB_HOST/WORMDB_PORT and ensure WormDB is running.''\<rparr>)"

definition code_field :: "jstring option \<Rightarrow> (jstring \<times> json) list" where
  "code_field code = (case code of None \<Rightarrow> [] | Some c \<Rightarrow> [(js ''code'', JStr c)])"

definition statusErrorPayload where
  "statusErrorPayload ecode msg err host port =
     (let d = formatConnectionDiagnostic ecode msg err host port
      in JObj ([(js ''target'', JStr (host @ [58] @ port)), (js ''error'', JStr (dg_error d)), (js ''hint'', JStr (dg_hint d))]
           @ code_field (dg_code d)))"

definition hasAdminAccess :: "jstring option \<Rightarrow> http_request \<Rightarrow> bool" where
  "hasAdminAccess admin req =
     (case admin of
        None \<Rightarrow> True
      | Some t \<Rightarrow> if t = [] then True else rq_adminToken req = Some t)"

subsection \<open>Commands of the deployment\<close>

record run_output =
  ro_code :: int
  ro_stdout :: jstring
  ro_stderr :: jstring

type_synonym 'w spawn = "jstring list \<Rightarrow> ('w, run_output) act"

definition runDeploymentCommand :: "'w spawn \<Rightarrow> jstring list \<Rightarrow> ('w, bool \<times> (jstring \<times> json) list) act" where
  "runDeploymentCommand run command =
     act_bind (run command) (\<lambda>r.
       act_return (ro_code r = 0,
         [(js ''ok'', JBool (ro_code r = 0)), (js ''code'', JNum (String_int (ro_code r))),
          (js ''stdout'', JStr (ro_stdout r)), (js ''stderr'', JStr (ro_stderr r)), (js ''command'', JStr (join [32] command))]))"

definition deploy :: "'w spawn \<Rightarrow> jstring list \<Rightarrow> ('w, http_response) act" where
  "deploy run command =
     act_bind (runDeploymentCommand run command) (\<lambda>(ok, result).
       act_return (Respond (if ok then 200 else 500) (JsonBody (JObj result))))"

definition compose_up :: "jstring list" where
  "compose_up = [js ''docker'', js ''compose'', js ''up'', js ''-d'']"

definition compose_down :: "jstring list" where
  "compose_down = [js ''docker'', js ''compose'', js ''down'']"

definition compose_ps :: "jstring list" where
  "compose_ps = [js ''docker'', js ''compose'', js ''ps'', js ''--format'', js ''json'', js ''-a'']"

definition container_command :: "jstring \<Rightarrow> jstring \<Rightarrow> jstring list" where
  "container_command action container =
     (if action = js ''stop'' then [js ''docker'', js ''stop'', js ''-t'', js ''10'', container]
      else if action = js ''kill'' then [js ''docker'', js ''kill'', container]
      else [js ''docker'', js ''start'', container])"

text \<open>One line of \<open>docker compose ps\<close>; properties that are missing are left out of the response.\<close>

definition opt_field :: "string \<Rightarrow> json option \<Rightarrow> (jstring \<times> json) list" where
  "opt_field k v = (case v of None \<Rightarrow> [] | Some x \<Rightarrow> [(js k, x)])"

definition container_item :: "jstring \<Rightarrow> js_error + json" where
  "container_item l =
     and_then (of_opt SyntaxError (JSON_parse l)) (\<lambda>c.
     and_then (jfield c ''Name'') (\<lambda>nm.
     and_then (jfield c ''Service'') (\<lambda>sv.
     and_then (jfield c ''State'') (\<lambda>st.
     and_then (jfield c ''Status'') (\<lambda>ss.
     and_then (jfield c ''Ports'') (\<lambda>ps.
     Inr (JObj (opt_field ''name'' nm @ opt_field ''service'' sv @ opt_field ''state'' st @ opt_field ''status'' ss
       @ opt_field ''ports'' ps))))))))"

fun map_items :: "('a \<Rightarrow> 'e + 'b) \<Rightarrow> 'a list \<Rightarrow> 'e + 'b list" where
  "map_items f [] = Inr []"
| "map_items f (x # xs) = and_then (f x) (\<lambda>y. and_then (map_items f xs) (\<lambda>ys. Inr (y # ys)))"

definition parse_containers :: "jstring \<Rightarrow> js_error + json list" where
  "parse_containers stdout = map_items container_item (filter (\<lambda>l. startsWith l [123]) (split_on 10 (trim stdout)))"

text \<open>\<open>pushDocker\<close>: what it hands to \<open>broadcast\<close>, if anything.\<close>

definition pushDocker :: "'w spawn \<Rightarrow> ('w, json list option) act" where
  "pushDocker run =
     act_catch
       (act_bind (run compose_ps) (\<lambda>r.
        if ro_code r \<noteq> 0 then act_return None
        else act_bind (act_lift (parse_containers (ro_stdout r))) (\<lambda>cs. act_return (Some cs))))
       (\<lambda>e. act_return None)"

subsection \<open>The routes\<close>

abbreviation "error_json s \<equiv> JObj [(js ''error'', JStr s)]"

definition unauthorized :: http_response where
  "unauthorized = Respond 401 (JsonBody (error_json (js ''unauthorized'')))"

text \<open>\<open>Promise.all\<close> of two requests: both are sent; of two errors the first is reported.\<close>

definition act_both :: "('w, 'a) act \<Rightarrow> ('w, 'b) act \<Rightarrow> ('w, 'a \<times> 'b) act" where
  "act_both m n w =
     (case m w of (w1, a) \<Rightarrow>
      case n w1 of (w2, b) \<Rightarrow> (w2, and_then a (\<lambda>x. and_then b (\<lambda>y. Inr (x, y)))))"

definition ui_status where
  "ui_status ecode msg send host port =
     act_catch
       (act_bind (act_both (send (js ''STATUS'')) (send (js ''CLUSTER STATUS''))) (\<lambda>(response, cluster).
        act_return (Respond 200 (JsonBody (JObj [(js ''target'', JStr (host @ [58] @ port)),
          (js ''response'', response_json response), (js ''cluster'', response_json cluster)])))))
       (\<lambda>e. act_return (Respond 503 (JsonBody (statusErrorPayload ecode msg e host port))))"

definition ui_cluster_status where
  "ui_cluster_status ecode msg send host port =
     act_catch
       (act_bind (send (js ''CLUSTER STATUS'')) (\<lambda>response.
        act_return (Respond 200 (JsonBody (JObj [(js ''target'', JStr (host @ [58] @ port)),
          (js ''response'', response_json response)])))))
       (\<lambda>e. act_return (Respond 503 (JsonBody (statusErrorPayload ecode msg e host port))))"

definition ui_command where
  "ui_command admin ecode msg send host port req =
     (if \<not> hasAdminAccess admin req then act_return unauthorized
      else
        act_bind (parse_json (rq_body req)) (\<lambda>body.
        act_bind (act_lift (jfield body ''command'')) (\<lambda>command.
        case command of
          Some (JStr c) \<Rightarrow>
            if c = [] then act_return (Respond 400 (JsonBody (error_json (js ''Missing command''))))
            else
              act_catch
                (act_bind (send (trim c)) (\<lambda>response.
                 act_return (Respond 200 (JsonBody (JObj [(js ''command'', JStr (trim c)),
                   (js ''response'', response_json response)])))))
                (\<lambda>e. let d = formatConnectionDiagnostic ecode msg e host port in
                   act_return (Respond 503 (JsonBody (JObj ([(js ''error'', JStr (dg_error d)), (js ''hint'', JStr (dg_hint d))]
                     @ code_field (dg_code d))))))
        | _ \<Rightarrow> act_return (Respond 400 (JsonBody (error_json (js ''Missing command'')))))))"

definition ui_containers where
  "ui_containers shown run =
     act_catch
       (act_bind (run compose_ps) (\<lambda>r.
        if ro_code r \<noteq> 0 then act_return (Respond 500 (JsonBody (error_json (js ''docker compose ps failed''))))
        else
          act_bind (act_lift (parse_containers (ro_stdout r))) (\<lambda>cs.
          act_return (Respond 200 (JsonBody (JObj [(js ''containers'', JArr cs)]))))))
       (\<lambda>e. act_return (Respond 500 (JsonBody (error_json (shown e)))))"

text \<open>\<open>["stop", "kill", "start"].includes(action)\<close> and \<open>container.startsWith("wormdb-")\<close>.\<close>

definition known_action :: "json \<Rightarrow> bool" where
  "known_action a \<longleftrightarrow> a = JStr (js ''stop'') \<or> a = JStr (js ''kill'') \<or> a = JStr (js ''start'')"

definition own_container :: "json \<Rightarrow> js_error + bool" where
  "own_container c = (case c of JStr s \<Rightarrow> Inr (startsWith s (js ''wormdb-'')) | _ \<Rightarrow> Inl TypeError)"

fun text_of :: "json \<Rightarrow> jstring" where
  "text_of (JStr s) = s"
| "text_of _ = []"

definition ui_container where
  "ui_container admin str_of run req =
     (if \<not> hasAdminAccess admin req then act_return unauthorized
      else
        act_bind (parse_json (rq_body req)) (\<lambda>body.
        act_bind (act_lift (jfield body ''container'')) (\<lambda>container.
        act_bind (act_lift (jfield body ''action'')) (\<lambda>action.
        if \<not> truthy container \<or> \<not> truthy action then
          act_return (Respond 400 (JsonBody (error_json (js ''Missing container or action''))))
        else if \<not> known_action (the action) then
          act_return (Respond 400 (JsonBody (error_json (js ''Invalid action: '' @ str_of (the action)))))
        else
          act_bind (act_lift (own_container (the container))) (\<lambda>own.
          if \<not> own then act_return (Respond 400 (JsonBody (error_json (js ''Invalid container name''))))
          else deploy run (container_command (text_of (the action)) (text_of (the container))))))))"

definition ui_fetch where
  "ui_fetch admin ecode msg shown str_of send run upgrade host port req =
     (let path = rq_path req; m = rq_method req in
      if path = js ''/ws'' then
        (if upgrade then act_return Upgraded else act_return (text_response 400 ''WebSocket upgrade failed''))
      else if path = js ''/'' then act_return (Respond 200 (Asset (js ''text/html; charset=utf-8'')))
      else if path = js ''/assets/styles.css'' then act_return (Respond 200 (Asset (js ''text/css; charset=utf-8'')))
      else if path = js ''/assets/app.js'' then act_return (Respond 200 (Asset (js ''application/javascript; charset=utf-8'')))
      else if path = js ''/api/status'' \<and> m = js ''GET'' then ui_status ecode msg send host port
      else if path = js ''/api/cluster/status'' \<and> m = js ''GET'' then ui_cluster_status ecode msg send host port
      else if path = js ''/api/db/command'' \<and> m = js ''POST'' then ui_command admin ecode msg send host port req
      else if path = js ''/api/events'' \<and> m = js ''GET'' then act_return (Respond 200 (Asset (js ''text/event-stream'')))
      else if path = js ''/api/deploy/start'' \<and> m = js ''POST'' then
        (if \<not> hasAdminAccess admin req then act_return unauthorized else deploy run compose_up)
      else if path = js ''/api/deploy/stop'' \<and> m = js ''POST'' then
        (if \<not> hasAdminAccess admin req then act_return unauthorized else deploy run compose_down)
      else if path = js ''/api/docker/containers'' \<and> m = js ''GET'' then ui_containers shown run
      else if path = js ''/api/docker/container'' \<and> m = js ''POST'' then ui_container admin str_of run req
      else act_return (text_response 404 ''Not found''))"

subsection \<open>Messages of the WebSocket\<close>

text \<open>What a handler does besides running a command: answer the client, and push now or after seconds.\<close>

datatype ws_effect = WsSend json | PushBoth nat

definition handleDockerAction where
  "handleDockerAction run data =
     act_bind (act_lift (jfield data ''container'')) (\<lambda>container.
     act_bind (act_lift (jfield data ''action'')) (\<lambda>action.
     if \<not> truthy container \<or> \<not> truthy action then act_return []
     else if \<not> known_action (the action) then act_return []
     else
       act_bind (act_lift (own_container (the container))) (\<lambda>own.
       if \<not> own then act_return []
       else
         act_bind (runDeploymentCommand run (container_command (text_of (the action)) (text_of (the container)))) (\<lambda>(ok, result).
         act_return (WsSend (JObj (spread [(js ''type'', JStr (js ''docker_result''))] (JObj result))) # map PushBoth [0 ..< 11])))))"

definition handleWormCommand where
  "handleWormCommand ecode msg send host port data =
     act_bind (act_lift (jfield data ''command'')) (\<lambda>command.
     if \<not> truthy command then act_return []
     else
       act_catch
         (case the command of
            JStr c \<Rightarrow>
              act_bind (send (trim c)) (\<lambda>response.
              act_return [WsSend (JObj [(js ''type'', JStr (js ''command_result'')), (js ''command'', JStr (trim c)),
                (js ''response'', response_json response)])])
          | _ \<Rightarrow> act_throw TypeError)
         (\<lambda>e. act_return [WsSend (JObj [(js ''type'', JStr (js ''command_result'')),
            (js ''error'', JStr (dg_error (formatConnectionDiagnostic ecode msg e host port)))])]))"

definition ui_ws_message where
  "ui_ws_message ecode msg send run host port text =
     (case JSON_parse text of
        None \<Rightarrow> act_return []
      | Some data \<Rightarrow>
          (case jfield data ''type'' of
             Inl e \<Rightarrow> act_return []
           | Inr t \<Rightarrow>
               if t = Some (JStr (js ''docker_action'')) then handleDockerAction run data
               else if t = Some (JStr (js ''command'')) then handleWormCommand ecode msg send host port data
               else act_return []))"

subsection \<open>The relay of server-sent events\<close>

abbreviation "crlf \<equiv> [13, 10 :: u16]"

text \<open>One turn of the loop over the buffer: the event relayed, if any, and the rest; \<open>None\<close> to wait for more.\<close>

definition sse_step :: "jstring \<Rightarrow> (json list \<times> jstring) option" where
  "sse_step buffer =
     (case indexOf buffer crlf of
        None \<Rightarrow> None
      | Some i \<Rightarrow>
          let line = take i buffer; rest = drop (i + 2) buffer in
          if startsWith line (js ''>EVENT '') then
            (case indexOf rest crlf of
               None \<Rightarrow> None
             | Some j \<Rightarrow>
                 Some ([JObj [(js ''channel'', JStr (trim (drop 7 line))), (js ''message'', JStr (take j rest))]],
                   drop (j + 2) rest))
          else Some ([], rest))"

lemma sse_step_shorter: "sse_step b = Some (out, r) \<Longrightarrow> length r < length b"
  by (auto simp: sse_step_def Let_def split: option.splits if_splits dest!: indexOf_bound)

function sse_loop :: "jstring \<Rightarrow> json list \<times> jstring" where
  "sse_loop buffer =
     (case sse_step buffer of
        None \<Rightarrow> ([], buffer)
      | Some (out, rest) \<Rightarrow> (case sse_loop rest of (out', rest') \<Rightarrow> (out @ out', rest')))"
  by pat_completeness auto
termination
  by (relation "measure length") (auto dest: sse_step_shorter)

declare sse_loop.simps [simp del]

text \<open>A chunk of text arrives: what was sent so far and the buffer.\<close>

definition sse_feed :: "json list \<times> jstring \<Rightarrow> jstring \<Rightarrow> json list \<times> jstring" where
  "sse_feed st chunk = (case sse_loop (snd st @ chunk) of (out, rest) \<Rightarrow> (fst st @ out, rest))"

subsection \<open>The token protects the HTTP routes\<close>

definition protected_paths :: "jstring list" where
  "protected_paths = [js ''/api/db/command'', js ''/api/deploy/start'', js ''/api/deploy/stop'', js ''/api/docker/container'']"

text \<open>
C28: with an admin token set, a POST to a protected route without that token is answered 401 and has no effect: no command
reaches the database and no process is started.
\<close>

theorem admin_routes_need_token:
  assumes "admin = Some t" and "t \<noteq> []" and "rq_adminToken req \<noteq> Some t"
    and "rq_method req = js ''POST''" and "rq_path req \<in> set protected_paths"
  shows "ui_fetch admin ecode msg shown str_of send run upgrade host port req w = (w, Inr unauthorized)"
  using assms
  by (auto simp: protected_paths_def ui_fetch_def ui_command_def ui_container_def hasAdminAccess_def act_basic Let_def)

theorem admin_routes_need_token_witness:
  "ui_fetch (Some (js ''s'')) (\<lambda>_. None) (\<lambda>_. []) (\<lambda>_. []) text_of (\<lambda>c w. (w @ [c], Inr ROk))
     (\<lambda>c w. (w @ c, Inr \<lparr>ro_code = 0, ro_stdout = [], ro_stderr = []\<rparr>)) False [] []
     \<lparr>rq_method = js ''POST'', rq_path = js ''/api/deploy/stop'', rq_body = [], rq_adminToken = None\<rparr> []
   = ([], Inr unauthorized)"
  by (rule admin_routes_need_token [OF refl]) (simp_all add: protected_paths_def)

text \<open>
  The WebSocket has no such check: with the same token set, the message of any client runs a container
  command or a database command.
\<close>

theorem websocket_ignores_token:
  assumes "JSON_parse text = Some (JObj ps)" and "map_of ps (js ''type'') = Some (JStr (js ''docker_action''))"
    and "map_of ps (js ''container'') = Some (JStr c)" and "startsWith c (js ''wormdb-'')"
    and "map_of ps (js ''action'') = Some (JStr (js ''kill''))"
    and "run [js ''docker'', js ''kill'', c] w = (w', Inr r)"
  shows "fst (ui_ws_message ecode msg send run host port text w) = w'"
proof -
  have "c \<noteq> []" using assms(4) by (auto simp: startsWith_iff js_simps)
  then show ?thesis
    using assms by (simp add: ui_ws_message_def handleDockerAction_def act_eval known_action_def own_container_def
        runDeploymentCommand_def container_command_def jfield_def)
qed

subsection \<open>Only these processes are started\<close>

definition allowed_command :: "jstring list \<Rightarrow> bool" where
  "allowed_command c \<longleftrightarrow> c \<in> {compose_up, compose_down, compose_ps}
     \<or> (\<exists>n. startsWith n (js ''wormdb-'') \<and> c \<in> {[js ''docker'', js ''stop'', js ''-t'', js ''10'', n],
          [js ''docker'', js ''kill'', n], [js ''docker'', js ''start'', n]})"

text \<open>The world is the log of the processes started; the database answers and processes end in any way.\<close>

definition logging_run :: "(jstring list \<Rightarrow> js_error + run_output) \<Rightarrow> (jstring list list) spawn" where
  "logging_run out c log = (log @ [c], out c)"

definition quiet_send :: "(jstring \<Rightarrow> js_error + WormResponse) \<Rightarrow> jstring \<Rightarrow> (jstring list list, WormResponse) act" where
  "quiet_send reply c log = (log, reply c)"

definition logs_only :: "(jstring list \<Rightarrow> bool) \<Rightarrow> (jstring list list, 'a) act \<Rightarrow> bool" where
  "logs_only P m \<longleftrightarrow> (\<forall>log. list_all P log \<longrightarrow> list_all P (fst (m log)))"

lemma logs_onlyI [intro]:
  "logs_only P (act_return a)" "logs_only P (act_throw e)" "logs_only P (act_lift r)"
  "logs_only P (quiet_send reply text)" "P c \<Longrightarrow> logs_only P (logging_run out c)"
  by (simp_all add: logs_only_def act_basic quiet_send_def logging_run_def)

lemma logs_only_bind: "logs_only P m \<Longrightarrow> (\<And>a. logs_only P (f a)) \<Longrightarrow> logs_only P (act_bind m f)"
  unfolding logs_only_def act_bind_def by (auto split: prod.splits sum.splits)

lemma logs_only_catch: "logs_only P m \<Longrightarrow> (\<And>e. logs_only P (h e)) \<Longrightarrow> logs_only P (act_catch m h)"
  unfolding logs_only_def act_catch_def by (auto split: prod.splits sum.splits)

lemma logs_only_both: "logs_only P m \<Longrightarrow> logs_only P n \<Longrightarrow> logs_only P (act_both m n)"
  unfolding logs_only_def act_both_def by (auto split: prod.splits)

lemmas logs_only_intros = logs_only_bind logs_only_catch logs_only_both logs_onlyI

lemma allowed_container:
  "known_action a \<Longrightarrow> own_container c = Inr True \<Longrightarrow> allowed_command (container_command (text_of a) (text_of c))"
  by (cases c) (auto simp: known_action_def own_container_def allowed_command_def container_command_def)

lemma logs_only_deploy:
  "P c \<Longrightarrow> logs_only P (runDeploymentCommand (logging_run out) c)" "P c \<Longrightarrow> logs_only P (deploy (logging_run out) c)"
  unfolding deploy_def runDeploymentCommand_def by (auto intro!: logs_only_intros)

lemma allowed_compose [simp]: "allowed_command compose_up" "allowed_command compose_down" "allowed_command compose_ps"
  by (simp_all add: allowed_command_def)

lemma own_container_cases: "(\<And>own. own_container c = Inr own \<Longrightarrow> logs_only P (f own)) \<Longrightarrow> logs_only P (act_bind (act_lift (own_container c)) f)"
  by (cases "own_container c") (auto simp: logs_only_def act_eval)

lemma ui_status_logs: "logs_only P (ui_status ecode msg (quiet_send reply) host port)"
  "logs_only P (ui_cluster_status ecode msg (quiet_send reply) host port)"
  unfolding ui_status_def ui_cluster_status_def by (auto intro!: logs_only_intros)

lemma ui_command_logs: "logs_only P (ui_command admin ecode msg (quiet_send reply) host port req)"
  unfolding ui_command_def parse_json_def by (auto intro!: logs_only_intros simp: Let_def split: option.split json.split)

lemma ui_containers_logs: "P compose_ps \<Longrightarrow> logs_only P (ui_containers shown (logging_run out))"
  unfolding ui_containers_def by (auto intro!: logs_only_intros)

lemma ui_container_logs: "logs_only allowed_command (ui_container admin str_of (logging_run out) req)"
  unfolding ui_container_def parse_json_def
  by (auto intro!: logs_only_intros logs_only_deploy own_container_cases allowed_container)

lemma ui_fetch_logs:
  "logs_only allowed_command (ui_fetch admin ecode msg shown str_of (quiet_send reply) (logging_run out) upgrade host port req)"
  unfolding ui_fetch_def Let_def
  by (simp add: ui_status_logs ui_command_logs ui_containers_logs ui_container_logs logs_only_deploy logs_onlyI)

lemma ui_ws_message_logs:
  "logs_only allowed_command (ui_ws_message ecode msg (quiet_send reply) (logging_run out) host port text)"
proof -
  have "logs_only allowed_command (handleDockerAction (logging_run out) d)" for d
    unfolding handleDockerAction_def
    by (auto intro!: logs_only_intros logs_only_deploy own_container_cases allowed_container)
  moreover have "logs_only allowed_command (handleWormCommand ecode msg (quiet_send reply) host port d)" for d
    unfolding handleWormCommand_def by (auto intro!: logs_only_intros split: json.split)
  ultimately show ?thesis
    unfolding ui_ws_message_def by (auto split: option.split sum.split intro: logs_onlyI)
qed


subsection \<open>The relay does not depend on chunks\<close>

lemma indexOf_append: "indexOf s p = Some i \<Longrightarrow> indexOf (s @ t) p = Some i"
proof (induction s arbitrary: i)
  case Nil
  then have "p = []" by (auto split: if_splits)
  with Nil show ?case by (cases t) (auto simp: startsWith_def)
next
  case (Cons x s)
  show ?case
  proof (cases "startsWith (x # s) p")
    case True
    then have "startsWith ((x # s) @ t) p" unfolding startsWith_iff by (metis append.assoc)
    with True Cons.prems show ?thesis by simp
  next
    case False
    with Cons.prems obtain j where j: "indexOf s p = Some j" "i = Suc j" by auto
    have "length p \<le> length s" using indexOf_bound [OF j(1)] by simp
    then have "take (length p) ((x # s) @ t) = take (length p) (x # s)" by (simp only: take_append) simp
    then have "\<not> startsWith ((x # s) @ t) p" using False unfolding startsWith_def by metis
    with Cons.IH [OF j(1)] j(2) show ?thesis by simp
  qed
qed

lemma sse_step_append: "sse_step b = Some (out, r) \<Longrightarrow> sse_step (b @ c) = Some (out, r @ c)"
proof -
  assume b: "sse_step b = Some (out, r)"
  then obtain i where i: "indexOf b crlf = Some i" by (auto simp: sse_step_def split: option.splits)
  have "i + 2 \<le> length b" using indexOf_bound [OF i] by simp
  then show ?thesis
    using b i indexOf_append [OF i, of c] indexOf_append [of "drop (i + 2) b" crlf _ c]
    by (auto simp: sse_step_def Let_def split: if_splits option.splits dest: indexOf_bound)
qed

lemma sse_loop_append:
  "sse_loop (b @ c) = (case sse_loop b of (out, r) \<Rightarrow> case sse_loop (r @ c) of (out', r') \<Rightarrow> (out @ out', r'))"
proof (induction b rule: sse_loop.induct)
  case (1 b)
  show ?case
  proof (cases "sse_step b")
    case None
    then show ?thesis by (simp add: sse_loop.simps [of b] split: prod.split)
  next
    case (Some p)
    then obtain out r where p: "sse_step b = Some (out, r)" by (cases p) auto
    with 1 [OF p refl] show ?thesis
      by (simp add: sse_loop.simps [of b] sse_loop.simps [of "b @ c"] sse_step_append split: prod.splits)
  qed
qed

interpretation sse: chunk_consumer sse_feed
proof
  show "sse_feed (sse_feed s a) b = sse_feed s (a @ b)" for s a b
    using sse_loop_append [of "snd s @ a" b] by (simp add: sse_feed_def split: prod.splits)
qed

text \<open>
The relay of server-sent events does not depend on how the text is cut into chunks: two ways to cut it send the same
events and leave the same buffer.
\<close>

theorem sse_chunks_irrelevant:
  assumes "cs \<noteq> []" and "ds \<noteq> []" and "concat cs = concat ds"
  shows "foldl sse_feed st cs = foldl sse_feed st ds"
  using assms by (rule sse.same_stream)

theorem sse_chunks_irrelevant_witness:
  "foldl sse_feed ([], []) [js ''>EVENT a'' @ [13], [10] @ js ''b'', crlf] = foldl sse_feed ([], []) [js ''>EVENT a'' @ crlf @ js ''b'' @ crlf]"
  by (rule sse_chunks_irrelevant) simp_all

end
