(* ===== verification/Mem_Client.thy ===== *)
theory Mem_Client
  imports End_To_End Kv_Procedures
begin

section \<open>The client of the agent-memory procedures (\<open>examples/agent-memory/client/mem.ts\<close>)\<close>

text \<open>
  Every method builds the positional arguments of an EXEC of a procedure, sends it and interprets the response.
  \<open>send\<close> is \<open>wire.sendCommand\<close>: what it comes to. Numbers that need not be integers are the type \<open>'n\<close>, printed by
  \<open>num\<close> (\<open>String\<close>). The second part is how the procedures of \<open>src/procedures/memory.zig\<close> read their arguments, and that
  they read what the caller of the method meant.
\<close>

type_synonym sender = "ParsedCommand \<Rightarrow> js_error + WormResponse"

text \<open>\<open>MemError\<close> with its procedure and message; other errors pass through; \<open>JSON.parse\<close> throws.\<close>

datatype mem_error = MemError jstring jstring | SendError js_error | ParseError

fun mem_message :: "mem_error \<Rightarrow> jstring option" where
  "mem_message (MemError procedure message) = Some (procedure @ js '': '' @ message)"
| "mem_message _ = None"

record AddOptions =
  ao_meta :: "json option"
  ao_worm :: "bool option"
  ao_embedderId :: "jstring option"

record InitOptions =
  io_vectorOnly :: "bool option"

record BulkAddRow =
  br_id :: jstring
  br_embedding :: bytes
  br_meta :: "json option"

record 'n QueryOptions =
  qo_lambda :: "'n option"
  qo_minScore :: "'n option"
  qo_snippetChars :: "'n option"
  qo_filter :: "jstring option"

definition unwrapValue :: "WormResponse \<Rightarrow> jstring \<Rightarrow> mem_error + jstring" where
  "unwrapValue resp proc =
     (case resp of
        RError message \<Rightarrow> Inl (MemError proc message)
      | RNull \<Rightarrow> Inl (MemError proc (js ''unexpected NULL response''))
      | RBulk v \<Rightarrow> Inr v
      | ROk \<Rightarrow> Inr []
      | _ \<Rightarrow> Inl (MemError proc (js ''unexpected response type: '' @ response_type resp)))"

definition unwrapOk :: "WormResponse \<Rightarrow> jstring \<Rightarrow> mem_error + unit" where
  "unwrapOk resp proc =
     (case resp of
        ROk \<Rightarrow> Inr ()
      | RError message \<Rightarrow> Inl (MemError proc message)
      | _ \<Rightarrow> Inr ())"

definition mem_exec :: "sender \<Rightarrow> jstring \<Rightarrow> exec_arg list \<Rightarrow> mem_error + WormResponse" where
  "mem_exec send procedure as =
     (case send (CmdExec procedure as) of Inl e \<Rightarrow> Inl (SendError e) | Inr r \<Rightarrow> Inr r)"

text \<open>The two endings of the methods: the parsed value, or nothing.\<close>

definition exec_value :: "sender \<Rightarrow> jstring \<Rightarrow> exec_arg list \<Rightarrow> mem_error + json" where
  "exec_value send procedure as =
     and_then (mem_exec send procedure as) (\<lambda>resp.
     and_then (unwrapValue resp procedure) (\<lambda>v.
     case JSON_parse v of None \<Rightarrow> Inl ParseError | Some j \<Rightarrow> Inr j))"

definition exec_ok :: "sender \<Rightarrow> jstring \<Rightarrow> exec_arg list \<Rightarrow> mem_error + unit" where
  "exec_ok send procedure as =
     and_then (mem_exec send procedure as) (\<lambda>resp. unwrapOk resp procedure)"

subsection \<open>The methods\<close>

definition mem_capabilities :: "sender \<Rightarrow> mem_error + json" where
  "mem_capabilities send = exec_value send (js ''mem_capabilities'') []"

definition init_args :: "jstring \<Rightarrow> jstring \<Rightarrow> Metric option \<Rightarrow> InitOptions \<Rightarrow> exec_arg list" where
  "init_args ns embedderId metric options =
     [ArgStr ns, ArgStr embedderId, ArgStr (metric_text (or_default metric Cosine))]
     @ (case io_vectorOnly options of
          None \<Rightarrow> []
        | Some v \<Rightarrow> [ArgStr (if v then js ''vector_only=true'' else js ''vector_only=false'')])"

definition mem_init :: "sender \<Rightarrow> jstring \<Rightarrow> jstring \<Rightarrow> Metric option \<Rightarrow> InitOptions \<Rightarrow> mem_error + unit" where
  "mem_init send ns embedderId metric options =
     exec_ok send (js ''mem_init'') (init_args ns embedderId metric options)"

text \<open>The tail of \<open>add\<close> and \<open>addVectorOnly\<close>: metadata, flag and embedder, with placeholders before a later one.\<close>

definition add_options :: "AddOptions \<Rightarrow> exec_arg list" where
  "add_options options =
     (case ao_meta options of
        Some m \<Rightarrow> [ArgStr (stringify m)]
      | None \<Rightarrow> if ao_worm options \<noteq> None \<or> ao_embedderId options \<noteq> None then [ArgStr []] else [])
     @ (case ao_worm options of
          Some w \<Rightarrow> [ArgStr (if w then js ''1'' else js ''0'')]
        | None \<Rightarrow> if ao_embedderId options \<noteq> None then [ArgStr (js ''1'')] else [])
     @ (case ao_embedderId options of Some e \<Rightarrow> [ArgStr e] | None \<Rightarrow> [])"

definition mem_add :: "sender \<Rightarrow> jstring \<Rightarrow> jstring \<Rightarrow> jstring \<Rightarrow> bytes \<Rightarrow> AddOptions \<Rightarrow> mem_error + unit" where
  "mem_add send ns docId text embedding options =
     exec_ok send (js ''mem_add'') ([ArgStr ns, ArgStr docId, ArgStr text, ArgBytes embedding] @ add_options options)"

definition addVectorOnly :: "sender \<Rightarrow> jstring \<Rightarrow> jstring \<Rightarrow> bytes \<Rightarrow> AddOptions \<Rightarrow> mem_error + unit" where
  "addVectorOnly send ns docId embedding options =
     exec_ok send (js ''mem_add'') ([ArgStr ns, ArgStr docId, ArgBytes embedding] @ add_options options)"

definition bulk_args :: "jstring \<Rightarrow> BulkAddRow list \<Rightarrow> exec_arg list" where
  "bulk_args ns rows =
     [ArgStr ns, ArgStr (String_int (int (length rows)))]
     @ concat (map (\<lambda>row. [ArgStr (br_id row), ArgBytes (br_embedding row),
         ArgStr (case br_meta row of None \<Rightarrow> [] | Some m \<Rightarrow> stringify m)]) rows)"

definition bulkAdd :: "sender \<Rightarrow> jstring \<Rightarrow> BulkAddRow list \<Rightarrow> mem_error + unit" where
  "bulkAdd send ns rows = exec_ok send (js ''mem_bulk_add'') (bulk_args ns rows)"

definition mem_get :: "sender \<Rightarrow> jstring \<Rightarrow> jstring \<Rightarrow> mem_error + json" where
  "mem_get send ns docId = exec_value send (js ''mem_get'') [ArgStr ns, ArgStr docId]"

text \<open>\<open>/^filter=/i\<close> and the argument of the filter.\<close>

definition has_filter_prefix :: "jstring \<Rightarrow> bool" where
  "has_filter_prefix s \<longleftrightarrow> 7 \<le> length s \<and> list_all2 regex_i_eq (take 7 s) (js ''FILTER='')"

definition filter_arg :: "jstring \<Rightarrow> jstring" where
  "filter_arg f = (let flt = trim f in if has_filter_prefix flt then flt else js ''filter='' @ flt)"

definition filterSet :: "'n QueryOptions \<Rightarrow> bool" where
  "filterSet options = (case qo_filter options of None \<Rightarrow> False | Some f \<Rightarrow> length (trim f) > 0)"

definition query_args :: "('n \<Rightarrow> jstring) \<Rightarrow> jstring \<Rightarrow> bytes \<Rightarrow> 'n \<Rightarrow> 'n QueryOptions \<Rightarrow> exec_arg list" where
  "query_args num ns embedding k options =
     (let lambdaSet = qo_lambda options \<noteq> None;
          minSet = qo_minScore options \<noteq> None;
          snipSet = qo_snippetChars options \<noteq> None
      in [ArgStr ns, ArgBytes embedding, ArgStr (num k)]
         @ (if lambdaSet \<or> minSet \<or> snipSet \<or> filterSet options
            then [ArgStr (case qo_lambda options of Some l \<Rightarrow> num l | None \<Rightarrow> js ''0'')] else [])
         @ (if minSet \<or> snipSet \<or> filterSet options
            then [ArgStr (case qo_minScore options of Some m \<Rightarrow> num m | None \<Rightarrow> [])] else [])
         @ (if snipSet \<or> filterSet options
            then [ArgStr (case qo_snippetChars options of Some c \<Rightarrow> num c | None \<Rightarrow> [])] else [])
         @ (case qo_filter options of
              Some f \<Rightarrow> if filterSet options then [ArgStr (filter_arg f)] else []
            | None \<Rightarrow> []))"

definition mem_query ::
  "('n \<Rightarrow> jstring) \<Rightarrow> sender \<Rightarrow> jstring \<Rightarrow> bytes \<Rightarrow> 'n \<Rightarrow> 'n QueryOptions \<Rightarrow> mem_error + json" where
  "mem_query num send ns embedding k options = exec_value send (js ''mem_query'') (query_args num ns embedding k options)"

definition mem_stats :: "sender \<Rightarrow> jstring \<Rightarrow> mem_error + json" where
  "mem_stats send ns = exec_value send (js ''mem_stats'') [ArgStr ns]"

definition mem_drop :: "sender \<Rightarrow> jstring \<Rightarrow> mem_error + json" where
  "mem_drop send ns = exec_value send (js ''mem_drop'') [ArgStr ns]"

subsection \<open>The arguments as the procedures read them\<close>

definition ctx_arg :: "bytes list \<Rightarrow> nat \<Rightarrow> bytes option" where
  "ctx_arg as i = (if i < length as then Some (as ! i) else None)"

definition ctx_argInt :: "int \<Rightarrow> int \<Rightarrow> bytes list \<Rightarrow> nat \<Rightarrow> int option" where
  "ctx_argInt lo hi as i = Option.bind (ctx_arg as i) (zig_parseInt lo hi)"

definition isSafeToken :: "byte \<Rightarrow> bool" where
  "isSafeToken c \<longleftrightarrow> (97 \<le> c \<and> c \<le> 122) \<or> (65 \<le> c \<and> c \<le> 90) \<or> (48 \<le> c \<and> c \<le> 57)
     \<or> c = 45 \<or> c = 95 \<or> c = 46 \<or> c = 47"

definition validateNs :: "bytes \<Rightarrow> bool" where
  "validateNs ns \<longleftrightarrow> length ns \<noteq> 0 \<and> length ns \<le> 64 \<and> list_all isSafeToken ns"

definition validateDocId :: "bytes \<Rightarrow> bool" where
  "validateDocId i \<longleftrightarrow> length i \<noteq> 0 \<and> length i \<le> 256 \<and> list_all isSafeToken i"

record mem_add_view =
  av_ns :: bytes
  av_doc_id :: bytes
  av_text :: bytes
  av_embedding :: bytes
  av_meta_json :: bytes
  av_is_worm :: bool
  av_embedder_id :: "bytes option"

text \<open>\<open>memAdd\<close> up to the arguments it works with; \<open>vector_only\<close> is what the configuration of the namespace says.\<close>

definition mem_add_usage :: bytes where
  "mem_add_usage = lit ''mem_add requires: <ns> <doc_id> <text> <embedding> [<meta_json>] [<worm>] [<embedder_id>]''"

definition memAdd_args :: "bool \<Rightarrow> bytes list \<Rightarrow> bytes + mem_add_view" where
  "memAdd_args vector_only as =
     (case (ctx_arg as 0, ctx_arg as 1) of
        (Some ns, Some doc_id) \<Rightarrow>
          if \<not> validateNs ns then Inl (lit ''mem_add: invalid ns'')
          else if \<not> validateDocId doc_id then Inl (lit ''mem_add: invalid doc_id'')
          else
            (case (if vector_only then Some [] else ctx_arg as 2,
                   if vector_only then ctx_arg as 2 else ctx_arg as 3) of
               (Some text, Some embedding) \<Rightarrow>
                 Inr \<lparr>av_ns = ns, av_doc_id = doc_id, av_text = text, av_embedding = embedding,
                   av_meta_json = (case (if vector_only then ctx_arg as 3 else ctx_arg as 4) of Some m \<Rightarrow> m | None \<Rightarrow> []),
                   av_is_worm = (case (if vector_only then ctx_arg as 4 else ctx_arg as 5) of
                      Some w \<Rightarrow> w \<noteq> lit ''0'' | None \<Rightarrow> True),
                   av_embedder_id = (if vector_only then ctx_arg as 5 else ctx_arg as 6)\<rparr>
             | _ \<Rightarrow> Inl (if vector_only then
                     lit ''mem_add vector_only requires: <ns> <doc_id> <embedding> [<meta_json>] [<worm>] [<embedder_id>]''
                   else mem_add_usage))
      | _ \<Rightarrow> Inl mem_add_usage)"

text \<open>\<open>memBulkAdd\<close> up to the rows it works with.\<close>

definition bulk_row :: "bytes list \<Rightarrow> nat \<Rightarrow> bytes \<times> bytes \<times> bytes" where
  "bulk_row as i = (let base = 2 + i * 3 in (as ! base, as ! (base + 1), as ! (base + 2)))"

definition mem_bulk_usage :: bytes where
  "mem_bulk_usage =
     lit ''mem_bulk_add requires: <ns> <count> [<id> <embedding> <meta_json>]'' @ [0xC3, 0x97] @ lit ''N''"

definition memBulkAdd_args :: "bytes list \<Rightarrow> bytes + bytes \<times> (bytes \<times> bytes \<times> bytes) list" where
  "memBulkAdd_args as =
     (case ctx_arg as 0 of
        None \<Rightarrow> Inl mem_bulk_usage
      | Some ns \<Rightarrow>
          (case ctx_argInt 0 (2 ^ 64 - 1) as 1 of
             None \<Rightarrow> Inl (lit ''mem_bulk_add: count must be an integer'')
           | Some count \<Rightarrow>
               if \<not> validateNs ns then Inl (lit ''mem_bulk_add: invalid ns'')
               else if count > 10000 then Inl (lit ''mem_bulk_add: count must be <= 10000'')
               else if int (length as) \<noteq> 2 + count * 3 then Inl mem_bulk_usage
               else Inr (ns, map (bulk_row as) [0..<nat count])))"

text \<open>\<open>memQuery\<close> up to the arguments it works with. \<open>parseFloat\<close>, the bounds of the decay, \<open>parseDecayTauHours\<close> and
  \<open>predicate.parse\<close> are parameters.\<close>

definition lower_ascii :: "byte \<Rightarrow> byte" where
  "lower_ascii c = (if 65 \<le> c \<and> c \<le> 90 then c + 32 else c)"

definition argLooksLikeFilter :: "bytes \<Rightarrow> bool" where
  "argLooksLikeFilter raw \<longleftrightarrow> 7 \<le> length raw \<and> map lower_ascii (take 7 raw) = lit ''filter=''"

record ('f, 'p) mem_query_view =
  qv_ns :: bytes
  qv_embedding :: bytes
  qv_top_k :: int
  qv_decay :: 'f
  qv_min_score :: 'f
  qv_snippet_chars :: int
  qv_filter :: "'p option"
  qv_decay_tau :: "'f option"

record ('f, 'p) query_env =
  qe_parseFloat :: "bytes \<Rightarrow> 'f option"
  qe_clamp :: "'f \<Rightarrow> 'f"
  qe_zero :: 'f
  qe_neg_inf :: 'f
  qe_tau :: "bytes \<Rightarrow> 'f option"
  qe_predicate :: "bytes \<Rightarrow> 'p option"

text \<open>One turn of the loop over the arguments 6 and 7.\<close>

definition query_option ::
  "('f, 'p) query_env \<Rightarrow> bytes list \<Rightarrow> nat \<Rightarrow> 'p option \<times> 'f option \<Rightarrow> bytes + 'p option \<times> 'f option" where
  "query_option env as i st =
     (case ctx_arg as i of
        None \<Rightarrow> Inr st
      | Some raw \<Rightarrow>
          if raw = [] then Inr st
          else if argLooksLikeFilter raw then
            (if fst st \<noteq> None then Inl (lit ''mem_query: filter specified more than once'')
             else case qe_predicate env raw of
               None \<Rightarrow> Inl (lit ''mem_query: invalid filter predicate'')
             | Some p \<Rightarrow> Inr (Some p, snd st))
          else (case qe_tau env raw of
                  None \<Rightarrow> Inl (lit ''mem_query: decay_tau_hours must be positive'')
                | Some t \<Rightarrow> Inr (fst st, Some t)))"

definition mem_query_usage :: bytes where
  "mem_query_usage = lit ''mem_query requires: <ns> <embedding> <k> [<lambda>] [<min_score>] [<snippet_chars>] [<decay_tau_hours>]''"

definition memQuery_args :: "('f, 'p) query_env \<Rightarrow> bytes list \<Rightarrow> bytes + ('f, 'p) mem_query_view" where
  "memQuery_args env as =
     (case (ctx_arg as 0, ctx_arg as 1) of
        (Some ns, Some embedding) \<Rightarrow>
          (case ctx_argInt 0 (2 ^ 64 - 1) as 2 of
             None \<Rightarrow> Inl (lit ''mem_query: k must be a positive integer'')
           | Some top_k_raw \<Rightarrow>
               if \<not> validateNs ns then Inl (lit ''mem_query: invalid ns'')
               else
                 and_then (query_option env as 6 (None, None)) (\<lambda>st.
                 and_then (query_option env as 7 st) (\<lambda>(flt, tau).
                 Inr \<lparr>qv_ns = ns, qv_embedding = embedding,
                   qv_top_k = min (if top_k_raw = 0 then 10 else top_k_raw) 100,
                   qv_decay = (case ctx_arg as 3 of
                      None \<Rightarrow> qe_zero env
                    | Some d \<Rightarrow> qe_clamp env (or_default (qe_parseFloat env d) (qe_zero env))),
                   qv_min_score = (case ctx_arg as 4 of
                      None \<Rightarrow> qe_neg_inf env
                    | Some m \<Rightarrow> or_default (qe_parseFloat env m) (qe_neg_inf env)),
                   qv_snippet_chars = (case ctx_arg as 5 of
                      None \<Rightarrow> 512
                    | Some c \<Rightarrow> or_default (parse_i64 c) 512),
                   qv_filter = flt, qv_decay_tau = tau\<rparr>)))
      | _ \<Rightarrow> Inl mem_query_usage)"

subsection \<open>The options reach the procedures\<close>

lemma ctx_arg_simps [simp]:
  "ctx_arg [] i = None" "ctx_arg (a # as) 0 = Some a" "ctx_arg (a # as) (Suc i) = ctx_arg as i"
  by (auto simp: ctx_arg_def)

lemma ctx_arg_numeral [simp]: "ctx_arg (a # as) (numeral k) = ctx_arg as (pred_numeral k)"
  by (simp add: numeral_eq_Suc)

lemma utf8_short [simp]: "encodeUtf8 (js ''1'') = lit ''1''" "encodeUtf8 (js ''0'') = lit ''0''" "lit ''1'' \<noteq> lit ''0''"
  by (simp_all add: encodeUtf8_def code_points_Cons js_simps lit_def is_high_def is_low_def utf8_of_def)

text \<open>What a caller of \<open>add\<close> means, for the text and the embedding given.\<close>

definition add_meaning :: "jstring \<Rightarrow> jstring \<Rightarrow> bytes \<Rightarrow> bytes \<Rightarrow> AddOptions \<Rightarrow> mem_add_view" where
  "add_meaning ns docId text embedding options =
     \<lparr>av_ns = encodeUtf8 ns, av_doc_id = encodeUtf8 docId, av_text = text, av_embedding = embedding,
      av_meta_json = (case ao_meta options of Some m \<Rightarrow> encodeUtf8 (stringify m) | None \<Rightarrow> []),
      av_is_worm = or_default (ao_worm options) True,
      av_embedder_id = map_option encodeUtf8 (ao_embedderId options)\<rparr>"

lemma add_options_read:
  assumes "validateNs (encodeUtf8 ns)" and "validateDocId (encodeUtf8 docId)"
  shows "memAdd_args False (map encode_arg ([ArgStr ns, ArgStr docId, ArgStr text, ArgBytes embedding] @ add_options options))
      = Inr (add_meaning ns docId (encodeUtf8 text) embedding options)"
    and "memAdd_args True (map encode_arg ([ArgStr ns, ArgStr docId, ArgBytes embedding] @ add_options options))
      = Inr (add_meaning ns docId [] embedding options)"
  using assms
  by (auto simp: memAdd_args_def add_options_def add_meaning_def split: option.splits)

lemma encodeUtf8_ascii_append:
  "\<forall>c \<in> set a. unat c < 128 \<Longrightarrow> encodeUtf8 (a @ b) = ascii_bytes a @ encodeUtf8 b"
proof (induction a)
  case (Cons c a)
  then have "\<not> is_high c" "\<not> is_low c" "unat c < 128" by (auto simp: is_high_def is_low_def)
  with Cons show ?case by (simp add: encodeUtf8_def code_points_Cons utf8_of_def del: of_nat_unat)
qed simp

lemma regex_i_unit:
  assumes "regex_i_eq c a" and "a \<in> set (js ''FILTER='')"
  shows "unat c < 128 \<and> lower_ascii (of_nat (unat c)) = lower_ascii (of_nat (unat a))"
proof -
  have "c = a \<or> (97 \<le> c \<and> c - 32 = a)" using assms(1) by (auto simp: regex_i_eq_def split: if_splits)
  then have "c = a \<or> (c = a + 32 \<and> a \<noteq> 61)"
    using assms(1) by (auto simp: regex_i_eq_def split: if_splits)
  then show ?thesis
    using assms(2) by (auto simp: js_simps lower_ascii_def)
qed

lemma filter_prefix_units:
  assumes "has_filter_prefix s"
  shows "\<forall>c \<in> set (take 7 s). unat c < 128" and "map lower_ascii (ascii_bytes (take 7 s)) = lit ''filter=''"
proof -
  have l: "list_all2 regex_i_eq (take 7 s) (js ''FILTER='')" using assms by (simp add: has_filter_prefix_def)
  have k: "list_all2 (\<lambda>c a. unat c < 128 \<and> lower_ascii (of_nat (unat c)) = lower_ascii (of_nat (unat a)))
      (take 7 s) (js ''FILTER='')"
    by (rule list.rel_mono_strong [OF l]) (rule regex_i_unit)
  then show "\<forall>c \<in> set (take 7 s). unat c < 128"
    by (auto simp: list_all2_conv_all_nth in_set_conv_nth)
  have "map lower_ascii (ascii_bytes xs) = map lower_ascii (ascii_bytes ys)"
    if "list_all2 (\<lambda>c a :: u16. unat c < 128 \<and> lower_ascii (of_nat (unat c)) = lower_ascii (of_nat (unat a))) xs ys"
    for xs ys :: jstring
    using that by (induction rule: list_all2_induct) (simp_all del: of_nat_unat)
  from this [OF k] show "map lower_ascii (ascii_bytes (take 7 s)) = lit ''filter=''"
    by (simp add: js_simps lit_def lower_ascii_def)
qed

lemma filter_arg_prefix: "has_filter_prefix (filter_arg f)"
  by (auto simp: filter_arg_def Let_def has_filter_prefix_def js_simps regex_i_eq_def)

lemma filter_arg_read: "argLooksLikeFilter (encodeUtf8 (filter_arg f)) \<and> encodeUtf8 (filter_arg f) \<noteq> []"
proof -
  let ?s = "filter_arg f"
  have e: "encodeUtf8 ?s = ascii_bytes (take 7 ?s) @ encodeUtf8 (drop 7 ?s)"
    using encodeUtf8_ascii_append [OF filter_prefix_units(1) [OF filter_arg_prefix [of f]], of "drop 7 ?s"] by simp
  have l: "length (take 7 ?s) = 7" using filter_arg_prefix [of f] by (simp add: has_filter_prefix_def)
  then show ?thesis
    unfolding argLooksLikeFilter_def e using filter_prefix_units(2) [OF filter_arg_prefix [of f]]
    by (auto simp del: of_nat_unat)
qed

text \<open>What a caller of \<open>query\<close> means; \<open>p\<close> is the predicate of the filter, if there is one.\<close>

definition query_meaning :: "('f, 'p) query_env \<Rightarrow> ('n \<Rightarrow> jstring) \<Rightarrow> jstring \<Rightarrow> bytes \<Rightarrow> int \<Rightarrow> 'n QueryOptions
    \<Rightarrow> 'p option \<Rightarrow> ('f, 'p) mem_query_view" where
  "query_meaning env num ns embedding k options p =
     \<lparr>qv_ns = encodeUtf8 ns, qv_embedding = embedding, qv_top_k = min (if k = 0 then 10 else k) 100,
      qv_decay = (case qo_lambda options of
         None \<Rightarrow> qe_zero env
       | Some l \<Rightarrow> qe_clamp env (or_default (qe_parseFloat env (encodeUtf8 (num l))) (qe_zero env))),
      qv_min_score = (case qo_minScore options of
         None \<Rightarrow> qe_neg_inf env
       | Some m \<Rightarrow> or_default (qe_parseFloat env (encodeUtf8 (num m))) (qe_neg_inf env)),
      qv_snippet_chars = (case qo_snippetChars options of
         None \<Rightarrow> 512
       | Some c \<Rightarrow> or_default (parse_i64 (encodeUtf8 (num c))) 512),
      qv_filter = p, qv_decay_tau = None\<rparr>"

text \<open>The predicate of the options: none, or what \<open>predicate.parse\<close> makes of the filter's text.\<close>

definition filter_ok :: "('f, 'p) query_env \<Rightarrow> 'n QueryOptions \<Rightarrow> 'p option \<Rightarrow> bool" where
  "filter_ok env options p \<longleftrightarrow>
     (if filterSet options then \<exists>f. qo_filter options = Some f \<and> p \<noteq> None \<and> qe_predicate env (encodeUtf8 (filter_arg f)) = p
      else p = None)"

lemma empty_argument [simp]: "encodeUtf8 [] = []" "zig_parseInt lo hi [] = None"
  by (simp_all add: encodeUtf8_def zig_parseInt_def zig_digits_def)

lemma query_args_read:
  assumes "validateNs (encodeUtf8 ns)" and "parse_u64 (encodeUtf8 (num k)) = Some n" and "filter_ok env options p"
    and "qe_parseFloat env [] = None" and "qe_parseFloat env (lit ''0'') = Some (qe_zero env)"
    and "qe_clamp env (qe_zero env) = qe_zero env"
  shows "memQuery_args env (map encode_arg (query_args num ns embedding k options))
    = Inr (query_meaning env num ns embedding n options p)"
proof (cases "filterSet options")
  case True
  with assms(3) obtain f q where f: "qo_filter options = Some f" "qe_predicate env (encodeUtf8 (filter_arg f)) = Some q" "p = Some q"
    by (auto simp: filter_ok_def)
  show ?thesis
    using assms True f filter_arg_read [of f]
    by (simp add: memQuery_args_def query_args_def Let_def ctx_argInt_def query_option_def query_meaning_def split: option.splits)
next
  case False
  then have p: "p = None" using assms(3) by (simp add: filter_ok_def)
  have q: "(case qo_filter options of Some f \<Rightarrow> if filterSet options then [ArgStr (filter_arg f)] else [] | None \<Rightarrow> []) = []"
    using False by (simp split: option.splits)
  show ?thesis
    unfolding query_args_def q Let_def
    using assms False p
    by (auto simp: memQuery_args_def ctx_argInt_def query_option_def query_meaning_def split: option.splits)
qed

text \<open>A call of a procedure against a server: what the server's handler is given, and what it answers.\<close>

lemma exec_serve:
  assumes "encodeCommandFrame (CmdExec procedure as) = Inr b" and "\<forall>c. sendable (h c)"
  defines "answer \<equiv> client_view (h (ZExec (encodeUtf8 procedure) (map encode_arg as)))"
  shows "exec_ok (db_sendCommand (serve h)) procedure as = unwrapOk answer procedure"
    and "exec_value (db_sendCommand (serve h)) procedure as = and_then (unwrapValue answer procedure)
        (\<lambda>v. case JSON_parse v of None \<Rightarrow> Inl ParseError | Some j \<Rightarrow> Inr j)"
proof -
  have "mem_exec (db_sendCommand (serve h)) procedure as = Inr answer"
    using request_serve [OF assms(1), of h] assms(2) by (simp add: mem_exec_def db_sendCommand_def answer_def)
  then show "exec_ok (db_sendCommand (serve h)) procedure as = unwrapOk answer procedure"
    and "exec_value (db_sendCommand (serve h)) procedure as = and_then (unwrapValue answer procedure)
        (\<lambda>v. case JSON_parse v of None \<Rightarrow> Inl ParseError | Some j \<Rightarrow> Inr j)"
    by (simp_all add: exec_ok_def exec_value_def)
qed

text \<open>
C30: the optional arguments of \<open>add\<close> and \<open>addVectorOnly\<close> reach the procedure: whatever options are given or left out, the
server's handler is called with arguments that \<open>memAdd\<close> reads as the caller's namespace, document, text, embedding, metadata,
write-once flag (on by default) and embedder, and the method reports the handler's answer.
\<close>

theorem mem_add_options_reach_server:
  assumes "validateNs (encodeUtf8 ns)" and "validateDocId (encodeUtf8 docId)" and "\<forall>c. sendable (h c)"
    and "encodeCommandFrame (CmdExec (js ''mem_add'')
      ([ArgStr ns, ArgStr docId, ArgStr text, ArgBytes embedding] @ add_options options)) = Inr b"
    and "encodeCommandFrame (CmdExec (js ''mem_add'')
      ([ArgStr ns, ArgStr docId, ArgBytes embedding] @ add_options options)) = Inr b'"
  shows "(\<exists>as. memAdd_args False as = Inr (add_meaning ns docId (encodeUtf8 text) embedding options)
      \<and> mem_add (db_sendCommand (serve h)) ns docId text embedding options
        = unwrapOk (client_view (h (ZExec (encodeUtf8 (js ''mem_add'')) as))) (js ''mem_add''))
    \<and> (\<exists>as. memAdd_args True as = Inr (add_meaning ns docId [] embedding options)
      \<and> addVectorOnly (db_sendCommand (serve h)) ns docId embedding options
        = unwrapOk (client_view (h (ZExec (encodeUtf8 (js ''mem_add'')) as))) (js ''mem_add''))"
  using add_options_read [OF assms(1,2)] exec_serve(1) [OF assms(4,3)] exec_serve(1) [OF assms(5,3)]
  unfolding mem_add_def addVectorOnly_def by blast

text \<open>
The options of \<open>query\<close> reach the procedure: for every combination of options, with the placeholders for those left out,
\<open>memQuery\<close> reads the caller's decay, threshold, snippet length and filter, and its own defaults for what the caller left
out; the method parses the handler's answer.
\<close>

theorem mem_query_options_reach_server:
  assumes "validateNs (encodeUtf8 ns)" and "parse_u64 (encodeUtf8 (num k)) = Some n" and "filter_ok env options p"
    and "qe_parseFloat env [] = None" and "qe_parseFloat env (lit ''0'') = Some (qe_zero env)"
    and "qe_clamp env (qe_zero env) = qe_zero env" and "\<forall>c. sendable (h c)"
    and "encodeCommandFrame (CmdExec (js ''mem_query'') (query_args num ns embedding k options)) = Inr b"
  shows "\<exists>as. memQuery_args env as = Inr (query_meaning env num ns embedding n options p)
    \<and> mem_query num (db_sendCommand (serve h)) ns embedding k options
      = and_then (unwrapValue (client_view (h (ZExec (encodeUtf8 (js ''mem_query'')) as))) (js ''mem_query''))
          (\<lambda>v. case JSON_parse v of None \<Rightarrow> Inl ParseError | Some j \<Rightarrow> Inr j)"
  using query_args_read [of ns num k n env options p, OF assms(1-6)] exec_serve(2) [OF assms(8,7)]
  unfolding mem_query_def by blast

text \<open>The frame of the calls below fits.\<close>

lemma exec_frame_fits:
  "length (payload_of (CmdExec p as)) \<le> MAX_PAYLOAD \<Longrightarrow> \<exists>b. encodeCommandFrame (CmdExec p as) = Inr b"
  by (simp add: encodeCommandFrame_framed framed_def)

lemma utf8_one: "unat c < 128 \<Longrightarrow> encodeUtf8 [c] = [of_nat (unat c)]"
  by (subst encodeUtf8_ascii) simp_all

lemma sendable_ok: "sendable ZOk"
  by (simp add: sendable_def)

abbreviation "only_embedder \<equiv> \<lparr>ao_meta = None, ao_worm = None, ao_embedderId = Some (js ''e'')\<rparr>"

theorem mem_add_options_reach_server_witness:
  "\<exists>as. memAdd_args False as = Inr (add_meaning (js ''n'') (js ''d'') (encodeUtf8 (js ''t'')) [0, 0, 0, 0] only_embedder)
    \<and> mem_add (db_sendCommand (serve (\<lambda>_. ZOk))) (js ''n'') (js ''d'') (js ''t'') [0, 0, 0, 0] only_embedder = Inr ()"
proof -
  have v: "validateNs (encodeUtf8 (js ''n''))" "validateDocId (encodeUtf8 (js ''d''))"
    by (simp_all add: validateNs_def validateDocId_def isSafeToken_def js_simps utf8_one)
  have "length (encodeUtf8 (js ''mem_add'')) \<le> 28" using length_encodeUtf8 [of "js ''mem_add''"] by simp
  then have f: "\<exists>b. encodeCommandFrame (CmdExec (js ''mem_add'')
      ([ArgStr (js ''n''), ArgStr (js ''d''), ArgStr (js ''t''), ArgBytes [0, 0, 0, 0]] @ add_options only_embedder)) = Inr b"
    "\<exists>b. encodeCommandFrame (CmdExec (js ''mem_add'')
      ([ArgStr (js ''n''), ArgStr (js ''d''), ArgBytes [0, 0, 0, 0]] @ add_options only_embedder)) = Inr b"
    by (auto intro!: exec_frame_fits simp: add_options_def js_simps utf8_one field_def MAX_PAYLOAD_def)
  have "client_view ZOk = ROk" by simp
  with mem_add_options_reach_server [OF v, of "\<lambda>_. ZOk" "js ''t''" "[0, 0, 0, 0]" only_embedder] f sendable_ok
  show ?thesis by (auto simp: unwrapOk_def)
qed

abbreviation "whole_env \<equiv> \<lparr>qe_parseFloat = (\<lambda>b. if b = [] then None else Some (0 :: int)), qe_clamp = (\<lambda>x. x), qe_zero = 0,
  qe_neg_inf = -1, qe_tau = (\<lambda>_. None), qe_predicate = (\<lambda>b. Some b)\<rparr>"

abbreviation "snippet_filter \<equiv> \<lparr>qo_lambda = None, qo_minScore = None, qo_snippetChars = Some (9 :: int), qo_filter = Some (js ''a'')\<rparr>"

theorem mem_query_options_reach_server_witness:
  "\<exists>as. memQuery_args whole_env as = Inr (query_meaning whole_env String_int (js ''n'') [0, 0, 0, 0] 3 snippet_filter
      (Some (encodeUtf8 (js ''filter=a''))))
    \<and> mem_query String_int (db_sendCommand (serve (\<lambda>_. ZValue None))) (js ''n'') [0, 0, 0, 0] 3 snippet_filter
      = Inl (MemError (js ''mem_query'') (js ''unexpected NULL response''))"
proof -
  have t: "trim (js ''a'') = js ''a''" by (simp add: js_simps trim_def trimEnd_def trimStart_def is_ws_def)
  then have fa: "filter_arg (js ''a'') = js ''filter=a''"
    by (simp add: filter_arg_def has_filter_prefix_def js_def)
  have "String_int 3 = digits_of 3" "String_int 9 = digits_of 9" by (simp_all add: String_int_def)
  moreover have "digits_of 9 = js ''9''" "digits_of 3 = js ''3''" by (simp_all add: digits_of.simps js_simps)
  ultimately have n: "parse_u64 (encodeUtf8 (String_int 3)) = Some 3" and s3: "String_int 3 = js ''3''" and s9: "String_int 9 = js ''9''"
    using zig_parseInt_digits [of 0 3 "2 ^ 64 - 1"] by simp_all
  have v: "validateNs (encodeUtf8 (js ''n''))" by (simp add: validateNs_def isSafeToken_def js_simps utf8_one)
  have o: "filter_ok whole_env snippet_filter (Some (encodeUtf8 (js ''filter=a'')))"
    by (simp add: filter_ok_def filterSet_def t fa)
  have l: "length (encodeUtf8 (js ''mem_query'')) \<le> 36" "length (encodeUtf8 (js ''filter=a'')) \<le> 32"
    "length (encodeUtf8 (js ''n'')) \<le> 4" "length (encodeUtf8 (js ''3'')) \<le> 4" "length (encodeUtf8 (js ''9'')) \<le> 4"
    using length_encodeUtf8 [of "js ''mem_query''"] length_encodeUtf8 [of "js ''filter=a''"]
      length_encodeUtf8 [of "js ''n''"] length_encodeUtf8 [of "js ''3''"] length_encodeUtf8 [of "js ''9''"] by simp_all
  then have "\<exists>b. encodeCommandFrame (CmdExec (js ''mem_query'') (query_args String_int (js ''n'') [0, 0, 0, 0] 3 snippet_filter)) = Inr b"
    by (intro exec_frame_fits)
       (simp add: query_args_def filterSet_def t fa s3 s9 field_def MAX_PAYLOAD_def lit_def)
  moreover have "\<forall>c :: ZCommand. sendable (ZValue None)" by (simp add: sendable_def)
  ultimately show ?thesis
    using mem_query_options_reach_server [of "js ''n''" String_int 3 3 whole_env snippet_filter _ "\<lambda>_. ZValue None" "[0, 0, 0, 0]", OF v n o]
    by (auto simp: unwrapValue_def lit_def)
qed

subsection \<open>Rows of a bulk insertion\<close>

lemma concat_triples:
  assumes "\<And>x. length (f x) = 3" and "i < length xs" and "j < 3"
  shows "concat (map f xs) ! (i * 3 + j) = f (xs ! i) ! j"
  using assms(2)
proof (induction xs arbitrary: i)
  case (Cons x xs)
  then show ?case using assms(1,3) by (cases i) (simp_all add: nth_append)
qed simp

definition row_bytes :: "BulkAddRow \<Rightarrow> bytes \<times> bytes \<times> bytes" where
  "row_bytes r = (encodeUtf8 (br_id r), br_embedding r, case br_meta r of None \<Rightarrow> [] | Some m \<Rightarrow> encodeUtf8 (stringify m))"

lemma bulk_args_read:
  assumes "validateNs (encodeUtf8 ns)" and "length rows \<le> 10000"
  shows "memBulkAdd_args (map encode_arg (bulk_args ns rows)) = Inr (encodeUtf8 ns, map row_bytes rows)"
proof -
  let ?f = "\<lambda>r. [encodeUtf8 (br_id r), br_embedding r, case br_meta r of None \<Rightarrow> [] | Some m \<Rightarrow> encodeUtf8 (stringify m)]"
  let ?as = "encodeUtf8 ns # encodeUtf8 (String_int (int (length rows))) # concat (map ?f rows)"
  have a: "map encode_arg (bulk_args ns rows) = ?as"
    by (simp add: bulk_args_def map_concat comp_def) (rule arg_cong [where f = concat], auto split: option.splits)
  have "length (concat (map ?f rows)) = length rows * 3" by (induction rows) simp_all
  moreover have "parse_u64 (encodeUtf8 (String_int (int (length rows)))) = Some (int (length rows))"
    using zig_parseInt_digits [of 0 "length rows" "2 ^ 64 - 1"] assms(2) by (simp add: String_int_def)
  moreover have "bulk_row ?as i = row_bytes (rows ! i)" if "i < length rows" for i
    using concat_triples [of ?f i rows 0] concat_triples [of ?f i rows 1] concat_triples [of ?f i rows 2] that
    by (simp add: bulk_row_def row_bytes_def Let_def)
  then have "map (bulk_row ?as) [0..<length rows] = map row_bytes rows"
    by (intro nth_equalityI) simp_all
  ultimately show ?thesis
    unfolding a using assms by (simp add: memBulkAdd_args_def ctx_argInt_def)
qed

text \<open>
The rows of \<open>bulkAdd\<close> reach the procedure: up to the server's limit of 10000 rows, \<open>memBulkAdd\<close> reads the caller's rows in
order, with the empty text for missing metadata.
\<close>

theorem mem_bulk_rows_reach_server:
  assumes "validateNs (encodeUtf8 ns)" and "length rows \<le> 10000" and "\<forall>c. sendable (h c)"
    and "encodeCommandFrame (CmdExec (js ''mem_bulk_add'') (bulk_args ns rows)) = Inr b"
  shows "\<exists>as. memBulkAdd_args as = Inr (encodeUtf8 ns, map row_bytes rows)
    \<and> bulkAdd (db_sendCommand (serve h)) ns rows
      = unwrapOk (client_view (h (ZExec (encodeUtf8 (js ''mem_bulk_add'')) as))) (js ''mem_bulk_add'')"
  using bulk_args_read [OF assms(1,2)] exec_serve(1) [OF assms(4,3)] unfolding bulkAdd_def by blast

end
