(* ===== verification/Cli.thy ===== *)
theory Cli
  imports Command Wire
begin

section \<open>The command line client (\<open>bin/client.ts\<close>)\<close>

text \<open>
  Reading the arguments, building the text command, and \<open>main\<close> with its \<open>catch\<close>: what the process prints and its exit
  code. \<open>Number\<close> is the parameter that converts a text (\<open>None\<close>: not finite), \<open>num\<close> prints a port, and \<open>send\<close> is what
  \<open>new WormDB({ host, port, ... }).send(command)\<close> comes to.
\<close>

text \<open>A thrown \<open>Error\<close>: its \<open>code\<close>, if it has one, and its message.\<close>

record cli_error =
  ce_code :: "jstring option"
  ce_message :: jstring

record 'n ParsedArgs =
  pa_host :: jstring
  pa_port :: 'n
  pa_commandParts :: "jstring list"

definition port_error :: cli_error where
  "port_error = \<lparr>ce_code = None, ce_message = js ''--port must be a number''\<rparr>"

text \<open>The loop of \<open>parseArgs\<close>; a \<open>--host\<close> at the end keeps the host, a \<open>--port\<close> at the end is \<open>Number(undefined)\<close>.\<close>

fun parseArgs_loop :: "(jstring \<Rightarrow> 'n option) \<Rightarrow> 'n ParsedArgs \<Rightarrow> jstring list \<Rightarrow> cli_error + 'n ParsedArgs" where
  "parseArgs_loop Number a [] = Inr a"
| "parseArgs_loop Number a [arg] =
     (if arg = js ''--host'' then Inr a
      else if arg = js ''--port'' then Inl port_error
      else Inr (a\<lparr>pa_commandParts := pa_commandParts a @ [arg]\<rparr>))"
| "parseArgs_loop Number a (arg # next # rest) =
     (if arg = js ''--host'' then parseArgs_loop Number (a\<lparr>pa_host := next\<rparr>) rest
      else if arg = js ''--port'' then
        (case Number next of None \<Rightarrow> Inl port_error | Some n \<Rightarrow> parseArgs_loop Number (a\<lparr>pa_port := n\<rparr>) rest)
      else parseArgs_loop Number (a\<lparr>pa_commandParts := pa_commandParts a @ [arg]\<rparr>) (next # rest))"

definition DEFAULT_HOST :: jstring where
  "DEFAULT_HOST = js ''127.0.0.1''"

definition parseArgs :: "(jstring \<Rightarrow> 'n option) \<Rightarrow> 'n \<Rightarrow> jstring list \<Rightarrow> cli_error + 'n ParsedArgs" where
  "parseArgs Number defaultPort argv =
     parseArgs_loop Number \<lparr>pa_host = DEFAULT_HOST, pa_port = defaultPort, pa_commandParts = []\<rparr> argv"

definition cli_diagnostic :: "('n \<Rightarrow> jstring) \<Rightarrow> cli_error \<Rightarrow> jstring \<Rightarrow> 'n \<Rightarrow> jstring" where
  "cli_diagnostic num err host port =
     (let code = ce_code err;
          at = host @ [58] @ num port;
          base = js ''Unable to reach WormDB at '' @ at @ js ''.''
      in if code = Some (js ''ECONNREFUSED'') then
           base @ js '' Connection refused. Start WormDB (default port 6389) or check --host/--port.''
         else if code = Some (js ''ENOTFOUND'') \<or> code = Some (js ''EAI_AGAIN'') then
           base @ js '' Host resolution failed ('' @ the code @ js ''). Verify --host and DNS/network configuration.''
         else if code = Some (js ''ETIMEDOUT'') then
           base @ js '' Connection timed out. Verify firewall/routing and that WormDB is listening on '' @ at @ js ''.''
         else if code = Some (js ''EHOSTUNREACH'') \<or> code = Some (js ''ENETUNREACH'') then
           base @ js '' Network is unreachable ('' @ the code @ js ''). Verify local networking and target host reachability.''
         else base @ [32] @ ce_message err)"

text \<open>
  \<open>toLowerCase\<close>, one code unit at a time: the ASCII letters and the two other code units whose lower case has an ASCII
  letter, so a comparison with an ASCII word is exact.
\<close>

definition lower_unit :: "u16 \<Rightarrow> jstring" where
  "lower_unit c =
     (if 65 \<le> c \<and> c \<le> 90 then [c + 32]
      else if c = 0x212A then [107]
      else if c = 0x130 then [105, 0x307]
      else [c])"

definition toLowerCase :: "jstring \<Rightarrow> jstring" where
  "toLowerCase s = concat (map lower_unit s)"

text \<open>\<open>parts[i]\<close> where its truth is asked: present and not empty.\<close>

definition has_part :: "jstring list \<Rightarrow> nat \<Rightarrow> bool" where
  "has_part parts i \<longleftrightarrow> i < length parts \<and> parts ! i \<noteq> []"

definition missing_command :: cli_error where
  "missing_command = \<lparr>ce_code = None, ce_message = js ''Missing command. Example: STATUS or GET mykey''\<rparr>"

definition buildCommand :: "jstring list \<Rightarrow> cli_error + jstring" where
  "buildCommand parts =
     (if length parts = 0 then Inl missing_command
      else
        let verb = toLowerCase (parts ! 0) in
        Inr (if verb = js ''status'' then js ''STATUS''
             else if verb = js ''cluster-status'' then js ''CLUSTER STATUS''
             else if verb = js ''get'' \<and> has_part parts 1 then js ''GET '' @ parts ! 1
             else if verb = js ''set'' \<and> has_part parts 1 \<and> has_part parts 2 then
               js ''SET '' @ parts ! 1 @ [32] @ parts ! 2 @ (if js ''--worm'' \<in> set parts then js '' WORM'' else [])
             else if verb = js ''del'' \<and> has_part parts 1 then js ''DEL '' @ parts ! 1
             else if verb = js ''pub'' \<and> has_part parts 1 \<and> length parts \<ge> 3 then
               js ''PUB '' @ parts ! 1 @ [32] @ join [32] (drop 2 parts)
             else join [32] parts))"

text \<open>What the process prints on the two streams, one text per line, and its exit code.\<close>

record cli_result =
  cr_stdout :: "jstring list"
  cr_stderr :: "jstring list"
  cr_exit :: nat

fun show_response :: "WormResponse \<Rightarrow> cli_result" where
  "show_response (RError m) = \<lparr>cr_stdout = [], cr_stderr = [js ''ERR: '' @ m], cr_exit = 1\<rparr>"
| "show_response ROk = \<lparr>cr_stdout = [js ''OK''], cr_stderr = [], cr_exit = 0\<rparr>"
| "show_response RNull = \<lparr>cr_stdout = [js ''(null)''], cr_stderr = [], cr_exit = 0\<rparr>"
| "show_response (RBulk v) = \<lparr>cr_stdout = [v], cr_stderr = [], cr_exit = 0\<rparr>"
| "show_response (REvent ch m) = \<lparr>cr_stdout = [js ''['' @ ch @ js ''] '' @ m], cr_stderr = [], cr_exit = 0\<rparr>"

definition cli_catch :: "('n \<Rightarrow> jstring) \<Rightarrow> cli_error \<Rightarrow> jstring \<Rightarrow> 'n \<Rightarrow> cli_result" where
  "cli_catch num err selectedHost selectedPort =
     \<lparr>cr_stdout = [],
      cr_stderr = [if ce_code err = None \<and> startsWith (ce_message err) (js ''--port must be a number'') then ce_message err
                   else cli_diagnostic num err selectedHost selectedPort],
      cr_exit = 1\<rparr>"

definition cli_main :: "(jstring \<Rightarrow> 'n option) \<Rightarrow> ('n \<Rightarrow> jstring) \<Rightarrow> 'n \<Rightarrow> (jstring \<Rightarrow> 'n \<Rightarrow> jstring \<Rightarrow> cli_error + WormResponse)
    \<Rightarrow> jstring list \<Rightarrow> cli_result" where
  "cli_main Number num defaultPort send argv =
     (case parseArgs Number defaultPort argv of
        Inl e \<Rightarrow> cli_catch num e DEFAULT_HOST defaultPort
      | Inr a \<Rightarrow>
          (case buildCommand (pa_commandParts a) of
             Inl e \<Rightarrow> cli_catch num e (pa_host a) (pa_port a)
           | Inr command \<Rightarrow>
               (case send (pa_host a) (pa_port a) command of
                  Inl e \<Rightarrow> cli_catch num e (pa_host a) (pa_port a)
                | Inr r \<Rightarrow> show_response r)))"

subsection \<open>Commands\<close>

lemma lower_words [simp]:
  "toLowerCase (js ''get'') = js ''get''" "toLowerCase (js ''set'') = js ''set''"
  "toLowerCase (js ''del'') = js ''del''" "toLowerCase (js ''pub'') = js ''pub''" "toLowerCase (js ''status'') = js ''status''"
  "toLowerCase (js ''cluster-status'') = js ''cluster-status''"
  by (simp_all add: toLowerCase_def lower_unit_def js_simps)

lemma parts_present [simp]: "token k \<Longrightarrow> has_part (v # k # r) (Suc 0)" "token m \<Longrightarrow> has_part (v # k # m # r) 2"
  by (auto simp: has_part_def token_def)

lemma build_words:
  assumes "token k"
  shows "buildCommand [js ''get'', k] = Inr (join [32] (words_of (CmdGet k)))"
    and "buildCommand [js ''del'', k] = Inr (join [32] (words_of (CmdDel k)))"
    and "token v \<Longrightarrow> buildCommand (js ''set'' # k # v # r)
      = Inr (join [32] (words_of (CmdSet k v (js ''--worm'' \<in> set (k # v # r)))))"
    and "ms \<noteq> [] \<Longrightarrow> buildCommand (js ''pub'' # k # ms) = Inr (join [32] (js ''PUB'' # k # ms))"
    and "buildCommand [js ''status''] = Inr (join [32] (words_of CmdStatus))"
    and "buildCommand [js ''cluster-status''] = Inr (join [32] (words_of CmdClusterStatus))"
proof -
  note b = buildCommand_def Let_def nth_Cons_0 lower_words
  show "buildCommand [js ''get'', k] = Inr (join [32] (words_of (CmdGet k)))"
    unfolding b using assms by (simp add: js_simps)
  show "buildCommand [js ''del'', k] = Inr (join [32] (words_of (CmdDel k)))"
    unfolding b using assms by (simp add: js_simps)
  show "token v \<Longrightarrow> buildCommand (js ''set'' # k # v # r)
      = Inr (join [32] (words_of (CmdSet k v (js ''--worm'' \<in> set (k # v # r)))))"
    unfolding b using assms by (simp add: js_simps)
  show "ms \<noteq> [] \<Longrightarrow> buildCommand (js ''pub'' # k # ms) = Inr (join [32] (js ''PUB'' # k # ms))"
    unfolding b using assms by (cases ms) (simp_all add: js_simps)
  show "buildCommand [js ''status''] = Inr (join [32] (words_of CmdStatus))"
    "buildCommand [js ''cluster-status''] = Inr (join [32] (words_of CmdClusterStatus))"
    unfolding b by (simp_all add: js_simps)
qed

text \<open>
With arguments that are single words the process sends the command they name: the built text is parsed as that command, and a
\<open>SET\<close> is write-once exactly when \<open>--worm\<close> is given.
\<close>

theorem cli_sends_command:
  assumes "token k" and "token v" and "toUpperCase k \<noteq> js ''WORM''" and "toUpperCase v \<noteq> js ''WORM''" and "v \<noteq> js ''--worm''" and "k \<noteq> js ''--worm''"
    and "ms \<noteq> []" and "\<forall>m \<in> set ms. token m"
  shows "(\<exists>t. buildCommand [js ''get'', k] = Inr t \<and> parseCommand t = Inr (CmdGet k))
    \<and> (\<exists>t. buildCommand [js ''del'', k] = Inr t \<and> parseCommand t = Inr (CmdDel k))
    \<and> (\<exists>t. buildCommand [js ''set'', k, v] = Inr t \<and> parseCommand t = Inr (CmdSet k v False))
    \<and> (\<exists>t. buildCommand [js ''set'', k, v, js ''--worm''] = Inr t \<and> parseCommand t = Inr (CmdSet k v True))
    \<and> (\<exists>t. buildCommand (js ''pub'' # k # ms) = Inr t \<and> parseCommand t = Inr (CmdPub k (join [32] ms)))
    \<and> (\<exists>t. buildCommand [js ''status''] = Inr t \<and> parseCommand t = Inr CmdStatus)
    \<and> (\<exists>t. buildCommand [js ''cluster-status''] = Inr t \<and> parseCommand t = Inr CmdClusterStatus)"
proof -
  have m: "split_ws (join [32] ms) = ms" using assms(7,8) by (rule split_ws_join)
  then have "parseCommand (join [32] (js ''PUB'' # k # ms)) = Inr (CmdPub k (join [32] ms))"
    using parseCommand_words [of "CmdPub k (join [32] ms)"] assms(1,8) by (simp add: plain_text_def)
  then show ?thesis
    using assms parseCommand_words [of "CmdGet k"] parseCommand_words [of "CmdDel k"] parseCommand_words [of "CmdSet k v False"]
      parseCommand_words [of "CmdSet k v True"] parseCommand_words [of CmdStatus] parseCommand_words [of CmdClusterStatus]
    by (simp add: build_words del: words_of.simps)
qed

theorem cli_sends_command_witness:
  "\<exists>t. buildCommand [js ''set'', js ''a'', js ''b'', js ''--worm''] = Inr t \<and> parseCommand t = Inr (CmdSet (js ''a'') (js ''b'') True)"
  by (rule cli_sends_command [of "js ''a''" "js ''b''" "[js ''m'']", THEN conjunct2, THEN conjunct2, THEN conjunct2, THEN conjunct1])
    (simp_all add: token_def is_ws_def toUpperCase_def upper_unit_def js_simps)

text \<open>
A value of several words, which the shell passes as one argument, is cut: only its first word is stored, and the process
reports what the server answers to that.
\<close>

theorem cli_set_keeps_first_word:
  assumes "token k" and "token v" and "token w" and "toUpperCase k \<noteq> js ''WORM''" and "toUpperCase v \<noteq> js ''WORM''"
    and "toUpperCase w \<noteq> js ''WORM''" and "k \<noteq> js ''--worm''"
  shows "\<exists>t. buildCommand [js ''set'', k, v @ [32] @ w] = Inr t \<and> parseCommand t = Inr (CmdSet k v False)"
proof -
  have "has_part [js ''set'', k, v @ [32] @ w] 2" by (simp add: has_part_def)
  moreover have "32 \<notin> set (js ''--worm'')" by (simp add: js_simps)
  then have "v @ [32] @ w \<noteq> js ''--worm''" by (metis append_Cons in_set_conv_decomp)
  ultimately have "buildCommand [js ''set'', k, v @ [32] @ w] = Inr (join [32] [js ''SET'', k, v, w])"
    unfolding buildCommand_def Let_def nth_Cons_0 lower_words using assms(1,7) by (simp add: js_simps)
  moreover have p: "split_ws (trim (join [32] [js ''SET'', k, v, w])) = [js ''SET'', k, v, w]"
    using assms(1-3) by (intro parts_of_tokens) simp_all
  have "parseCommand (join [32] [js ''SET'', k, v, w]) = Inr (CmdSet k v False)"
    unfolding parseCommand_def p using assms(4-6) by (auto simp: Let_def)
  ultimately show ?thesis by blast
qed

text \<open>Without a command nothing is sent, yet the process says that the server cannot be reached.\<close>

theorem cli_missing_command_blames_connection:
  "cli_main Number num defaultPort send []
    = \<lparr>cr_stdout = [], cr_stderr =
        [js ''Unable to reach WormDB at 127.0.0.1:'' @ num defaultPort
         @ js ''. Missing command. Example: STATUS or GET mykey''], cr_exit = 1\<rparr>"
  by (simp add: cli_main_def parseArgs_def buildCommand_def cli_catch_def missing_command_def startsWith_def
      cli_diagnostic_def Let_def DEFAULT_HOST_def js_def)

end
