(* ===== verification/Text_Protocol.thy ===== *)
theory Text_Protocol
  imports Complex_Main Wire Js_Parse
begin

section \<open>Text responses (\<open>lib/protocol.ts\<close>)\<close>

text \<open>
  \<open>parseSingleResponse\<close> on a complete response of the text protocol. \<open>Number\<close> is the parameter that converts the
  length (\<open>None\<close>: not a finite number); a bound of \<open>slice\<close> that is not integral is rounded down.
\<close>

definition line_end :: jstring where
  "line_end = [13, 10]"

definition parseSingleResponse :: "(jstring \<Rightarrow> rat option) \<Rightarrow> jstring \<Rightarrow> WormResponse" where
  "parseSingleResponse Number raw =
     (if startsWith raw (js ''+OK'') then ROk
      else if startsWith raw (js ''-ERR '') then RError (trimEnd (drop 5 raw))
      else if startsWith raw (js ''$-1'') then RNull
      else if startsWith raw (js ''$'') then
        (case indexOf raw line_end of
           None \<Rightarrow> RError (js ''Malformed bulk response'')
         | Some split \<Rightarrow>
             (case Number (slice 1 split raw) of
                None \<Rightarrow> RError (js ''Invalid bulk response length'')
              | Some len \<Rightarrow>
                  if len < 0 then RError (js ''Invalid bulk response length'')
                  else RBulk (slice (split + 2) (split + 2 + nat \<lfloor>len\<rfloor>) raw)))
      else if startsWith raw (js ''>EVENT '') then
        (case indexOf raw line_end of
           None \<Rightarrow> RError (js ''Malformed event response'')
         | Some split \<Rightarrow> REvent (trim (slice 7 split raw)) (trimEnd (drop (split + 2) raw)))
      else RError (js ''Unknown response format: '' @ trim raw))"

text \<open>The text of a response.\<close>

fun response_text :: "WormResponse \<Rightarrow> jstring" where
  "response_text ROk = js ''+OK'' @ line_end"
| "response_text (RError m) = js ''-ERR '' @ m @ line_end"
| "response_text RNull = js ''$-1'' @ line_end"
| "response_text (RBulk v) = js ''$'' @ String_int (int (length v)) @ line_end @ v @ line_end"
| "response_text (REvent ch m) = js ''>EVENT '' @ ch @ line_end @ m @ line_end"

text \<open>Texts that survive trimming: the message of an error or event, and a channel of one line.\<close>

fun text_ok :: "WormResponse \<Rightarrow> bool" where
  "text_ok (RError m) = (trimEnd m = m)"
| "text_ok (REvent ch m) = (trimEnd m = m \<and> trim ch = ch \<and> 13 \<notin> set ch)"
| "text_ok _ = True"

lemma trimEnd_line_end: "trimEnd m = m \<Longrightarrow> trimEnd (m @ line_end) = m"
  by (simp add: trimEnd_def line_end_def is_ws_def)

lemma indexOf_line_end: "13 \<notin> set a \<Longrightarrow> indexOf (a @ line_end @ b) line_end = Some (length a)"
  by (induction a) (auto simp: line_end_def startsWith_def)

lemma startsWith_Cons: "startsWith (x # s) (y # p) \<longleftrightarrow> x = y \<and> startsWith s p"
  by (auto simp: startsWith_def)

text \<open>
Every response is read back from its text, whatever the value of a bulk response holds (line breaks included).
\<close>

theorem text_response_round_trip:
  assumes "text_ok r" and "\<forall>n. Number (String_int (int n)) = Some (of_nat n)"
  shows "parseSingleResponse Number (response_text r) = r"
proof (cases r)
  case (RBulk v)
  let ?d = "digits_of (length v)"
  have d: "?d \<noteq> []" "hd ?d \<noteq> 45" using digits_of_not_Nil digits_of_hd by auto
  then have "\<not> startsWith (?d @ x) (js ''-1'')" for x by (cases ?d) (auto simp: js_simps startsWith_Cons)
  moreover have "13 \<notin> set (36 # ?d)" using digits_of_ascii [of 13 "length v"] by auto
  then have "indexOf ((36 # ?d) @ line_end @ v @ line_end) line_end = Some (length (36 # ?d))" by (rule indexOf_line_end)
  ultimately show ?thesis
    using RBulk assms(2) [rule_format, of "length v"]
    by (simp add: parseSingleResponse_def js_simps startsWith_Cons String_int_def slice_def)
      (simp add: line_end_def startsWith_def)
next
  case (REvent ch m)
  have "13 \<notin> set (js ''>EVENT '' @ ch)" using REvent assms(1) by (simp add: js_simps)
  then have "indexOf ((js ''>EVENT '' @ ch) @ line_end @ m @ line_end) line_end = Some (length (js ''>EVENT '' @ ch))" by (rule indexOf_line_end)
  with REvent assms(1) show ?thesis
    by (simp add: parseSingleResponse_def js_simps startsWith_Cons slice_def trimEnd_line_end) (simp add: line_end_def startsWith_def trimEnd_line_end [unfolded line_end_def])
next
  case (RError m)
  with assms(1) show ?thesis
    by (simp add: parseSingleResponse_def js_simps startsWith_Cons trimEnd_line_end) (simp add: startsWith_def)
qed (simp_all add: parseSingleResponse_def js_simps startsWith_Cons, simp_all add: startsWith_def)

end
