(* ===== verification/Bench_Cli.thy ===== *)
theory Bench_Cli
  imports Complex_Main Js_String
begin

section \<open>Options of the benchmark (\<open>lib/bench/types.ts\<close>, \<open>lib/bench/cli.ts\<close>)\<close>

text \<open>
  \<open>parseBenchArgs\<close> with every \<open>throw\<close>; \<open>--help\<close> prints the usage and ends the process. \<open>Number\<close> is the parameter that
  converts a text (\<open>None\<close>: not a finite number), \<open>fadd\<close> the addition of floating-point numbers. Every option of the result is in its range.
\<close>

datatype BenchKind = KMixed | KRead | KWrite | KStatus | KClusterStatus | KBanking | KSpacetimeTransfer | KExecTransfer

text \<open>\<open>availableBenchKinds\<close>: the keys of \<open>SCENARIOS\<close>.\<close>

fun kind_name :: "BenchKind \<Rightarrow> jstring" where
  "kind_name KMixed = js ''mixed''"
| "kind_name KRead = js ''read''"
| "kind_name KWrite = js ''write''"
| "kind_name KStatus = js ''status''"
| "kind_name KClusterStatus = js ''cluster-status''"
| "kind_name KBanking = js ''banking''"
| "kind_name KSpacetimeTransfer = js ''spacetime-transfer''"
| "kind_name KExecTransfer = js ''exec-transfer''"

definition availableBenchKinds :: "BenchKind list" where
  "availableBenchKinds = [KMixed, KRead, KWrite, KStatus, KClusterStatus, KBanking, KSpacetimeTransfer, KExecTransfer]"

record BenchOptions =
  bo_host :: jstring
  bo_port :: int
  bo_totalOps :: int
  bo_concurrency :: int
  bo_poolSize :: int
  bo_inflight :: int
  bo_keyspace :: int
  bo_readRatio :: rat
  bo_warmupOps :: int
  bo_timeoutMs :: int
  bo_valueSize :: int
  bo_keyPrefix :: jstring
  bo_tests :: "BenchKind list"
  bo_bankReadRatio :: rat
  bo_bankTransferRatio :: rat
  bo_bankInitialBalance :: int
  bo_bankMinAmount :: int
  bo_bankMaxAmount :: int

definition BENCH_DEFAULTS :: BenchOptions where
  "BENCH_DEFAULTS =
     \<lparr>bo_host = js ''127.0.0.1'', bo_port = 6389, bo_totalOps = 10000, bo_concurrency = 64, bo_poolSize = 64,
      bo_inflight = 1, bo_keyspace = 1000, bo_readRatio = 8 / 10, bo_warmupOps = 1000, bo_timeoutMs = 5000,
      bo_valueSize = 128, bo_keyPrefix = js ''bench'', bo_tests = [KMixed], bo_bankReadRatio = 6 / 10,
      bo_bankTransferRatio = 25 / 100, bo_bankInitialBalance = 100000, bo_bankMinAmount = 1, bo_bankMaxAmount = 1000\<rparr>"

text \<open>How parsing stops early: a thrown error with its message, or the help text and the end of the process.\<close>

datatype bench_stop = BenchError jstring | BenchHelp

definition parseIntArg :: "(jstring \<Rightarrow> rat option) \<Rightarrow> jstring \<Rightarrow> jstring option \<Rightarrow> int \<Rightarrow> int option \<Rightarrow> bench_stop + int" where
  "parseIntArg Number flag arg lo hi =
     (let wrong = Inl (BenchError (flag @ js '' must be an integer '' @
            (case hi of
               None \<Rightarrow> js ''>= '' @ String_int lo
             | Some h \<Rightarrow> js ''between '' @ String_int lo @ js '' and '' @ String_int h)))
      in case arg of
           None \<Rightarrow> Inl (BenchError (flag @ js '' requires a value''))
         | Some v \<Rightarrow>
             if v = [] then Inl (BenchError (flag @ js '' requires a value''))
             else
               (case Number v of
                  None \<Rightarrow> wrong
                | Some n \<Rightarrow>
                    if of_int \<lfloor>n\<rfloor> \<noteq> n \<or> n < of_int lo \<or> (case hi of None \<Rightarrow> False | Some h \<Rightarrow> n > of_int h) then wrong
                    else Inr \<lfloor>n\<rfloor>))"

definition parseFloatArg :: "(jstring \<Rightarrow> rat option) \<Rightarrow> jstring \<Rightarrow> jstring option \<Rightarrow> int \<Rightarrow> int \<Rightarrow> bench_stop + rat" where
  "parseFloatArg Number flag arg lo hi =
     (let wrong = Inl (BenchError (flag @ js '' must be a number between '' @ String_int lo @ js '' and '' @ String_int hi))
      in case arg of
           None \<Rightarrow> Inl (BenchError (flag @ js '' requires a value''))
         | Some v \<Rightarrow>
             if v = [] then Inl (BenchError (flag @ js '' requires a value''))
             else
               (case Number v of
                  None \<Rightarrow> wrong
                | Some n \<Rightarrow> if n < of_int lo \<or> n > of_int hi then wrong else Inr n))"

definition textArg :: "jstring \<Rightarrow> jstring option \<Rightarrow> bench_stop + jstring" where
  "textArg flag arg =
     (case arg of
        Some v \<Rightarrow> if v = [] then Inl (BenchError (flag @ js '' requires a value'')) else Inr v
      | None \<Rightarrow> Inl (BenchError (flag @ js '' requires a value'')))"

text \<open>\<open>Array.from(new Set(xs))\<close>: the first occurrences in order.\<close>

definition unique :: "'a list \<Rightarrow> 'a list" where
  "unique xs = rev (remdups (rev xs))"

fun kinds_of :: "jstring list \<Rightarrow> bench_stop + BenchKind list" where
  "kinds_of [] = Inr []"
| "kinds_of (v # vs) =
     (case List.find (\<lambda>k. kind_name k = v) availableBenchKinds of
        None \<Rightarrow> Inl (BenchError (js ''Unknown test kind: '' @ v))
      | Some k \<Rightarrow> and_then (kinds_of vs) (\<lambda>ks. Inr (k # ks)))"

definition parseKinds :: "jstring \<Rightarrow> bench_stop + BenchKind list" where
  "parseKinds raw =
     (let vals = filter (\<lambda>v. length v > 0) (map trim (split_on 44 raw))
      in if length vals = 0 then Inl (BenchError (js ''--tests requires at least one test name''))
         else and_then (kinds_of vals) (\<lambda>out. Inr (unique out)))"

text \<open>One turn of the loop for an option with a value: the options so far and the explicit tests.\<close>

type_synonym bench_acc = "BenchOptions \<times> BenchKind list"

definition bench_option :: "(jstring \<Rightarrow> rat option) \<Rightarrow> jstring \<Rightarrow> jstring option \<Rightarrow> bench_acc \<Rightarrow> bench_stop + bench_acc" where
  "bench_option Number arg next acc =
     (let o1 = fst acc; ts = snd acc;
          int_arg = (\<lambda>lo hi f. and_then (parseIntArg Number arg next lo hi) (\<lambda>n. Inr (f n o1, ts)));
          ratio = (\<lambda>f. and_then (parseFloatArg Number arg next 0 1) (\<lambda>n. Inr (f n o1, ts)));
          text = (\<lambda>f. and_then (textArg arg next) (\<lambda>v. Inr (f v o1, ts)));
          kinds = and_then (textArg arg next) (\<lambda>v. and_then (parseKinds v) (\<lambda>ks. Inr (o1, ts @ ks)))
      in if arg = js ''--host'' then text (\<lambda>v. bo_host_update (\<lambda>_. v))
         else if arg = js ''--port'' then int_arg 1 (Some 65535) (\<lambda>n. bo_port_update (\<lambda>_. n))
         else if arg = js ''--ops'' then int_arg 1 None (\<lambda>n. bo_totalOps_update (\<lambda>_. n))
         else if arg = js ''--concurrency'' then int_arg 1 None (\<lambda>n. bo_concurrency_update (\<lambda>_. n))
         else if arg = js ''--pool-size'' then int_arg 1 None (\<lambda>n. bo_poolSize_update (\<lambda>_. n))
         else if arg = js ''--inflight'' then int_arg 1 None (\<lambda>n. bo_inflight_update (\<lambda>_. n))
         else if arg = js ''--keyspace'' then int_arg 1 None (\<lambda>n. bo_keyspace_update (\<lambda>_. n))
         else if arg = js ''--read-ratio'' then ratio (\<lambda>n. bo_readRatio_update (\<lambda>_. n))
         else if arg = js ''--warmup-ops'' then int_arg 0 None (\<lambda>n. bo_warmupOps_update (\<lambda>_. n))
         else if arg = js ''--timeout-ms'' then int_arg 1 None (\<lambda>n. bo_timeoutMs_update (\<lambda>_. n))
         else if arg = js ''--value-size'' then int_arg 1 None (\<lambda>n. bo_valueSize_update (\<lambda>_. n))
         else if arg = js ''--key-prefix'' then text (\<lambda>v. bo_keyPrefix_update (\<lambda>_. v))
         else if arg = js ''--bank-read-ratio'' then ratio (\<lambda>n. bo_bankReadRatio_update (\<lambda>_. n))
         else if arg = js ''--bank-transfer-ratio'' then ratio (\<lambda>n. bo_bankTransferRatio_update (\<lambda>_. n))
         else if arg = js ''--bank-initial-balance'' then int_arg 0 None (\<lambda>n. bo_bankInitialBalance_update (\<lambda>_. n))
         else if arg = js ''--bank-min-amount'' then int_arg 1 None (\<lambda>n. bo_bankMinAmount_update (\<lambda>_. n))
         else if arg = js ''--bank-max-amount'' then int_arg 1 None (\<lambda>n. bo_bankMaxAmount_update (\<lambda>_. n))
         else if arg = js ''--test'' \<or> arg = js ''--tests'' then kinds
         else if arg = js ''--help'' \<or> arg = js ''-h'' then Inl BenchHelp
         else Inl (BenchError (js ''Unknown argument: '' @ arg)))"

text \<open>Every option that goes on has consumed its value; with none there it has thrown.\<close>

fun bench_loop :: "(jstring \<Rightarrow> rat option) \<Rightarrow> bench_acc \<Rightarrow> jstring list \<Rightarrow> bench_stop + bench_acc" where
  "bench_loop Number acc [] = Inr acc"
| "bench_loop Number acc [arg] = bench_option Number arg None acc"
| "bench_loop Number acc (arg # next # rest) =
     and_then (bench_option Number arg (Some next) acc) (\<lambda>acc. bench_loop Number acc rest)"

definition bench_checks :: "(rat \<Rightarrow> rat \<Rightarrow> rat) \<Rightarrow> BenchOptions \<Rightarrow> bench_stop + BenchOptions" where
  "bench_checks fadd o1 =
     (if fadd (bo_bankReadRatio o1) (bo_bankTransferRatio o1) > 1
      then Inl (BenchError (js ''--bank-read-ratio + --bank-transfer-ratio must be <= 1''))
      else if bo_bankMaxAmount o1 < bo_bankMinAmount o1
      then Inl (BenchError (js ''--bank-max-amount must be >= --bank-min-amount''))
      else if bo_poolSize o1 > bo_concurrency o1
      then Inl (BenchError (js ''--pool-size must be <= --concurrency''))
      else if bo_inflight o1 < 1 then Inl (BenchError (js ''--inflight must be >= 1''))
      else Inr o1)"

definition parseBenchArgs :: "(jstring \<Rightarrow> rat option) \<Rightarrow> (rat \<Rightarrow> rat \<Rightarrow> rat) \<Rightarrow> jstring list \<Rightarrow> bench_stop + BenchOptions" where
  "parseBenchArgs Number fadd argv =
     and_then (bench_loop Number (BENCH_DEFAULTS, []) argv) (\<lambda>(o1, explicitTests).
       bench_checks fadd (if length explicitTests > 0 then o1\<lparr>bo_tests := unique explicitTests\<rparr> else o1))"

subsection \<open>The ranges of the options\<close>

lemma parseIntArg_range: "parseIntArg Number flag arg lo hi = Inr n \<Longrightarrow> lo \<le> n \<and> (\<forall>h. hi = Some h \<longrightarrow> n \<le> h)"
  by (auto simp: parseIntArg_def Let_def not_less le_floor_iff floor_le_iff split: option.splits if_splits)

lemma parseFloatArg_range: "parseFloatArg Number flag arg lo hi = Inr n \<Longrightarrow> of_int lo \<le> n \<and> n \<le> of_int hi"
  by (auto simp: parseFloatArg_def Let_def split: option.splits if_splits)

lemma unique_simps [simp]: "distinct (unique xs)" "set (unique xs) = set xs" "unique xs = [] \<longleftrightarrow> xs = []"
  by (simp_all add: unique_def)

text \<open>Every option in its range, before the checks that relate two of them.\<close>

definition in_range :: "BenchOptions \<Rightarrow> bool" where
  "in_range o1 \<longleftrightarrow> 1 \<le> bo_port o1 \<and> bo_port o1 \<le> 65535 \<and> 1 \<le> bo_totalOps o1 \<and> 1 \<le> bo_concurrency o1
     \<and> 1 \<le> bo_poolSize o1 \<and> 1 \<le> bo_inflight o1 \<and> 1 \<le> bo_keyspace o1 \<and> 0 \<le> bo_readRatio o1 \<and> bo_readRatio o1 \<le> 1
     \<and> 0 \<le> bo_warmupOps o1 \<and> 1 \<le> bo_timeoutMs o1 \<and> 1 \<le> bo_valueSize o1
     \<and> 0 \<le> bo_bankReadRatio o1 \<and> bo_bankReadRatio o1 \<le> 1 \<and> 0 \<le> bo_bankTransferRatio o1 \<and> bo_bankTransferRatio o1 \<le> 1
     \<and> 0 \<le> bo_bankInitialBalance o1 \<and> 1 \<le> bo_bankMinAmount o1 \<and> 1 \<le> bo_bankMaxAmount o1
     \<and> bo_tests o1 \<noteq> [] \<and> distinct (bo_tests o1)"

text \<open>A turn of the loop that goes on keeps the ranges; one rule per kind of option.\<close>

definition keeps_range :: "bench_stop + bench_acc \<Rightarrow> bool" where
  "keeps_range r \<longleftrightarrow> (\<forall>acc. r = Inr acc \<longrightarrow> in_range (fst acc))"

lemma keeps_range_intros:
  "keeps_range a \<Longrightarrow> keeps_range b \<Longrightarrow> keeps_range (if c then a else b)"
  "keeps_range (Inl e)"
  "(\<And>n. lo \<le> n \<Longrightarrow> (\<forall>h. hi = Some h \<longrightarrow> n \<le> h) \<Longrightarrow> in_range (f n o1)) \<Longrightarrow>
     keeps_range (and_then (parseIntArg Number flag arg lo hi) (\<lambda>n. Inr (f n o1, ts)))"
  "(\<And>n. of_int lo' \<le> n \<Longrightarrow> n \<le> of_int hi' \<Longrightarrow> in_range (g n o1)) \<Longrightarrow>
     keeps_range (and_then (parseFloatArg Number flag arg lo' hi') (\<lambda>n. Inr (g n o1, ts)))"
  "(\<And>v. in_range (k v o1)) \<Longrightarrow> keeps_range (and_then (textArg flag arg) (\<lambda>v. Inr (k v o1, ts)))"
  "in_range o1 \<Longrightarrow> keeps_range (and_then (textArg flag arg) (\<lambda>v. and_then (parseKinds v) (\<lambda>ks. Inr (o1, ts @ ks))))"
  by (auto simp: keeps_range_def and_then_eq_Inr dest: parseIntArg_range parseFloatArg_range)

lemma bench_option_range:
  assumes "bench_option Number arg nx acc = Inr acc'" and "in_range (fst acc)"
  shows "in_range (fst acc')"
proof -
  have "keeps_range (bench_option Number arg nx acc)"
    unfolding bench_option_def Let_def using assms(2) by (intro keeps_range_intros) (simp_all add: in_range_def)
  with assms(1) show ?thesis by (simp add: keeps_range_def)
qed

lemma bench_loop_range:
  "bench_loop Number acc argv = Inr acc' \<Longrightarrow> in_range (fst acc) \<Longrightarrow> in_range (fst acc')"
  by (induction Number acc argv rule: bench_loop.induct) (auto simp: and_then_eq_Inr dest: bench_option_range)

text \<open>
C32: the options \<open>parseBenchArgs\<close> returns are well formed, whatever the command line: every number is in its range, the shares of
the banking workload fit, the pool is not larger than the number of workers, and the tests are not empty and not repeated.
\<close>

theorem bench_options_valid:
  assumes "parseBenchArgs Number fadd argv = Inr o1"
  shows "in_range o1 \<and> fadd (bo_bankReadRatio o1) (bo_bankTransferRatio o1) \<le> 1
    \<and> bo_bankMinAmount o1 \<le> bo_bankMaxAmount o1 \<and> bo_poolSize o1 \<le> bo_concurrency o1"
proof -
  obtain o0 ts where l: "bench_loop Number (BENCH_DEFAULTS, []) argv = Inr (o0, ts)"
    and c: "bench_checks fadd (if length ts > 0 then o0\<lparr>bo_tests := unique ts\<rparr> else o0) = Inr o1"
    using assms by (auto simp: parseBenchArgs_def and_then_eq_Inr)
  have "in_range BENCH_DEFAULTS" by (simp add: in_range_def BENCH_DEFAULTS_def)
  with bench_loop_range [OF l] have r: "in_range o0" by simp
  from c have e: "o1 = (if length ts > 0 then o0\<lparr>bo_tests := unique ts\<rparr> else o0)"
    by (auto simp: bench_checks_def split: if_splits)
  have "in_range (o0\<lparr>bo_tests := unique ts\<rparr>)" if "ts \<noteq> []" using r that by (simp add: in_range_def)
  then have "in_range o1" using r unfolding e by auto
  with c e show ?thesis by (auto simp: bench_checks_def split: if_splits)
qed

theorem bench_options_valid_witness:
  "parseBenchArgs (\<lambda>_. Some 8) (+) [js ''--concurrency'', js ''8'', js ''--pool-size'', js ''8'']
     = Inr (BENCH_DEFAULTS\<lparr>bo_concurrency := 8, bo_poolSize := 8\<rparr>)
   \<and> in_range (BENCH_DEFAULTS\<lparr>bo_concurrency := 8, bo_poolSize := 8\<rparr>)"
proof -
  have "parseBenchArgs (\<lambda>_. Some 8) (+) [js ''--concurrency'', js ''8'', js ''--pool-size'', js ''8'']
     = Inr (BENCH_DEFAULTS\<lparr>bo_concurrency := 8, bo_poolSize := 8\<rparr>)"
    by (simp add: parseBenchArgs_def bench_option_def parseIntArg_def bench_checks_def BENCH_DEFAULTS_def Let_def)
  with bench_options_valid [OF this] show ?thesis by blast
qed

end
