(* ===== verification/Bench_Scenarios.thy ===== *)
theory Bench_Scenarios
  imports Bench_Cli Kv_Procedures
begin

section \<open>The workloads of the benchmark (\<open>lib/bench/scenarios.ts\<close>)\<close>

text \<open>
  Each scenario as an action over the text commands. The calls of \<open>Math.random()\<close> in one operation are the numbers
  \<open>d 0\<close>, \<open>d 1\<close> and so on, in the order of the calls; \<open>Number\<close> converts a text (\<open>None\<close>: not finite), products and sums
  of floating-point numbers are exact.
\<close>

datatype verdict = Success | Failure

definition randomInt :: "rat \<Rightarrow> int \<Rightarrow> int" where
  "randomInt r maxExclusive = \<lfloor>r * of_int maxExclusive\<rfloor>"

definition account_key :: "BenchOptions \<Rightarrow> int \<Rightarrow> jstring" where
  "account_key o1 i = bo_keyPrefix o1 @ [58] @ String_int i"

definition nextKey :: "BenchOptions \<Rightarrow> rat \<Rightarrow> jstring" where
  "nextKey o1 r = account_key o1 (randomInt r (bo_keyspace o1))"

definition parseBalance :: "(jstring \<Rightarrow> rat option) \<Rightarrow> WormResponse \<Rightarrow> int option" where
  "parseBalance Number response =
     (case response of
        RBulk v \<Rightarrow>
          (case Number v of
             None \<Rightarrow> None
           | Some x \<Rightarrow> if x < 0 then None else Some \<lfloor>x\<rfloor>)
      | _ \<Rightarrow> None)"

definition randomAmount :: "BenchOptions \<Rightarrow> rat \<Rightarrow> int" where
  "randomAmount o1 r =
     (let lo = bo_bankMinAmount o1; hi = bo_bankMaxAmount o1
      in if hi \<le> lo then lo else lo + randomInt r (hi - lo + 1))"

text \<open>The other account of a transfer, drawn again once when it is the same.\<close>

definition other_account :: "BenchOptions \<Rightarrow> jstring \<Rightarrow> rat \<Rightarrow> rat \<Rightarrow> jstring" where
  "other_account o1 source r1 r2 =
     (let target = nextKey o1 r1
      in if target = source then account_key o1 ((randomInt r2 (bo_keyspace o1 - 1) + 1) mod bo_keyspace o1)
         else target)"

definition not_error :: "WormResponse \<Rightarrow> verdict" where
  "not_error r = (case r of RError m \<Rightarrow> Failure | _ \<Rightarrow> Success)"

text \<open>The body both transfer workloads share: read both balances, debit, credit.\<close>

definition transfer_steps ::
  "(jstring \<Rightarrow> rat option) \<Rightarrow> (jstring \<Rightarrow> ('w, WormResponse) act) \<Rightarrow> jstring \<Rightarrow> jstring \<Rightarrow> int \<Rightarrow> ('w, verdict) act" where
  "transfer_steps Number send source target amount =
     act_bind (send (js ''GET '' @ source)) (\<lambda>fromRes.
     act_bind (send (js ''GET '' @ target)) (\<lambda>toRes.
     case (parseBalance Number fromRes, parseBalance Number toRes) of
       (Some fromBal, Some toBal) \<Rightarrow>
         if fromBal < amount then act_return Success
         else
           act_bind (send (js ''SET '' @ source @ [32] @ String_int (fromBal - amount))) (\<lambda>debit.
           case debit of
             RError m \<Rightarrow> act_return Failure
           | _ \<Rightarrow>
               act_bind (send (js ''SET '' @ target @ [32] @ String_int (toBal + amount))) (\<lambda>credit.
               act_return (not_error credit)))
     | _ \<Rightarrow> act_return Failure))"

definition deposit ::
  "(jstring \<Rightarrow> rat option) \<Rightarrow> (jstring \<Rightarrow> ('w, WormResponse) act) \<Rightarrow> jstring \<Rightarrow> int \<Rightarrow> ('w, verdict) act" where
  "deposit Number send source amount =
     act_bind (send (js ''GET '' @ source)) (\<lambda>read.
     case parseBalance Number read of
       None \<Rightarrow> act_return Failure
     | Some balance \<Rightarrow>
         act_bind (send (js ''SET '' @ source @ [32] @ String_int (balance + amount))) (\<lambda>write.
         act_return (not_error write)))"

definition banking_op ::
  "(jstring \<Rightarrow> rat option) \<Rightarrow> (jstring \<Rightarrow> ('w, WormResponse) act) \<Rightarrow> BenchOptions \<Rightarrow> (nat \<Rightarrow> rat) \<Rightarrow> ('w, verdict) act" where
  "banking_op Number send o1 d =
     (let r = d 0; source = nextKey o1 (d 1)
      in if r < bo_bankReadRatio o1 then
           act_bind (send (js ''GET '' @ source)) (\<lambda>read.
           act_return (if parseBalance Number read = None then Failure else Success))
         else if r < bo_bankReadRatio o1 + bo_bankTransferRatio o1 then
           transfer_steps Number send source (other_account o1 source (d 2) (d 3))
             (randomAmount o1 (d (if nextKey o1 (d 2) = source then 4 else 3)))
         else deposit Number send source (randomAmount o1 (d 2)))"

definition spacetime_op ::
  "(jstring \<Rightarrow> rat option) \<Rightarrow> (jstring \<Rightarrow> ('w, WormResponse) act) \<Rightarrow> BenchOptions \<Rightarrow> (nat \<Rightarrow> rat) \<Rightarrow> ('w, verdict) act" where
  "spacetime_op Number send o1 d =
     (let source = nextKey o1 (d 0)
      in transfer_steps Number send source (other_account o1 source (d 1) (d 2))
           (randomAmount o1 (d (if nextKey o1 (d 1) = source then 3 else 2))))"

definition exec_op :: "(jstring \<Rightarrow> ('w, WormResponse) act) \<Rightarrow> BenchOptions \<Rightarrow> (nat \<Rightarrow> rat) \<Rightarrow> ('w, verdict) act" where
  "exec_op send o1 d =
     (let source = nextKey o1 (d 0);
          target = other_account o1 source (d 1) (d 2);
          amount = randomAmount o1 (d (if nextKey o1 (d 1) = source then 3 else 2))
      in act_bind (send (js ''EXEC transfer '' @ source @ [32] @ target @ [32] @ String_int amount)) (\<lambda>res.
         act_return (if res = RError (js ''insufficient_funds'') then Success else not_error res)))"

definition command_op :: "(jstring \<Rightarrow> ('w, WormResponse) act) \<Rightarrow> jstring \<Rightarrow> ('w, verdict) act" where
  "command_op send command = act_bind (send command) (\<lambda>result. act_return (not_error result))"

text \<open>\<open>runOperation\<close>, or \<open>makeCommand\<close> sent by the runner, of each scenario.\<close>

fun run_scenario ::
  "(jstring \<Rightarrow> rat option) \<Rightarrow> (jstring \<Rightarrow> ('w, WormResponse) act) \<Rightarrow> BenchOptions \<Rightarrow> jstring \<Rightarrow> (nat \<Rightarrow> rat) \<Rightarrow> BenchKind
    \<Rightarrow> ('w, verdict) act" where
  "run_scenario Number send o1 payload d KMixed =
     command_op send (if d 1 < bo_readRatio o1 then js ''GET '' @ nextKey o1 (d 0)
                      else js ''SET '' @ nextKey o1 (d 0) @ [32] @ payload)"
| "run_scenario Number send o1 payload d KRead = command_op send (js ''GET '' @ nextKey o1 (d 0))"
| "run_scenario Number send o1 payload d KWrite = command_op send (js ''SET '' @ nextKey o1 (d 0) @ [32] @ payload)"
| "run_scenario Number send o1 payload d KStatus = command_op send (js ''STATUS'')"
| "run_scenario Number send o1 payload d KClusterStatus = command_op send (js ''CLUSTER STATUS'')"
| "run_scenario Number send o1 payload d KBanking = banking_op Number send o1 d"
| "run_scenario Number send o1 payload d KSpacetimeTransfer = spacetime_op Number send o1 d"
| "run_scenario Number send o1 payload d KExecTransfer = exec_op send o1 d"

fun needsSeed :: "BenchKind \<Rightarrow> bool" where
  "needsSeed KWrite = False"
| "needsSeed KStatus = False"
| "needsSeed KClusterStatus = False"
| "needsSeed _ = True"

fun seed_value :: "BenchOptions \<Rightarrow> jstring \<Rightarrow> BenchKind \<Rightarrow> jstring" where
  "seed_value o1 payload KBanking = String_int (bo_bankInitialBalance o1)"
| "seed_value o1 payload KSpacetimeTransfer = String_int (bo_bankInitialBalance o1)"
| "seed_value o1 payload KExecTransfer = String_int (bo_bankInitialBalance o1)"
| "seed_value o1 payload _ = payload"

text \<open>\<open>seedKeyspace\<close> of the runner.\<close>

fun seed_keys :: "(jstring \<Rightarrow> ('w, WormResponse) act) \<Rightarrow> BenchOptions \<Rightarrow> jstring \<Rightarrow> int list \<Rightarrow> ('w, unit) act" where
  "seed_keys send o1 v [] = act_return ()"
| "seed_keys send o1 v (i # is) =
     act_bind (send (js ''SET '' @ account_key o1 i @ [32] @ v)) (\<lambda>response.
     case response of
       RError m \<Rightarrow> act_throw (PlainError (js ''Seed failed on key '' @ [39] @ account_key o1 i @ [39] @ js '': '' @ m))
     | _ \<Rightarrow> seed_keys send o1 v is)"

definition seedKeyspace :: "(jstring \<Rightarrow> ('w, WormResponse) act) \<Rightarrow> BenchOptions \<Rightarrow> jstring \<Rightarrow> ('w, unit) act" where
  "seedKeyspace send o1 v = seed_keys send o1 v [0..bo_keyspace o1 - 1]"

text \<open>The procedure \<open>transfer\<close> of the server; the balances are assumed to stay below the bound of 64-bit integers.\<close>

definition transfer_proc :: "bytes list \<Rightarrow> store \<Rightarrow> store \<times> ZResponse" where
  "transfer_proc as s =
     (case as of
        source # target # amount # _ \<Rightarrow>
          (case parse_i64 amount of
             None \<Rightarrow> (s, ZErr (lit ''invalid amount''))
           | Some a \<Rightarrow>
               if a \<le> 0 then (s, ZErr (lit ''amount must be positive''))
               else
                 (case ctx_getInt s source of
                    None \<Rightarrow> (s, ZErr (lit ''from account not found''))
                  | Some from_bal \<Rightarrow>
                      (case ctx_getInt s target of
                         None \<Rightarrow> (s, ZErr (lit ''to account not found''))
                       | Some to_bal \<Rightarrow>
                           if from_bal < a then (s, ZErr (lit ''insufficient_funds''))
                           else (ctx_setInt (ctx_setInt s source (from_bal - a)) target (to_bal + a), ZOk))))
      | _ \<Rightarrow> (s, ZErr (lit ''transfer requires 3 args: <from> <to> <amount>'')))"

subsection \<open>Transfers\<close>

lemma digits_value_ok: "n < 10 ^ 30 \<Longrightarrow> value_ok (digits_of n)"
proof -
  assume "n < 10 ^ 30"
  then have l: "length (digits_of n) \<le> 30" using length_digits_of [of n 29] by simp
  have d: "48 \<le> unat c \<and> unat c \<le> 57" if "c \<in> set (digits_of n)" for c using that by (rule digits_of_ascii)
  have "\<not> is_ws c" if "c \<in> set (digits_of n)" for c using d [OF that] is_ws_range [of c] by linarith
  then have t: "token (digits_of n)" by (simp add: token_def digits_of_not_Nil)
  have "upper_unit c = [c]" if "c \<in> set (digits_of n)" for c
    using d [OF that] by (auto simp: upper_unit_def word_le_nat_alt)
  then have "toUpperCase (digits_of n) = digits_of n"
    unfolding toUpperCase_def by (simp add: concat_map_singleton cong: map_cong)
  moreover have "87 \<notin> set (digits_of n)" using d [of 87] by auto
  then have "digits_of n \<noteq> js ''WORM''" by (auto simp: js_simps)
  ultimately show ?thesis using t l d by (force simp: value_ok_def)
qed

text \<open>The conversion reads back the decimal text of a natural number.\<close>

definition reads_digits :: "(jstring \<Rightarrow> rat option) \<Rightarrow> bool" where
  "reads_digits Number \<longleftrightarrow> (\<forall>n. Number (digits_of n) = Some (of_nat n))"

lemma parseBalance_digits: "reads_digits Number \<Longrightarrow> parseBalance Number (RBulk (digits_of n)) = Some (int n)"
  by (simp add: parseBalance_def reads_digits_def)

context text_store
begin

lemma transfer_run:
  assumes "reads_digits Number" and "key_ok source" and "key_ok target" and "\<not> fixed w source" and "\<not> fixed w target"
    and "value_of w source = Some (digits_of a)" and "value_of w target = Some (digits_of b)"
    and "a < 10 ^ 29" and "b < 10 ^ 29" and "m < 10 ^ 29"
  shows "\<exists>w'. transfer_steps Number send source target (int m) w = (w', Inr Success)
    \<and> (\<forall>k. key_ok k \<longrightarrow> value_of w' k =
         (if a < m then value_of w k
          else if k = target then Some (digits_of (b + m))
          else if k = source then Some (digits_of (a - m)) else value_of w k))"
proof -
  have g: "send (get_text source) w = (w, Inr (RBulk (digits_of a)))" "send (get_text target) w = (w, Inr (RBulk (digits_of b)))"
    using get_law assms by simp_all
  note pb = parseBalance_digits [OF assms(1)]
  show ?thesis
  proof (cases "a < m")
    case True
    then have "transfer_steps Number send source target (int m) w = (w, Inr Success)"
      unfolding transfer_steps_def by (simp add: act_eval g pb)
    with True show ?thesis by auto
  next
    case False
    then have s: "String_int (int a - int m) = digits_of (a - m)" "String_int (int b + int m) = digits_of (b + m)"
      by (auto simp: String_int_def nat_diff_distrib nat_add_distrib)
    have v: "value_ok (digits_of (a - m))" "value_ok (digits_of (b + m))" using assms by (auto intro!: digits_value_ok)
    obtain w1 where w1: "send (set_text source (digits_of (a - m))) w = (w1, Inr ROk)" "value_of w1 source = Some (digits_of (a - m))"
      "\<not> fixed w1 source" "\<forall>k'. key_ok k' \<longrightarrow> k' \<noteq> source \<longrightarrow> value_of w1 k' = value_of w k' \<and> fixed w1 k' = fixed w k'"
      using set_law [OF assms(2) v(1) assms(4)] by blast
    then have "\<not> fixed w1 target" using assms(3,5) by (cases "target = source") auto
    then obtain w2 where w2: "send (set_text target (digits_of (b + m))) w1 = (w2, Inr ROk)" "value_of w2 target = Some (digits_of (b + m))"
      "\<forall>k'. key_ok k' \<longrightarrow> k' \<noteq> target \<longrightarrow> value_of w2 k' = value_of w1 k' \<and> fixed w2 k' = fixed w1 k'"
      using set_law [OF assms(3) v(2), of w1] by blast
    have "transfer_steps Number send source target (int m) w = (w2, Inr Success)"
      unfolding transfer_steps_def using False by (simp add: act_eval g pb s w1(1) [simplified] w2(1) [simplified] not_error_def)
    moreover have "value_of w2 k = (if k = target then Some (digits_of (b + m))
          else if k = source then Some (digits_of (a - m)) else value_of w k)" if "key_ok k" for k
      using w1(2,4) w2(2,3) that by auto
    ultimately show ?thesis using False by auto
  qed
qed

end

text \<open>
A transfer between two different accounts of the store moves the amount: the debit and the credit are exact, a source with too
little money changes nothing, no other key changes, and the sum of the two balances is the same before and after.
\<close>

theorem transfer_moves_amount:
  assumes "reads_digits Number" and "key_ok source" and "key_ok target" and "source \<noteq> target"
    and "\<not> key_fixed s source" and "\<not> key_fixed s target"
    and "stored_text s source = Some (digits_of a)" and "stored_text s target = Some (digits_of b)"
    and "a < 10 ^ 29" and "b < 10 ^ 29" and "m < 10 ^ 29"
  shows "\<exists>s' a' b'. transfer_steps Number (store_send other) source target (int m) s = (s', Inr Success)
    \<and> stored_text s' source = Some (digits_of a') \<and> stored_text s' target = Some (digits_of b') \<and> a' + b' = a + b
    \<and> (a', b') = (if a < m then (a, b) else (a - m, b + m))
    \<and> (\<forall>k. key_ok k \<and> k \<notin> {source, target} \<longrightarrow> stored_text s' k = stored_text s k)"
proof -
  obtain s' where r: "transfer_steps Number (store_send other) source target (int m) s = (s', Inr Success)"
    and v: "\<forall>k. key_ok k \<longrightarrow> stored_text s' k =
         (if a < m then stored_text s k
          else if k = target then Some (digits_of (b + m))
          else if k = source then Some (digits_of (a - m)) else stored_text s k)"
    using kv.transfer_run [OF assms(1-3,5-11)] by blast
  have "(if a < m then a else a - m) + (if a < m then b else b + m) = a + b" by simp
  moreover have "stored_text s' source = Some (digits_of (if a < m then a else a - m))"
    "stored_text s' target = Some (digits_of (if a < m then b else b + m))"
    using v assms by auto
  moreover have "\<forall>k. key_ok k \<and> k \<notin> {source, target} \<longrightarrow> stored_text s' k = stored_text s k" using v by auto
  ultimately show ?thesis
    using r by (intro exI [of _ s'] exI [of _ "if a < m then a else a - m"] exI [of _ "if a < m then b else b + m"]) auto
qed

abbreviation "parsed_number \<equiv> \<lambda>t. map_option (of_int :: int \<Rightarrow> rat) (parseInt t)"
abbreviation "two_accounts \<equiv>
  \<lparr>st_live = [[97] \<mapsto> \<lparr>en_value = [53], en_worm = False\<rparr>, [98] \<mapsto> \<lparr>en_value = [55], en_worm = False\<rparr>],
   st_frozen = Map.empty\<rparr>"

theorem transfer_moves_amount_witness:
  "\<exists>s'. transfer_steps parsed_number (store_send (\<lambda>s c. (s, ZOk))) (js ''a'') (js ''b'') 2 two_accounts = (s', Inr Success)
    \<and> stored_text s' (js ''a'') = Some (digits_of 3) \<and> stored_text s' (js ''b'') = Some (digits_of 9)"
proof -
  have r: "reads_digits parsed_number" by (simp add: reads_digits_def parseInt_digits)
  have e: "encodeUtf8 (js ''a'') = [97]" "encodeUtf8 (js ''b'') = [98]" "encodeUtf8 (digits_of 5) = [53]" "encodeUtf8 (digits_of 7) = [55]"
    by (simp_all add: encodeUtf8_ascii js_simps digits_of.simps)
  have k: "key_ok (js ''a'')" "key_ok (js ''b'')"
    by (simp_all add: key_simps)
  have "decodeUtf8 [53] = digits_of 5" "decodeUtf8 [55] = digits_of 7"
    using value_ok_decode [OF digits_value_ok [of 5]] value_ok_decode [OF digits_value_ok [of 7]] e by simp_all
  then have st: "stored_text two_accounts (js ''a'') = Some (digits_of 5)" "stored_text two_accounts (js ''b'') = Some (digits_of 7)"
    by (simp_all add: stored_text_def getValueDupe_def e)
  have f: "\<not> key_fixed two_accounts (js ''a'')" "\<not> key_fixed two_accounts (js ''b'')"
    by (simp_all add: key_fixed_def worm_violation_def e)
  show ?thesis
    using transfer_moves_amount [OF r k _ f st, of 2 "\<lambda>s c. (s, ZOk)"] by auto
qed

text \<open>
When the two accounts are the same, the debit is overwritten by the credit and the amount is created. The second draw of
\<open>other_account\<close> does not exclude this: with two accounts, it always takes account 1.
\<close>

theorem self_transfer_creates_money:
  assumes "reads_digits Number" and "key_ok k" and "\<not> key_fixed s k" and "stored_text s k = Some (digits_of a)"
    and "a < 10 ^ 29" and "m \<le> a"
  shows "\<exists>s'. transfer_steps Number (store_send other) k k (int m) s = (s', Inr Success)
    \<and> stored_text s' k = Some (digits_of (a + m))"
  using kv.transfer_run [OF assms(1) assms(2,2) assms(3,3) assms(4,4) assms(5,5), of m other] assms(2,5,6) by auto

theorem second_draw_can_repeat:
  assumes "bo_keyspace o1 = 2" and "0 \<le> r" and "r < 1"
  shows "other_account o1 (nextKey o1 (1 / 2)) (1 / 2) r = nextKey o1 (1 / 2)"
proof -
  have "randomInt r 1 = 0" using assms(2,3) by (simp add: randomInt_def floor_eq_iff)
  moreover have "randomInt (1 / 2) 2 = 1" by (simp add: randomInt_def)
  ultimately show ?thesis by (simp add: other_account_def nextKey_def assms(1) Let_def)
qed

text \<open>The server's own procedure has the same gap: a transfer from an account to itself creates the amount.\<close>

theorem transfer_proc_to_itself:
  assumes "getValueDupe s k = Some (encodeUtf8 (digits_of a))" and "a < 2 ^ 62" and "0 < m" and "m \<le> a"
    and "\<not> worm_violation s k"
  shows "\<exists>s'. transfer_proc [k, k, encodeUtf8 (digits_of m)] s = (s', ZOk)
    \<and> getValueDupe s' k = Some (encodeUtf8 (digits_of (a + m)))"
proof -
  have p: "parse_i64 (encodeUtf8 (digits_of n)) = Some (int n)" if "n < 2 ^ 63" for n
    using that by (intro zig_parseInt_digits) simp_all
  have w: "getValueDupe (ctx_set s' k v) k = Some v \<and> \<not> worm_violation (ctx_set s' k v) k" if "\<not> worm_violation s' k" for s' v
    using that by (simp add: ctx_set_def store_set_def getValueDupe_def worm_violation_def)
  have i: "getValueDupe (ctx_setInt s' k x) k = Some (decimal x) \<and> \<not> worm_violation (ctx_setInt s' k x) k"
    if "\<not> worm_violation s' k" for s' x using w [OF that] by (simp add: ctx_setInt_def)
  have "transfer_proc [k, k, encodeUtf8 (digits_of m)] s
      = (ctx_setInt (ctx_setInt s k (int a - int m)) k (int a + int m), ZOk)"
    using assms p [of m] p [of a] by (simp add: transfer_proc_def ctx_getInt_def)
  moreover have "decimal (int a + int m) = encodeUtf8 (digits_of (a + m))"
    by (simp add: decimal_def String_int_def nat_add_distrib)
  ultimately show ?thesis using i [of "ctx_setInt s k (int a - int m)"] i [OF assms(5)] by auto
qed

end
