(* ===== verification/Bench_Runner.thy ===== *)
theory Bench_Runner
  imports Bench_Scenarios
begin

section \<open>The benchmark runner (\<open>lib/bench/runner.ts\<close>)\<close>

text \<open>
  The statistics of a run, and \<open>runWorkload\<close> as a system of workers that share one cursor. A worker fills its pipeline,
  waits for one of its operations (\<open>Promise.race\<close>) and refills. Operations are numbered by the cursor; how and when one ends
  is up to the environment, so a run is any sequence of ends of operations and of workers that go on.
\<close>

subsection \<open>Statistics\<close>

definition percentile :: "rat list \<Rightarrow> rat \<Rightarrow> rat" where
  "percentile ordered p =
     (if length ordered = 0 then 0
      else ordered ! nat (min (int (length ordered) - 1) (max 0 (\<lceil>p / 100 * of_nat (length ordered)\<rceil> - 1))))"

record BenchResult =
  re_test :: BenchKind
  re_attempted :: int
  re_succeeded :: nat
  re_failed :: nat
  re_elapsedMs :: rat
  re_opsPerSec :: rat
  re_latMsAvg :: rat
  re_latMsP50 :: rat
  re_latMsP95 :: rat
  re_latMsP99 :: rat

definition summarize :: "BenchKind \<Rightarrow> int \<Rightarrow> rat \<Rightarrow> nat \<Rightarrow> nat \<Rightarrow> rat list \<Rightarrow> BenchResult" where
  "summarize test opCount elapsedMs succeeded failed latencies =
     (let ordered = sort latencies; total = foldl (+) 0 latencies
      in \<lparr>re_test = test, re_attempted = opCount, re_succeeded = succeeded, re_failed = failed, re_elapsedMs = elapsedMs,
          re_opsPerSec = (if elapsedMs > 0 then of_nat succeeded / elapsedMs * 1000 else 0),
          re_latMsAvg = (if length latencies > 0 then total / of_nat (length latencies) else 0),
          re_latMsP50 = percentile ordered 50, re_latMsP95 = percentile ordered 95, re_latMsP99 = percentile ordered 99\<rparr>)"

subsection \<open>The workload\<close>

text \<open>
  \<open>wl_woken w\<close>: an operation of worker \<open>w\<close> ended since it began to wait, so its \<open>race\<close> is settled; \<open>wl_finished\<close>: the
  worker's loop is over.
\<close>

record workload =
  wl_cursor :: nat
  wl_succeeded :: nat
  wl_failed :: nat
  wl_latencies :: "rat list"
  wl_active :: "nat \<Rightarrow> nat list"
  wl_woken :: "nat \<Rightarrow> bool"
  wl_finished :: "nat \<Rightarrow> bool"

definition launchOne :: "nat \<Rightarrow> nat \<Rightarrow> workload \<Rightarrow> bool \<times> workload" where
  "launchOne opCount w s =
     (let index = wl_cursor s; s = s\<lparr>wl_cursor := wl_cursor s + 1\<rparr>
      in if index \<ge> opCount then (False, s)
         else (True, s\<lparr>wl_active := (wl_active s)(w := wl_active s w @ [index])\<rparr>))"

text \<open>\<open>while (active.size < maxInFlight && launchOne())\<close>.\<close>

function fill :: "nat \<Rightarrow> nat \<Rightarrow> nat \<Rightarrow> workload \<Rightarrow> workload" where
  "fill opCount maxInFlight w s =
     (if length (wl_active s w) < maxInFlight then
        (case launchOne opCount w s of
           (True, s') \<Rightarrow> fill opCount maxInFlight w s'
         | (False, s') \<Rightarrow> s')
      else s)"
  by pat_completeness auto
termination
  by (relation "measure (\<lambda>(n, m, w, s). m - length (wl_active s w))")
    (auto simp: launchOne_def Let_def split: if_splits)

declare fill.simps [simp del]

text \<open>A worker goes on: it refills its pipeline, and ends when nothing is active.\<close>

definition resume :: "nat \<Rightarrow> nat \<Rightarrow> nat \<Rightarrow> workload \<Rightarrow> workload" where
  "resume opCount maxInFlight w s =
     (let s = fill opCount maxInFlight w (s\<lparr>wl_woken := (wl_woken s)(w := False)\<rparr>)
      in if wl_active s w = [] then s\<lparr>wl_finished := (wl_finished s)(w := True)\<rparr> else s)"

text \<open>The end of an operation, with its outcome and the measured time, if there is one.\<close>

definition op_ends :: "nat \<Rightarrow> nat \<Rightarrow> verdict \<Rightarrow> rat option \<Rightarrow> workload \<Rightarrow> workload" where
  "op_ends w i outcome lat s =
     (let s = (if outcome = Failure then s\<lparr>wl_failed := wl_failed s + 1\<rparr> else s\<lparr>wl_succeeded := wl_succeeded s + 1\<rparr>);
          s = (case lat of None \<Rightarrow> s | Some t \<Rightarrow> s\<lparr>wl_latencies := wl_latencies s @ [t]\<rparr>)
      in s\<lparr>wl_active := (wl_active s)(w := remove1 i (wl_active s w)), wl_woken := (wl_woken s)(w := True)\<rparr>)"

definition start_workers :: "nat \<Rightarrow> nat \<Rightarrow> nat \<Rightarrow> workload" where
  "start_workers opCount maxInFlight concurrency =
     foldl (\<lambda>s w. resume opCount maxInFlight w s)
       \<lparr>wl_cursor = 0, wl_succeeded = 0, wl_failed = 0, wl_latencies = [], wl_active = (\<lambda>_. []), wl_woken = (\<lambda>_. False),
        wl_finished = (\<lambda>_. False)\<rparr>
       [0..<concurrency]"

text \<open>The runs of \<open>runWorkload\<close>, with or without measured times.\<close>

inductive wl_step :: "nat \<Rightarrow> nat \<Rightarrow> nat \<Rightarrow> bool \<Rightarrow> workload \<Rightarrow> workload \<Rightarrow> bool" for opCount maxInFlight concurrency measured where
  ends: "w < concurrency \<Longrightarrow> i \<in> set (wl_active s w) \<Longrightarrow> measured \<longleftrightarrow> lat \<noteq> None \<Longrightarrow>
     wl_step opCount maxInFlight concurrency measured s (op_ends w i outcome lat s)"
| resumes: "w < concurrency \<Longrightarrow> wl_woken s w \<Longrightarrow> \<not> wl_finished s w \<Longrightarrow>
     wl_step opCount maxInFlight concurrency measured s (resume opCount maxInFlight w s)"

inductive_cases wl_stepE: "wl_step opCount maxInFlight concurrency measured s s'"

subsection \<open>The tests in turn\<close>

text \<open>
  \<open>runBenchmarks\<close>: seed, warm up, measure, for each test; a failed seed ends all of it. \<open>runWorkload test n measured\<close> is
  what a workload comes to: the counts, the latencies and the elapsed time.
\<close>

fun run_tests :: "(jstring \<Rightarrow> ('w, WormResponse) act) \<Rightarrow> (BenchKind \<Rightarrow> int \<Rightarrow> bool \<Rightarrow> ('w, (nat \<times> nat \<times> rat list) \<times> rat) act)
    \<Rightarrow> BenchOptions \<Rightarrow> BenchKind list \<Rightarrow> ('w, BenchResult list) act" where
  "run_tests send runWorkload o1 [] = act_return []"
| "run_tests send runWorkload o1 (test # tests) =
     act_bind (if needsSeed test then seedKeyspace send o1 (seed_value o1 (replicate (nat (bo_valueSize o1)) 118) test)
               else act_return ()) (\<lambda>_.
     act_bind (if bo_warmupOps o1 > 0 then act_bind (runWorkload test (bo_warmupOps o1) False) (\<lambda>_. act_return ())
               else act_return ()) (\<lambda>_.
     act_bind (runWorkload test (bo_totalOps o1) True) (\<lambda>((succeeded, failed, latencies), elapsed).
     act_bind (run_tests send runWorkload o1 tests) (\<lambda>results.
     act_return (summarize test (bo_totalOps o1) elapsed succeeded failed latencies # results)))))"

definition runBenchmarks :: "(jstring \<Rightarrow> ('w, WormResponse) act) \<Rightarrow> (BenchKind \<Rightarrow> int \<Rightarrow> bool \<Rightarrow> ('w, (nat \<times> nat \<times> rat list) \<times> rat) act)
    \<Rightarrow> BenchOptions \<Rightarrow> ('w, BenchResult list) act" where
  "runBenchmarks send runWorkload o1 = run_tests send runWorkload o1 (bo_tests o1)"

subsection \<open>Every operation is run once\<close>

text \<open>What \<open>fill\<close> does: it launches the next \<open>k\<close> operations, and stops with a full pipeline or with none left.\<close>

definition filled :: "nat \<Rightarrow> nat \<Rightarrow> nat \<Rightarrow> workload \<Rightarrow> nat \<Rightarrow> workload \<Rightarrow> bool" where
  "filled opCount m w s k s' \<longleftrightarrow>
     wl_active s' = (wl_active s)(w := wl_active s w @ [wl_cursor s..<wl_cursor s + k])
     \<and> wl_succeeded s' = wl_succeeded s \<and> wl_failed s' = wl_failed s \<and> wl_latencies s' = wl_latencies s
     \<and> wl_woken s' = wl_woken s \<and> wl_finished s' = wl_finished s
     \<and> (k = 0 \<or> wl_cursor s + k \<le> opCount \<and> length (wl_active s w) + k \<le> m)
     \<and> (wl_cursor s' = wl_cursor s + k \<and> m \<le> length (wl_active s w) + k
        \<or> wl_cursor s' = wl_cursor s + k + 1 \<and> opCount \<le> wl_cursor s + k)"

lemma fill_filled: "\<exists>k. filled opCount m w s k (fill opCount m w s)"
proof (induction opCount m w s rule: fill.induct)
  case (1 opCount m w s)
  show ?case
  proof (cases "length (wl_active s w) < m \<and> wl_cursor s < opCount")
    case True
    let ?s = "s\<lparr>wl_cursor := wl_cursor s + 1, wl_active := (wl_active s)(w := wl_active s w @ [wl_cursor s])\<rparr>"
    have l: "launchOne opCount w s = (True, ?s)" using True by (simp add: launchOne_def Let_def)
    obtain k where k: "filled opCount m w ?s k (fill opCount m w ?s)" using 1 [of True ?s] True l by auto
    have "filled opCount m w s (Suc k) (fill opCount m w ?s)"
      using k True by (auto simp: filled_def upt_conv_Cons)
    moreover have "fill opCount m w s = fill opCount m w ?s" using True l by (subst fill.simps) simp
    ultimately show ?thesis by auto
  next
    case False
    then have "filled opCount m w s 0 (fill opCount m w s)"
      by (subst fill.simps) (auto simp: filled_def launchOne_def Let_def)
    then show ?thesis by blast
  qed
qed

definition in_flight :: "nat \<Rightarrow> workload \<Rightarrow> nat" where
  "in_flight c s = (\<Sum>v<c. length (wl_active s v))"

lemma in_flight_upd:
  "w < c \<Longrightarrow> in_flight c (s\<lparr>wl_active := (wl_active s)(w := xs)\<rparr>) + length (wl_active s w) = in_flight c s + length xs"
  unfolding in_flight_def by (simp add: sum.remove [of "{..<c}" w])

text \<open>The invariant of a run: the account of the operations, and what holds of each worker.\<close>

definition worker_ok :: "nat \<Rightarrow> nat \<Rightarrow> nat \<Rightarrow> nat list \<Rightarrow> bool \<Rightarrow> bool \<Rightarrow> bool" where
  "worker_ok opCount m cursor active finished woken \<longleftrightarrow>
     length active \<le> m \<and> distinct active \<and> (\<forall>i \<in> set active. i < cursor)
     \<and> (finished \<longrightarrow> active = [] \<and> opCount \<le> cursor) \<and> (active = [] \<longrightarrow> finished \<or> woken)"

definition accounts :: "nat \<Rightarrow> nat \<Rightarrow> bool \<Rightarrow> workload \<Rightarrow> bool" where
  "accounts opCount c measured s \<longleftrightarrow>
     in_flight c s + wl_succeeded s + wl_failed s = min (wl_cursor s) opCount
     \<and> length (wl_latencies s) = (if measured then wl_succeeded s + wl_failed s else 0)"

definition wl_inv :: "nat \<Rightarrow> nat \<Rightarrow> nat \<Rightarrow> bool \<Rightarrow> workload \<Rightarrow> bool" where
  "wl_inv opCount m c measured s \<longleftrightarrow> accounts opCount c measured s
     \<and> (\<forall>v < c. worker_ok opCount m (wl_cursor s) (wl_active s v) (wl_finished s v) (wl_woken s v))"

lemma worker_ok_mono: "worker_ok opCount m cur xs f k \<Longrightarrow> cur \<le> cur' \<Longrightarrow> worker_ok opCount m cur' xs f k"
  by (auto simp: worker_ok_def)

lemma resume_cases:
  obtains k s' where "filled opCount m w (s\<lparr>wl_woken := (wl_woken s)(w := False)\<rparr>) k s'"
    and "resume opCount m w s = (if wl_active s' w = [] then s'\<lparr>wl_finished := (wl_finished s')(w := True)\<rparr> else s')"
  using fill_filled [of opCount m w "s\<lparr>wl_woken := (wl_woken s)(w := False)\<rparr>"] by (auto simp: resume_def Let_def)

lemma resume_simps:
  "wl_woken (resume opCount m w s) = (wl_woken s)(w := False)"
  "wl_succeeded (resume opCount m w s) = wl_succeeded s" "wl_failed (resume opCount m w s) = wl_failed s"
proof -
  obtain k t where "filled opCount m w (s\<lparr>wl_woken := (wl_woken s)(w := False)\<rparr>) k t"
    and "resume opCount m w s = (if wl_active t w = [] then t\<lparr>wl_finished := (wl_finished t)(w := True)\<rparr> else t)"
    by (rule resume_cases)
  then show "wl_woken (resume opCount m w s) = (wl_woken s)(w := False)"
    "wl_succeeded (resume opCount m w s) = wl_succeeded s" "wl_failed (resume opCount m w s) = wl_failed s"
    by (auto simp: filled_def)
qed

lemma filled_accounts:
  assumes "filled opCount m w s k s'" and "w < c" and "accounts opCount c measured s"
  shows "accounts opCount c measured s'"
proof -
  have a: "wl_active s' = (wl_active s)(w := wl_active s w @ [wl_cursor s..<wl_cursor s + k])" using assms(1) by (simp add: filled_def)
  have "in_flight c s' + length (wl_active s w) = in_flight c s + (length (wl_active s w) + k)"
    using in_flight_upd [OF assms(2), of s "wl_active s w @ [wl_cursor s..<wl_cursor s + k]"] a by (simp add: in_flight_def)
  then have "in_flight c s' = in_flight c s + k" by simp
  moreover have "min (wl_cursor s') opCount = min (wl_cursor s) opCount + k" using assms(1) by (auto simp: filled_def)
  ultimately show ?thesis using assms(1,3) by (simp add: accounts_def filled_def)
qed

lemma filled_worker:
  assumes "filled opCount m w s k s'" and "1 \<le> m" and "length (wl_active s w) \<le> m" and "distinct (wl_active s w)"
    and "\<forall>i \<in> set (wl_active s w). i < wl_cursor s" and "\<not> wl_finished s w"
  shows "worker_ok opCount m (wl_cursor s') (wl_active s' w) (wl_active s' w = []) woken" and "wl_cursor s \<le> wl_cursor s'"
proof -
  have a: "wl_active s' w = wl_active s w @ [wl_cursor s..<wl_cursor s + k]" using assms(1) by (simp add: filled_def)
  have c: "wl_cursor s + k \<le> wl_cursor s'" "length (wl_active s w) + k \<le> m"
    using assms(1,3) by (auto simp: filled_def)
  have "opCount \<le> wl_cursor s'" if "wl_active s' w = []"
    using that assms(1,2) a by (auto simp: filled_def)
  then show "worker_ok opCount m (wl_cursor s') (wl_active s' w) (wl_active s' w = []) woken"
    using assms(4,5) c a unfolding worker_ok_def by fastforce
  show "wl_cursor s \<le> wl_cursor s'" using c by simp
qed

lemma resume_inv:
  assumes acc: "accounts opCount c measured s" and w: "w < c" and m: "1 \<le> m" and fin: "\<not> wl_finished s w"
    and own: "length (wl_active s w) \<le> m" "distinct (wl_active s w)" "\<forall>i \<in> set (wl_active s w). i < wl_cursor s"
    and rest: "\<And>v. v < c \<Longrightarrow> v \<noteq> w \<Longrightarrow> P v \<Longrightarrow> worker_ok opCount m (wl_cursor s) (wl_active s v) (wl_finished s v) (wl_woken s v)"
  defines "s' \<equiv> resume opCount m w s"
  shows "accounts opCount c measured s'"
    and "v < c \<Longrightarrow> v = w \<or> P v \<Longrightarrow> worker_ok opCount m (wl_cursor s') (wl_active s' v) (wl_finished s' v) (wl_woken s' v)"
    and "v \<noteq> w \<Longrightarrow> wl_active s' v = wl_active s v \<and> wl_finished s' v = wl_finished s v \<and> wl_woken s' v = wl_woken s v"
proof -
  let ?s = "s\<lparr>wl_woken := (wl_woken s)(w := False)\<rparr>"
  obtain k t where f: "filled opCount m w ?s k t"
    and r: "s' = (if wl_active t w = [] then t\<lparr>wl_finished := (wl_finished t)(w := True)\<rparr> else t)"
    unfolding s'_def using resume_cases by blast
  have "accounts opCount c measured ?s" using acc by (simp add: accounts_def in_flight_def)
  then have "accounts opCount c measured t" by (rule filled_accounts [OF f w])
  then show "accounts opCount c measured s'" by (auto simp: r accounts_def in_flight_def)
  have fw: "worker_ok opCount m (wl_cursor t) (wl_active t w) (wl_active t w = []) False" "wl_cursor s \<le> wl_cursor t"
    using filled_worker [OF f m] own fin by simp_all
  have o: "wl_active t v = wl_active s v" "wl_finished t v = wl_finished s v" "wl_woken t v = wl_woken s v" if "v \<noteq> w" for v
    using f that by (auto simp: filled_def)
  then show "v \<noteq> w \<Longrightarrow> wl_active s' v = wl_active s v \<and> wl_finished s' v = wl_finished s v \<and> wl_woken s' v = wl_woken s v"
    by (auto simp: r)
  show "worker_ok opCount m (wl_cursor s') (wl_active s' v) (wl_finished s' v) (wl_woken s' v)" if "v < c" "v = w \<or> P v"
  proof (cases "v = w")
    case True
    have "wl_finished t w = wl_finished s w" "wl_woken t w = False" using f by (simp_all add: filled_def)
    with True fw(1) fin show ?thesis by (auto simp: r)
  next
    case False
    with that rest [of v] worker_ok_mono [OF _ fw(2)] o [OF False] show ?thesis by (auto simp: r)
  qed
qed

lemma op_ends_simps:
  "wl_active (op_ends w i outcome lat s) = (wl_active s)(w := remove1 i (wl_active s w))"
  "wl_woken (op_ends w i outcome lat s) = (wl_woken s)(w := True)"
  "wl_finished (op_ends w i outcome lat s) = wl_finished s" "wl_cursor (op_ends w i outcome lat s) = wl_cursor s"
  "wl_succeeded (op_ends w i outcome lat s) + wl_failed (op_ends w i outcome lat s) = Suc (wl_succeeded s + wl_failed s)"
  "length (wl_latencies (op_ends w i outcome lat s)) = length (wl_latencies s) + (if lat = None then 0 else 1)"
  by (auto simp: op_ends_def Let_def split: option.splits)

lemma op_ends_in_flight:
  assumes "w < c" and "i \<in> set (wl_active s w)"
  shows "Suc (in_flight c (op_ends w i outcome lat s)) = in_flight c s"
proof -
  have "in_flight c (op_ends w i outcome lat s) = in_flight c (s\<lparr>wl_active := (wl_active s)(w := remove1 i (wl_active s w))\<rparr>)"
    by (simp add: in_flight_def op_ends_simps(1))
  moreover have "length (wl_active s w) = Suc (length (remove1 i (wl_active s w)))"
    using assms(2) length_pos_if_in_set [OF assms(2)] by (simp add: length_remove1)
  ultimately show ?thesis
    using in_flight_upd [OF assms(1), of s "remove1 i (wl_active s w)"] by linarith
qed

lemma op_ends_inv:
  assumes inv: "wl_inv opCount m c measured s" and w: "w < c" and i: "i \<in> set (wl_active s w)" and "measured \<longleftrightarrow> lat \<noteq> None"
  shows "wl_inv opCount m c measured (op_ends w i outcome lat s)"
proof -
  let ?s = "op_ends w i outcome lat s"
  have "in_flight c ?s + wl_succeeded ?s + wl_failed ?s = in_flight c s + wl_succeeded s + wl_failed s"
    using op_ends_in_flight [where outcome = outcome and lat = lat, OF w i] op_ends_simps(5) [of w i outcome lat s] by linarith
  moreover have "length (wl_latencies ?s) = (if measured then wl_succeeded ?s + wl_failed ?s else 0)"
    using inv assms(4) by (auto simp: wl_inv_def accounts_def op_ends_simps)
  ultimately have "accounts opCount c measured ?s" using inv by (simp add: wl_inv_def accounts_def op_ends_simps(4))
  moreover have "worker_ok opCount m (wl_cursor s) (wl_active s w) (wl_finished s w) (wl_woken s w)"
    using inv w by (simp add: wl_inv_def)
  then have "worker_ok opCount m (wl_cursor s) (remove1 i (wl_active s w)) (wl_finished s w) True"
    using i set_remove1_subset [of i "wl_active s w"] by (auto simp: worker_ok_def length_remove1)
  ultimately show ?thesis
    using inv by (auto simp: wl_inv_def op_ends_simps)
qed

text \<open>Starting the workers one after the other: the first \<open>n\<close> have begun, the others are idle.\<close>

lemma start_inv:
  assumes "1 \<le> m"
  shows "wl_inv opCount m c measured (start_workers opCount m c) \<and> (\<forall>v. \<not> wl_woken (start_workers opCount m c) v)"
proof -
  let ?s0 = "\<lparr>wl_cursor = 0, wl_succeeded = 0, wl_failed = 0, wl_latencies = [], wl_active = (\<lambda>_. []), wl_woken = (\<lambda>_. False),
        wl_finished = (\<lambda>_. False)\<rparr>"
  let ?st = "\<lambda>n. foldl (\<lambda>s w. resume opCount m w s) ?s0 [0..<n]"
  have "accounts opCount c measured (?st n)
      \<and> (\<forall>v < n. worker_ok opCount m (wl_cursor (?st n)) (wl_active (?st n) v) (wl_finished (?st n) v) (wl_woken (?st n) v))
      \<and> (\<forall>v \<ge> n. wl_active (?st n) v = [] \<and> \<not> wl_finished (?st n) v) \<and> (\<forall>v. \<not> wl_woken (?st n) v)" if "n \<le> c" for n
    using that
  proof (induction n)
    case 0
    then show ?case by (simp add: accounts_def in_flight_def)
  next
    case (Suc n)
    let ?s = "?st n"
    have h: "accounts opCount c measured ?s" "n < c" "\<not> wl_finished ?s n" "wl_active ?s n = []" "\<not> wl_woken ?s n"
      and hv: "\<And>v. v < n \<Longrightarrow> worker_ok opCount m (wl_cursor ?s) (wl_active ?s v) (wl_finished ?s v) (wl_woken ?s v)"
      using Suc by auto
    note r = resume_inv [where w = n and P = "\<lambda>v. v < n", OF h(1,2) assms h(3)]
    let ?t = "resume opCount m n ?s"
    have e: "?st (Suc n) = ?t" by simp
    have o: "wl_active ?t v = wl_active ?s v \<and> wl_finished ?t v = wl_finished ?s v \<and> wl_woken ?t v = wl_woken ?s v"
      if "v \<noteq> n" for v by (rule r(3)) (use h hv that in auto)
    have wn: "\<not> wl_woken ?t n" by (simp add: resume_simps)
    show ?case unfolding e
    proof (intro conjI allI impI)
      show "accounts opCount c measured ?t" by (rule r(1)) (use h hv in auto)
      show "worker_ok opCount m (wl_cursor ?t) (wl_active ?t v) (wl_finished ?t v) (wl_woken ?t v)" if "v < Suc n" for v
        by (rule r(2)) (use h hv that in auto)
      show "wl_active ?t v = []" "\<not> wl_finished ?t v" if "Suc n \<le> v" for v using o [of v] Suc that by auto
      show "\<not> wl_woken ?t v" for v using o [of v] wn Suc by (cases "v = n") auto
    qed
  qed
  from this [OF order_refl] show ?thesis unfolding wl_inv_def start_workers_def by blast
qed

lemma wl_step_inv: "wl_step opCount m c measured s s' \<Longrightarrow> 1 \<le> m \<Longrightarrow> wl_inv opCount m c measured s \<Longrightarrow> wl_inv opCount m c measured s'"
proof (induction rule: wl_step.induct)
  case (ends w i s lat outcome)
  then show ?case by (intro op_ends_inv)
next
  case (resumes w s)
  then have "worker_ok opCount m (wl_cursor s) (wl_active s w) (wl_finished s w) (wl_woken s w)" unfolding wl_inv_def by blast
  then have o: "length (wl_active s w) \<le> m" "distinct (wl_active s w)" "\<forall>i \<in> set (wl_active s w). i < wl_cursor s"
    unfolding worker_ok_def by blast+
  have a: "accounts opCount c measured s"
    and v: "\<And>v. v < c \<Longrightarrow> v \<noteq> w \<Longrightarrow> True \<Longrightarrow> worker_ok opCount m (wl_cursor s) (wl_active s v) (wl_finished s v) (wl_woken s v)"
    using resumes unfolding wl_inv_def by blast+
  note r = resume_inv [where P = "\<lambda>_. True", OF a resumes(1,4,3) o v]
  show ?case unfolding wl_inv_def using r(1) r(2) by blast
qed

subsection \<open>A run ends\<close>

definition woken_count :: "nat \<Rightarrow> workload \<Rightarrow> nat" where
  "woken_count c s = (\<Sum>v<c. if wl_woken s v then 1 else 0)"

definition steps_left :: "nat \<Rightarrow> nat \<Rightarrow> workload \<Rightarrow> nat" where
  "steps_left opCount c s = 2 * (opCount - (wl_succeeded s + wl_failed s)) + woken_count c s"

lemma woken_upd:
  assumes "w < c" and "wl_woken s' = (wl_woken s)(w := b)"
  shows "woken_count c s' + (if wl_woken s w then 1 else 0) = woken_count c s + (if b then 1 else 0)"
  unfolding woken_count_def using assms by (simp add: sum.remove [of "{..<c}" w])

lemma wl_step_less:
  "wl_step opCount m c measured s s' \<Longrightarrow> 1 \<le> m \<Longrightarrow> wl_inv opCount m c measured s \<Longrightarrow> steps_left opCount c s' < steps_left opCount c s"
proof (induction rule: wl_step.induct)
  case (ends w i s lat outcome)
  let ?s = "op_ends w i outcome lat s"
  have "Suc (in_flight c ?s) = in_flight c s" by (rule op_ends_in_flight [OF ends(1,2)])
  then have "wl_succeeded s + wl_failed s < opCount" using ends by (auto simp: wl_inv_def accounts_def)
  moreover have "woken_count c ?s \<le> woken_count c s + 1"
    using woken_upd [OF ends(1) op_ends_simps(2), of i outcome lat s] by (simp split: if_splits)
  ultimately show ?case using op_ends_simps(5) [of w i outcome lat s] by (simp add: steps_left_def)
next
  case (resumes w s)
  have "woken_count c (resume opCount m w s) + 1 = woken_count c s" using woken_upd [OF resumes(1) resume_simps(1), of opCount m s] resumes(2) by simp
  then show ?case by (simp add: steps_left_def resume_simps)
qed

lemma wl_run:
  assumes "1 \<le> m" and "(wl_step opCount m c measured ^^ n) (start_workers opCount m c) s"
  shows "wl_inv opCount m c measured s \<and> n + steps_left opCount c s \<le> 2 * opCount"
  using assms(2)
proof (induction n arbitrary: s)
  case 0
  have "woken_count c (start_workers opCount m c) = 0" using start_inv [OF assms(1)] by (simp add: woken_count_def)
  with 0 start_inv [OF assms(1), of opCount c measured] show ?case by (auto simp: steps_left_def)
next
  case (Suc n)
  then obtain t where "(wl_step opCount m c measured ^^ n) (start_workers opCount m c) t" and st: "wl_step opCount m c measured t s"
    by auto
  with Suc.IH have "wl_inv opCount m c measured t" "n + steps_left opCount c t \<le> 2 * opCount" by blast+
  with wl_step_inv [OF st assms(1)] wl_step_less [OF st assms(1)] show ?case by fastforce
qed

text \<open>When every worker has finished, nothing more happens.\<close>

lemma finished_no_step:
  assumes "wl_inv opCount m c measured s" and "\<forall>w < c. wl_finished s w"
  shows "\<not> wl_step opCount m c measured s s'"
  using assms unfolding wl_inv_def worker_ok_def by (auto elim!: wl_stepE)

text \<open>Without a possible step every worker has finished.\<close>

lemma wl_stuck:
  assumes "wl_inv opCount m c measured s" and "\<And>s'. \<not> wl_step opCount m c measured s s'" and "w < c"
  shows "wl_active s w = [] \<and> wl_finished s w"
proof -
  have e: "wl_active s w = []"
  proof (rule ccontr)
    assume "wl_active s w \<noteq> []"
    then have "hd (wl_active s w) \<in> set (wl_active s w)" by simp
    moreover have "measured \<longleftrightarrow> (if measured then Some (0 :: rat) else None) \<noteq> None" by simp
    ultimately have "wl_step opCount m c measured s (op_ends w (hd (wl_active s w)) Success (if measured then Some 0 else None) s)"
      by (rule wl_step.ends [OF assms(3)])
    with assms(2) show False by blast
  qed
  moreover have "wl_finished s w \<or> wl_woken s w" using assms(1,3) e unfolding wl_inv_def worker_ok_def by blast
  ultimately show ?thesis using wl_step.resumes [OF assms(3), of s] assms(2) by blast
qed

text \<open>
C31: whatever the order in which operations end, a workload runs every operation exactly once and ends: every sequence of steps has at
most two steps per operation, no worker has more than the allowed operations in flight, the counts agree with the cursor at every
moment, and when no further step is possible, every operation has succeeded or failed and, when times are measured, has
one time.
\<close>

theorem workload_completes:
  assumes "1 \<le> m" and "1 \<le> c" and "(wl_step opCount m c measured ^^ n) (start_workers opCount m c) s"
  shows "n \<le> 2 * opCount
    \<and> in_flight c s + wl_succeeded s + wl_failed s = min (wl_cursor s) opCount
    \<and> (\<forall>w < c. length (wl_active s w) \<le> m)
    \<and> ((\<exists>s'. wl_step opCount m c measured s s')
       \<or> (\<forall>w < c. wl_finished s w) \<and> wl_succeeded s + wl_failed s = opCount
         \<and> length (wl_latencies s) = (if measured then opCount else 0))"
proof -
  from wl_run [OF assms(1,3)] have i: "wl_inv opCount m c measured s" and n: "n + steps_left opCount c s \<le> 2 * opCount" by blast+
  have "(\<forall>w < c. wl_finished s w) \<and> wl_succeeded s + wl_failed s = opCount
      \<and> length (wl_latencies s) = (if measured then opCount else 0)" if "\<not> (\<exists>s'. wl_step opCount m c measured s s')"
  proof -
    have f: "\<forall>w < c. wl_active s w = [] \<and> wl_finished s w" using wl_stuck [OF i] that by blast
    then have "in_flight c s = 0" by (simp add: in_flight_def)
    moreover have "opCount \<le> wl_cursor s" using i f assms(2) unfolding wl_inv_def worker_ok_def by (metis Suc_le_eq One_nat_def)
    ultimately show ?thesis using i f by (auto simp: wl_inv_def accounts_def)
  qed
  moreover have "\<forall>w < c. length (wl_active s w) \<le> m" using i unfolding wl_inv_def worker_ok_def by blast
  moreover have "n \<le> 2 * opCount" using n by simp
  ultimately show ?thesis using i unfolding wl_inv_def accounts_def by blast
qed

text \<open>One worker with one operation that succeeds: after two steps the run is over.\<close>

abbreviation "one_launched \<equiv> start_workers 1 1 1"

theorem workload_completes_witness:
  "wl_step 1 1 1 True one_launched (op_ends 0 0 Success (Some 5) one_launched)
   \<and> wl_step 1 1 1 True (op_ends 0 0 Success (Some 5) one_launched) (resume 1 1 0 (op_ends 0 0 Success (Some 5) one_launched))
   \<and> in_flight 1 (resume 1 1 0 (op_ends 0 0 Success (Some 5) one_launched)) + wl_succeeded (resume 1 1 0 (op_ends 0 0 Success (Some 5) one_launched))
     + wl_failed (resume 1 1 0 (op_ends 0 0 Success (Some 5) one_launched)) = 1"
proof -
  let ?a = one_launched
  let ?b = "op_ends 0 0 Success (Some 5) ?a"
  let ?c = "resume 1 1 0 ?b"
  have a: "wl_active ?a 0 = [0]" "wl_cursor ?a = 1" "\<not> wl_finished ?a 0"
    by (simp_all add: start_workers_def resume_def Let_def fill.simps launchOne_def)
  have 1: "wl_step 1 1 1 True ?a ?b" by (rule wl_step.ends) (simp_all add: a [simplified])
  have 2: "wl_step 1 1 1 True ?b ?c" by (rule wl_step.resumes) (simp_all add: op_ends_simps a [simplified])
  have r: "(wl_step 1 1 1 True ^^ 2) ?a ?c" using 1 2 by (auto simp: numeral_2_eq_2)
  have "1 \<le> wl_cursor ?c"
    by (simp add: resume_def Let_def fill.simps launchOne_def op_ends_simps a [simplified])
  with workload_completes [OF _ _ r] 1 2 show ?thesis by simp
qed

subsection \<open>Percentiles\<close>

text \<open>
A percentile of sorted latencies is one of them, and percentiles are monotone: the 50th is at most the 95th and that at most the
99th.
\<close>

lemma percentile_index:
  assumes "n \<noteq> 0"
  shows "nat (min (int n - 1) (max 0 (\<lceil>p / 100 * of_nat n\<rceil> - 1))) < n"
  using assms by auto

theorem percentile_monotone:
  assumes "p \<le> q"
  shows "percentile (sort xs) p \<le> percentile (sort xs) q \<and> (xs \<noteq> [] \<longrightarrow> percentile (sort xs) p \<in> set xs)"
proof (cases "xs = []")
  case False
  have "p / 100 * of_nat (length xs) \<le> q / 100 * of_nat (length xs)" using assms by (intro mult_right_mono) simp_all
  then have "\<lceil>p / 100 * of_nat (length xs)\<rceil> \<le> \<lceil>q / 100 * of_nat (length xs)\<rceil>" by (rule ceiling_mono)
  then have i: "nat (min (int (length xs) - 1) (max 0 (\<lceil>p / 100 * of_nat (length xs)\<rceil> - 1)))
      \<le> nat (min (int (length xs) - 1) (max 0 (\<lceil>q / 100 * of_nat (length xs)\<rceil> - 1)))" by linarith
  have "nat (min (int (length xs) - 1) (max 0 (\<lceil>q / 100 * of_nat (length xs)\<rceil> - 1))) < length (sort xs)"
    using percentile_index [of "length xs"] False by simp
  from sorted_nth_mono [OF sorted_sort i this] have "percentile (sort xs) p \<le> percentile (sort xs) q"
    using False by (simp add: percentile_def)
  moreover have "sort xs ! nat (min (int (length (sort xs)) - 1) (max 0 (\<lceil>p / 100 * of_nat (length (sort xs))\<rceil> - 1))) \<in> set (sort xs)"
    using percentile_index [of "length (sort xs)" p] False by (intro nth_mem) simp
  then have "percentile (sort xs) p \<in> set (sort xs)" using False by (simp add: percentile_def)
  ultimately show ?thesis by simp
qed (simp add: percentile_def)

end
