(* ===== verification/Page_Common.thy ===== *)
theory Page_Common
  imports Explorer_Server Cli
begin

section \<open>What the browser pages share\<close>

text \<open>
  The helpers that \<open>notepad/app.ts\<close>, \<open>explorer/app.ts\<close> and \<open>ui/app.ts\<close> each define for themselves, and the part of
  the browser they run on. A page is a record: the timers that are set, the calls of \<open>fetch\<close> that are not answered yet
  (each with what runs when it is), the log of the requests, the toasts and the WebSocket's state. An \<open>async\<close> function
  is cut at its \<open>await\<close>: the first part leaves a pending call, the second is a function of the page at the time of the
  answer.
\<close>

subsection \<open>Text in HTML\<close>

definition escape_unit :: "u16 \<Rightarrow> jstring" where
  "escape_unit c =
     (if c = 38 then js ''&amp;''
      else if c = 60 then js ''&lt;''
      else if c = 62 then js ''&gt;''
      else if c = 39 then js ''&#39;''
      else if c = 34 then js ''&quot;''
      else [c])"

definition escapeHTML :: "jstring \<Rightarrow> jstring" where
  "escapeHTML s = concat (map escape_unit s)"

definition truncate_text :: "jstring \<Rightarrow> nat \<Rightarrow> jstring" where
  "truncate_text s len = (if length s > len then take len s @ [0x2026] else s)"

subsection \<open>Numbers of bytes\<close>

text \<open>
  \<open>Math.floor(Math.log(n) / Math.log(1024))\<close> for an integer from 1 on (the quotient of the two doubles is exact at the
  powers of 1024), and \<open>parseFloat((n / 1024 ** i).toFixed(2))\<close>: the hundredths, rounded half up, without trailing
  zeros. \<open>sizes[4]\<close> is \<open>undefined\<close>, and so is the logarithm of what is not a positive number.
\<close>

fun log1024 :: "nat \<Rightarrow> nat" where
  "log1024 n = (if n < 1024 then 0 else Suc (log1024 (n div 1024)))"

declare log1024.simps [simp del]

definition hundredths :: "nat \<Rightarrow> jstring" where
  "hundredths m =
     digits_of (m div 100) @
     (if m mod 100 = 0 then []
      else if m mod 10 = 0 then 46 # digits_of (m mod 100 div 10)
      else 46 # digits_of (m mod 100 div 10) @ digits_of (m mod 10))"

definition byte_sizes :: "jstring list" where
  "byte_sizes = [js ''B'', js ''KB'', js ''MB'', js ''GB'']"

definition formatBytes :: "int option \<Rightarrow> jstring" where
  "formatBytes b =
     (case b of
        None \<Rightarrow> js ''NaN undefined''
      | Some n \<Rightarrow>
          if n = 0 then js ''0 B''
          else if n < 0 then js ''NaN undefined''
          else
            let i = log1024 (nat n);
                m = (200 * nat n + 1024 ^ i) div (2 * 1024 ^ i)
            in hundredths m @ [32] @ (if i < length byte_sizes then byte_sizes ! i else js ''undefined''))"

subsection \<open>The page and its browser\<close>

text \<open>A request made by \<open>fetch\<close>, and what becomes of it: an answer with a body that was read, an answer with another
  status and its text, an answer whose body could not be read, or a rejection with its message.\<close>

record page_request =
  pr_method :: jstring
  pr_url :: jstring
  pr_token :: "jstring option"
  pr_body :: "json option"

datatype 'b reply = Fulfilled 'b | NotOk jstring | BadBody jstring | Rejected jstring

definition simple_request :: "string \<Rightarrow> jstring \<Rightarrow> page_request" where
  "simple_request m url = \<lparr>pr_method = js m, pr_url = url, pr_token = None, pr_body = None\<rparr>"

definition json_request :: "string \<Rightarrow> jstring \<Rightarrow> json \<Rightarrow> page_request" where
  "json_request m url body = \<lparr>pr_method = js m, pr_url = url, pr_token = None, pr_body = Some body\<rparr>"

text \<open>The HTTP request the server gets for a call of \<open>fetch\<close>.\<close>

definition sent_request :: "page_request \<Rightarrow> http_request" where
  "sent_request r =
     \<lparr>rq_method = pr_method r, rq_path = pr_url r,
      rq_body = (case pr_body r of Some j \<Rightarrow> stringify j | None \<Rightarrow> []), rq_adminToken = pr_token r\<rparr>"

record toast =
  to_id :: nat
  to_html :: jstring
  to_fading :: bool

datatype 'k timer = ToastFade nat | ToastRemove nat | Reconnect | Own 'k

record ('k, 'c) page =
  pg_timers :: "(nat \<times> 'k timer \<times> nat) list"
  pg_nextTimer :: nat
  pg_calls :: "(nat \<times> 'c) list"
  pg_nextCall :: nat
  pg_requests :: "page_request list"
  pg_toasts :: "toast list"
  pg_sockets :: "jstring list"
  pg_reconnectAttempts :: nat
  pg_online :: bool
  pg_connText :: jstring

text \<open>\<open>setTimeout\<close> (its handle is a positive number, the \<open>pg_nextTimer\<close> before it), \<open>clearTimeout\<close> and \<open>fetch\<close>.\<close>

definition setTimeout :: "'k timer \<Rightarrow> nat \<Rightarrow> ('k, 'c, 'z) page_scheme \<Rightarrow> ('k, 'c, 'z) page_scheme" where
  "setTimeout t delay s =
     s\<lparr>pg_timers := pg_timers s @ [(pg_nextTimer s, t, delay)], pg_nextTimer := pg_nextTimer s + 1\<rparr>"

definition clearTimeout :: "nat option \<Rightarrow> ('k, 'c, 'z) page_scheme \<Rightarrow> ('k, 'c, 'z) page_scheme" where
  "clearTimeout h s =
     (case h of None \<Rightarrow> s | Some i \<Rightarrow> s\<lparr>pg_timers := filter (\<lambda>(j, _). j \<noteq> i) (pg_timers s)\<rparr>)"

definition fetch_call :: "page_request \<Rightarrow> 'c \<Rightarrow> ('k, 'c, 'z) page_scheme \<Rightarrow> ('k, 'c, 'z) page_scheme" where
  "fetch_call req c s =
     s\<lparr>pg_calls := pg_calls s @ [(pg_nextCall s, c)], pg_nextCall := pg_nextCall s + 1,
       pg_requests := pg_requests s @ [req]\<rparr>"

text \<open>A timer that fires and a call that is answered are gone.\<close>

definition take_timer :: "nat \<Rightarrow> ('k, 'c, 'z) page_scheme \<Rightarrow> ('k, 'c, 'z) page_scheme" where
  "take_timer i s = clearTimeout (Some i) s"

definition take_call :: "nat \<Rightarrow> ('k, 'c, 'z) page_scheme \<Rightarrow> ('k, 'c, 'z) page_scheme" where
  "take_call i s = s\<lparr>pg_calls := filter (\<lambda>(j, _). j \<noteq> i) (pg_calls s)\<rparr>"

subsection \<open>Toasts\<close>

text \<open>\<open>showToast\<close> from the HTML it has built on: append it, fade it out after a while, then remove it.\<close>

definition show_toast_html :: "jstring \<Rightarrow> nat \<Rightarrow> ('k, 'c, 'z) page_scheme \<Rightarrow> ('k, 'c, 'z) page_scheme" where
  "show_toast_html html durationMs s =
     setTimeout (ToastFade (pg_nextTimer s)) durationMs
       (s\<lparr>pg_toasts := pg_toasts s @ [\<lparr>to_id = pg_nextTimer s, to_html = html, to_fading = False\<rparr>]\<rparr>)"

definition fade_toast :: "nat \<Rightarrow> ('k, 'c, 'z) page_scheme \<Rightarrow> ('k, 'c, 'z) page_scheme" where
  "fade_toast t s =
     setTimeout (ToastRemove t) 300
       (s\<lparr>pg_toasts := map (\<lambda>x. if to_id x = t then x\<lparr>to_fading := True\<rparr> else x) (pg_toasts s)\<rparr>)"

definition remove_toast :: "nat \<Rightarrow> ('k, 'c, 'z) page_scheme \<Rightarrow> ('k, 'c, 'z) page_scheme" where
  "remove_toast t s = s\<lparr>pg_toasts := filter (\<lambda>x. to_id x \<noteq> t) (pg_toasts s)\<rparr>"

subsection \<open>Confirmation dialogs\<close>

record 'a dialog =
  dl_active :: bool
  dl_title :: jstring
  dl_message :: jstring
  dl_callback :: "'a option"

definition showDialog :: "jstring \<Rightarrow> jstring \<Rightarrow> 'a \<Rightarrow> 'a dialog" where
  "showDialog title message onConfirm =
     \<lparr>dl_active = True, dl_title = title, dl_message = message, dl_callback = Some onConfirm\<rparr>"

definition closeDialog :: "'a dialog \<Rightarrow> 'a dialog" where
  "closeDialog d = d\<lparr>dl_active := False, dl_callback := None\<rparr>"

subsection \<open>The indicator of a save\<close>

record indicator =
  in_visible :: bool
  in_saving :: bool
  in_saved :: bool

definition indicate_saving :: indicator where
  "indicate_saving = \<lparr>in_visible = True, in_saving = True, in_saved = False\<rparr>"

definition indicate_saved :: "indicator \<Rightarrow> indicator" where
  "indicate_saved i = i\<lparr>in_saving := False, in_saved := True\<rparr>"

definition indicate_failed :: "indicator \<Rightarrow> indicator" where
  "indicate_failed i = i\<lparr>in_saving := False, in_saved := False\<rparr>"

definition indicate_done :: "bool \<Rightarrow> indicator \<Rightarrow> indicator" where
  "indicate_done isSaving i = (if \<not> isSaving \<and> in_saved i then i\<lparr>in_visible := False, in_saved := False\<rparr> else i)"

subsection \<open>The WebSocket\<close>

text \<open>\<open>connectWebSocket\<close> with its \<open>onopen\<close> and \<open>onclose\<close>, the same in the notepad and the explorer.\<close>

definition ws_url :: "jstring \<Rightarrow> jstring \<Rightarrow> jstring" where
  "ws_url protocol host = (if protocol = js ''https:'' then js ''wss:'' else js ''ws:'') @ js ''//'' @ host @ js ''/ws''"

definition connectWebSocket :: "jstring \<Rightarrow> jstring \<Rightarrow> ('k, 'c, 'z) page_scheme \<Rightarrow> ('k, 'c, 'z) page_scheme" where
  "connectWebSocket protocol host s = s\<lparr>pg_sockets := pg_sockets s @ [ws_url protocol host]\<rparr>"

definition ws_onopen :: "('k, 'c, 'z) page_scheme \<Rightarrow> ('k, 'c, 'z) page_scheme" where
  "ws_onopen s = s\<lparr>pg_reconnectAttempts := 0, pg_online := True, pg_connText := js ''Connected''\<rparr>"

definition reconnect_delay :: "nat \<Rightarrow> nat" where
  "reconnect_delay attempts = min 10000 (1000 * max 1 attempts)"

definition ws_onclose :: "('k, 'c, 'z) page_scheme \<Rightarrow> ('k, 'c, 'z) page_scheme" where
  "ws_onclose s =
     (let attempts = pg_reconnectAttempts s + 1;
          delay = reconnect_delay attempts
      in setTimeout Reconnect delay
           (s\<lparr>pg_reconnectAttempts := attempts, pg_online := False,
              pg_connText := js ''Reconnecting in '' @ digits_of ((delay + 999) div 1000) @ js ''s...''\<rparr>))"

text \<open>\<open>kv.k ? f(kv.k) : d\<close> on the fields of a status.\<close>

definition kv_or :: "text_map \<Rightarrow> string \<Rightarrow> (jstring \<Rightarrow> jstring) \<Rightarrow> jstring \<Rightarrow> jstring" where
  "kv_or kv k f d = (case kv (js k) of Some v \<Rightarrow> if v \<noteq> [] then f v else d | None \<Rightarrow> d)"

text \<open>A property of a message that is a string.\<close>

definition text_field :: "json \<Rightarrow> string \<Rightarrow> jstring option" where
  "text_field j k = (case jfield j k of Inr (Some (JStr v)) \<Rightarrow> Some v | _ \<Rightarrow> None)"

text \<open>\<open>msg.response?.value || ""\<close>.\<close>

definition status_value :: "json \<Rightarrow> jstring" where
  "status_value j =
     (case jfield j ''response'' of
        Inr (Some r) \<Rightarrow> (case text_field r ''value'' of Some v \<Rightarrow> v | None \<Rightarrow> [])
      | _ \<Rightarrow> [])"

text \<open>\<open>xs.find(p)\<close> followed by an assignment to the object found: the first element is changed in place.\<close>

fun update_first :: "('a \<Rightarrow> bool) \<Rightarrow> ('a \<Rightarrow> 'a) \<Rightarrow> 'a list \<Rightarrow> 'a list" where
  "update_first P f [] = []"
| "update_first P f (x # xs) = (if P x then f x # xs else x # update_first P f xs)"

subsection \<open>Lists and fields\<close>

text \<open>The entries of a list element: what each selects, its class and its HTML.\<close>

record list_item =
  li_id :: jstring
  li_class :: jstring
  li_html :: jstring

datatype shown_list = EmptyList jstring | ItemList "list_item list"

definition shown_ids :: "shown_list \<Rightarrow> jstring list" where
  "shown_ids l = (case l of EmptyList _ \<Rightarrow> [] | ItemList items \<Rightarrow> map li_id items)"

text \<open>
  What the \<open>value\<close> of a text area and of a one-line input becomes when it is set: line breaks are normalised to one line
  feed, or removed.
\<close>

fun textarea_value :: "jstring \<Rightarrow> jstring" where
  "textarea_value [] = []"
| "textarea_value [c] = [if c = 13 then 10 else c]"
| "textarea_value (c # d # s) =
     (if c = 13 \<and> d = 10 then 10 # textarea_value s
      else (if c = 13 then 10 else c) # textarea_value (d # s))"

definition input_value :: "jstring \<Rightarrow> jstring" where
  "input_value s = filter (\<lambda>c. c \<noteq> 10 \<and> c \<noteq> 13) s"

lemma textarea_value_no_cr: "13 \<notin> set (textarea_value v)"
  by (induction v rule: textarea_value.induct) auto

lemma textarea_value_id: "13 \<notin> set v \<Longrightarrow> textarea_value v = v"
  by (induction v rule: textarea_value.induct) auto

lemma textarea_value_idem [simp]: "textarea_value (textarea_value v) = textarea_value v"
  by (rule textarea_value_id) (rule textarea_value_no_cr)

lemma input_value_idem [simp]: "input_value (input_value v) = input_value v"
  by (simp add: input_value_def)

subsection \<open>Lemmas on the shared operations\<close>

lemma page_fields [simp]:
  "pg_timers (setTimeout t d s) = pg_timers s @ [(pg_nextTimer s, t, d)]"
  "pg_nextTimer (setTimeout t d s) = pg_nextTimer s + 1"
  "pg_toasts (setTimeout t d s) = pg_toasts s" "pg_calls (setTimeout t d s) = pg_calls s"
  "pg_requests (setTimeout t d s) = pg_requests s" "page.more (setTimeout t d s) = page.more s"
  "pg_calls (fetch_call r c s) = pg_calls s @ [(pg_nextCall s, c)]" "pg_requests (fetch_call r c s) = pg_requests s @ [r]"
  "pg_timers (fetch_call r c s) = pg_timers s" "pg_nextTimer (fetch_call r c s) = pg_nextTimer s"
  "pg_toasts (fetch_call r c s) = pg_toasts s" "page.more (fetch_call r c s) = page.more s"
  "pg_nextTimer (clearTimeout h s) = pg_nextTimer s" "pg_calls (clearTimeout h s) = pg_calls s"
  "pg_requests (clearTimeout h s) = pg_requests s" "page.more (clearTimeout h s) = page.more s"
  "pg_toasts (clearTimeout h s) = pg_toasts s"
  "pg_timers (take_call i s) = pg_timers s" "pg_nextTimer (take_call i s) = pg_nextTimer s"
  "pg_requests (take_call i s) = pg_requests s" "page.more (take_call i s) = page.more s"
  "pg_toasts (take_call i s) = pg_toasts s"
  by (cases h; simp add: setTimeout_def fetch_call_def clearTimeout_def take_call_def)+

lemma page_toast_fields [simp]:
  "pg_timers (show_toast_html html d s) = pg_timers s @ [(pg_nextTimer s, ToastFade (pg_nextTimer s), d)]"
  "pg_nextTimer (show_toast_html html d s) = pg_nextTimer s + 1" "page.more (show_toast_html html d s) = page.more s"
  "pg_calls (show_toast_html html d s) = pg_calls s" "pg_requests (show_toast_html html d s) = pg_requests s"
  by (simp_all add: show_toast_html_def)

lemma map_update_first: "(\<And>x. g (f x) = g x) \<Longrightarrow> map g (update_first P f xs) = map g xs"
  by (induction xs) auto

lemma length_update_first [simp]: "length (update_first P f xs) = length xs"
  by (induction xs) auto

subsection \<open>Escaped text is text\<close>

text \<open>
  What a browser shows for character data: the five character references are replaced. The markup of a fragment is its
  code units that can open or close a tag or an attribute value.
\<close>

definition char_refs :: "(jstring \<times> u16) list" where
  "char_refs = [(js ''&amp;'', 38), (js ''&lt;'', 60), (js ''&gt;'', 62), (js ''&#39;'', 39), (js ''&quot;'', 34)]"

function html_text :: "jstring \<Rightarrow> jstring" where
  "html_text [] = []"
| "html_text (c # s) =
     (case find (\<lambda>(r, _). startsWith (c # s) r) char_refs of
        Some (r, d) \<Rightarrow> d # html_text (drop (length r - 1) s)
      | None \<Rightarrow> c # html_text s)"
  by pat_completeness auto
termination by (relation "measure length") auto

definition markup_unit :: "u16 \<Rightarrow> bool" where
  "markup_unit c \<longleftrightarrow> c = 60 \<or> c = 62 \<or> c = 34 \<or> c = 39"

definition markup :: "jstring \<Rightarrow> jstring" where
  "markup h = filter markup_unit h"

lemma markup_append [simp]: "markup (a @ b) = markup a @ markup b"
  by (simp add: markup_def)

lemma markup_escape_unit: "markup (escape_unit c) = []"
  by (simp add: markup_def escape_unit_def markup_unit_def js_simps)

lemma markup_escapeHTML [simp]: "markup (escapeHTML s) = []"
  by (induction s) (simp_all add: escapeHTML_def markup_escape_unit, simp add: markup_def)

lemma html_text_escape_unit: "html_text (escape_unit c @ s) = c # html_text s"
proof (cases "c \<in> {38, 60, 62, 39, 34}")
  case True
  then show ?thesis by (auto simp: escape_unit_def char_refs_def startsWith_def js_simps)
next
  case False
  then show ?thesis by (simp add: escape_unit_def char_refs_def startsWith_def js_simps)
qed

lemma html_text_escapeHTML: "html_text (escapeHTML s @ t) = s @ html_text t"
  by (induction s) (simp_all add: escapeHTML_def html_text_escape_unit del: html_text.simps)

text \<open>
A text put into a page through \<open>escapeHTML\<close> is shown as it is and brings no markup: no code unit of the result opens
or closes a tag or an attribute value, and the browser reads the result as the original text, whatever it contains.
\<close>

theorem escaped_text_is_shown: "markup (escapeHTML s) = [] \<and> html_text (escapeHTML s) = s"
  using html_text_escapeHTML [of s "[]"] by simp

subsection \<open>Debounced saving\<close>

text \<open>
  The notepad and the explorer save half a second after the last change: each change clears the timer of the one before
  and sets its own. A view is the timers that are set, the next handle and \<open>saveTimeout\<close>; the changes of a view are what
  the handlers of a page may do to it.
\<close>

type_synonym 'k debounce_view = "(nat \<times> 'k timer \<times> nat) list \<times> nat \<times> nat option"

inductive debounce_change :: "'k \<Rightarrow> 'k debounce_view \<Rightarrow> 'k debounce_view \<Rightarrow> bool" for K where
  drops: "debounce_change K (ts, n, h) (filter (\<lambda>(j, _). j \<noteq> i) ts, n, h)"
| adds: "t \<noteq> Own K \<Longrightarrow> debounce_change K (ts, n, h) (ts @ [(n, t, d)], Suc n, h)"
| rearms: "debounce_change K (ts, n, h) (filter (\<lambda>(j, _). Some j \<noteq> h) ts @ [(n, Own K, d)], Suc n, Some n)"
| disarms: "debounce_change K (ts, n, h) (filter (\<lambda>(j, _). Some j \<noteq> h) ts, n, None)"

definition debounced :: "'k \<Rightarrow> 'k debounce_view \<Rightarrow> bool" where
  "debounced K v =
     (case v of (ts, n, h) \<Rightarrow>
        distinct (map fst ts) \<and> (\<forall>x \<in> set ts. fst x < n) \<and> (\<forall>x \<in> set ts. fst (snd x) = Own K \<longrightarrow> h = Some (fst x)))"

lemma debounced_filter:
  "debounced K (ts, n, h) \<Longrightarrow> debounced K (filter P ts, n, h)"
  by (auto simp: debounced_def distinct_map_filter)

lemma debounced_change:
  assumes "debounce_change K v v'" and "debounced K v"
  shows "debounced K v'"
  using assms
proof (induction rule: debounce_change.induct)
  case (drops ts n h i)
  then show ?case by (rule debounced_filter)
next
  case (adds t ts n h d)
  then show ?case by (fastforce simp: debounced_def)
next
  case (rearms ts n h d)
  then show ?case
    by (fastforce simp: debounced_def distinct_map_filter)
next
  case (disarms ts n h)
  then show ?case by (fastforce simp: debounced_def distinct_map_filter)
qed

lemma debounced_changes: "(debounce_change K)\<^sup>*\<^sup>* v v' \<Longrightarrow> debounced K v \<Longrightarrow> debounced K v'"
  by (induction rule: rtranclp_induct) (auto intro: debounced_change)

text \<open>The saves that are pending under a debounced view are at most one.\<close>

definition pending_saves :: "'k \<Rightarrow> (nat \<times> 'k timer \<times> nat) list \<Rightarrow> nat list" where
  "pending_saves K ts = map fst (filter (\<lambda>x. fst (snd x) = Own K) ts)"

lemma debounced_pending:
  assumes "debounced K (ts, n, h)"
  shows "length (pending_saves K ts) \<le> 1 \<and> set (pending_saves K ts) \<subseteq> set_option h"
proof -
  have d: "distinct (pending_saves K ts)" and s: "set (pending_saves K ts) \<subseteq> set_option h"
    using assms by (auto simp: debounced_def pending_saves_def distinct_map_filter)
  from s have "card (set (pending_saves K ts)) \<le> 1"
    by (cases h) (auto dest: card_mono [rotated])
  with d s show ?thesis by (simp add: distinct_card)
qed

locale debounced_page =
  fixes step :: "'s \<Rightarrow> 's \<Rightarrow> bool" and view :: "'s \<Rightarrow> 'k debounce_view" and K :: 'k
  assumes step_changes: "step s s' \<Longrightarrow> (debounce_change K)\<^sup>*\<^sup>* (view s) (view s')"
begin

lemma run_debounced: "step\<^sup>*\<^sup>* s s' \<Longrightarrow> debounced K (view s) \<Longrightarrow> debounced K (view s')"
  by (induction rule: rtranclp_induct) (auto dest: step_changes debounced_changes)

lemma one_pending_save:
  assumes "step\<^sup>*\<^sup>* s s'" and "debounced K (view s)"
  shows "length (pending_saves K (fst (view s'))) \<le> 1
    \<and> set (pending_saves K (fst (view s'))) \<subseteq> set_option (snd (snd (view s')))"
  using run_debounced [OF assms] debounced_pending [of K "fst (view s')" "fst (snd (view s'))" "snd (snd (view s'))"]
  by simp

end

text \<open>The shared operations as changes of a view.\<close>

lemma changes_refl [intro!, simp]: "(debounce_change K)\<^sup>*\<^sup>* v v"
  by simp

lemma changes_add:
  "(debounce_change K)\<^sup>*\<^sup>* v (ts, n, h) \<Longrightarrow> t \<noteq> Own K \<Longrightarrow> (debounce_change K)\<^sup>*\<^sup>* v (ts @ [(n, t, d)], Suc n, h)"
  by (erule rtranclp.rtrancl_into_rtrancl) (erule adds)

lemma timers_clearTimeout:
  "pg_timers (clearTimeout h s) = filter (\<lambda>(j, _). Some j \<noteq> h) (pg_timers s)"
  by (cases h) (simp_all add: clearTimeout_def split_def)

lemma timers_take [simp]:
  "pg_timers (take_timer i s) = filter (\<lambda>(j, _). j \<noteq> i) (pg_timers s)" "pg_nextTimer (take_timer i s) = pg_nextTimer s"
  "page.more (take_timer i s) = page.more s" "pg_requests (take_timer i s) = pg_requests s"
  by (simp_all add: take_timer_def clearTimeout_def)

end
