(* ===== verification/Page_Html.thy ===== *)
theory Page_Html
  imports Page_Common
begin

section \<open>The preview of a note (\<open>notepad/app.ts\<close>)\<close>

text \<open>
  \<open>renderPreview\<close>, \<open>sanitizeHtml\<close> and \<open>hardenPreviewLinks\<close> on trees of nodes. Parameters, in the record \<open>browser\<close>: the
  globals \<open>marked\<close> and \<open>DOMPurify\<close>, which may be missing, and the browser's HTML parser and serializer. The children of a
  \<open>template\<close> element are its content, which \<open>querySelectorAll\<close> does not search.
\<close>

datatype dom = Text jstring | Comment jstring | Elem jstring "(jstring \<times> jstring) list" "dom list"

record browser =
  br_marked :: "(jstring \<Rightarrow> jstring) option"
  br_purify :: "(jstring \<Rightarrow> jstring) option"
  br_parse :: "jstring \<Rightarrow> dom list"
  br_print :: "dom list \<Rightarrow> jstring"

text \<open>The elements \<open>querySelectorAll\<close> looks at.\<close>

fun dom_nodes :: "dom \<Rightarrow> dom list" where
  "dom_nodes (Elem n as cs) = Elem n as cs # (if n = js ''template'' then [] else concat (map dom_nodes cs))"
| "dom_nodes _ = []"

abbreviation forest_nodes :: "dom list \<Rightarrow> dom list" where
  "forest_nodes ds \<equiv> concat (map dom_nodes ds)"

subsection \<open>\<open>sanitizeHtml\<close>\<close>

definition removed_tags :: "jstring list" where
  "removed_tags = map js [''script'', ''iframe'', ''object'', ''embed'', ''link'', ''meta'']"

fun remove_elements :: "dom \<Rightarrow> dom list" where
  "remove_elements (Elem n as cs) =
     (if n \<in> set removed_tags then []
      else [Elem n as (if n = js ''template'' then cs else concat (map remove_elements cs))])"
| "remove_elements d = [d]"

definition removed_attribute :: "jstring \<times> jstring \<Rightarrow> bool" where
  "removed_attribute a =
     (let name = toLowerCase (fst a);
          value = toLowerCase (trim (snd a))
      in startsWith name (js ''on'') \<or> name = js ''srcdoc''
         \<or> (name = js ''href'' \<or> name = js ''src'')
           \<and> (startsWith value (js ''javascript:'') \<or> startsWith value (js ''data:text/html'')))"

fun strip_attributes :: "dom \<Rightarrow> dom" where
  "strip_attributes (Elem n as cs) =
     Elem n (filter (\<lambda>a. \<not> removed_attribute a) as) (if n = js ''template'' then cs else map strip_attributes cs)"
| "strip_attributes d = d"

definition clean_tree :: "dom list \<Rightarrow> dom list" where
  "clean_tree ds = map strip_attributes (concat (map remove_elements ds))"

definition sanitizeHtml :: "browser \<Rightarrow> jstring \<Rightarrow> jstring" where
  "sanitizeHtml B html =
     (case br_purify B of
        Some sanitize \<Rightarrow> sanitize html
      | None \<Rightarrow> br_print B (clean_tree (br_parse B html)))"

subsection \<open>\<open>hardenPreviewLinks\<close>\<close>

definition setAttribute :: "jstring \<Rightarrow> jstring \<Rightarrow> (jstring \<times> jstring) list \<Rightarrow> (jstring \<times> jstring) list" where
  "setAttribute k v as =
     (if k \<in> fst ` set as then map (\<lambda>(k', v'). if k' = k then (k', v) else (k', v')) as else as @ [(k, v)])"

definition script_href :: "jstring \<Rightarrow> bool" where
  "script_href href \<longleftrightarrow> startsWith (toLowerCase (trim href)) (js ''javascript:'')"

definition harden_link :: "jstring \<Rightarrow> (jstring \<times> jstring) list \<Rightarrow> (jstring \<times> jstring) list" where
  "harden_link n as =
     (if n \<noteq> js ''a'' then as
      else
        case map_of as (js ''href'') of
          None \<Rightarrow> as
        | Some href \<Rightarrow>
            if script_href href then filter (\<lambda>(k, _). k \<noteq> js ''href'') as
            else setAttribute (js ''rel'') (js ''noopener noreferrer'') (setAttribute (js ''target'') (js ''_blank'') as))"

fun hardenPreviewLinks :: "dom \<Rightarrow> dom" where
  "hardenPreviewLinks (Elem n as cs) =
     Elem n (harden_link n as) (if n = js ''template'' then cs else map hardenPreviewLinks cs)"
| "hardenPreviewLinks d = d"

definition markedParse :: "browser \<Rightarrow> jstring \<Rightarrow> jstring" where
  "markedParse B t = (case br_marked B of Some parse \<Rightarrow> parse t | None \<Rightarrow> escapeHTML t)"

text \<open>The tree under \<open>markdownPreview\<close> after \<open>renderPreview\<close>.\<close>

definition preview_of :: "browser \<Rightarrow> jstring \<Rightarrow> dom list" where
  "preview_of B body = map hardenPreviewLinks (br_parse B (sanitizeHtml B (markedParse B body)))"

subsection \<open>What is left after the two passes\<close>

definition safe_node :: "dom \<Rightarrow> bool" where
  "safe_node d =
     (case d of
        Elem n as cs \<Rightarrow> n \<notin> set removed_tags \<and> list_all (\<lambda>a. \<not> removed_attribute a) as
      | _ \<Rightarrow> True)"

definition safe_link :: "dom \<Rightarrow> bool" where
  "safe_link d =
     (case d of
        Elem n as cs \<Rightarrow>
          (case map_of as (js ''href'') of
             Some href \<Rightarrow> n = js ''a'' \<longrightarrow> \<not> script_href href \<and> map_of as (js ''target'') = Some (js ''_blank'')
               \<and> map_of as (js ''rel'') = Some (js ''noopener noreferrer'')
           | None \<Rightarrow> True)
      | _ \<Rightarrow> True)"

text \<open>The names of the elements that are left, through each pass.\<close>

definition kept_name :: "dom \<Rightarrow> bool" where
  "kept_name d = (case d of Elem n as cs \<Rightarrow> n \<notin> set removed_tags | _ \<Rightarrow> True)"

lemma kept_remove_elements: "list_all kept_name (forest_nodes (remove_elements d))"
  by (induction d rule: remove_elements.induct) (auto simp: kept_name_def list_all_iff)

lemma safe_strip_attributes:
  "list_all kept_name (dom_nodes d) \<Longrightarrow> list_all safe_node (dom_nodes (strip_attributes d))"
  by (induction d rule: strip_attributes.induct) (auto simp: kept_name_def safe_node_def list_all_iff)

lemma map_of_setAttribute [simp]:
  "map_of (setAttribute k v as) x = (if x = k then Some v else map_of as x)"
proof (cases "k \<in> fst ` set as")
  case True
  then show ?thesis by (simp add: setAttribute_def map_of_replaced)
next
  case False
  then have "map_of as k = None" by (simp add: map_of_eq_None_iff)
  with False show ?thesis by (auto simp: setAttribute_def map_add_def split: option.split)
qed

lemma harden_link_cases:
  "case map_of (harden_link n as) (js ''href'') of
     Some href \<Rightarrow> n = js ''a'' \<longrightarrow> \<not> script_href href \<and> map_of (harden_link n as) (js ''target'') = Some (js ''_blank'')
       \<and> map_of (harden_link n as) (js ''rel'') = Some (js ''noopener noreferrer'')
   | None \<Rightarrow> True"
  by (auto simp: harden_link_def map_of_filter_key split: option.split)

lemma safe_link_hardened: "list_all safe_link (dom_nodes (hardenPreviewLinks d))"
proof (induction d rule: hardenPreviewLinks.induct)
  case (1 n as cs)
  then have "list_all safe_link (concat (map dom_nodes (map hardenPreviewLinks cs)))" if "n \<noteq> js ''template''"
    using that by (auto simp: list_all_iff)
  moreover have "safe_link (Elem n (harden_link n as) cs')" for cs'
    unfolding safe_link_def using harden_link_cases [of n as] by simp
  ultimately show ?case by simp
qed simp_all


text \<open>
  A browser drops tabs and line breaks inside a URL before it looks at the scheme; the check does not, so a link whose
  scheme is split by one is kept.
\<close>

lemma split_scheme_is_kept: "\<not> removed_attribute (js ''href'', js ''java'' @ [9] @ js ''script:alert(1)'')"
proof -
  have v: "toLowerCase (trim (js ''java'' @ [9] @ js ''script:alert(1)'')) = js ''java'' @ [9] @ js ''script:alert(1)''"
    by (simp add: toLowerCase_def lower_unit_def trim_def trimStart_def trimEnd_def is_ws_def js_simps)
  have n: "toLowerCase (js ''href'') = js ''href''" by (simp add: toLowerCase_def lower_unit_def js_simps)
  show ?thesis unfolding removed_attribute_def Let_def fst_conv snd_conv v n by (simp add: startsWith_def js_simps)
qed

end
