(* ===== verification/Notepad_Page.thy ===== *)
theory Notepad_Page
  imports Page_Html
begin

section \<open>The page of the notepad (\<open>apps/bun/src/notepad/app.ts\<close>)\<close>

text \<open>
  The state of the page, the elements its handlers read and write, and one definition per handler; the part of an
  \<open>async\<close> function after its \<open>await\<close> has the suffix \<open>_answer\<close>. The bodies of the answers have the types the source
  declares for them. \<open>np_step\<close> is what can happen: input, clicks, keys, timers, answers and messages.
\<close>

subsection \<open>State\<close>

record NoteMeta =
  nm_id :: jstring
  nm_title :: jstring
  nm_updatedAt :: jstring
  nm_locked :: bool

record Note = NoteMeta +
  nn_body :: jstring
  nn_author :: jstring

record np_env = browser +
  ne_time :: "jstring \<Rightarrow> jstring"
  ne_protocol :: jstring
  ne_host :: jstring

datatype mobile_view = EditorView | PreviewView
datatype np_timer = SaveNote | HideIndicator
datatype np_call = CallLoad | CallCreate | CallSelect | CallSave | CallLock | CallDelete | CallSnapshot
datatype np_action = LockNote | DeleteNote

record np_page = "(np_timer, np_call) page" +
  nt_notes :: "NoteMeta list"
  nt_currentNote :: "Note option"
  nt_author :: jstring
  nt_saveTimeout :: "nat option"
  nt_isSaving :: bool
  nt_mobileView :: mobile_view
  nt_storedAuthor :: "jstring option"
  nt_authorName :: jstring
  nt_noteCount :: jstring
  nt_noteList :: shown_list
  nt_workspaceActive :: bool
  nt_noteTitle :: jstring
  nt_titleDisabled :: bool
  nt_noteEditor :: jstring
  nt_editorDisabled :: bool
  nt_preview :: "dom list"
  nt_lockDisabled :: bool
  nt_lockMarked :: bool
  nt_lockLabel :: jstring
  nt_deleteDisabled :: bool
  nt_saveIndicator :: indicator
  nt_dialog :: "np_action dialog"
  nt_statKeys :: jstring
  nt_statWal :: jstring
  nt_statUptime :: jstring
  nt_viewData :: "mobile_view option"
  nt_viewTab :: mobile_view
  nt_toggleVisible :: bool

definition lock_icon :: jstring where
  \<open>lock_icon = js ''<svg width="16" height="16" viewBox="0 0 24 24" fill="none" stroke="currentColor" stroke-width="2"><rect x="3" y="11" width="18" height="11" rx="2" ry="2"></rect><path d="M7 11V7a5 5 0 0 1 10 0v4"></path></svg> ''\<close>

text \<open>The page as the HTML leaves it, before \<open>init\<close> runs.\<close>

definition blank_notepad :: "jstring option \<Rightarrow> np_page" where
  "blank_notepad stored =
     \<lparr>pg_timers = [], pg_nextTimer = 1, pg_calls = [], pg_nextCall = 1, pg_requests = [], pg_toasts = [],
      pg_sockets = [], pg_reconnectAttempts = 0, pg_online = False, pg_connText = js ''Connecting...'',
      nt_notes = [], nt_currentNote = None,
      nt_author = (case stored of Some a \<Rightarrow> if a \<noteq> [] then a else js ''Guest'' | None \<Rightarrow> js ''Guest''),
      nt_saveTimeout = None, nt_isSaving = False, nt_mobileView = EditorView, nt_storedAuthor = stored,
      nt_authorName = js ''Guest'', nt_noteCount = js ''0 notes'', nt_noteList = ItemList [], nt_workspaceActive = False,
      nt_noteTitle = [], nt_titleDisabled = True, nt_noteEditor = [], nt_editorDisabled = True, nt_preview = [],
      nt_lockDisabled = True, nt_lockMarked = False, nt_lockLabel = lock_icon @ js ''WORM Lock'', nt_deleteDisabled = True,
      nt_saveIndicator = \<lparr>in_visible = False, in_saving = False, in_saved = False\<rparr>,
      nt_dialog = \<lparr>dl_active = False, dl_title = js ''Confirm'', dl_message = js ''Are you sure?'', dl_callback = None\<rparr>,
      nt_statKeys = js ''0'', nt_statWal = js ''0 B'', nt_statUptime = js ''-'', nt_viewData = None,
      nt_viewTab = EditorView, nt_toggleVisible = False\<rparr>"

subsection \<open>Rendering\<close>

definition toast_icon :: jstring where
  \<open>toast_icon = js ''<svg width="16" height="16" viewBox="0 0 24 24" fill="none" stroke="currentColor" stroke-width="2"><path d="M22 11.08V12a10 10 0 1 1-5.93-9.14"></path><polyline points="22 4 12 14.01 9 11.01"></polyline></svg> ''\<close>

definition np_showToast :: "jstring \<Rightarrow> np_page \<Rightarrow> np_page" where
  "np_showToast message s = show_toast_html (toast_icon @ message) 3000 s"

definition shown_title :: "jstring \<Rightarrow> jstring" where
  "shown_title t = (if t \<noteq> [] then t else js ''Untitled Note'')"

definition item_head :: jstring where
  \<open>item_head = js ''
      <div class="note-item-header">
        <span class="note-item-title">''\<close>

definition item_tail :: "np_env \<Rightarrow> NoteMeta \<Rightarrow> jstring" where
  \<open>item_tail E note =
     js ''</span>
        <span class="lock-icon '' @ (if nm_locked note then [] else js ''hidden'') @ js ''" title="WORM Locked">
          <svg width="12" height="12" viewBox="0 0 24 24" fill="none" stroke="currentColor" stroke-width="2"><rect x="3" y="11" width="18" height="11" rx="2" ry="2"></rect><path d="M7 11V7a5 5 0 0 1 10 0v4"></path></svg>
        </span>
      </div>
      <div class="note-item-meta">
        <span>'' @ ne_time E (nm_updatedAt note) @ js ''</span>
      </div>
    ''\<close>

definition note_item_html :: "np_env \<Rightarrow> NoteMeta \<Rightarrow> jstring" where
  "note_item_html E note = item_head @ escapeHTML (shown_title (nm_title note)) @ item_tail E note"

definition note_item :: "np_env \<Rightarrow> jstring option \<Rightarrow> NoteMeta \<Rightarrow> list_item" where
  "note_item E current note =
     \<lparr>li_id = nm_id note,
      li_class = js ''note-item '' @ (if current = Some (nm_id note) then js ''active'' else []),
      li_html = note_item_html E note\<rparr>"

definition no_notes_html :: jstring where
  \<open>no_notes_html = js ''<li class="empty-list-state">No notes yet. Create one to get started.</li>''\<close>

definition renderNoteList :: "np_env \<Rightarrow> np_page \<Rightarrow> np_page" where
  "renderNoteList E s =
     s\<lparr>nt_noteCount := digits_of (length (nt_notes s)) @ [32] @ (if length (nt_notes s) = 1 then js ''note'' else js ''notes''),
       nt_noteList :=
         (if nt_notes s = [] then EmptyList no_notes_html
          else ItemList (map (note_item E (map_option nm_id (nt_currentNote s))) (nt_notes s)))\<rparr>"

definition renderPreview :: "np_env \<Rightarrow> np_page \<Rightarrow> np_page" where
  "renderPreview E s =
     (case nt_currentNote s of
        None \<Rightarrow> s
      | Some n \<Rightarrow> s\<lparr>nt_preview := preview_of (browser.truncate E) (nn_body n)\<rparr>)"

definition renderEditor :: "np_env \<Rightarrow> np_page \<Rightarrow> np_page" where
  "renderEditor E s =
     (case nt_currentNote s of
        None \<Rightarrow>
          s\<lparr>nt_workspaceActive := False, nt_noteTitle := [], nt_titleDisabled := True, nt_noteEditor := [],
            nt_editorDisabled := True, nt_preview := [], nt_lockDisabled := True, nt_lockMarked := False,
            nt_deleteDisabled := True\<rparr>
      | Some n \<Rightarrow>
          renderPreview E
            (s\<lparr>nt_workspaceActive := True, nt_noteTitle := input_value (nm_title n), nt_titleDisabled := nm_locked n,
               nt_noteEditor := textarea_value (nn_body n), nt_editorDisabled := nm_locked n,
               nt_lockDisabled := nm_locked n, nt_lockMarked := nm_locked n,
               nt_lockLabel := lock_icon @ (if nm_locked n then js ''Locked'' else js ''WORM Lock''),
               nt_deleteDisabled := nm_locked n\<rparr>))"

subsection \<open>Loading, creating and selecting\<close>

definition notes_url :: "jstring \<Rightarrow> jstring" where
  "notes_url nid = js ''/api/notes/'' @ nid"

definition loadNotes :: "np_page \<Rightarrow> np_page" where
  "loadNotes s = fetch_call (simple_request ''GET'' (js ''/api/notes'')) CallLoad s"

definition loadNotes_answer :: "np_env \<Rightarrow> NoteMeta list reply \<Rightarrow> np_page \<Rightarrow> np_page" where
  "loadNotes_answer E r s =
     (case r of
        Fulfilled notes \<Rightarrow> renderNoteList E (s\<lparr>nt_notes := notes\<rparr>)
      | _ \<Rightarrow> np_showToast (js ''Error loading notes'') s)"

definition selectNote :: "jstring \<Rightarrow> np_page \<Rightarrow> np_page" where
  "selectNote nid s = fetch_call (simple_request ''GET'' (notes_url nid)) CallSelect s"

definition selectNote_answer :: "np_env \<Rightarrow> Note reply \<Rightarrow> np_page \<Rightarrow> np_page" where
  "selectNote_answer E r s =
     (case r of
        Fulfilled note \<Rightarrow> renderEditor E (renderNoteList E (s\<lparr>nt_currentNote := Some note\<rparr>))
      | _ \<Rightarrow> np_showToast (js ''Error loading note'') s)"

definition createNote :: "np_page \<Rightarrow> np_page" where
  "createNote s = fetch_call (simple_request ''POST'' (js ''/api/notes'')) CallCreate s"

definition createNote_answer :: "np_env \<Rightarrow> Note reply \<Rightarrow> np_page \<Rightarrow> np_page" where
  "createNote_answer E r s =
     (case r of
        Fulfilled note \<Rightarrow>
          selectNote (nm_id note) (renderNoteList E (s\<lparr>nt_notes := NoteMeta.truncate note # nt_notes s\<rparr>))
      | _ \<Rightarrow> np_showToast (js ''Error creating note'') s)"

subsection \<open>Editing and saving\<close>

definition handleEditorChange :: "np_env \<Rightarrow> np_page \<Rightarrow> np_page" where
  "handleEditorChange E s =
     (case nt_currentNote s of
        None \<Rightarrow> s
      | Some n \<Rightarrow>
          if nm_locked n then s
          else
            let n' = n\<lparr>nm_title := shown_title (nt_noteTitle s),
                       nn_body := nt_noteEditor s\<rparr>;
                s1 = s\<lparr>nt_currentNote := Some n'\<rparr>;
                s2 = (if list_ex (\<lambda>m. nm_id m = nm_id n) (nt_notes s)
                      then renderNoteList E (s1\<lparr>nt_notes :=
                        update_first (\<lambda>m. nm_id m = nm_id n) (\<lambda>m. m\<lparr>nm_title := nm_title n'\<rparr>) (nt_notes s)\<rparr>)
                      else s1);
                s3 = clearTimeout (nt_saveTimeout s) (renderPreview E s2);
                s4 = s3\<lparr>nt_saveIndicator := indicate_saving, nt_saveTimeout := Some (pg_nextTimer s3)\<rparr>
            in setTimeout (Own SaveNote) 500 s4)"

definition note_body :: "Note \<Rightarrow> jstring \<Rightarrow> json" where
  "note_body n author =
     JObj [(js ''title'', JStr (nm_title n)), (js ''body'', JStr (nn_body n)), (js ''author'', JStr author)]"

definition saveCurrentNote :: "np_page \<Rightarrow> np_page" where
  "saveCurrentNote s =
     (case nt_currentNote s of
        None \<Rightarrow> s
      | Some n \<Rightarrow>
          fetch_call (json_request ''PUT'' (notes_url (nm_id n)) (note_body n (nt_author s))) CallSave
            (s\<lparr>nt_isSaving := True\<rparr>))"

definition save_failed :: "np_page \<Rightarrow> np_page" where
  "save_failed s =
     (np_showToast (js ''Save failed'') s)
       \<lparr>nt_saveIndicator := indicate_failed (nt_saveIndicator s), nt_isSaving := False\<rparr>"

definition save_done :: "np_page \<Rightarrow> np_page" where
  "save_done s =
     (setTimeout (Own HideIndicator) 2000 (s\<lparr>nt_saveIndicator := indicate_saved (nt_saveIndicator s)\<rparr>))
       \<lparr>nt_isSaving := False\<rparr>"

text \<open>
  The answer to a save carries the \<open>updatedAt\<close> of the note, if the server sent one; a body that cannot be read counts as
  none. The note whose entry is refreshed is the one that is current now, and looking for it throws when there is none and
  the list is not empty.
\<close>

definition saveCurrentNote_answer :: "jstring option reply \<Rightarrow> np_page \<Rightarrow> np_page" where
  "saveCurrentNote_answer r s =
     (case r of
        Fulfilled (Some u) \<Rightarrow>
          if u = [] then save_done s
          else
            (case nt_currentNote s of
               None \<Rightarrow> if nt_notes s = [] then save_done s else save_failed s
             | Some n \<Rightarrow>
                 save_done (s\<lparr>nt_notes :=
                   update_first (\<lambda>m. nm_id m = nm_id n) (\<lambda>m. m\<lparr>nm_updatedAt := u\<rparr>) (nt_notes s)\<rparr>))
      | Fulfilled None \<Rightarrow> save_done s
      | BadBody _ \<Rightarrow> save_done s
      | _ \<Rightarrow> save_failed s)"

definition hide_indicator :: "np_page \<Rightarrow> np_page" where
  "hide_indicator s = s\<lparr>nt_saveIndicator := indicate_done (nt_isSaving s) (nt_saveIndicator s)\<rparr>"

subsection \<open>Locking, deleting and the snapshot\<close>

definition confirmLockNote :: "np_page \<Rightarrow> np_page" where
  "confirmLockNote s =
     (case nt_currentNote s of
        None \<Rightarrow> s
      | Some _ \<Rightarrow> s\<lparr>nt_dialog := showDialog (js ''Lock Note Permanently'')
          (js ''This will make the note read-only forever. This action cannot be undone. Are you sure?'') LockNote\<rparr>)"

definition confirmDeleteNote :: "np_page \<Rightarrow> np_page" where
  "confirmDeleteNote s =
     (case nt_currentNote s of
        None \<Rightarrow> s
      | Some _ \<Rightarrow> s\<lparr>nt_dialog := showDialog (js ''Delete Note'')
          (js ''Are you sure you want to delete this note? This action cannot be undone.'') DeleteNote\<rparr>)"

definition lock_note :: "np_page \<Rightarrow> np_page" where
  "lock_note s =
     (case nt_currentNote s of
        None \<Rightarrow> np_showToast (js ''Error locking note'') s
      | Some n \<Rightarrow> fetch_call (simple_request ''POST'' (notes_url (nm_id n) @ js ''/lock'')) CallLock s)"

definition delete_note :: "np_page \<Rightarrow> np_page" where
  "delete_note s =
     (case nt_currentNote s of
        None \<Rightarrow> np_showToast (js ''Error deleting note. Is it locked?'') s
      | Some n \<Rightarrow> fetch_call (simple_request ''DELETE'' (notes_url (nm_id n))) CallDelete s)"

definition np_dialog_confirm :: "np_page \<Rightarrow> np_page" where
  "np_dialog_confirm s =
     (let s' = s\<lparr>nt_dialog := closeDialog (nt_dialog s)\<rparr>
      in case dl_callback (nt_dialog s) of
           None \<Rightarrow> s'
         | Some LockNote \<Rightarrow> lock_note s'
         | Some DeleteNote \<Rightarrow> delete_note s')"

text \<open>\<open>res.ok\<close> of an answer whose body is not read.\<close>

definition reply_ok :: "'b reply \<Rightarrow> bool" where
  "reply_ok r = (case r of Fulfilled _ \<Rightarrow> True | BadBody _ \<Rightarrow> True | _ \<Rightarrow> False)"

definition lock_note_answer :: "np_env \<Rightarrow> unit reply \<Rightarrow> np_page \<Rightarrow> np_page" where
  "lock_note_answer E r s =
     (if \<not> reply_ok r then np_showToast (js ''Error locking note'') s
      else
        case nt_currentNote s of
          None \<Rightarrow> np_showToast (js ''Error locking note'') s
        | Some n \<Rightarrow>
            np_showToast (js ''Note locked successfully'')
              (renderEditor E (renderNoteList E
                (s\<lparr>nt_currentNote := Some (n\<lparr>nm_locked := True\<rparr>),
                   nt_notes := update_first (\<lambda>m. nm_id m = nm_id n) (\<lambda>m. m\<lparr>nm_locked := True\<rparr>) (nt_notes s)\<rparr>))))"

definition delete_note_answer :: "np_env \<Rightarrow> unit reply \<Rightarrow> np_page \<Rightarrow> np_page" where
  "delete_note_answer E r s =
     (if \<not> reply_ok r \<or> nt_currentNote s = None \<and> nt_notes s \<noteq> []
      then np_showToast (js ''Error deleting note. Is it locked?'') s
      else
        np_showToast (js ''Note deleted'')
          (renderEditor E (renderNoteList E
            (s\<lparr>nt_notes := filter (\<lambda>m. Some (nm_id m) \<noteq> map_option nm_id (nt_currentNote s)) (nt_notes s),
               nt_currentNote := None\<rparr>))))"

definition triggerSnapshot :: "np_page \<Rightarrow> np_page" where
  "triggerSnapshot s = fetch_call (simple_request ''POST'' (js ''/api/save'')) CallSnapshot s"

definition triggerSnapshot_answer :: "unit reply \<Rightarrow> np_page \<Rightarrow> np_page" where
  "triggerSnapshot_answer r s =
     np_showToast (if reply_ok r then js ''Snapshot saved to disk'' else js ''Failed to save snapshot'') s"

subsection \<open>Messages\<close>

text \<open>
  The messages the page handles, and how one is read from the document that arrived; the publishers send the properties
  as strings. A document that is none of them is ignored.
\<close>

datatype np_message =
    MsgStatus jstring
  | MsgUpdated jstring jstring jstring
  | MsgDeleted jstring
  | MsgLocked jstring "jstring option"

definition read_np_message :: "json \<Rightarrow> np_message option" where
  "read_np_message j =
     (case text_field j ''type'' of
        None \<Rightarrow> None
      | Some t \<Rightarrow>
          if t = js ''status'' then Some (MsgStatus (status_value j))
          else if t = js ''note:updated'' then
            do { nid \<leftarrow> text_field j ''id''; title \<leftarrow> text_field j ''title''; author \<leftarrow> text_field j ''author'';
                 Some (MsgUpdated nid title author) }
          else if t = js ''note:deleted'' then map_option MsgDeleted (text_field j ''id'')
          else if t = js ''note:locked'' then map_option (\<lambda>nid. MsgLocked nid (text_field j ''author'')) (text_field j ''id'')
          else None)"

definition handleRemoteUpdate :: "np_env \<Rightarrow> jstring \<Rightarrow> jstring \<Rightarrow> jstring \<Rightarrow> jstring \<Rightarrow> np_page \<Rightarrow> np_page" where
  "handleRemoteUpdate E now nid title author s =
     (if author = nt_author s then s
      else
        let notes =
              (case find (\<lambda>m. nm_id m = nid) (nt_notes s) of
                 Some m \<Rightarrow> m\<lparr>nm_title := title, nm_updatedAt := now\<rparr> # filter (\<lambda>m. nm_id m \<noteq> nid) (nt_notes s)
               | None \<Rightarrow> \<lparr>nm_id = nid, nm_title = title, nm_updatedAt = now, nm_locked = False\<rparr> # nt_notes s);
            s1 = renderNoteList E (s\<lparr>nt_notes := notes\<rparr>)
        in if map_option nm_id (nt_currentNote s) = Some nid
           then selectNote nid (np_showToast (js ''Note updated by '' @ author) s1)
           else s1)"

definition handleRemoteDelete :: "np_env \<Rightarrow> jstring \<Rightarrow> np_page \<Rightarrow> np_page" where
  "handleRemoteDelete E nid s =
     (let s1 = renderNoteList E (s\<lparr>nt_notes := filter (\<lambda>m. nm_id m \<noteq> nid) (nt_notes s)\<rparr>)
      in if map_option nm_id (nt_currentNote s) = Some nid
         then np_showToast (js ''This note was deleted by another user'') (renderEditor E (s1\<lparr>nt_currentNote := None\<rparr>))
         else s1)"

definition handleRemoteLock :: "np_env \<Rightarrow> jstring \<Rightarrow> jstring option \<Rightarrow> np_page \<Rightarrow> np_page" where
  "handleRemoteLock E nid author s =
     (let s1 = (if list_ex (\<lambda>m. nm_id m = nid) (nt_notes s)
                then renderNoteList E (s\<lparr>nt_notes :=
                  update_first (\<lambda>m. nm_id m = nid) (\<lambda>m. m\<lparr>nm_locked := True\<rparr>) (nt_notes s)\<rparr>)
                else s)
      in case nt_currentNote s of
           None \<Rightarrow> s1
         | Some n \<Rightarrow>
             if nm_id n \<noteq> nid then s1
             else
               let s2 = renderEditor E (s1\<lparr>nt_currentNote := Some (n\<lparr>nm_locked := True\<rparr>)\<rparr>)
               in if author \<noteq> Some (nt_author s)
                  then np_showToast (js ''Note locked by '' @ or_default author (js ''undefined'')) s2
                  else s2)"

definition np_status :: "jstring \<Rightarrow> np_page \<Rightarrow> np_page" where
  "np_status v s =
     (let kv = parseKV v
      in s\<lparr>nt_statKeys := kv_or kv ''keys'' (\<lambda>x. x) (js ''0''),
           nt_statWal := kv_or kv ''wal_size'' (\<lambda>x. formatBytes (parseInt x)) (js ''0 B''),
           nt_statUptime := kv_or kv ''uptime_in_seconds'' (\<lambda>x. x @ js ''s'') (js ''-'')\<rparr>)"

definition np_onmessage :: "np_env \<Rightarrow> jstring \<Rightarrow> jstring \<Rightarrow> np_page \<Rightarrow> np_page" where
  "np_onmessage E now data s =
     (case Option.bind (JSON_parse data) read_np_message of
        None \<Rightarrow> s
      | Some (MsgStatus v) \<Rightarrow> np_status v s
      | Some (MsgUpdated nid title author) \<Rightarrow> handleRemoteUpdate E now nid title author s
      | Some (MsgDeleted nid) \<Rightarrow> handleRemoteDelete E nid s
      | Some (MsgLocked nid author) \<Rightarrow> handleRemoteLock E nid author s)"

subsection \<open>Keys, layout and start\<close>

definition np_key_escape :: "np_page \<Rightarrow> np_page" where
  "np_key_escape s = (if dl_active (nt_dialog s) then s\<lparr>nt_dialog := closeDialog (nt_dialog s)\<rparr> else s)"

definition np_key_save :: "np_page \<Rightarrow> np_page" where
  "np_key_save s = saveCurrentNote ((clearTimeout (nt_saveTimeout s) s)\<lparr>nt_saveTimeout := None\<rparr>)"

definition setMobileView :: "mobile_view \<Rightarrow> np_page \<Rightarrow> np_page" where
  "setMobileView v s = s\<lparr>nt_mobileView := v, nt_viewData := Some v, nt_viewTab := v\<rparr>"

definition syncResponsiveLayout :: "nat \<Rightarrow> np_page \<Rightarrow> np_page" where
  "syncResponsiveLayout innerWidth s =
     (let isMobile = (innerWidth \<le> 900);
          s1 = s\<lparr>nt_toggleVisible := isMobile\<rparr>
      in if \<not> isMobile then s1\<lparr>nt_viewData := None\<rparr> else setMobileView (nt_mobileView s1) s1)"

text \<open>\<open>promptAuthor\<close>; the argument is what \<open>prompt\<close> returns.\<close>

definition promptAuthor :: "jstring option \<Rightarrow> np_page \<Rightarrow> np_page" where
  "promptAuthor answer s =
     (case answer of
        None \<Rightarrow> s
      | Some name \<Rightarrow>
          if trim name = [] then s
          else s\<lparr>nt_author := trim name, nt_storedAuthor := Some (trim name), nt_authorName := trim name\<rparr>)"

definition np_init :: "np_env \<Rightarrow> jstring option \<Rightarrow> nat \<Rightarrow> np_page \<Rightarrow> np_page" where
  "np_init E answer innerWidth s =
     (let s1 = s\<lparr>nt_authorName := nt_author s\<rparr>;
          s2 = (if nt_author s = js ''Guest'' then promptAuthor answer s1 else s1)
      in syncResponsiveLayout innerWidth (connectWebSocket (ne_protocol E) (ne_host E) (loadNotes s2)))"

fun np_timer_fires :: "np_env \<Rightarrow> np_timer timer \<Rightarrow> np_page \<Rightarrow> np_page" where
  "np_timer_fires E (ToastFade t) s = fade_toast t s"
| "np_timer_fires E (ToastRemove t) s = remove_toast t s"
| "np_timer_fires E Reconnect s = connectWebSocket (ne_protocol E) (ne_host E) s"
| "np_timer_fires E (Own SaveNote) s = saveCurrentNote s"
| "np_timer_fires E (Own HideIndicator) s = hide_indicator s"

subsection \<open>What can happen\<close>

inductive np_step :: "np_env \<Rightarrow> np_page \<Rightarrow> np_page \<Rightarrow> bool" for E where
  type_title: "\<not> nt_titleDisabled s \<Longrightarrow> np_step E s (handleEditorChange E (s\<lparr>nt_noteTitle := input_value v\<rparr>))"
| type_body: "\<not> nt_editorDisabled s \<Longrightarrow> np_step E s (handleEditorChange E (s\<lparr>nt_noteEditor := textarea_value v\<rparr>))"
| key_save: "np_step E s (np_key_save s)"
| key_escape: "np_step E s (np_key_escape s)"
| click_author: "np_step E s (promptAuthor answer s)"
| click_new: "np_step E s (createNote s)"
| click_item: "nt_noteList s = ItemList items \<Longrightarrow> li \<in> set items \<Longrightarrow> np_step E s (selectNote (li_id li) s)"
| click_snapshot: "np_step E s (triggerSnapshot s)"
| click_lock: "\<not> nt_lockDisabled s \<Longrightarrow> np_step E s (confirmLockNote s)"
| click_delete: "\<not> nt_deleteDisabled s \<Longrightarrow> np_step E s (confirmDeleteNote s)"
| click_cancel: "np_step E s (s\<lparr>nt_dialog := closeDialog (nt_dialog s)\<rparr>)"
| click_confirm: "np_step E s (np_dialog_confirm s)"
| click_view: "np_step E s (setMobileView v s)"
| resize: "np_step E s (syncResponsiveLayout w s)"
| timer: "(i, t, d) \<in> set (pg_timers s) \<Longrightarrow> np_step E s (np_timer_fires E t (take_timer i s))"
| loaded: "(i, CallLoad) \<in> set (pg_calls s) \<Longrightarrow> np_step E s (loadNotes_answer E r (take_call i s))"
| created: "(i, CallCreate) \<in> set (pg_calls s) \<Longrightarrow> np_step E s (createNote_answer E rn (take_call i s))"
| selected: "(i, CallSelect) \<in> set (pg_calls s) \<Longrightarrow> np_step E s (selectNote_answer E rn (take_call i s))"
| saved: "(i, CallSave) \<in> set (pg_calls s) \<Longrightarrow> np_step E s (saveCurrentNote_answer ru (take_call i s))"
| locked: "(i, CallLock) \<in> set (pg_calls s) \<Longrightarrow> np_step E s (lock_note_answer E rk (take_call i s))"
| deleted: "(i, CallDelete) \<in> set (pg_calls s) \<Longrightarrow> np_step E s (delete_note_answer E rk (take_call i s))"
| snapshot: "(i, CallSnapshot) \<in> set (pg_calls s) \<Longrightarrow> np_step E s (triggerSnapshot_answer rk (take_call i s))"
| opened: "np_step E s (ws_onopen s)"
| closed: "np_step E s (ws_onclose s)"
| message: "np_step E s (np_onmessage E now data s)"

abbreviation np_started :: "np_env \<Rightarrow> jstring option \<Rightarrow> jstring option \<Rightarrow> nat \<Rightarrow> np_page" where
  "np_started E stored answer w \<equiv> np_init E answer w (blank_notepad stored)"

subsection \<open>At most one save is pending\<close>

definition np_view :: "np_page \<Rightarrow> np_timer debounce_view" where
  "np_view s = (pg_timers s, pg_nextTimer s, nt_saveTimeout s)"

lemma view_render [simp]:
  "np_view (renderNoteList E s) = np_view s" "np_view (renderPreview E s) = np_view s" "np_view (renderEditor E s) = np_view s"
  by (simp_all add: np_view_def renderNoteList_def renderPreview_def renderEditor_def split: option.split)

lemma view_update [simp]:
  "np_view (s\<lparr>nt_notes := ns\<rparr>) = np_view s" "np_view (s\<lparr>nt_currentNote := n\<rparr>) = np_view s"
  "np_view (s\<lparr>nt_dialog := d\<rparr>) = np_view s" "np_view (s\<lparr>nt_isSaving := b\<rparr>) = np_view s"
  "np_view (s\<lparr>nt_saveIndicator := i\<rparr>) = np_view s" "np_view (s\<lparr>nt_noteTitle := v\<rparr>) = np_view s"
  "np_view (s\<lparr>nt_noteEditor := v\<rparr>) = np_view s"
  by (simp_all add: np_view_def)

lemma view_fetch [simp]:
  "np_view (fetch_call r c s) = np_view s" "np_view (take_call i s) = np_view s" "np_view (selectNote nid s) = np_view s"
  "np_view (loadNotes s) = np_view s" "np_view (createNote s) = np_view s" "np_view (triggerSnapshot s) = np_view s"
  "np_view (saveCurrentNote s) = np_view s"
  by (simp_all add: np_view_def fetch_call_def take_call_def selectNote_def loadNotes_def createNote_def
      triggerSnapshot_def saveCurrentNote_def split: option.split)

lemma view_plain [simp]:
  "np_view (remove_toast k s) = np_view s" "np_view (connectWebSocket p h s) = np_view s"
  "np_view (hide_indicator s) = np_view s" "np_view (ws_onopen s) = np_view s" "np_view (promptAuthor a s) = np_view s"
  "np_view (np_key_escape s) = np_view s" "np_view (confirmLockNote s) = np_view s" "np_view (confirmDeleteNote s) = np_view s"
  "np_view (setMobileView v s) = np_view s" "np_view (syncResponsiveLayout w s) = np_view s"
  by (auto simp: np_view_def remove_toast_def connectWebSocket_def hide_indicator_def ws_onopen_def promptAuthor_def
      np_key_escape_def confirmLockNote_def confirmDeleteNote_def setMobileView_def syncResponsiveLayout_def Let_def
      split: option.split)

text \<open>\<open>np_quiet s s'\<close>: the view changes only as it may.\<close>

abbreviation np_quiet :: "np_page \<Rightarrow> np_page \<Rightarrow> bool" where
  "np_quiet s s' \<equiv> (debounce_change SaveNote)\<^sup>*\<^sup>* (np_view s) (np_view s')"

lemma quiet_timeout: "np_quiet s s' \<Longrightarrow> t \<noteq> Own SaveNote \<Longrightarrow> np_quiet s (setTimeout t d s')"
  by (auto simp: np_view_def setTimeout_def intro: changes_add)

lemma quiet_toast: "np_quiet s s' \<Longrightarrow> np_quiet s (np_showToast m s')"
  unfolding np_showToast_def show_toast_html_def by (rule quiet_timeout) (simp_all add: np_view_def)

lemma quiet_answers:
  "np_quiet s (loadNotes_answer E r s)" "np_quiet s (selectNote_answer E rn s)" "np_quiet s (createNote_answer E rn s)"
  "np_quiet s (lock_note_answer E rk s)" "np_quiet s (delete_note_answer E rk s)" "np_quiet s (triggerSnapshot_answer rk s)"
  by (auto simp: loadNotes_answer_def selectNote_answer_def createNote_answer_def lock_note_answer_def
      delete_note_answer_def triggerSnapshot_answer_def intro!: quiet_toast split: reply.split option.split)

lemma quiet_saved: "np_quiet s (saveCurrentNote_answer ru s)"
proof -
  have "np_quiet s (save_done s')" "np_quiet s (save_failed s')" if "np_view s' = np_view s" for s'
    using that by (auto simp: save_done_def save_failed_def intro!: quiet_timeout quiet_toast)
  then show ?thesis by (auto simp: saveCurrentNote_answer_def split: reply.split option.split)
qed

lemma quiet_dialog: "np_quiet s (np_dialog_confirm s)"
  by (auto simp: np_dialog_confirm_def lock_note_def delete_note_def Let_def intro!: quiet_toast
      split: option.split np_action.split)

lemma quiet_message: "np_quiet s (np_onmessage E now data s)"
proof -
  have "np_quiet s (handleRemoteUpdate E now nid title author s)" for nid title author
    by (auto simp: handleRemoteUpdate_def Let_def intro!: quiet_toast)
  moreover have "np_quiet s (handleRemoteDelete E nid s)" for nid
    by (auto simp: handleRemoteDelete_def Let_def intro!: quiet_toast)
  moreover have "np_quiet s (handleRemoteLock E nid author s)" for nid author
    by (auto simp: handleRemoteLock_def Let_def intro!: quiet_toast split: option.split)
  moreover have "np_view (np_status v s) = np_view s" for v
    by (simp add: np_status_def np_view_def Let_def)
  ultimately show ?thesis by (simp add: np_onmessage_def split: option.split np_message.split)
qed

lemma quiet_timer: "np_quiet s (np_timer_fires E t (take_timer i s))"
proof -
  have d: "np_quiet s (take_timer i s)"
    unfolding np_view_def by (rule r_into_rtranclp) (simp add: take_timer_def clearTimeout_def drops)
  have "np_quiet s (fade_toast k (take_timer i s))" for k
    unfolding fade_toast_def by (rule quiet_timeout) (use d in \<open>simp_all add: np_view_def\<close>)
  with d show ?thesis by (cases "(E, t, take_timer i s)" rule: np_timer_fires.cases) auto
qed

lemma quiet_edit: "np_quiet s (handleEditorChange E s)"
proof -
  have "np_quiet s (setTimeout (Own SaveNote) 500
      ((clearTimeout (nt_saveTimeout s) s')\<lparr>nt_saveIndicator := i, nt_saveTimeout := Some (pg_nextTimer s')\<rparr>))"
    if "np_view s' = np_view s" for s' i
    using that by (intro r_into_rtranclp)
      (simp add: np_view_def timers_clearTimeout setTimeout_def rearms [of SaveNote "pg_timers s" "pg_nextTimer s" "nt_saveTimeout s" 500, simplified])
  then show ?thesis by (auto simp: handleEditorChange_def Let_def split: option.split)
qed

lemma quiet_key_save: "np_quiet s (np_key_save s)"
  unfolding np_key_save_def view_fetch
  by (rule r_into_rtranclp) (simp add: np_view_def timers_clearTimeout disarms)

lemma quiet_closed: "np_quiet s (ws_onclose s)"
  unfolding ws_onclose_def Let_def by (rule quiet_timeout) (simp_all add: np_view_def)

lemma np_step_quiet:
  assumes "np_step E s s'"
  shows "np_quiet s s'"
  using assms
proof cases
  case (type_title v)
  then show ?thesis using quiet_edit [of "s\<lparr>nt_noteTitle := input_value v\<rparr>" E] by simp
next
  case (type_body v)
  then show ?thesis using quiet_edit [of "s\<lparr>nt_noteEditor := textarea_value v\<rparr>" E] by simp
next
  case (loaded i r)
  then show ?thesis using quiet_answers(1) [of "take_call i s" E r] by simp
next
  case (created i rn)
  then show ?thesis using quiet_answers(3) [of "take_call i s" E rn] by simp
next
  case (selected i rn)
  then show ?thesis using quiet_answers(2) [of "take_call i s" E rn] by simp
next
  case (saved i ru)
  then show ?thesis using quiet_saved [of "take_call i s" ru] by simp
next
  case (locked i rk)
  then show ?thesis using quiet_answers(4) [of "take_call i s" E rk] by simp
next
  case (deleted i rk)
  then show ?thesis using quiet_answers(5) [of "take_call i s" E rk] by simp
next
  case (snapshot i rk)
  then show ?thesis using quiet_answers(6) [of "take_call i s" rk] by simp
qed (simp_all add: quiet_key_save quiet_dialog quiet_timer quiet_closed quiet_message)

interpretation np_debounce: debounced_page "np_step E" np_view SaveNote for E
  by unfold_locales (rule np_step_quiet)

lemma np_started_view: "np_view (np_started E stored answer w) = ([], 1, None)"
  by (simp add: np_init_def Let_def) (simp add: np_view_def blank_notepad_def)

text \<open>
However fast a note is edited, and whatever else happens on the page, at most one save is waiting, and it is the one
\<open>saveTimeout\<close> refers to: typing can neither queue up saves nor lose the handle of one.
\<close>

theorem notepad_one_pending_save:
  assumes "(np_step E)\<^sup>*\<^sup>* (np_started E stored answer w) s"
  shows "length (pending_saves SaveNote (pg_timers s)) \<le> 1
    \<and> set (pending_saves SaveNote (pg_timers s)) \<subseteq> set_option (nt_saveTimeout s)"
proof -
  have "debounced SaveNote (np_view (np_started E stored answer w))"
    by (simp add: np_started_view debounced_def)
  from np_debounce.one_pending_save [OF assms this] show ?thesis by (simp add: np_view_def)
qed

end
