(* ===== verification/Notepad_Page_Correct.thy ===== *)
theory Notepad_Page_Correct
  imports Notepad_Page
begin

section \<open>What the notepad page shows and saves\<close>

text \<open>
  The editor always shows the current note and the list the notes, in every state the page can reach; what a save sends,
  and what a change of the current note before the save does to an edit; and an edit followed by its save on the
  notepad server.
\<close>

subsection \<open>The editor shows the current note\<close>

definition editor_ok :: "np_env \<Rightarrow> np_page \<Rightarrow> bool" where
  "editor_ok E s =
     (case nt_currentNote s of
        None \<Rightarrow> nt_noteTitle s = [] \<and> nt_noteEditor s = [] \<and> nt_titleDisabled s \<and> nt_editorDisabled s
          \<and> nt_lockDisabled s \<and> nt_deleteDisabled s \<and> nt_preview s = []
      | Some n \<Rightarrow>
          nt_noteEditor s = textarea_value (nn_body n)
          \<and> (nt_noteTitle s = input_value (nm_title n) \<or> nt_noteTitle s = [] \<and> nm_title n = js ''Untitled Note'')
          \<and> nt_titleDisabled s = nm_locked n \<and> nt_editorDisabled s = nm_locked n
          \<and> nt_lockDisabled s = nm_locked n \<and> nt_deleteDisabled s = nm_locked n
          \<and> nt_preview s = preview_of (browser.truncate E) (nn_body n))"

text \<open>Each entry of the list selects the note at its place.\<close>

definition list_ok :: "np_page \<Rightarrow> bool" where
  "list_ok s \<longleftrightarrow> shown_ids (nt_noteList s) = map nm_id (nt_notes s)"

definition np_shown :: "np_env \<Rightarrow> np_page \<Rightarrow> bool" where
  "np_shown E s \<longleftrightarrow> editor_ok E s \<and> list_ok s"

lemma shown_rendered [simp]:
  "editor_ok E (renderEditor E s)" "list_ok (renderNoteList E s)"
  "list_ok (renderEditor E s) = list_ok s" "editor_ok E (renderNoteList E s) = editor_ok E s"
  "list_ok (renderPreview E s) = list_ok s"
  by (simp_all add: editor_ok_def list_ok_def shown_ids_def renderEditor_def renderPreview_def renderNoteList_def note_item_def
      split: option.split)

lemma editor_ok_ops [simp]:
  "editor_ok E (setTimeout t d s) = editor_ok E s" "editor_ok E (clearTimeout h s) = editor_ok E s"
  "editor_ok E (fetch_call r c s) = editor_ok E s" "editor_ok E (take_call i s) = editor_ok E s"
  "editor_ok E (take_timer i s) = editor_ok E s" "editor_ok E (np_showToast m s) = editor_ok E s"
  "editor_ok E (s\<lparr>nt_notes := ns\<rparr>) = editor_ok E s" "editor_ok E (s\<lparr>nt_isSaving := b\<rparr>) = editor_ok E s"
  "editor_ok E (s\<lparr>nt_saveIndicator := i'\<rparr>) = editor_ok E s" "editor_ok E (s\<lparr>nt_dialog := dg\<rparr>) = editor_ok E s"
  "editor_ok E (s\<lparr>nt_saveTimeout := h\<rparr>) = editor_ok E s"
  by (simp_all add: editor_ok_def setTimeout_def clearTimeout_def fetch_call_def take_call_def take_timer_def
      np_showToast_def show_toast_html_def split: option.split)

lemma list_ok_ops [simp]:
  "list_ok (setTimeout t d s) = list_ok s" "list_ok (clearTimeout h s) = list_ok s"
  "list_ok (fetch_call r c s) = list_ok s" "list_ok (take_call i s) = list_ok s"
  "list_ok (take_timer i s) = list_ok s" "list_ok (np_showToast m s) = list_ok s"
  "list_ok (s\<lparr>nt_currentNote := n\<rparr>) = list_ok s" "list_ok (s\<lparr>nt_isSaving := b\<rparr>) = list_ok s"
  "list_ok (s\<lparr>nt_saveIndicator := i'\<rparr>) = list_ok s" "list_ok (s\<lparr>nt_dialog := dg\<rparr>) = list_ok s"
  "list_ok (s\<lparr>nt_saveTimeout := h\<rparr>) = list_ok s" "list_ok (s\<lparr>nt_noteTitle := v\<rparr>) = list_ok s"
  "list_ok (s\<lparr>nt_noteEditor := v\<rparr>) = list_ok s"
  by (simp_all add: list_ok_def setTimeout_def clearTimeout_def fetch_call_def take_call_def take_timer_def
      np_showToast_def show_toast_html_def split: option.split)

lemma list_ok_update_first [simp]:
  "list_ok (s\<lparr>nt_notes := update_first P (nm_updatedAt_update f) (nt_notes s)\<rparr>) = list_ok s"
proof -
  have "map nm_id (update_first P (nm_updatedAt_update f) ns) = map nm_id ns" for ns :: "NoteMeta list"
    by (rule map_update_first) simp
  then show ?thesis by (simp add: list_ok_def)
qed

lemma list_ok_no_notes [simp]: "nt_notes s = [] \<Longrightarrow> list_ok (s\<lparr>nt_notes := []\<rparr>) = list_ok s"
  by (simp add: list_ok_def)

lemma shown_plain [simp]:
  "np_shown E (fetch_call r c s) = np_shown E s" "np_shown E (take_call i s) = np_shown E s"
  "np_shown E (np_showToast m s) = np_shown E s" "np_shown E (setTimeout t d s) = np_shown E s"
  "np_shown E (take_timer i s) = np_shown E s" "np_shown E (clearTimeout h s) = np_shown E s"
  "np_shown E (s\<lparr>nt_isSaving := b\<rparr>) = np_shown E s" "np_shown E (s\<lparr>nt_saveIndicator := i'\<rparr>) = np_shown E s"
  "np_shown E (s\<lparr>nt_dialog := dg\<rparr>) = np_shown E s" "np_shown E (s\<lparr>nt_saveTimeout := h\<rparr>) = np_shown E s"
  by (simp_all add: np_shown_def)

lemma shown_requests [simp]:
  "np_shown E (selectNote nid s) = np_shown E s" "np_shown E (createNote s) = np_shown E s"
  "np_shown E (loadNotes s) = np_shown E s" "np_shown E (triggerSnapshot s) = np_shown E s"
  "np_shown E (saveCurrentNote s) = np_shown E s" "np_shown E (lock_note s) = np_shown E s"
  "np_shown E (delete_note s) = np_shown E s"
  by (simp_all add: selectNote_def createNote_def loadNotes_def triggerSnapshot_def saveCurrentNote_def lock_note_def
      delete_note_def split: option.split)

lemma shown_controls [simp]:
  "np_shown E (remove_toast k s) = np_shown E s" "np_shown E (fade_toast k s) = np_shown E s"
  "np_shown E (connectWebSocket p h s) = np_shown E s" "np_shown E (ws_onopen s) = np_shown E s"
  "np_shown E (ws_onclose s) = np_shown E s" "np_shown E (promptAuthor a s) = np_shown E s"
  "np_shown E (setMobileView v s) = np_shown E s" "np_shown E (syncResponsiveLayout w s) = np_shown E s"
  "np_shown E (np_status x s) = np_shown E s" "np_shown E (hide_indicator s) = np_shown E s"
  by (simp_all add: np_shown_def editor_ok_def list_ok_def remove_toast_def fade_toast_def setTimeout_def
      connectWebSocket_def ws_onopen_def ws_onclose_def promptAuthor_def setMobileView_def syncResponsiveLayout_def
      np_status_def hide_indicator_def Let_def split: option.split)

lemma shown_dialogs [simp]:
  "np_shown E (confirmLockNote s) = np_shown E s" "np_shown E (confirmDeleteNote s) = np_shown E s"
  "np_shown E (np_key_escape s) = np_shown E s" "np_shown E (np_key_save s) = np_shown E s"
  "np_shown E (np_dialog_confirm s) = np_shown E s"
  by (simp_all add: confirmLockNote_def confirmDeleteNote_def np_key_escape_def np_key_save_def np_dialog_confirm_def Let_def
      split: option.split np_action.split)

lemma shown_answers:
  assumes "np_shown E s"
  shows "np_shown E (loadNotes_answer E r s)" and "np_shown E (selectNote_answer E rn s)"
    and "np_shown E (createNote_answer E rn s)" and "np_shown E (lock_note_answer E rk s)"
    and "np_shown E (delete_note_answer E rk s)" and "np_shown E (triggerSnapshot_answer rk s)"
    and "np_shown E (saveCurrentNote_answer ru s)"
  using assms
  by (simp_all add: loadNotes_answer_def selectNote_answer_def selectNote_def createNote_answer_def lock_note_answer_def
      delete_note_answer_def triggerSnapshot_answer_def saveCurrentNote_answer_def save_done_def save_failed_def np_shown_def
      split: reply.split option.split)

lemma shown_message:
  assumes "np_shown E s"
  shows "np_shown E (np_onmessage E now data s)"
proof -
  have "np_shown E (handleRemoteUpdate E now nid title author s)" for nid title author
    using assms by (simp add: handleRemoteUpdate_def Let_def np_shown_def selectNote_def)
  moreover have "np_shown E (handleRemoteDelete E nid s)" for nid
    using assms by (simp add: handleRemoteDelete_def Let_def np_shown_def)
  moreover have "np_shown E (handleRemoteLock E nid author s)" for nid author
    using assms by (simp add: handleRemoteLock_def Let_def np_shown_def split: option.split)
  ultimately show ?thesis using assms by (simp add: np_onmessage_def split: option.split np_message.split)
qed

text \<open>An input that the editor accepted: the note is open, and afterwards it is what the fields show.\<close>

definition edited_note :: "jstring \<Rightarrow> jstring \<Rightarrow> Note \<Rightarrow> Note" where
  "edited_note title body n = n\<lparr>nm_title := shown_title title, nn_body := body\<rparr>"

lemma edit_note:
  assumes "nt_currentNote s = Some n" and "\<not> nm_locked n"
  shows "nt_currentNote (handleEditorChange E s) = Some (edited_note (nt_noteTitle s) (nt_noteEditor s) n)"
    and "nt_noteTitle (handleEditorChange E s) = nt_noteTitle s" and "nt_noteEditor (handleEditorChange E s) = nt_noteEditor s"
    and "nt_author (handleEditorChange E s) = nt_author s"
    and "nt_preview (handleEditorChange E s) = preview_of (browser.truncate E) (nt_noteEditor s)"
  using assms
  by (simp_all add: handleEditorChange_def Let_def edited_note_def setTimeout_def clearTimeout_def renderPreview_def
      renderNoteList_def split: option.split)

lemma edit_flags [simp]:
  "nt_titleDisabled (handleEditorChange E s) = nt_titleDisabled s" "nt_editorDisabled (handleEditorChange E s) = nt_editorDisabled s"
  "nt_lockDisabled (handleEditorChange E s) = nt_lockDisabled s" "nt_deleteDisabled (handleEditorChange E s) = nt_deleteDisabled s"
  by (auto simp: handleEditorChange_def Let_def setTimeout_def clearTimeout_def renderPreview_def renderNoteList_def
      split: option.split)

lemma edit_list_ok: "list_ok s \<Longrightarrow> list_ok (handleEditorChange E s)"
  by (auto simp: handleEditorChange_def Let_def split: option.split)

lemma shown_edit:
  assumes "nt_currentNote s = Some n" and "\<not> nm_locked n" and "list_ok s"
    and "nt_noteTitle s = input_value (nt_noteTitle s)" and "nt_noteEditor s = textarea_value (nt_noteEditor s)"
    and "\<not> nt_titleDisabled s" and "\<not> nt_editorDisabled s" and "\<not> nt_lockDisabled s" and "\<not> nt_deleteDisabled s"
  shows "np_shown E (handleEditorChange E s)"
  using assms edit_note [OF assms(1,2), of E] edit_list_ok [OF assms(3), of E]
  by (auto simp: np_shown_def editor_ok_def edited_note_def shown_title_def)

lemma shown_typed:
  assumes "np_shown E s" and "\<not> nt_editorDisabled s \<or> \<not> nt_titleDisabled s"
  shows "np_shown E (handleEditorChange E (s\<lparr>nt_noteTitle := input_value v\<rparr>))"
    and "np_shown E (handleEditorChange E (s\<lparr>nt_noteEditor := textarea_value v\<rparr>))"
proof -
  from assms obtain n where n: "nt_currentNote s = Some n" "\<not> nm_locked n" "list_ok s"
    "\<not> nt_titleDisabled s" "\<not> nt_editorDisabled s" "\<not> nt_lockDisabled s" "\<not> nt_deleteDisabled s"
    and t: "nt_noteTitle s = input_value (nm_title n) \<or> nt_noteTitle s = []" "nt_noteEditor s = textarea_value (nn_body n)"
    by (auto simp: np_shown_def editor_ok_def split: option.splits)
  have "nt_noteTitle s = input_value (nt_noteTitle s)" using t(1) by (auto simp: input_value_def)
  with n t(2) show "np_shown E (handleEditorChange E (s\<lparr>nt_noteTitle := input_value v\<rparr>))"
    and "np_shown E (handleEditorChange E (s\<lparr>nt_noteEditor := textarea_value v\<rparr>))"
    by (intro shown_edit [of _ n]; simp)+
qed

lemma np_step_shown:
  assumes "np_step E s s'" and "np_shown E s"
  shows "np_shown E s'"
  using assms
proof (cases rule: np_step.cases)
  case (timer i t d)
  then show ?thesis using assms(2)
    by (cases "(E, t, take_timer i s)" rule: np_timer_fires.cases) auto
qed (simp_all add: shown_answers shown_message shown_typed)

text \<open>
C33: in every state the page can reach, whatever is typed, clicked, answered or received and in whatever order, the editor
shows the current note: its body and title are in the fields (up to line breaks, and with an empty title field for a
note called Untitled Note), its preview is rendered, the fields and buttons are disabled exactly when it is locked, and with
no current note everything is empty and disabled; and each entry of the list selects the note at its place.
\<close>

theorem notepad_shows_state:
  assumes "(np_step E)\<^sup>*\<^sup>* (np_started E stored answer w) s"
  shows "np_shown E s"
  using assms
proof (induction rule: rtranclp_induct)
  case base
  show ?case
    by (simp add: np_init_def Let_def) (simp add: np_shown_def editor_ok_def list_ok_def shown_ids_def blank_notepad_def)
next
  case (step s s')
  then show ?case using np_step_shown by blast
qed

subsection \<open>What a save sends\<close>

lemma requests_edit [simp]: "pg_requests (handleEditorChange E s) = pg_requests s"
  by (simp add: handleEditorChange_def Let_def setTimeout_def clearTimeout_def renderPreview_def renderNoteList_def
      split: option.split)

lemma requests_render [simp]:
  "pg_requests (renderNoteList E s) = pg_requests s" "pg_requests (renderEditor E s) = pg_requests s"
  by (simp_all add: renderNoteList_def renderEditor_def renderPreview_def split: option.split)

lemma note_take_timer [simp]:
  "nt_currentNote (take_timer i s) = nt_currentNote s" "nt_author (take_timer i s) = nt_author s"
  by (simp_all add: take_timer_def clearTimeout_def)

lemma requests_save:
  "nt_currentNote s = Some n \<Longrightarrow> pg_requests (saveCurrentNote s)
     = pg_requests s @ [json_request ''PUT'' (notes_url (nm_id n)) (note_body n (nt_author s))]"
  by (simp add: saveCurrentNote_def fetch_call_def)

lemma nm_id_edited [simp]: "nm_id (edited_note t b n) = nm_id n"
  by (simp add: edited_note_def)

lemma match_note_url: "nid \<noteq> [] \<Longrightarrow> 47 \<notin> set nid \<Longrightarrow> match_segment (js ''/api/notes/'') [] (notes_url nid) = Some nid"
  by (cases nid) (auto simp: match_segment_def notes_url_def startsWith_def Let_def takeWhile_eq_all_conv)

lemma np_fetch_put:
  assumes "nid \<noteq> []" and "47 \<notin> set nid"
  shows "np_fetch msg shown unb64 send up now ms36 uuid (sent_request (json_request ''PUT'' (notes_url nid) j))
    = np_update msg unb64 send now nid (stringify j)"
proof -
  have "notes_url nid \<noteq> js ''/ws''" by (simp add: notes_url_def js_simps)
  moreover have "js ''PUT'' \<noteq> js ''GET''" "js ''PUT'' \<noteq> js ''POST''" by simp_all
  ultimately show ?thesis
    using match_note_url [OF assms] by (simp add: np_fetch_def sent_request_def json_request_def Let_def del: js_eq_iff)
qed


text \<open>The hypotheses hold for the note \<open>1\<close> of a store that has no index yet.\<close>

abbreviation plain_env :: np_env where
  "plain_env \<equiv> \<lparr>br_marked = None, br_purify = None, br_parse = (\<lambda>h. [Text h]), br_print = (\<lambda>_. []),
     ne_time = (\<lambda>_. []), ne_protocol = js ''http:'', ne_host = js ''h''\<rparr>"

abbreviation sample_note :: "string \<Rightarrow> Note" where
  "sample_note nid \<equiv> \<lparr>nm_id = js nid, nm_title = js ''T'', nm_updatedAt = js ''t'', nm_locked = False,
     nn_body = js ''B'', nn_author = js ''A''\<rparr>"

abbreviation sample_page :: np_page where
  "sample_page \<equiv> (blank_notepad None)\<lparr>nt_currentNote := Some (sample_note ''1''), nt_noteTitle := js ''N'', nt_noteEditor := js ''M''\<rparr>"

abbreviation sample_put :: "(jstring \<times> json) list" where
  "sample_put \<equiv> [(js ''title'', JStr (js ''N'')), (js ''body'', JStr (js ''M'')), (js ''author'', JStr (js ''Guest''))]"

lemma sample_merged_ok: "doc_ok (JObj (merged_note (js ''t'') sample_put []))"
proof -
  have "merged_note (js ''t'') sample_put [] = sample_put @ [(js ''updatedAt'', JStr (js ''t''))]"
    by (simp add: merged_note_def obj_assign_def obj_set_def)
  then show ?thesis by (simp only:) (rule doc_ok_obj; simp add: doc_simps)
qed


subsection \<open>A run\<close>

text \<open>Creating a note, opening it and typing, from any state.\<close>

definition np_opened :: "np_env \<Rightarrow> Note \<Rightarrow> np_page \<Rightarrow> np_page" where
  "np_opened E note s =
     (let s1 = createNote_answer E (Fulfilled note) (take_call (pg_nextCall s) (createNote s))
      in selectNote_answer E (Fulfilled note) (take_call (pg_nextCall s + 1) s1))"

lemma np_opened_fields:
  "nt_currentNote (np_opened E note s) = Some note" "nt_editorDisabled (np_opened E note s) = nm_locked note"
  by (simp_all add: np_opened_def Let_def selectNote_answer_def renderEditor_def renderPreview_def renderNoteList_def)

lemma np_opened_run: "(np_step E)\<^sup>*\<^sup>* s (np_opened E note s)"
proof -
  let ?s1 = "createNote_answer E (Fulfilled note) (take_call (pg_nextCall s) (createNote s))"
  have "(pg_nextCall s, CallCreate) \<in> set (pg_calls (createNote s))" by (simp add: createNote_def)
  then have "np_step E (createNote s) ?s1" by (rule np_step.created)
  moreover have "(pg_nextCall s + 1, CallSelect) \<in> set (pg_calls ?s1)"
    by (simp add: createNote_answer_def selectNote_def fetch_call_def renderNoteList_def take_call_def createNote_def)
  then have "np_step E ?s1 (np_opened E note s)" unfolding np_opened_def Let_def by (rule np_step.selected)
  ultimately show ?thesis using np_step.click_new [of E s] by (meson converse_rtranclp_into_rtranclp rtranclp.rtrancl_refl)
qed

definition np_typed :: "np_env \<Rightarrow> Note \<Rightarrow> jstring \<Rightarrow> np_page \<Rightarrow> np_page" where
  "np_typed E note v s = handleEditorChange E ((np_opened E note s)\<lparr>nt_noteEditor := textarea_value v\<rparr>)"

lemma np_typed_run:
  assumes "\<not> nm_locked note"
  shows "(np_step E)\<^sup>*\<^sup>* s (np_typed E note v s)"
proof -
  have "np_step E (np_opened E note s) (np_typed E note v s)"
    unfolding np_typed_def by (rule np_step.type_body) (simp add: np_opened_fields assms)
  with np_opened_run show ?thesis by (rule rtranclp.rtrancl_into_rtrancl)
qed

theorem notepad_shows_state_witness:
  "np_shown plain_env (np_typed plain_env (sample_note ''1'') (js ''M'') (np_started plain_env None None 1000))"
  by (rule notepad_shows_state [where E = plain_env and stored = None and answer = None and w = 1000]) (simp add: np_typed_run)

theorem notepad_one_pending_save_witness:
  "length (pending_saves SaveNote
      (pg_timers (np_typed plain_env (sample_note ''1'') (js ''M'') (np_started plain_env None None 1000)))) \<le> 1
    \<and> set (pending_saves SaveNote
        (pg_timers (np_typed plain_env (sample_note ''1'') (js ''M'') (np_started plain_env None None 1000))))
      \<subseteq> set_option (nt_saveTimeout (np_typed plain_env (sample_note ''1'') (js ''M'') (np_started plain_env None None 1000)))"
  by (rule notepad_one_pending_save [where E = plain_env and stored = None and answer = None and w = 1000]) (simp add: np_typed_run)

subsection \<open>Changing the note before its save or its answer\<close>

lemma edit_timers:
  assumes "nt_currentNote s = Some n" and "\<not> nm_locked n"
  shows "(pg_nextTimer s, Own SaveNote, 500) \<in> set (pg_timers (handleEditorChange E s))"
  using assms
  by (simp add: handleEditorChange_def Let_def setTimeout_def clearTimeout_def renderPreview_def renderNoteList_def
      split: option.split)

lemma selected_fields:
  "nt_currentNote (selectNote_answer E (Fulfilled m) s) = Some m" "pg_timers (selectNote_answer E (Fulfilled m) s) = pg_timers s"
  "nt_author (selectNote_answer E (Fulfilled m) s) = nt_author s" "pg_requests (selectNote_answer E (Fulfilled m) s) = pg_requests s"
  by (simp_all add: selectNote_answer_def renderEditor_def renderPreview_def renderNoteList_def)

text \<open>
An edit is lost when another note is opened before its save: the answer of \<open>selectNote\<close> replaces the current note and
leaves the save timer, which then sends the new note as it was loaded. The only request that follows the edit does not
concern the edited note, and the page no longer has the edited text.
\<close>

theorem notepad_switch_loses_edit:
  assumes "nt_currentNote s = Some n" and "\<not> nm_locked n"
    and "s' = selectNote_answer E (Fulfilled m) (take_call j (handleEditorChange E s))"
  shows "(pg_nextTimer s, Own SaveNote, 500) \<in> set (pg_timers s') \<and> nt_currentNote s' = Some m
    \<and> pg_requests (np_timer_fires E (Own SaveNote) (take_timer (pg_nextTimer s) s'))
      = pg_requests s @ [json_request ''PUT'' (notes_url (nm_id m)) (note_body m (nt_author s))]"
  using edit_timers [OF assms(1,2), of E] edit_note(4) [OF assms(1,2), of E]
  by (simp add: assms(3) selected_fields requests_save) (simp add: take_call_def)

theorem notepad_switch_loses_edit_witness:
  "(pg_nextTimer sample_page, Own SaveNote, 500) \<in> set (pg_timers (selectNote_answer plain_env (Fulfilled (sample_note ''2''))
        (take_call 1 (handleEditorChange plain_env sample_page))))
    \<and> nt_currentNote (selectNote_answer plain_env (Fulfilled (sample_note ''2''))
        (take_call 1 (handleEditorChange plain_env sample_page))) = Some (sample_note ''2'')
    \<and> pg_requests (np_timer_fires plain_env (Own SaveNote) (take_timer (pg_nextTimer sample_page)
        (selectNote_answer plain_env (Fulfilled (sample_note ''2'')) (take_call 1 (handleEditorChange plain_env sample_page)))))
      = pg_requests sample_page
        @ [json_request ''PUT'' (notes_url (nm_id (sample_note ''2''))) (note_body (sample_note ''2'') (nt_author sample_page))]"
  by (rule notepad_switch_loses_edit [of _ "sample_note ''1''"]) simp_all

text \<open>
  The same happens to a lock: the answer marks the note that is current then, so when another note was opened in between
  the wrong one is shown as locked for ever, and the one the server locked is not.
\<close>

lemma lock_marks_other_note:
  assumes "nt_currentNote s = Some n"
  shows "pg_requests (lock_note s) = pg_requests s @ [simple_request ''POST'' (notes_url (nm_id n) @ js ''/lock'')]
    \<and> nt_currentNote (lock_note_answer E (Fulfilled ()) (selectNote_answer E (Fulfilled m) (lock_note s)))
      = Some (m\<lparr>nm_locked := True\<rparr>)"
  using assms selected_fields(1) [of E m]
  by (simp add: lock_note_def fetch_call_def lock_note_answer_def reply_ok_def)
    (simp add: np_showToast_def show_toast_html_def setTimeout_def renderEditor_def renderPreview_def renderNoteList_def)

text \<open>A save whose note was closed before its answer is reported as failed although the server has stored it.\<close>

lemma save_of_closed_note_reported_failed:
  assumes "nt_currentNote s = None" and "nt_notes s \<noteq> []" and "u \<noteq> []"
  shows "saveCurrentNote_answer (Fulfilled (Some u)) s = save_failed s"
  using assms by (simp add: saveCurrentNote_answer_def)

subsection \<open>Markup\<close>

text \<open>
The entries of the note list: whatever the title of a note contains, its entry has the same markup, that of the code
around the title, and between the two parts of it stands the escaped title, which a browser shows as it is.
\<close>

theorem notepad_list_markup_fixed:
  "\<exists>before after. \<forall>t. note_item_html E (note\<lparr>nm_title := t\<rparr>) = before @ escapeHTML (shown_title t) @ after
     \<and> markup (note_item_html E (note\<lparr>nm_title := t\<rparr>)) = markup (before @ after)
     \<and> html_text (escapeHTML (shown_title t)) = shown_title t"
  by (intro exI [of _ item_head] exI [of _ "item_tail E note"] allI)
    (simp add: note_item_html_def item_tail_def html_text_escapeHTML [of _ "[]", simplified])

text \<open>A toast, in contrast, takes its text as HTML: the markup in the name of the author of an update becomes the page's.\<close>

lemma toast_takes_markup:
  assumes "author \<noteq> nt_author s" and "map_option nm_id (nt_currentNote s) = Some nid"
  shows "markup (to_html (last (pg_toasts (handleRemoteUpdate E now nid title author s)))) = markup toast_icon @ markup author"
  using assms
  by (simp add: handleRemoteUpdate_def selectNote_def np_showToast_def show_toast_html_def Let_def)
    (simp add: markup_def markup_unit_def js_simps)

end
