(* ===== verification/Js_Uri.thy ===== *)
theory Js_Uri
  imports Js_Parse
begin

section \<open>\<open>encodeURIComponent\<close>\<close>

text \<open>
  The escaping the pages apply to a key before it goes into a URL, and its round trip with the \<open>decodeURIComponent\<close> of the
  servers. \<open>None\<close> is the \<open>URIError\<close> of a string with a lone surrogate.
\<close>

definition uri_plain :: "nat \<Rightarrow> bool" where
  "uri_plain n \<longleftrightarrow>
     (48 \<le> n \<and> n \<le> 57) \<or> (65 \<le> n \<and> n \<le> 90) \<or> (97 \<le> n \<and> n \<le> 122) \<or> n \<in> {45, 95, 46, 33, 126, 42, 39, 40, 41}"

definition upper_hex :: "nat \<Rightarrow> u16" where
  "upper_hex d = of_nat (if d < 10 then 48 + d else 55 + d)"

definition percent :: "byte \<Rightarrow> jstring" where
  "percent b = [37, upper_hex (unat b div 16), upper_hex (unat b mod 16)]"

definition uri_point :: "nat \<Rightarrow> jstring" where
  "uri_point n = (if uri_plain n then [of_nat n] else concat (map percent (utf8_of n)))"

definition encodeURIComponent :: "jstring \<Rightarrow> jstring option" where
  "encodeURIComponent s = (if well_formed s then Some (concat (map uri_point (code_points s))) else None)"

subsection \<open>The round trip\<close>

lemma small_unit: "n < 65536 \<Longrightarrow> (of_nat n :: u16) = numeral k \<longleftrightarrow> n = unat (numeral k :: u16)"
  by (metis of_nat_unat16 unat_of_nat16)

lemma unat_upper_hex: "d < 16 \<Longrightarrow> unat (upper_hex d) = (if d < 10 then 48 + d else 55 + d)"
  using unat_of_nat16 [of "48 + d"] unat_of_nat16 [of "55 + d"] by (simp add: upper_hex_def del: of_nat_add)

lemma hex_val_upper: "d < 16 \<Longrightarrow> hex_val (upper_hex d) = Some d"
  by (simp add: hex_val_def unat_upper_hex Let_def)

lemma percent_byte_percent: "percent_byte (percent b @ r) = Some (unat b, r)"
proof -
  have "unat b div 16 < 16" using unat8_less [of b] by (simp add: less_mult_imp_div_less)
  then show ?thesis by (simp add: percent_byte_def percent_def hex_val_upper)
qed

lemma percent_tail_percent: "percent_tail (length bs) (concat (map percent bs) @ r) = Some (map unat bs, r)"
  by (induction bs) (simp_all add: percent_byte_percent)

text \<open>The bytes of a scalar value are the ones the decoder looks for.\<close>

lemma lead_length:
  assumes "scalar n" and "utf8_of n = b # bs"
  shows "percent_length (unat b) = Some (length bs)"
proof -
  have s: "n < 0x110000" using assms(1) by (auto simp: scalar_def)
  consider "n < 0x80" | "0x80 \<le> n" "n < 0x800" | "0x800 \<le> n" "n < 0x10000" | "0x10000 \<le> n" by linarith
  then show ?thesis
  proof cases
    case 1
    with assms(2) show ?thesis by (auto simp: utf8_of_def percent_length_def)
  next
    case 2
    then have "n div 64 < 32" "192 + n div 64 < 256" by linarith+
    with 2 assms(2) show ?thesis by (auto simp: utf8_of_def percent_length_def simp del: of_nat_add)
  next
    case 3
    then have "n div 4096 < 16" by linarith
    with 3 assms(2) show ?thesis by (auto simp: utf8_of_def percent_length_def simp del: of_nat_add)
  next
    case 4
    then have "n div 262144 < 8" using s by linarith
    with 4 assms(2) show ?thesis by (auto simp: utf8_of_def percent_length_def simp del: of_nat_add)
  qed
qed

text \<open>The value \<open>code_point_of\<close> computes before its check.\<close>

lemma utf8_value:
  assumes "scalar n"
  shows "code_point_of (map unat (utf8_of n)) = Some n"
proof -
  have s: "n < 0x110000" and ns: "\<not> (0xD800 \<le> n \<and> n \<le> 0xDFFF)" using assms by (auto simp: scalar_def)
  consider "n < 0x80" | "0x80 \<le> n" "n < 0x800" | "0x800 \<le> n" "n < 0x10000" | "0x10000 \<le> n" by linarith
  then show ?thesis
  proof cases
    case 1
    then have "map unat (utf8_of n) = [n]" by (simp add: utf8_of_def)
    with ns s show ?thesis by (simp add: code_point_of_def Let_def)
  next
    case 2
    then have "192 + n div 64 < 256" by linarith
    with 2 have m: "map unat (utf8_of n) = [192 + n div 64, 128 + n mod 64]"
      using sextets [of n] by (simp add: utf8_of_def del: of_nat_add)
    with ns s show ?thesis by (simp add: code_point_of_def Let_def sextets del: of_nat_add)
  next
    case 3
    then have "n div 4096 < 16" by linarith
    with 3 have "map unat (utf8_of n) = [224 + n div 4096, 128 + n div 64 mod 64, 128 + n mod 64]"
      using sextets [of n] by (simp add: utf8_of_def del: of_nat_add)
    with ns s show ?thesis by (simp add: code_point_of_def Let_def sextets del: of_nat_add)
  next
    case 4
    then have "n div 262144 < 8" using s by linarith
    with 4 have "map unat (utf8_of n) = [240 + n div 262144, 128 + n div 4096 mod 64, 128 + n div 64 mod 64, 128 + n mod 64]"
      using sextets [of n] by (simp add: utf8_of_def del: of_nat_add)
    with ns s show ?thesis by (simp add: code_point_of_def Let_def sextets del: of_nat_add)
  qed
qed

lemma percent_char_utf8:
  assumes "scalar n"
  shows "percent_char (concat (map percent (utf8_of n)) @ r) = Some (units n, r)"
proof -
  obtain b bs where u: "utf8_of n = b # bs" by (cases "utf8_of n") simp_all
  then show ?thesis
    using lead_length [OF assms u] utf8_value [OF assms]
    by (simp add: percent_char_def percent_byte_percent percent_tail_percent)
qed

lemma decode_uri_point:
  assumes "scalar n"
  shows "decodeURIComponent (uri_point n @ r) = map_option ((@) (units n)) (decodeURIComponent r)"
proof (cases "uri_plain n")
  case True
  then have n: "n < 128" "n \<noteq> 37" by (auto simp: uri_plain_def)
  then have "(of_nat n :: u16) \<noteq> 37" by (simp add: small_unit)
  with True n show ?thesis
    by (simp add: uri_point_def decodeURIComponent.simps(2) units_def) (cases "decodeURIComponent r"; simp)
next
  case False
  obtain b bs where u: "utf8_of n = b # bs" by (cases "utf8_of n") simp_all
  then obtain x where x: "concat (map percent (utf8_of n)) @ r = 37 # x" by (simp add: percent_def)
  with False have "uri_point n @ r = 37 # x" by (simp add: uri_point_def)
  with percent_char_utf8 [OF assms, of r] x show ?thesis by (simp add: decodeURIComponent.simps(2))
qed

lemma decode_uri_points:
  "\<forall>n \<in> set ns. scalar n \<Longrightarrow> decodeURIComponent (concat (map uri_point ns)) = Some (of_code_points ns)"
  by (induction ns) (simp_all add: decode_uri_point of_code_points_def)

lemma decode_encode: "encodeURIComponent s = Some e \<Longrightarrow> decodeURIComponent e = Some s"
  using decode_uri_points [of "code_points s"] code_points_scalar toWellFormed_id [of s]
  by (auto simp: encodeURIComponent_def toWellFormed_def split: if_splits)

text \<open>What is encoded has no slash.\<close>

lemma upper_hex_not_slash: "d < 16 \<Longrightarrow> upper_hex d \<noteq> 47"
  using unat_upper_hex [of d] by (auto split: if_splits)

lemma percent_not_slash: "47 \<notin> set (percent b)"
proof -
  have "unat b div 16 < 16" using unat8_less [of b] by (simp add: less_mult_imp_div_less)
  then show ?thesis using upper_hex_not_slash [of "unat b div 16"] upper_hex_not_slash [of "unat b mod 16"]
    by (auto simp: percent_def)
qed

lemma encoded_no_slash: "encodeURIComponent s = Some e \<Longrightarrow> 47 \<notin> set e"
proof -
  have "47 \<notin> set (uri_point n)" for n
  proof (cases "uri_plain n")
    case True
    then have "n < 128" "n \<noteq> 47" by (auto simp: uri_plain_def)
    then have "(of_nat n :: u16) \<noteq> 47" by (simp add: small_unit)
    with True show ?thesis by (simp add: uri_point_def)
  qed (use percent_not_slash in \<open>auto simp: uri_point_def\<close>)
  then show "encodeURIComponent s = Some e \<Longrightarrow> 47 \<notin> set e"
    by (auto simp: encodeURIComponent_def split: if_splits)
qed

end
