(* ===== verification/Explorer_Page.thy ===== *)
theory Explorer_Page
  imports Page_Common Js_Uri
begin

section \<open>The page of the key-value explorer (\<open>apps/bun/src/explorer/app.ts\<close>)\<close>

text \<open>
  The state of the page, its elements and one definition per handler, cut at each \<open>await\<close> as in the notepad. Parameters,
  in the record \<open>xp_env\<close>: the case mappings of the browser, the texts of dates, and \<open>xe_clock n\<close>, the local time at the
  \<open>n\<close>-th call of \<open>logProcCall\<close>. The counters of the metadata are kept as the texts \<open>String\<close> makes of them.
\<close>

subsection \<open>State\<close>

record KeyEntry =
  ke_key :: jstring
  ke_locked :: bool

record KeyMeta =
  km_created :: jstring
  km_updated :: jstring
  km_writes :: jstring
  km_reads :: jstring

record key_data =
  kd_value :: "jstring option"
  kd_locked :: "bool option"
  kd_meta :: "KeyMeta option"

record xp_env =
  xe_lower :: "jstring \<Rightarrow> jstring"
  xe_upper :: "jstring \<Rightarrow> jstring"
  xe_date :: "int \<Rightarrow> jstring"
  xe_clock :: "nat \<Rightarrow> jstring"
  xe_protocol :: jstring
  xe_host :: jstring

datatype xp_timer = SaveValue | HideSaved | FocusKey
datatype xp_call = XLoad | XAdd jstring | XSelect jstring | XSave | XSaveBody | XLock | XDelete
datatype xp_action = LockKey | DeleteKey
datatype stat_chip = ReadsChip | WritesChip | KeysChip

record xp_page = "(xp_timer, xp_call) page" +
  xp_keys :: "KeyEntry list"
  xp_currentKey :: "jstring option"
  xp_currentValue :: jstring
  xp_currentMeta :: "KeyMeta option"
  xp_currentLocked :: bool
  xp_saveTimeout :: "nat option"
  xp_isSaving :: bool
  xp_filter :: jstring
  xp_statReads :: jstring
  xp_statWrites :: jstring
  xp_statKeys :: jstring
  xp_flashes :: "stat_chip list"
  xp_keyList :: shown_list
  xp_emptyHidden :: bool
  xp_detailHidden :: bool
  xp_detailKey :: jstring
  xp_valueEditor :: jstring
  xp_editorDisabled :: bool
  xp_badgeHidden :: bool
  xp_wormDisabled :: bool
  xp_deleteDisabled :: bool
  xp_saveIndicator :: indicator
  xp_metaTexts :: "jstring list"
  xp_procLog :: "jstring list"
  xp_procLogCount :: nat
  xp_dialog :: "xp_action dialog"
  xp_addActive :: bool
  xp_newKey :: jstring
  xp_newValue :: jstring
  xp_statUptime :: jstring
  xp_statWal :: jstring

definition dash :: jstring where
  "dash = [0x2014]"

definition blank_explorer :: xp_page where
  \<open>blank_explorer =
     \<lparr>pg_timers = [], pg_nextTimer = 1, pg_calls = [], pg_nextCall = 1, pg_requests = [], pg_toasts = [],
      pg_sockets = [], pg_reconnectAttempts = 0, pg_online = False, pg_connText = js ''Connecting...'',
      xp_keys = [], xp_currentKey = None, xp_currentValue = [], xp_currentMeta = None, xp_currentLocked = False,
      xp_saveTimeout = None, xp_isSaving = False, xp_filter = [], xp_statReads = js ''0'', xp_statWrites = js ''0'',
      xp_statKeys = js ''0'', xp_flashes = [], xp_keyList = ItemList [], xp_emptyHidden = False, xp_detailHidden = True,
      xp_detailKey = dash, xp_valueEditor = [], xp_editorDisabled = False, xp_badgeHidden = True, xp_wormDisabled = False,
      xp_deleteDisabled = False, xp_saveIndicator = \<lparr>in_visible = False, in_saving = False, in_saved = False\<rparr>,
      xp_metaTexts = [dash, dash, js ''0'', js ''0''], xp_procLog = [js ''<div class="proc-empty">''], xp_procLogCount = 0,
      xp_dialog = \<lparr>dl_active = False, dl_title = js ''Confirm'', dl_message = js ''Are you sure?'', dl_callback = None\<rparr>,
      xp_addActive = False, xp_newKey = [], xp_newValue = [], xp_statUptime = dash, xp_statWal = js ''0 B''\<rparr>\<close>

text \<open>\<open>!state.currentKey\<close> holds for no key and for the empty one; in a template \<open>null\<close> is printed.\<close>

definition selected_key :: "xp_page \<Rightarrow> jstring option" where
  "selected_key s = (case xp_currentKey s of Some k \<Rightarrow> if k \<noteq> [] then Some k else None | None \<Rightarrow> None)"

definition key_text :: "xp_page \<Rightarrow> jstring" where
  "key_text s = or_default (xp_currentKey s) (js ''null'')"

subsection \<open>Toasts, statistics and the log of procedure calls\<close>

definition xp_toast_icon :: jstring where
  \<open>xp_toast_icon = js ''<svg width="14" height="14" viewBox="0 0 24 24" fill="none" stroke="currentColor" stroke-width="2"><path d="M22 11.08V12a10 10 0 1 1-5.93-9.14"/><polyline points="22 4 12 14.01 9 11.01"/></svg> ''\<close>

definition xp_showToast :: "jstring \<Rightarrow> xp_page \<Rightarrow> xp_page" where
  "xp_showToast msg s = show_toast_html (xp_toast_icon @ escapeHTML msg) 3000 s"

definition flashChip :: "stat_chip \<Rightarrow> xp_page \<Rightarrow> xp_page" where
  "flashChip c s = s\<lparr>xp_flashes := xp_flashes s @ [c]\<rparr>"

definition updateKeyCount :: "xp_page \<Rightarrow> xp_page" where
  "updateKeyCount s = flashChip KeysChip (s\<lparr>xp_statKeys := digits_of (length (xp_keys s))\<rparr>)"

text \<open>\<open>animateStat\<close> on the text of a counter: the new text and whether the chip flashes.\<close>

definition animateStat :: "jstring \<Rightarrow> int \<Rightarrow> jstring \<times> bool" where
  "animateStat textContent v =
     (if parseInt (if textContent \<noteq> [] then textContent else js ''0'') \<noteq> Some v then (String_int v, True)
      else (textContent, False))"

definition handleStatsMsg :: "int option \<Rightarrow> int option \<Rightarrow> xp_page \<Rightarrow> xp_page" where
  "handleStatsMsg rd wr s =
     (let (r, fr) = animateStat (xp_statReads s) (or_default rd 0);
          s1 = (if fr then flashChip ReadsChip (s\<lparr>xp_statReads := r\<rparr>) else s);
          (w, fw) = animateStat (xp_statWrites s1) (or_default wr 0)
      in if fw then flashChip WritesChip (s1\<lparr>xp_statWrites := w\<rparr>) else s1)"

definition handleStatusMsg :: "jstring \<Rightarrow> xp_page \<Rightarrow> xp_page" where
  "handleStatusMsg v s =
     (let kv = parseKV v
      in s\<lparr>xp_statUptime := kv_or kv ''uptime_in_seconds'' (\<lambda>x. x @ js ''s'') dash,
           xp_statWal := kv_or kv ''wal_size'' (\<lambda>x. formatBytes (parseInt x)) (js ''0 B'')\<rparr>)"

definition proc_entry :: "jstring \<Rightarrow> jstring \<Rightarrow> jstring \<Rightarrow> bool \<Rightarrow> jstring" where
  \<open>proc_entry time cmd result isError =
     js ''
    <span class="proc-time">['' @ time @ js '']</span>
    <span class="proc-cmd">'' @ escapeHTML cmd @ js ''</span>
    <span class="proc-result '' @ (if isError then js ''error'' else []) @ js ''">'' @ escapeHTML ([0x2192, 32] @ result) @ js ''</span>
  ''\<close>

definition logProcCall :: "xp_env \<Rightarrow> jstring \<Rightarrow> jstring \<Rightarrow> xp_page \<Rightarrow> xp_page" where
  "logProcCall E cmd result s =
     (let children = (if xp_procLogCount s = 0 then [] else xp_procLog s)
            @ [proc_entry (xe_clock E (xp_procLogCount s)) cmd result False]
      in s\<lparr>xp_procLog := drop (length children - 50) children, xp_procLogCount := xp_procLogCount s + 1\<rparr>)"

subsection \<open>Rendering\<close>

definition key_item_html :: "xp_env \<Rightarrow> KeyEntry \<Rightarrow> jstring" where
  \<open>key_item_html E entry =
     js ''
      <div class="key-item-icon">'' @ escapeHTML (xe_upper E (take 1 (ke_key entry))) @ js ''</div>
      <div class="key-item-info">
        <div class="key-item-name">'' @ escapeHTML (ke_key entry) @ js ''</div>
        <div class="key-item-meta">'' @
     (if ke_locked entry then [0xD83D, 0xDD12] @ js '' WORM locked'' else js ''mutable'') @ js ''</div>
      </div>
      <span class="lock-icon '' @ (if ke_locked entry then [] else js ''hidden'') @ js ''">
        <svg width="12" height="12" viewBox="0 0 24 24" fill="none" stroke="currentColor" stroke-width="2"><rect x="3" y="11" width="18" height="11" rx="2" ry="2"/><path d="M7 11V7a5 5 0 0 1 10 0v4"/></svg>
      </span>
    ''\<close>

definition key_item :: "xp_env \<Rightarrow> jstring option \<Rightarrow> KeyEntry \<Rightarrow> list_item" where
  "key_item E current entry =
     \<lparr>li_id = ke_key entry,
      li_class = js ''key-item '' @ (if current = Some (ke_key entry) then js ''active'' else []),
      li_html = key_item_html E entry\<rparr>"

definition key_matches :: "xp_env \<Rightarrow> jstring \<Rightarrow> KeyEntry \<Rightarrow> bool" where
  "key_matches E f k \<longleftrightarrow> f = [] \<or> indexOf (xe_lower E (ke_key k)) f \<noteq> None"

definition no_keys_html :: "jstring \<Rightarrow> jstring" where
  \<open>no_keys_html f = js ''<li class="empty-list-state">''
     @ (if f \<noteq> [] then js ''No matching keys'' else js ''No keys yet. Click + to add one.'') @ js ''</li>''\<close>

definition renderKeyList :: "xp_env \<Rightarrow> xp_page \<Rightarrow> xp_page" where
  "renderKeyList E s =
     (let filtered = filter (key_matches E (xp_filter s)) (xp_keys s)
      in s\<lparr>xp_keyList :=
             (if filtered = [] then EmptyList (no_keys_html (xp_filter s))
              else ItemList (map (key_item E (xp_currentKey s)) filtered))\<rparr>)"

definition formatTimestamp :: "xp_env \<Rightarrow> jstring \<Rightarrow> jstring" where
  "formatTimestamp E v = (case parseInt v of None \<Rightarrow> dash | Some n \<Rightarrow> if n = 0 then dash else xe_date E n)"

definition renderMeta :: "xp_env \<Rightarrow> xp_page \<Rightarrow> xp_page" where
  "renderMeta E s =
     s\<lparr>xp_metaTexts :=
         (case xp_currentMeta s of
            None \<Rightarrow> [dash, dash, js ''0'', js ''0'']
          | Some m \<Rightarrow> [formatTimestamp E (km_created m), formatTimestamp E (km_updated m), km_writes m, km_reads m])\<rparr>"

definition renderDetail :: "xp_env \<Rightarrow> xp_page \<Rightarrow> xp_page" where
  "renderDetail E s =
     (case selected_key s of
        None \<Rightarrow> s\<lparr>xp_emptyHidden := False, xp_detailHidden := True\<rparr>
      | Some k \<Rightarrow>
          renderMeta E
            (s\<lparr>xp_emptyHidden := True, xp_detailHidden := False, xp_detailKey := k,
               xp_valueEditor := textarea_value (xp_currentValue s), xp_editorDisabled := xp_currentLocked s,
               xp_badgeHidden := (\<not> xp_currentLocked s), xp_wormDisabled := xp_currentLocked s,
               xp_deleteDisabled := xp_currentLocked s\<rparr>))"

subsection \<open>Loading, adding and selecting\<close>

definition keys_url :: "jstring \<Rightarrow> jstring" where
  "keys_url e = js ''/api/keys/'' @ e"

definition loadKeys :: "xp_page \<Rightarrow> xp_page" where
  "loadKeys s = fetch_call (simple_request ''GET'' (js ''/api/keys'')) XLoad s"

definition loadKeys_answer :: "xp_env \<Rightarrow> KeyEntry list reply \<Rightarrow> xp_page \<Rightarrow> xp_page" where
  "loadKeys_answer E r s =
     (case r of
        Fulfilled ks \<Rightarrow> updateKeyCount (renderKeyList E (s\<lparr>xp_keys := ks\<rparr>))
      | _ \<Rightarrow> xp_showToast (js ''Error loading keys'') s)"

definition selectKey :: "jstring \<Rightarrow> xp_page \<Rightarrow> xp_page" where
  "selectKey key s =
     (let s1 = s\<lparr>xp_currentKey := Some key\<rparr>
      in case encodeURIComponent key of
           None \<Rightarrow> xp_showToast (js ''Error loading key'') s1
         | Some e \<Rightarrow> fetch_call (simple_request ''GET'' (keys_url e)) (XSelect key) s1)"

definition selectKey_answer :: "xp_env \<Rightarrow> jstring \<Rightarrow> key_data reply \<Rightarrow> xp_page \<Rightarrow> xp_page" where
  "selectKey_answer E key r s =
     (case r of
        Fulfilled data \<Rightarrow>
          let shown = (case kd_value data of
                Some v \<Rightarrow> if v \<noteq> [] then [34] @ truncate_text v 40 @ [34] else js ''null''
              | None \<Rightarrow> js ''null'')
          in renderDetail E (renderKeyList E (logProcCall E (js ''EXEC kv_get '' @ key) shown
               (s\<lparr>xp_currentValue := or_default (kd_value data) [], xp_currentLocked := or_default (kd_locked data) False,
                  xp_currentMeta := kd_meta data\<rparr>)))
      | _ \<Rightarrow> xp_showToast (js ''Error loading key'') s)"

definition openAddDialog :: "xp_page \<Rightarrow> xp_page" where
  "openAddDialog s = setTimeout (Own FocusKey) 50 (s\<lparr>xp_newKey := [], xp_newValue := [], xp_addActive := True\<rparr>)"

definition closeAddDialog :: "xp_page \<Rightarrow> xp_page" where
  "closeAddDialog s = s\<lparr>xp_addActive := False\<rparr>"

definition handleAddKey :: "xp_page \<Rightarrow> xp_page" where
  "handleAddKey s =
     (let key = trim (xp_newKey s); v = xp_newValue s
      in if key = [] then xp_showToast (js ''Key cannot be empty'') s
         else fetch_call (json_request ''POST'' (js ''/api/keys'') (JObj [(js ''key'', JStr key), (js ''value'', JStr v)]))
                (XAdd key) s)"

definition add_failed :: "jstring \<Rightarrow> xp_page \<Rightarrow> xp_page" where
  "add_failed msg s = xp_showToast (if msg \<noteq> [] then msg else js ''Failed to create key'') s"

definition handleAddKey_answer :: "xp_env \<Rightarrow> jstring \<Rightarrow> unit reply \<Rightarrow> xp_page \<Rightarrow> xp_page" where
  "handleAddKey_answer E key r s =
     (case r of
        NotOk text \<Rightarrow> add_failed text s
      | BadBody msg \<Rightarrow> add_failed msg s
      | Rejected msg \<Rightarrow> add_failed msg s
      | Fulfilled _ \<Rightarrow>
          let s1 = closeAddDialog (logProcCall E (js ''EXEC kv_put '' @ key @ js '' <value>'') (js ''OK'') s);
              s2 = (if list_ex (\<lambda>k. ke_key k = key) (xp_keys s1) then s1
                    else s1\<lparr>xp_keys := \<lparr>ke_key = key, ke_locked = False\<rparr> # xp_keys s1\<rparr>)
          in xp_showToast (js ''Key '' @ [34] @ key @ [34] @ js '' created'')
               (selectKey key (updateKeyCount (renderKeyList E s2))))"

subsection \<open>Editing and saving\<close>

definition handleValueChange :: "xp_page \<Rightarrow> xp_page" where
  "handleValueChange s =
     (if selected_key s = None \<or> xp_currentLocked s then s
      else
        let s1 = clearTimeout (xp_saveTimeout s)
              (s\<lparr>xp_currentValue := xp_valueEditor s, xp_saveIndicator := indicate_saving\<rparr>)
        in setTimeout (Own SaveValue) 500 (s1\<lparr>xp_saveTimeout := Some (pg_nextTimer s1)\<rparr>))"

definition xp_save_failed :: "xp_page \<Rightarrow> xp_page" where
  "xp_save_failed s =
     (xp_showToast (js ''Save failed'') s)
       \<lparr>xp_saveIndicator := indicate_failed (xp_saveIndicator s), xp_isSaving := False\<rparr>"

definition saveCurrentValue :: "xp_page \<Rightarrow> xp_page" where
  "saveCurrentValue s =
     (case selected_key s of
        None \<Rightarrow> s
      | Some k \<Rightarrow>
          let s1 = s\<lparr>xp_isSaving := True\<rparr>
          in case encodeURIComponent k of
               None \<Rightarrow> xp_save_failed s1
             | Some e \<Rightarrow>
                 fetch_call (json_request ''PUT'' (keys_url e) (JObj [(js ''value'', JStr (xp_currentValue s))])) XSave s1)"

text \<open>Its two awaits: the answer, after which the call is logged, and the body with the metadata.\<close>

definition saveCurrentValue_answer :: "xp_env \<Rightarrow> bool \<Rightarrow> xp_page \<Rightarrow> xp_page" where
  "saveCurrentValue_answer E ok s =
     (if \<not> ok then xp_save_failed s
      else
        let s1 = logProcCall E (js ''EXEC kv_put '' @ key_text s @ js '' <value>'') (js ''OK'') s
        in s1\<lparr>pg_calls := pg_calls s1 @ [(pg_nextCall s1, XSaveBody)], pg_nextCall := pg_nextCall s1 + 1\<rparr>)"

definition saveCurrentValue_body :: "xp_env \<Rightarrow> KeyMeta option reply \<Rightarrow> xp_page \<Rightarrow> xp_page" where
  "saveCurrentValue_body E r s =
     (case r of
        Fulfilled meta \<Rightarrow>
          let s1 = (case meta of None \<Rightarrow> s | Some m \<Rightarrow> renderMeta E (s\<lparr>xp_currentMeta := Some m\<rparr>))
          in (setTimeout (Own HideSaved) 2000 (s1\<lparr>xp_saveIndicator := indicate_saved (xp_saveIndicator s1)\<rparr>))
               \<lparr>xp_isSaving := False\<rparr>
      | _ \<Rightarrow> xp_save_failed s)"

definition hide_saved :: "xp_page \<Rightarrow> xp_page" where
  "hide_saved s = s\<lparr>xp_saveIndicator := indicate_done (xp_isSaving s) (xp_saveIndicator s)\<rparr>"

subsection \<open>Locking and deleting\<close>

definition confirmWormLock :: "xp_page \<Rightarrow> xp_page" where
  "confirmWormLock s =
     (case selected_key s of
        None \<Rightarrow> s
      | Some k \<Rightarrow> s\<lparr>xp_dialog := showDialog (js ''WORM Lock Key'')
          (js ''This will permanently lock '' @ [34] @ k @ [34] @ js ''. The value can never be changed or deleted. Continue?'')
          LockKey\<rparr>)"

definition confirmDelete :: "xp_page \<Rightarrow> xp_page" where
  "confirmDelete s =
     (case selected_key s of
        None \<Rightarrow> s
      | Some k \<Rightarrow> s\<lparr>xp_dialog := showDialog (js ''Delete Key'')
          (js ''Delete '' @ [34] @ k @ [34] @ js ''? This action cannot be undone.'') DeleteKey\<rparr>)"

definition lock_key :: "xp_page \<Rightarrow> xp_page" where
  "lock_key s =
     (case encodeURIComponent (key_text s) of
        None \<Rightarrow> xp_showToast (js ''Failed to lock key'') s
      | Some e \<Rightarrow> fetch_call (simple_request ''POST'' (keys_url e @ js ''/lock'')) XLock s)"

definition delete_failed :: jstring where
  "delete_failed = js ''Cannot delete '' @ dash @ js '' key may be WORM-locked''"

definition delete_key :: "xp_page \<Rightarrow> xp_page" where
  "delete_key s =
     (case encodeURIComponent (key_text s) of
        None \<Rightarrow> xp_showToast delete_failed s
      | Some e \<Rightarrow> fetch_call (simple_request ''DELETE'' (keys_url e)) XDelete s)"

definition xp_dialog_confirm :: "xp_page \<Rightarrow> xp_page" where
  "xp_dialog_confirm s =
     (let s' = s\<lparr>xp_dialog := closeDialog (xp_dialog s)\<rparr>
      in case dl_callback (xp_dialog s) of
           None \<Rightarrow> s'
         | Some LockKey \<Rightarrow> lock_key s'
         | Some DeleteKey \<Rightarrow> delete_key s')"

definition lock_key_answer :: "xp_env \<Rightarrow> bool \<Rightarrow> xp_page \<Rightarrow> xp_page" where
  "lock_key_answer E ok s =
     (if \<not> ok then xp_showToast (js ''Failed to lock key'') s
      else
        xp_showToast ([34] @ key_text s @ [34] @ js '' is now WORM-locked'')
          (renderKeyList E (renderDetail E
            (s\<lparr>xp_currentLocked := True,
               xp_keys := update_first (\<lambda>k. Some (ke_key k) = xp_currentKey s) (\<lambda>k. k\<lparr>ke_locked := True\<rparr>) (xp_keys s)\<rparr>))))"

definition delete_key_answer :: "xp_env \<Rightarrow> bool \<Rightarrow> xp_page \<Rightarrow> xp_page" where
  "delete_key_answer E ok s =
     (if \<not> ok then xp_showToast delete_failed s
      else
        xp_showToast (js ''Key deleted'')
          (updateKeyCount (renderDetail E (renderKeyList E
            (s\<lparr>xp_keys := filter (\<lambda>k. Some (ke_key k) \<noteq> xp_currentKey s) (xp_keys s), xp_currentKey := None,
               xp_currentMeta := None\<rparr>)))))"

subsection \<open>Messages\<close>

datatype xp_message =
    XStatus jstring
  | XStats "int option" "int option"
  | XUpdated jstring
  | XDeleted jstring
  | XLocked jstring

definition int_field :: "json \<Rightarrow> string \<Rightarrow> int option" where
  "int_field j k = (case jfield j k of Inr (Some (JNum n)) \<Rightarrow> parseInt n | _ \<Rightarrow> None)"

definition read_xp_message :: "json \<Rightarrow> xp_message option" where
  "read_xp_message j =
     (case text_field j ''type'' of
        None \<Rightarrow> None
      | Some t \<Rightarrow>
          if t = js ''status'' then Some (XStatus (status_value j))
          else if t = js ''stats'' then Some (XStats (int_field j ''reads'') (int_field j ''writes''))
          else if t = js ''kv:updated'' then map_option XUpdated (text_field j ''key'')
          else if t = js ''kv:deleted'' then map_option XDeleted (text_field j ''key'')
          else if t = js ''kv:locked'' then map_option XLocked (text_field j ''key'')
          else None)"

definition key_updated :: "xp_env \<Rightarrow> jstring \<Rightarrow> xp_page \<Rightarrow> xp_page" where
  "key_updated E key s =
     (let s1 = (if list_ex (\<lambda>k. ke_key k = key) (xp_keys s) then s
                else updateKeyCount (renderKeyList E (s\<lparr>xp_keys := \<lparr>ke_key = key, ke_locked = False\<rparr> # xp_keys s\<rparr>)))
      in if xp_currentKey s = Some key then selectKey key s1 else s1)"

definition key_deleted :: "xp_env \<Rightarrow> jstring \<Rightarrow> xp_page \<Rightarrow> xp_page" where
  "key_deleted E key s =
     (let s1 = updateKeyCount (renderKeyList E (s\<lparr>xp_keys := filter (\<lambda>k. ke_key k \<noteq> key) (xp_keys s)\<rparr>))
      in if xp_currentKey s = Some key
         then xp_showToast (js ''Key '' @ [34] @ key @ [34] @ js '' was deleted remotely'')
                (renderDetail E (s1\<lparr>xp_currentKey := None\<rparr>))
         else s1)"

definition key_locked :: "xp_env \<Rightarrow> jstring \<Rightarrow> xp_page \<Rightarrow> xp_page" where
  "key_locked E key s =
     (let s1 = s\<lparr>xp_keys := update_first (\<lambda>k. ke_key k = key) (\<lambda>k. k\<lparr>ke_locked := True\<rparr>) (xp_keys s)\<rparr>;
          s2 = (if xp_currentKey s = Some key then renderDetail E (s1\<lparr>xp_currentLocked := True\<rparr>) else s1)
      in renderKeyList E s2)"

definition xp_onmessage :: "xp_env \<Rightarrow> jstring \<Rightarrow> xp_page \<Rightarrow> xp_page" where
  "xp_onmessage E data s =
     (case Option.bind (JSON_parse data) read_xp_message of
        None \<Rightarrow> s
      | Some (XStatus v) \<Rightarrow> handleStatusMsg v s
      | Some (XStats rd wr) \<Rightarrow> handleStatsMsg rd wr s
      | Some (XUpdated key) \<Rightarrow> key_updated E key s
      | Some (XDeleted key) \<Rightarrow> key_deleted E key s
      | Some (XLocked key) \<Rightarrow> key_locked E key s)"

subsection \<open>Keys, start and steps\<close>

definition xp_search :: "xp_env \<Rightarrow> jstring \<Rightarrow> xp_page \<Rightarrow> xp_page" where
  "xp_search E v s = renderKeyList E (s\<lparr>xp_filter := xe_lower E v\<rparr>)"

definition xp_key_escape :: "xp_page \<Rightarrow> xp_page" where
  "xp_key_escape s = closeAddDialog (s\<lparr>xp_dialog := closeDialog (xp_dialog s)\<rparr>)"

definition xp_key_save :: "xp_page \<Rightarrow> xp_page" where
  "xp_key_save s = saveCurrentValue ((clearTimeout (xp_saveTimeout s) s)\<lparr>xp_saveTimeout := None\<rparr>)"

definition xp_init :: "xp_env \<Rightarrow> xp_page \<Rightarrow> xp_page" where
  "xp_init E s = connectWebSocket (xe_protocol E) (xe_host E) (loadKeys s)"

fun xp_timer_fires :: "xp_env \<Rightarrow> xp_timer timer \<Rightarrow> xp_page \<Rightarrow> xp_page" where
  "xp_timer_fires E (ToastFade t) s = fade_toast t s"
| "xp_timer_fires E (ToastRemove t) s = remove_toast t s"
| "xp_timer_fires E Reconnect s = connectWebSocket (xe_protocol E) (xe_host E) s"
| "xp_timer_fires E (Own SaveValue) s = saveCurrentValue s"
| "xp_timer_fires E (Own HideSaved) s = hide_saved s"
| "xp_timer_fires E (Own FocusKey) s = s"

inductive xp_step :: "xp_env \<Rightarrow> xp_page \<Rightarrow> xp_page \<Rightarrow> bool" for E where
  type_value: "\<not> xp_editorDisabled s \<Longrightarrow> \<not> xp_detailHidden s \<Longrightarrow>
    xp_step E s (handleValueChange (s\<lparr>xp_valueEditor := textarea_value v\<rparr>))"
| type_search: "xp_step E s (xp_search E (input_value v) s)"
| type_new: "xp_step E s (s\<lparr>xp_newKey := input_value k, xp_newValue := textarea_value v\<rparr>)"
| key_save: "xp_step E s (xp_key_save s)"
| key_escape: "xp_step E s (xp_key_escape s)"
| click_add: "xp_step E s (openAddDialog s)"
| click_add_cancel: "xp_step E s (closeAddDialog s)"
| click_add_confirm: "xp_step E s (handleAddKey s)"
| click_item: "xp_keyList s = ItemList items \<Longrightarrow> li \<in> set items \<Longrightarrow> xp_step E s (selectKey (li_id li) s)"
| click_lock: "\<not> xp_wormDisabled s \<Longrightarrow> xp_step E s (confirmWormLock s)"
| click_delete: "\<not> xp_deleteDisabled s \<Longrightarrow> xp_step E s (confirmDelete s)"
| click_cancel: "xp_step E s (s\<lparr>xp_dialog := closeDialog (xp_dialog s)\<rparr>)"
| click_confirm: "xp_step E s (xp_dialog_confirm s)"
| timer: "(i, t, d) \<in> set (pg_timers s) \<Longrightarrow> xp_step E s (xp_timer_fires E t (take_timer i s))"
| loaded: "(i, XLoad) \<in> set (pg_calls s) \<Longrightarrow> xp_step E s (loadKeys_answer E rl (take_call i s))"
| added: "(i, XAdd key) \<in> set (pg_calls s) \<Longrightarrow> xp_step E s (handleAddKey_answer E key ra (take_call i s))"
| selected: "(i, XSelect key) \<in> set (pg_calls s) \<Longrightarrow> xp_step E s (selectKey_answer E key rs (take_call i s))"
| saved: "(i, XSave) \<in> set (pg_calls s) \<Longrightarrow> xp_step E s (saveCurrentValue_answer E ok (take_call i s))"
| saved_body: "(i, XSaveBody) \<in> set (pg_calls s) \<Longrightarrow> xp_step E s (saveCurrentValue_body E rm (take_call i s))"
| locked: "(i, XLock) \<in> set (pg_calls s) \<Longrightarrow> xp_step E s (lock_key_answer E ok (take_call i s))"
| deleted: "(i, XDelete) \<in> set (pg_calls s) \<Longrightarrow> xp_step E s (delete_key_answer E ok (take_call i s))"
| opened: "xp_step E s (ws_onopen s)"
| closed: "xp_step E s (ws_onclose s)"
| message: "xp_step E s (xp_onmessage E data s)"

end
