(* ===== verification/Explorer_Page_Correct.thy ===== *)
theory Explorer_Page_Correct
  imports Explorer_Page
begin

section \<open>What the explorer page saves and shows\<close>

text \<open>
  The pending save and the bounded log in every state the page can reach, the key in a URL on its way to the server, the
  list under the filter, and what selecting another key or the echo of a save does to an edit.
\<close>

subsection \<open>At most one save is pending\<close>

definition xp_view :: "xp_page \<Rightarrow> xp_timer debounce_view" where
  "xp_view s = (pg_timers s, pg_nextTimer s, xp_saveTimeout s)"

text \<open>Everything a handler may do without touching the view.\<close>

lemma xp_view_update [simp]:
  "xp_view (s\<lparr>xp_keys := ks\<rparr>) = xp_view s" "xp_view (s\<lparr>xp_currentKey := k\<rparr>) = xp_view s"
  "xp_view (s\<lparr>xp_currentValue := v\<rparr>) = xp_view s" "xp_view (s\<lparr>xp_currentMeta := m\<rparr>) = xp_view s"
  "xp_view (s\<lparr>xp_currentLocked := b\<rparr>) = xp_view s" "xp_view (s\<lparr>xp_isSaving := b\<rparr>) = xp_view s"
  "xp_view (s\<lparr>xp_filter := v\<rparr>) = xp_view s" "xp_view (s\<lparr>xp_dialog := dg\<rparr>) = xp_view s"
  "xp_view (s\<lparr>xp_saveIndicator := si\<rparr>) = xp_view s" "xp_view (s\<lparr>xp_valueEditor := v\<rparr>) = xp_view s"
  "xp_view (s\<lparr>xp_newKey := v\<rparr>) = xp_view s" "xp_view (s\<lparr>xp_newValue := v\<rparr>) = xp_view s"
  "xp_view (s\<lparr>xp_addActive := b\<rparr>) = xp_view s" "xp_view (s\<lparr>pg_calls := cs\<rparr>) = xp_view s"
  "xp_view (s\<lparr>pg_nextCall := n\<rparr>) = xp_view s"
  by (simp_all add: xp_view_def)

lemma xp_view_render [simp]:
  "xp_view (renderKeyList E s) = xp_view s" "xp_view (renderMeta E s) = xp_view s" "xp_view (renderDetail E s) = xp_view s"
  "xp_view (updateKeyCount s) = xp_view s" "xp_view (logProcCall E c r s) = xp_view s" "xp_view (closeAddDialog s) = xp_view s"
  by (simp_all add: xp_view_def renderKeyList_def renderMeta_def renderDetail_def updateKeyCount_def flashChip_def
      logProcCall_def closeAddDialog_def Let_def split: option.split)

lemma xp_view_plain [simp]:
  "xp_view (fetch_call q c s) = xp_view s" "xp_view (take_call i s) = xp_view s" "xp_view (remove_toast k s) = xp_view s"
  "xp_view (connectWebSocket p h s) = xp_view s" "xp_view (ws_onopen s) = xp_view s" "xp_view (hide_saved s) = xp_view s"
  "xp_view (handleStatusMsg v s) = xp_view s" "xp_view (handleStatsMsg rd wr s) = xp_view s"
  "xp_view (confirmWormLock s) = xp_view s" "xp_view (confirmDelete s) = xp_view s" "xp_view (xp_key_escape s) = xp_view s"
  "xp_view (xp_search E v s) = xp_view s" "xp_view (loadKeys s) = xp_view s"
  by (simp_all add: xp_view_def fetch_call_def take_call_def remove_toast_def connectWebSocket_def ws_onopen_def
      hide_saved_def handleStatusMsg_def handleStatsMsg_def flashChip_def confirmWormLock_def confirmDelete_def
      xp_key_escape_def closeAddDialog_def xp_search_def renderKeyList_def loadKeys_def Let_def
      split: option.split prod.split)

abbreviation xp_quiet :: "xp_page \<Rightarrow> xp_page \<Rightarrow> bool" where
  "xp_quiet s s' \<equiv> (debounce_change SaveValue)\<^sup>*\<^sup>* (xp_view s) (xp_view s')"

lemma xp_quiet_timeout: "xp_quiet s s' \<Longrightarrow> t \<noteq> Own SaveValue \<Longrightarrow> xp_quiet s (setTimeout t d s')"
  by (auto simp: xp_view_def setTimeout_def intro: changes_add)

lemma xp_quiet_toast: "xp_quiet s s' \<Longrightarrow> xp_quiet s (xp_showToast m s')"
  unfolding xp_showToast_def show_toast_html_def by (rule xp_quiet_timeout) (simp_all add: xp_view_def)

lemma xp_quiet_select: "xp_quiet s s' \<Longrightarrow> xp_quiet s (selectKey k s')"
  by (auto simp: selectKey_def Let_def intro!: xp_quiet_toast split: option.split)

lemma xp_quiet_save: "xp_quiet s s' \<Longrightarrow> xp_quiet s (saveCurrentValue s')"
  by (auto simp: saveCurrentValue_def xp_save_failed_def Let_def intro!: xp_quiet_toast split: option.split)

lemma xp_quiet_answers:
  "xp_quiet s (loadKeys_answer E rl s)" "xp_quiet s (selectKey_answer E key rs s)" "xp_quiet s (handleAddKey_answer E key ra s)"
  "xp_quiet s (saveCurrentValue_answer E ok s)" "xp_quiet s (saveCurrentValue_body E rm s)"
  "xp_quiet s (lock_key_answer E ok s)" "xp_quiet s (delete_key_answer E ok s)"
  by (auto simp: loadKeys_answer_def selectKey_answer_def handleAddKey_answer_def add_failed_def saveCurrentValue_answer_def
      saveCurrentValue_body_def xp_save_failed_def lock_key_answer_def delete_key_answer_def Let_def
      intro!: xp_quiet_toast xp_quiet_select xp_quiet_timeout split: reply.split option.split)

lemma xp_quiet_clicks:
  "xp_quiet s (openAddDialog s)" "xp_quiet s (handleAddKey s)" "xp_quiet s (xp_dialog_confirm s)"
  by (auto simp: openAddDialog_def handleAddKey_def xp_dialog_confirm_def lock_key_def delete_key_def Let_def
      intro!: xp_quiet_toast xp_quiet_timeout split: option.split xp_action.split)

lemma xp_quiet_message: "xp_quiet s (xp_onmessage E data s)"
  by (auto simp: xp_onmessage_def key_updated_def key_deleted_def key_locked_def Let_def
      intro!: xp_quiet_toast xp_quiet_select split: option.split xp_message.split)

lemma xp_quiet_timer: "xp_quiet s (xp_timer_fires E t (take_timer i s))"
proof -
  have d: "xp_quiet s (take_timer i s)"
    unfolding xp_view_def by (rule r_into_rtranclp) (simp add: take_timer_def clearTimeout_def drops)
  have "xp_quiet s (fade_toast k (take_timer i s))" for k
    unfolding fade_toast_def by (rule xp_quiet_timeout) (use d in \<open>simp_all add: xp_view_def\<close>)
  with d show ?thesis
    by (cases "(E, t, take_timer i s)" rule: xp_timer_fires.cases) (auto intro: xp_quiet_save)
qed

lemma xp_quiet_edit: "xp_quiet s (handleValueChange s)"
proof -
  have "xp_quiet s (setTimeout (Own SaveValue) 500
      ((clearTimeout (xp_saveTimeout s) s')\<lparr>xp_saveTimeout := Some (pg_nextTimer s')\<rparr>))"
    if "xp_view s' = xp_view s" for s'
    using that by (intro r_into_rtranclp)
      (simp add: xp_view_def timers_clearTimeout setTimeout_def
        rearms [of SaveValue "pg_timers s" "pg_nextTimer s" "xp_saveTimeout s" 500, simplified])
  from this [of "s\<lparr>xp_currentValue := xp_valueEditor s, xp_saveIndicator := indicate_saving\<rparr>"] show ?thesis
    by (simp add: handleValueChange_def Let_def)
qed

lemma xp_quiet_key_save: "xp_quiet s (xp_key_save s)"
  unfolding xp_key_save_def
  by (rule xp_quiet_save, rule r_into_rtranclp) (simp add: xp_view_def timers_clearTimeout disarms)

lemma xp_quiet_closed: "xp_quiet s (ws_onclose s)"
  unfolding ws_onclose_def Let_def by (rule xp_quiet_timeout) (simp_all add: xp_view_def)

lemma xp_step_quiet:
  assumes "xp_step E s s'"
  shows "xp_quiet s s'"
  using assms
proof cases
  case (type_value v)
  then show ?thesis using xp_quiet_edit [of "s\<lparr>xp_valueEditor := textarea_value v\<rparr>"] by simp
next
  case (loaded i rl)
  then show ?thesis using xp_quiet_answers(1) [of "take_call i s" E rl] by simp
next
  case (added i key ra)
  then show ?thesis using xp_quiet_answers(3) [of "take_call i s" E key ra] by simp
next
  case (selected i key rs)
  then show ?thesis using xp_quiet_answers(2) [of "take_call i s" E key rs] by simp
next
  case (saved i ok)
  then show ?thesis using xp_quiet_answers(4) [of "take_call i s" E ok] by simp
next
  case (saved_body i rm)
  then show ?thesis using xp_quiet_answers(5) [of "take_call i s" E rm] by simp
next
  case (locked i ok)
  then show ?thesis using xp_quiet_answers(6) [of "take_call i s" E ok] by simp
next
  case (deleted i ok)
  then show ?thesis using xp_quiet_answers(7) [of "take_call i s" E ok] by simp
qed (simp_all add: xp_quiet_key_save xp_quiet_clicks xp_quiet_timer xp_quiet_closed xp_quiet_message xp_quiet_select)

interpretation xp_debounce: debounced_page "xp_step E" xp_view SaveValue for E
  by unfold_locales (rule xp_step_quiet)

subsection \<open>The log of procedure calls\<close>

definition log_ok :: "xp_page \<Rightarrow> bool" where
  "log_ok s \<longleftrightarrow> length (xp_procLog s) \<le> 50"

lemma log_ok_logged [simp]: "log_ok (logProcCall E c r s)"
  by (simp add: log_ok_def logProcCall_def Let_def)

lemma log_ok_update [simp]:
  "log_ok (s\<lparr>xp_keys := ks\<rparr>) = log_ok s" "log_ok (s\<lparr>xp_currentKey := k\<rparr>) = log_ok s"
  "log_ok (s\<lparr>xp_currentValue := v\<rparr>) = log_ok s" "log_ok (s\<lparr>xp_currentMeta := m\<rparr>) = log_ok s"
  "log_ok (s\<lparr>xp_currentLocked := b\<rparr>) = log_ok s" "log_ok (s\<lparr>xp_isSaving := b\<rparr>) = log_ok s"
  "log_ok (s\<lparr>xp_dialog := dg\<rparr>) = log_ok s" "log_ok (s\<lparr>xp_saveIndicator := si\<rparr>) = log_ok s"
  "log_ok (s\<lparr>xp_valueEditor := v\<rparr>) = log_ok s" "log_ok (s\<lparr>xp_newKey := v\<rparr>) = log_ok s"
  "log_ok (s\<lparr>xp_newValue := v\<rparr>) = log_ok s" "log_ok (s\<lparr>xp_addActive := b\<rparr>) = log_ok s"
  "log_ok (s\<lparr>pg_calls := cs\<rparr>) = log_ok s" "log_ok (s\<lparr>pg_nextCall := n\<rparr>) = log_ok s"
  "log_ok (s\<lparr>xp_saveTimeout := h\<rparr>) = log_ok s"
  by (simp_all add: log_ok_def)

lemma log_ok_shared [simp]:
  "log_ok (setTimeout t d s) = log_ok s" "log_ok (clearTimeout h s) = log_ok s" "log_ok (fetch_call q c s) = log_ok s"
  "log_ok (take_call i s) = log_ok s" "log_ok (take_timer i s) = log_ok s" "log_ok (xp_showToast m s) = log_ok s"
  "log_ok (remove_toast k s) = log_ok s" "log_ok (fade_toast k s) = log_ok s" "log_ok (connectWebSocket p hh s) = log_ok s"
  "log_ok (ws_onopen s) = log_ok s" "log_ok (ws_onclose s) = log_ok s"
  by (simp_all add: log_ok_def setTimeout_def clearTimeout_def fetch_call_def take_call_def take_timer_def
      xp_showToast_def show_toast_html_def remove_toast_def fade_toast_def connectWebSocket_def ws_onopen_def
      ws_onclose_def Let_def split: option.split)

lemma log_ok_render [simp]:
  "log_ok (renderKeyList E s) = log_ok s" "log_ok (renderMeta E s) = log_ok s" "log_ok (renderDetail E s) = log_ok s"
  "log_ok (updateKeyCount s) = log_ok s" "log_ok (closeAddDialog s) = log_ok s" "log_ok (handleStatusMsg v s) = log_ok s"
  "log_ok (handleStatsMsg rd wr s) = log_ok s" "log_ok (hide_saved s) = log_ok s" "log_ok (xp_search E v s) = log_ok s"
  by (simp_all add: log_ok_def renderKeyList_def renderMeta_def renderDetail_def updateKeyCount_def flashChip_def
      closeAddDialog_def handleStatusMsg_def handleStatsMsg_def hide_saved_def xp_search_def Let_def
      split: option.split prod.split)

lemma log_ok_select [simp]: "log_ok (selectKey k s) = log_ok s"
  by (simp add: selectKey_def Let_def split: option.split)

lemma log_ok_save [simp]: "log_ok (saveCurrentValue s) = log_ok s"
  by (simp add: saveCurrentValue_def xp_save_failed_def Let_def split: option.split)

lemma log_ok_answers:
  assumes "log_ok s"
  shows "log_ok (loadKeys_answer E rl s)" and "log_ok (selectKey_answer E key rs s)"
    and "log_ok (handleAddKey_answer E key ra s)" and "log_ok (saveCurrentValue_answer E ok s)"
    and "log_ok (saveCurrentValue_body E rm s)" and "log_ok (lock_key_answer E ok s)" and "log_ok (delete_key_answer E ok s)"
  using assms
  by (simp_all add: loadKeys_answer_def selectKey_answer_def handleAddKey_answer_def add_failed_def
      saveCurrentValue_answer_def saveCurrentValue_body_def xp_save_failed_def lock_key_answer_def delete_key_answer_def
      Let_def split: reply.split option.split)

lemma log_ok_clicks [simp]:
  "log_ok (openAddDialog s) = log_ok s" "log_ok (handleAddKey s) = log_ok s" "log_ok (xp_dialog_confirm s) = log_ok s"
  "log_ok (confirmWormLock s) = log_ok s" "log_ok (confirmDelete s) = log_ok s" "log_ok (xp_key_escape s) = log_ok s"
  "log_ok (xp_key_save s) = log_ok s" "log_ok (handleValueChange s) = log_ok s"
  by (simp_all add: openAddDialog_def handleAddKey_def xp_dialog_confirm_def lock_key_def delete_key_def confirmWormLock_def
      confirmDelete_def xp_key_escape_def xp_key_save_def handleValueChange_def Let_def split: option.split xp_action.split)

lemma log_ok_message: "log_ok s \<Longrightarrow> log_ok (xp_onmessage E data s)"
  by (simp add: xp_onmessage_def key_updated_def key_deleted_def key_locked_def Let_def split: option.split xp_message.split)

lemma xp_step_log:
  assumes "xp_step E s s'" and "log_ok s"
  shows "log_ok s'"
  using assms
proof (cases rule: xp_step.cases)
  case (timer i t d)
  then show ?thesis using assms(2)
    by (cases "(E, t, take_timer i s)" rule: xp_timer_fires.cases) auto
qed (simp_all add: log_ok_answers log_ok_message)

text \<open>
In every state the page can reach at most one save is waiting, the one \<open>saveTimeout\<close> refers to, and the log of procedure
calls has at most fifty entries.
\<close>

theorem explorer_page_bounded:
  assumes "(xp_step E)\<^sup>*\<^sup>* (xp_init E blank_explorer) s"
  shows "length (pending_saves SaveValue (pg_timers s)) \<le> 1
    \<and> set (pending_saves SaveValue (pg_timers s)) \<subseteq> set_option (xp_saveTimeout s) \<and> length (xp_procLog s) \<le> 50"
proof -
  have "log_ok s" using assms
  proof (induction rule: rtranclp_induct)
    case base
    show ?case by (simp add: xp_init_def loadKeys_def) (simp add: log_ok_def blank_explorer_def)
  next
    case (step s s')
    then show ?case using xp_step_log by blast
  qed
  moreover have "xp_view (xp_init E blank_explorer) = ([], 1, None)"
    by (simp add: xp_init_def) (simp add: xp_view_def blank_explorer_def)
  then have "debounced SaveValue (xp_view (xp_init E blank_explorer))" by (simp add: debounced_def)
  from xp_debounce.one_pending_save [OF assms this]
  have "length (pending_saves SaveValue (pg_timers s)) \<le> 1
    \<and> set (pending_saves SaveValue (pg_timers s)) \<subseteq> set_option (xp_saveTimeout s)" by (simp add: xp_view_def)
  ultimately show ?thesis by (simp add: log_ok_def)
qed

subsection \<open>The key in the URL\<close>

lemma encoded_not_Nil: "encodeURIComponent k = Some e \<Longrightarrow> k \<noteq> [] \<Longrightarrow> e \<noteq> []"
  using decode_encode [of k e] by auto

lemma match_key_url:
  assumes "e \<noteq> []" and "47 \<notin> set e"
  shows "match_segment (js ''/api/keys/'') [] (keys_url e) = Some e"
    and "match_segment (js ''/api/keys/'') [] (keys_url e @ js ''/lock'') = None"
    and "match_segment (js ''/api/keys/'') (js ''/lock'') (keys_url e @ js ''/lock'') = Some e"
proof -
  have t: "takeWhile (\<lambda>c. c \<noteq> 47) (e @ js ''/lock'') = e" "dropWhile (\<lambda>c. c \<noteq> 47) (e @ js ''/lock'') = js ''/lock''"
    using assms(2) by (induction e) (auto simp: js_simps)
  show "match_segment (js ''/api/keys/'') [] (keys_url e) = Some e"
    using assms by (cases e) (auto simp: match_segment_def keys_url_def startsWith_def Let_def takeWhile_eq_all_conv)
  show "match_segment (js ''/api/keys/'') [] (keys_url e @ js ''/lock'') = None"
    "match_segment (js ''/api/keys/'') (js ''/lock'') (keys_url e @ js ''/lock'') = Some e"
    using t assms(1) by (simp_all add: match_segment_def keys_url_def startsWith_def) (simp add: js_simps)
qed

lemma keys_url_routes:
  "keys_url e \<noteq> js ''/ws''" "keys_url e \<noteq> js ''/''" "keys_url e \<noteq> js ''/styles.css''" "keys_url e \<noteq> js ''/app.js''"
  "keys_url e \<noteq> js ''/api/keys''"
  "keys_url e @ r \<noteq> js ''/ws''" "keys_url e @ r \<noteq> js ''/''" "keys_url e @ r \<noteq> js ''/styles.css''"
  "keys_url e @ r \<noteq> js ''/app.js''" "keys_url e @ r \<noteq> js ''/api/keys''"
  by (simp_all add: keys_url_def js_simps)

lemma ex_fetch_key:
  assumes "encodeURIComponent k = Some e" and "k \<noteq> []"
  shows "ex_fetch msg unb64 buffer_of send up (sent_request (simple_request ''GET'' (keys_url e))) = ex_read msg unb64 send k"
    and "ex_fetch msg unb64 buffer_of send up (sent_request (json_request ''PUT'' (keys_url e) j))
      = ex_update msg unb64 buffer_of send k (stringify j)"
    and "ex_fetch msg unb64 buffer_of send up (sent_request (simple_request ''DELETE'' (keys_url e))) = ex_delete msg unb64 send k"
    and "ex_fetch msg unb64 buffer_of send up (sent_request (simple_request ''POST'' (keys_url e @ js ''/lock'')))
      = ex_lock msg unb64 send k"
  using match_key_url [OF encoded_not_Nil [OF assms] encoded_no_slash [OF assms(1)]] decode_encode [OF assms(1)]
  by (simp_all add: ex_fetch_def sent_request_def simple_request_def json_request_def keys_url_routes)

lemma xp_requests [simp]:
  "pg_requests (xp_showToast m s) = pg_requests s" "pg_requests (take_timer i s) = pg_requests s"
  "selected_key (take_timer i s) = selected_key s" "xp_currentValue (take_timer i s) = xp_currentValue s"
  by (simp_all add: xp_showToast_def take_timer_def clearTimeout_def selected_key_def)

lemma requests_selectKey:
  "encodeURIComponent k = Some e \<Longrightarrow> pg_requests (selectKey k s) = pg_requests s @ [simple_request ''GET'' (keys_url e)]"
  by (simp add: selectKey_def)

lemma requests_saveCurrentValue:
  "selected_key s = Some k \<Longrightarrow> encodeURIComponent k = Some e \<Longrightarrow> pg_requests (saveCurrentValue s)
     = pg_requests s @ [json_request ''PUT'' (keys_url e) (JObj [(js ''value'', JStr (xp_currentValue s))])]"
  by (simp add: saveCurrentValue_def)


abbreviation sample_explorer :: "string \<Rightarrow> xp_page" where
  "sample_explorer k \<equiv> blank_explorer\<lparr>xp_currentKey := Some (js k), xp_valueEditor := js ''new''\<rparr>"

lemma encode_samples: "encodeURIComponent (js ''a/b'') = Some (js ''a%2Fb'')" "encodeURIComponent (js ''c'') = Some (js ''c'')"
  by (simp_all add: encodeURIComponent_def js_simps is_high_def is_low_def uri_point_def uri_plain_def utf8_of_def percent_def
      upper_hex_def)


subsection \<open>Selecting another key before the save\<close>

lemma value_edit:
  assumes "selected_key s = Some k" and "\<not> xp_currentLocked s"
  shows "(pg_nextTimer s, Own SaveValue, 500) \<in> set (pg_timers (handleValueChange s))"
    and "pg_requests (handleValueChange s) = pg_requests s" and "xp_currentValue (handleValueChange s) = xp_valueEditor s"
    and "xp_currentKey (handleValueChange s) = xp_currentKey s"
  using assms by (simp_all add: handleValueChange_def Let_def setTimeout_def clearTimeout_def split: option.split)

lemma selected_fields_key:
  "encodeURIComponent k = Some e \<Longrightarrow> k \<noteq> [] \<Longrightarrow> selected_key (selectKey k s) = Some k"
  "encodeURIComponent k = Some e \<Longrightarrow> xp_currentValue (selectKey k s) = xp_currentValue s"
  "encodeURIComponent k = Some e \<Longrightarrow> pg_timers (selectKey k s) = pg_timers s"
  by (simp_all add: selectKey_def selected_key_def fetch_call_def)

text \<open>
C36: a value is saved under the wrong key: \<open>selectKey\<close> makes the new key current at once and keeps the old value until the
answer, so the save timer of an edit that fires in between sends the edited value to the key selected after it.
\<close>

theorem explorer_switch_saves_under_new_key:
  assumes "selected_key s = Some k" and "\<not> xp_currentLocked s" and "k' \<noteq> []" and "encodeURIComponent k' = Some e'"
    and "s' = selectKey k' (handleValueChange s)"
  shows "(pg_nextTimer s, Own SaveValue, 500) \<in> set (pg_timers s')
    \<and> pg_requests (xp_timer_fires E (Own SaveValue) (take_timer (pg_nextTimer s) s'))
      = pg_requests s @ [simple_request ''GET'' (keys_url e'),
          json_request ''PUT'' (keys_url e') (JObj [(js ''value'', JStr (xp_valueEditor s))])]"
  using value_edit [OF assms(1,2)] selected_fields_key [OF assms(4)] assms(3)
  by (simp add: assms(5) requests_saveCurrentValue [OF _ assms(4)] requests_selectKey [OF assms(4)])

abbreviation plain_xp_env :: xp_env where
  "plain_xp_env \<equiv> \<lparr>xe_lower = toLowerCase, xe_upper = toUpperCase, xe_date = String_int, xe_clock = (\<lambda>_. []),
     xe_protocol = js ''http:'', xe_host = js ''h''\<rparr>"

theorem explorer_switch_saves_under_new_key_witness:
  "(pg_nextTimer (sample_explorer ''a''), Own SaveValue, 500)
      \<in> set (pg_timers (selectKey (js ''c'') (handleValueChange (sample_explorer ''a''))))
    \<and> pg_requests (xp_timer_fires plain_xp_env (Own SaveValue) (take_timer (pg_nextTimer (sample_explorer ''a''))
        (selectKey (js ''c'') (handleValueChange (sample_explorer ''a'')))))
      = pg_requests (sample_explorer ''a'') @ [simple_request ''GET'' (keys_url (js ''c'')),
          json_request ''PUT'' (keys_url (js ''c'')) (JObj [(js ''value'', JStr (xp_valueEditor (sample_explorer ''a'')))])]"
  by (rule explorer_switch_saves_under_new_key [OF _ _ _ encode_samples(2), of _ "js ''a''"])
    (simp_all add: selected_key_def blank_explorer_def)

subsection \<open>The echo of a save\<close>

text \<open>
The page reloads its key on every update event, those of its own saves included, and the answer overwrites what was typed
in the meantime: the editor shows the stored value again, and the save timer of the typing sends that value.
\<close>

theorem explorer_echo_drops_typing:
  assumes "selected_key s = Some k" and "\<not> xp_currentLocked s" and "encodeURIComponent k = Some e"
    and "s' = selectKey_answer E k (Fulfilled \<lparr>kd_value = Some v, kd_locked = Some False, kd_meta = m\<rparr>)
      (take_call j (handleValueChange s))"
  shows "(j', XSelect k) \<in> set (pg_calls (key_updated E k (s0\<lparr>xp_currentKey := Some k, pg_nextCall := j'\<rparr>)))
    \<and> xp_valueEditor s' = textarea_value v \<and> (pg_nextTimer s, Own SaveValue, 500) \<in> set (pg_timers s')
    \<and> pg_requests (xp_timer_fires E (Own SaveValue) (take_timer (pg_nextTimer s) s'))
      = pg_requests s @ [json_request ''PUT'' (keys_url e) (JObj [(js ''value'', JStr v)])]"
proof -
  have k: "xp_currentKey s = Some k" "k \<noteq> []"
    using assms(1) by (auto simp: selected_key_def split: option.splits if_splits)
  have c: "(j', XSelect k) \<in> set (pg_calls (key_updated E k (s0\<lparr>xp_currentKey := Some k, pg_nextCall := j'\<rparr>)))"
    by (simp add: key_updated_def Let_def selectKey_def assms(3) fetch_call_def renderKeyList_def updateKeyCount_def flashChip_def)
  let ?t = "take_call j (handleValueChange s)"
  have t: "xp_currentKey ?t = Some k" "pg_requests ?t = pg_requests s"
    "(pg_nextTimer s, Own SaveValue, 500) \<in> set (pg_timers ?t)"
    using value_edit [OF assms(1,2)] k(1) by (simp_all add: take_call_def)
  then have s': "selected_key s' = Some k" "xp_currentValue s' = v" "xp_valueEditor s' = textarea_value v"
    "pg_requests s' = pg_requests s" "pg_timers s' = pg_timers ?t"
    using k(2) by (simp_all add: assms(4) selectKey_answer_def Let_def renderDetail_def renderMeta_def renderKeyList_def
        logProcCall_def selected_key_def)
  with t(3) c show ?thesis by (simp add: requests_saveCurrentValue [OF _ assms(3)])
qed

subsection \<open>The list\<close>

text \<open>The list shows the keys that match the filter, in the order of the page, and only they can be clicked.\<close>

lemma key_list_shows_matches:
  "shown_ids (xp_keyList (renderKeyList E s)) = map ke_key (filter (key_matches E (xp_filter s)) (xp_keys s))"
  by (simp add: renderKeyList_def shown_ids_def key_item_def Let_def)

text \<open>Neither a key nor the texts of a logged call bring markup into the page.\<close>

lemma explorer_markup_fixed:
  "markup (key_item_html E (entry\<lparr>ke_key := k\<rparr>)) = markup (key_item_html E entry)"
  "markup (proc_entry time cmd result b) = markup (proc_entry time [] [] b)"
  by (simp_all only: key_item_html_def proc_entry_def markup_append markup_escapeHTML KeyEntry.simps append.simps)
    simp_all

theorem explorer_page_bounded_witness:
  "length (pending_saves SaveValue (pg_timers (ws_onclose (xp_init plain_xp_env blank_explorer)))) \<le> 1
    \<and> set (pending_saves SaveValue (pg_timers (ws_onclose (xp_init plain_xp_env blank_explorer))))
      \<subseteq> set_option (xp_saveTimeout (ws_onclose (xp_init plain_xp_env blank_explorer)))
    \<and> length (xp_procLog (ws_onclose (xp_init plain_xp_env blank_explorer))) \<le> 50"
  by (rule explorer_page_bounded [where E = plain_xp_env]) (simp add: xp_step.closed r_into_rtranclp)

end
