(* ===== verification/Ui_Mesh.thy ===== *)
theory Ui_Mesh
  imports Ui_Cluster Page_Common
begin

section \<open>The mesh of the dashboard page (\<open>apps/bun/src/ui/mesh.ts\<close>)\<close>

text \<open>
  What \<open>MeshCanvas\<close> knows of the cluster: its nodes, in the order of the \<open>Map\<close>, the connections it draws, and whether
  its loop runs. Positions, animation and drawing are left out.
\<close>

datatype mesh_state = NodeAlive | NodeSuspected | NodeDead

record MeshNode =
  mn_id :: jstring
  mn_meshIp :: jstring
  mn_state :: mesh_state
  mn_isSelf :: bool

record MeshCanvas =
  me_nodes :: "MeshNode list"
  me_connections :: "(jstring \<times> jstring) list"
  me_selfIp :: jstring
  me_isRunning :: bool

definition new_mesh :: MeshCanvas where
  "new_mesh = \<lparr>me_nodes = [], me_connections = [], me_selfIp = [], me_isRunning = False\<rparr>"

definition addOrUpdateNode :: "jstring \<Rightarrow> jstring \<Rightarrow> mesh_state \<Rightarrow> bool \<Rightarrow> MeshNode list \<Rightarrow> MeshNode list" where
  "addOrUpdateNode nid meshIp st isSelf nodes =
     (if nid \<in> mn_id ` set nodes
      then map (\<lambda>n. if mn_id n = nid then n\<lparr>mn_state := st, mn_meshIp := meshIp\<rparr> else n) nodes
      else nodes @ [\<lparr>mn_id = nid, mn_meshIp = meshIp, mn_state = st, mn_isSelf = isSelf\<rparr>])"

definition peer_id :: "peer \<Rightarrow> jstring" where
  "peer_id p = js ''peer-'' @ pr_meshIp p"

definition peer_state :: "peer \<Rightarrow> mesh_state" where
  "peer_state p =
     (if pr_state p = js ''alive'' then NodeAlive
      else if pr_state p = js ''suspected'' then NodeSuspected
      else NodeDead)"

definition self_id :: jstring where
  "self_id = js ''self''"

text \<open>The nodes made up from the counts when the peers are not known: their number, identifiers, addresses and states.\<close>

definition synthetic_count :: "int option \<Rightarrow> int option \<Rightarrow> int option \<Rightarrow> nat" where
  "synthetic_count alive suspected dead =
     (case (alive, suspected, dead) of (Some a, Some b, Some c) \<Rightarrow> nat (a + b + c) | _ \<Rightarrow> 0)"

definition synthetic_state :: "int option \<Rightarrow> int option \<Rightarrow> nat \<Rightarrow> mesh_state" where
  "synthetic_state alive suspected i =
     (case (alive, suspected) of
        (Some a, Some b) \<Rightarrow> if int i < a then NodeAlive else if int i < a + b then NodeSuspected else NodeDead
      | _ \<Rightarrow> NodeDead)"

definition synthetic_ip :: "nat \<Rightarrow> jstring" where
  "synthetic_ip i = js ''10.99.'' @ digits_of (i div 255 + 1) @ [46] @ digits_of (i mod 255 + 1)"

definition remove_missing :: "jstring set \<Rightarrow> jstring set \<Rightarrow> MeshNode list \<Rightarrow> MeshNode list" where
  "remove_missing existing current nodes = filter (\<lambda>n. mn_id n \<notin> existing \<or> mn_id n \<in> current) nodes"

definition updateFromStatus :: "text_map \<Rightarrow> peer list \<Rightarrow> MeshCanvas \<Rightarrow> MeshCanvas" where
  "updateFromStatus kv peers m =
     (let total = parseInt (or_text kv ''cluster_nodes'' (js ''0''));
          enabled = (kv (js ''cluster_enabled'') \<noteq> Some (js ''0''))
      in if \<not> enabled \<or> total = Some 0
         then m\<lparr>me_nodes := addOrUpdateNode self_id (js ''127.0.0.1'') NodeAlive True [], me_connections := []\<rparr>
         else
           let existing = mn_id ` set (me_nodes m);
               selfIp = or_text kv ''mesh_ip'' (js ''10.99.x.x'');
               nodes = addOrUpdateNode self_id selfIp NodeAlive True (me_nodes m)
           in if peers \<noteq> [] then
                let nodes = foldl (\<lambda>ns p. addOrUpdateNode (peer_id p) (pr_meshIp p) (peer_state p) False ns) nodes peers;
                    nodes = remove_missing existing (insert self_id (peer_id ` set peers)) nodes
                in m\<lparr>me_nodes := nodes, me_selfIp := selfIp,
                     me_connections := map (\<lambda>p. (self_id, peer_id p))
                       (filter (\<lambda>p. pr_wormwire p = js ''connected'' \<and> peer_id p \<in> mn_id ` set nodes) peers)\<rparr>
              else
                let alive = parseInt (or_text kv ''cluster_alive'' (js ''0''));
                    suspected = parseInt (or_text kv ''cluster_suspected'' (js ''0''));
                    dead = parseInt (or_text kv ''cluster_dead'' (js ''0''));
                    ids = map (\<lambda>i. js ''peer-'' @ digits_of i) [0..<synthetic_count alive suspected dead];
                    nodes = foldl (\<lambda>ns i. addOrUpdateNode (js ''peer-'' @ digits_of i) (synthetic_ip i)
                        (synthetic_state alive suspected i) False ns) nodes [0..<synthetic_count alive suspected dead];
                    nodes = remove_missing existing (insert self_id (set ids)) nodes
                in m\<lparr>me_nodes := nodes, me_selfIp := selfIp,
                     me_connections := map (\<lambda>n. (self_id, mn_id n))
                       (filter (\<lambda>n. mn_state n = NodeAlive \<and> mn_id n \<noteq> self_id) nodes)\<rparr>)"

definition mesh_start :: "MeshCanvas \<Rightarrow> MeshCanvas" where
  "mesh_start m = m\<lparr>me_isRunning := True\<rparr>"

definition mesh_stop :: "MeshCanvas \<Rightarrow> MeshCanvas" where
  "mesh_stop m = m\<lparr>me_isRunning := False\<rparr>"

subsection \<open>The nodes after an update\<close>

lemma map_id_updated: "map mn_id (map (\<lambda>n. if mn_id n = i then n\<lparr>mn_state := st, mn_meshIp := ip\<rparr> else n) ns) = map mn_id ns"
  by simp

lemma map_id_add: "map mn_id (addOrUpdateNode i ip st b ns) = (if i \<in> mn_id ` set ns then map mn_id ns else map mn_id ns @ [i])"
  unfolding addOrUpdateNode_def using map_id_updated by auto

lemma ids_add: "mn_id ` set (addOrUpdateNode i ip st b ns) = insert i (mn_id ` set ns)"
  using arg_cong [OF map_id_add [of i ip st b ns], of set] by (auto split: if_splits)

lemma distinct_add: "distinct (map mn_id ns) \<Longrightarrow> distinct (map mn_id (addOrUpdateNode i ip st b ns))"
  by (auto simp: map_id_add)

lemma ids_filter: "mn_id ` set (filter (\<lambda>n. P (mn_id n)) ns) = {i \<in> mn_id ` set ns. P i}"
  by auto

text \<open>The node with an identifier, and what adding does to it.\<close>

definition node_of :: "MeshNode list \<Rightarrow> jstring \<Rightarrow> (jstring \<times> mesh_state) option" where
  "node_of ns i = map_option (\<lambda>n. (mn_meshIp n, mn_state n)) (find (\<lambda>n. mn_id n = i) ns)"

lemma node_of_map:
  "node_of (map (\<lambda>n. if mn_id n = i then n\<lparr>mn_state := st, mn_meshIp := ip\<rparr> else n) ns) j =
     (if j = i \<and> i \<in> mn_id ` set ns then Some (ip, st) else node_of ns j)"
  by (induction ns) (auto simp: node_of_def)

lemma node_of_append: "node_of (ns @ [n]) j =
    (case node_of ns j of Some x \<Rightarrow> Some x | None \<Rightarrow> if mn_id n = j then Some (mn_meshIp n, mn_state n) else None)"
  by (induction ns) (auto simp: node_of_def)

lemma node_of_None: "node_of ns j = None \<longleftrightarrow> j \<notin> mn_id ` set ns"
  by (auto simp: node_of_def find_None_iff)

lemma node_of_add: "node_of (addOrUpdateNode i ip st b ns) j = (if j = i then Some (ip, st) else node_of ns j)"
proof (cases "i \<in> mn_id ` set ns")
  case False
  then have "node_of ns i = None" by (simp add: node_of_None)
  with False show ?thesis by (auto simp: addOrUpdateNode_def node_of_append split: option.split)
qed (simp add: addOrUpdateNode_def node_of_map)

lemma node_of_filter: "P j \<Longrightarrow> node_of (filter (\<lambda>n. P (mn_id n)) ns) j = node_of ns j"
  by (induction ns) (auto simp: node_of_def)

text \<open>Adding the peers: the last one with an address decides.\<close>

abbreviation add_peer :: "MeshNode list \<Rightarrow> peer \<Rightarrow> MeshNode list" where
  "add_peer ns p \<equiv> addOrUpdateNode (peer_id p) (pr_meshIp p) (peer_state p) False ns"

lemma add_peers:
  "mn_id ` set (foldl add_peer ns ps) = mn_id ` set ns \<union> peer_id ` set ps"
  "distinct (map mn_id ns) \<Longrightarrow> distinct (map mn_id (foldl add_peer ns ps))"
  by (induction ps arbitrary: ns) (auto simp: ids_add distinct_add)

lemma node_of_peers:
  "node_of (foldl add_peer ns ps) j =
     (case find (\<lambda>p. peer_id p = j) (rev ps) of Some p \<Rightarrow> Some (pr_meshIp p, peer_state p) | None \<Rightarrow> node_of ns j)"
proof (induction ps rule: rev_induct)
  case (snoc p ps)
  then show ?case by (auto simp: node_of_add split: option.split)
qed simp

text \<open>
With the peers known, the mesh shows exactly the cluster: whatever it showed before, its nodes are the node itself and one
per peer address, each once, with the state the peers report (the last report of an address decides), and it connects
the node itself with exactly the peers that have a connection.
\<close>

theorem mesh_shows_cluster:
  assumes "kv (js ''cluster_enabled'') \<noteq> Some (js ''0'')" and "parseInt (or_text kv ''cluster_nodes'' (js ''0'')) \<noteq> Some 0"
    and "peers \<noteq> []" and "distinct (map mn_id (me_nodes m))" and "m' = updateFromStatus kv peers m"
  shows "mn_id ` set (me_nodes m') = insert self_id (peer_id ` set peers) \<and> distinct (map mn_id (me_nodes m'))
    \<and> node_of (me_nodes m') self_id = Some (or_text kv ''mesh_ip'' (js ''10.99.x.x''), NodeAlive)
    \<and> (\<forall>p. node_of (me_nodes m') (peer_id p)
        = map_option (\<lambda>q. (pr_meshIp q, peer_state q)) (find (\<lambda>q. peer_id q = peer_id p) (rev peers)))
    \<and> me_connections m' = map (\<lambda>p. (self_id, peer_id p)) (filter (\<lambda>p. pr_wormwire p = js ''connected'') peers)"
proof -
  let ?ns = "foldl add_peer (addOrUpdateNode self_id (or_text kv ''mesh_ip'' (js ''10.99.x.x'')) NodeAlive True (me_nodes m)) peers"
  let ?cur = "insert self_id (peer_id ` set peers)"
  let ?P = "\<lambda>i. i \<notin> mn_id ` set (me_nodes m) \<or> i \<in> ?cur"
  have n: "me_nodes m' = filter (\<lambda>n. ?P (mn_id n)) ?ns"
    and c: "me_connections m' = map (\<lambda>p. (self_id, peer_id p))
      (filter (\<lambda>p. pr_wormwire p = js ''connected'' \<and> peer_id p \<in> mn_id ` set (me_nodes m')) peers)"
    using assms(1-3) by (simp_all add: assms(5) updateFromStatus_def Let_def remove_missing_def)
  have e: "mn_id ` set ?ns = insert self_id (mn_id ` set (me_nodes m)) \<union> peer_id ` set peers"
    by (simp only: add_peers(1) ids_add)
  have ids: "mn_id ` set (me_nodes m') = ?cur"
    unfolding n ids_filter [of ?P] e by auto
  have d: "distinct (map mn_id (me_nodes m'))"
    unfolding n by (intro distinct_map_filter add_peers(2) distinct_add assms(4))
  have np: "peer_id p \<noteq> self_id" for p by (simp add: peer_id_def self_id_def js_simps)
  then have "find (\<lambda>p. peer_id p = self_id) (rev peers) = None" by (simp add: find_None_iff)
  then have s: "node_of (me_nodes m') self_id = Some (or_text kv ''mesh_ip'' (js ''10.99.x.x''), NodeAlive)"
    unfolding n by (subst node_of_filter) (simp_all add: node_of_peers node_of_add)
  have p: "node_of (me_nodes m') (peer_id p)
      = map_option (\<lambda>q. (pr_meshIp q, peer_state q)) (find (\<lambda>q. peer_id q = peer_id p) (rev peers))" for p
  proof (cases "peer_id p \<in> peer_id ` set peers")
    case True
    then obtain q where "find (\<lambda>q. peer_id q = peer_id p) (rev peers) = Some q"
      by (cases "find (\<lambda>q. peer_id q = peer_id p) (rev peers)") (auto simp: find_None_iff)
    then show ?thesis using True unfolding n by (subst node_of_filter) (simp_all add: node_of_peers)
  next
    case False
    then have "find (\<lambda>q. peer_id q = peer_id p) (rev peers) = None" by (force simp: find_None_iff image_iff)
    moreover have "node_of (me_nodes m') (peer_id p) = None" using False np ids by (simp add: node_of_None)
    ultimately show ?thesis by simp
  qed
  have "filter (\<lambda>p. pr_wormwire p = js ''connected'' \<and> peer_id p \<in> mn_id ` set (me_nodes m')) peers
      = filter (\<lambda>p. pr_wormwire p = js ''connected'') peers"
    unfolding ids by (rule filter_cong) simp_all
  with ids d s p c show ?thesis by simp
qed

text \<open>A mesh that knew a peer which has left, and two reports of one address.\<close>

abbreviation sample_peer :: "string \<Rightarrow> string \<Rightarrow> string \<Rightarrow> peer" where
  "sample_peer ip st ww \<equiv> \<lparr>pr_meshIp = js ip, pr_state = js st, pr_gossipEndpoint = None, pr_wormwire = js ww\<rparr>"

abbreviation sample_mesh :: MeshCanvas where
  "sample_mesh \<equiv> new_mesh\<lparr>me_nodes := [\<lparr>mn_id = js ''peer-9'', mn_meshIp = js ''9'', mn_state = NodeAlive, mn_isSelf = False\<rparr>]\<rparr>"

abbreviation sample_peers :: "peer list" where
  "sample_peers \<equiv> [sample_peer ''1'' ''alive'' ''connected'', sample_peer ''1'' ''suspected'' ''none'']"

theorem mesh_shows_cluster_witness:
  "mn_id ` set (me_nodes (updateFromStatus [js ''cluster_nodes'' \<mapsto> js ''3''] sample_peers sample_mesh))
      = insert self_id (peer_id ` set sample_peers)
    \<and> distinct (map mn_id (me_nodes (updateFromStatus [js ''cluster_nodes'' \<mapsto> js ''3''] sample_peers sample_mesh)))
    \<and> node_of (me_nodes (updateFromStatus [js ''cluster_nodes'' \<mapsto> js ''3''] sample_peers sample_mesh)) self_id
      = Some (or_text [js ''cluster_nodes'' \<mapsto> js ''3''] ''mesh_ip'' (js ''10.99.x.x''), NodeAlive)
    \<and> (\<forall>p. node_of (me_nodes (updateFromStatus [js ''cluster_nodes'' \<mapsto> js ''3''] sample_peers sample_mesh)) (peer_id p)
        = map_option (\<lambda>q. (pr_meshIp q, peer_state q)) (find (\<lambda>q. peer_id q = peer_id p) (rev sample_peers)))
    \<and> me_connections (updateFromStatus [js ''cluster_nodes'' \<mapsto> js ''3''] sample_peers sample_mesh)
      = map (\<lambda>p. (self_id, peer_id p)) (filter (\<lambda>p. pr_wormwire p = js ''connected'') sample_peers)"
proof (rule mesh_shows_cluster)
  have "parseInt (js ''3'') = Some 3" by code_simp
  then show "parseInt (or_text [js ''cluster_nodes'' \<mapsto> js ''3''] ''cluster_nodes'' (js ''0'')) \<noteq> Some 0"
    by (simp add: or_text_def)
qed (simp_all add: new_mesh_def)

end
