(* ===== verification/Ui_Docker.thy ===== *)
theory Ui_Docker
  imports Page_Common "HOL-Library.Multiset"
begin

section \<open>The container cards of the dashboard page (\<open>apps/bun/src/ui/app.ts\<close>)\<close>

text \<open>
  The panel of containers: its cards as nodes with an identity, updated in place from each list of containers that
  arrives. \<open>localeCompare\<close> is the parameter \<open>cmp\<close>.
\<close>

record ContainerInfo =
  ci_name :: jstring
  ci_service :: jstring
  ci_state :: jstring
  ci_status :: jstring
  ci_ports :: jstring

record docker_card =
  dc_id :: nat
  dc_container :: jstring
  dc_class :: jstring
  dc_dotClass :: jstring
  dc_name :: jstring
  dc_status :: jstring
  dc_actions :: "(jstring \<times> jstring) list"
  dc_busy :: bool

record docker_panel =
  dp_cards :: "docker_card list"
  dp_nextId :: nat
  dp_empty :: "jstring option"
  dp_count :: jstring
  dp_lastSnapshot :: jstring

definition initial_panel :: docker_panel where
  "initial_panel = \<lparr>dp_cards = [], dp_nextId = 0, dp_empty = Some (js ''Loading containers'' @ [0x2026]), dp_count = js ''0 / 0'',
     dp_lastSnapshot = []\<rparr>"

subsection \<open>Sorting\<close>

text \<open>The order of \<open>sort()\<close> on strings, by code units, and a stable sort.\<close>

fun units_le :: "jstring \<Rightarrow> jstring \<Rightarrow> bool" where
  "units_le [] t = True"
| "units_le (c # s) [] = False"
| "units_le (c # s) (d # t) = (c < d \<or> c = d \<and> units_le s t)"

fun insert_by :: "('a \<Rightarrow> 'a \<Rightarrow> bool) \<Rightarrow> 'a \<Rightarrow> 'a list \<Rightarrow> 'a list" where
  "insert_by le x [] = [x]"
| "insert_by le x (y # ys) = (if le x y then x # y # ys else y # insert_by le x ys)"

definition sort_by :: "('a \<Rightarrow> 'a \<Rightarrow> bool) \<Rightarrow> 'a list \<Rightarrow> 'a list" where
  "sort_by le xs = foldr (insert_by le) xs []"

definition is_running :: "ContainerInfo \<Rightarrow> bool" where
  "is_running c \<longleftrightarrow> ci_state c = js ''running''"

definition container_order :: "(jstring \<Rightarrow> jstring \<Rightarrow> int) \<Rightarrow> ContainerInfo \<Rightarrow> ContainerInfo \<Rightarrow> int" where
  "container_order cmp a b =
     (if is_running a \<and> \<not> is_running b then -1
      else if \<not> is_running a \<and> is_running b then 1
      else cmp (ci_name a) (ci_name b))"

definition sort_containers :: "(jstring \<Rightarrow> jstring \<Rightarrow> int) \<Rightarrow> ContainerInfo list \<Rightarrow> ContainerInfo list" where
  "sort_containers cmp cs = sort_by (\<lambda>a b. container_order cmp a b \<le> 0) cs"

subsection \<open>Cards\<close>

definition renderDockerActions :: "jstring \<Rightarrow> bool \<Rightarrow> (jstring \<times> jstring) list" where
  "renderDockerActions container isRunning =
     (if isRunning then [(js ''stop'', container), (js ''kill'', container)] else [(js ''start'', container)])"

definition createDockerCard :: "nat \<Rightarrow> ContainerInfo \<Rightarrow> docker_card" where
  "createDockerCard i c =
     \<lparr>dc_id = i, dc_container = ci_name c, dc_class = js ''docker-node-card'', dc_dotClass = js ''docker-node-dot'',
      dc_name = [], dc_status = [], dc_actions = renderDockerActions (ci_name c) (is_running c), dc_busy = False\<rparr>"

text \<open>\<open>s.replace(p, "")\<close>: the first occurrence goes.\<close>

definition remove_first_text :: "jstring \<Rightarrow> jstring \<Rightarrow> jstring" where
  "remove_first_text p s = (case indexOf s p of None \<Rightarrow> s | Some i \<Rightarrow> take i s @ drop (i + length p) s)"

definition updateDockerCard :: "docker_card \<Rightarrow> ContainerInfo \<Rightarrow> docker_card" where
  "updateDockerCard node c =
     (let normalizedState = (if ci_state c \<noteq> [] then ci_state c else js ''unknown'');
          nextRunning = is_running c;
          hasStopBtn = list_ex (\<lambda>(a, _). a = js ''stop'') (dc_actions node);
          shouldSwapActions = (nextRunning \<and> \<not> hasStopBtn \<or> \<not> nextRunning \<and> hasStopBtn)
      in node\<lparr>dc_container := ci_name c,
              dc_class := js ''docker-node-card '' @ normalizedState,
              dc_dotClass := js ''docker-node-dot '' @ normalizedState,
              dc_name := remove_first_text (js ''wormdb-'') (ci_name c),
              dc_status := (if ci_status c \<noteq> [] then ci_status c else ci_state c),
              dc_actions := (if shouldSwapActions then renderDockerActions (ci_name c) nextRunning
                else map (\<lambda>(a, _). (a, ci_name c)) (dc_actions node)),
              dc_busy := False\<rparr>)"

subsection \<open>\<open>renderContainerCards\<close>\<close>

definition snapshot_line :: "ContainerInfo \<Rightarrow> jstring" where
  "snapshot_line c = ci_name c @ [124] @ ci_state c @ [124] @ ci_status c @ [124] @ ci_ports c"

definition docker_snapshot :: "ContainerInfo list \<Rightarrow> jstring" where
  "docker_snapshot cs = join [10] (sort_by units_le (map snapshot_line cs))"

text \<open>\<open>Map.set\<close>, and the map of the cards by their containers.\<close>

definition map_set :: "jstring \<Rightarrow> nat \<Rightarrow> (jstring \<times> nat) list \<Rightarrow> (jstring \<times> nat) list" where
  "map_set k v m =
     (if k \<in> fst ` set m then map (\<lambda>(k', v'). if k' = k then (k', v) else (k', v')) m else m @ [(k, v)])"

definition existing_cards :: "docker_card list \<Rightarrow> (jstring \<times> nat) list" where
  "existing_cards cards =
     foldl (\<lambda>m node. if dc_container node \<noteq> [] then map_set (dc_container node) (dc_id node) m else m) [] cards"

text \<open>One turn of the loop: the card of the container, found or made, is updated and becomes the last child.\<close>

definition place_card :: "docker_card list \<times> (jstring \<times> nat) list \<times> nat \<Rightarrow> ContainerInfo
    \<Rightarrow> docker_card list \<times> (jstring \<times> nat) list \<times> nat" where
  "place_card st c =
     (case st of (children, existing, next) \<Rightarrow>
        case Option.bind (map_of existing (ci_name c)) (\<lambda>i. find (\<lambda>x. dc_id x = i) children) of
          Some node \<Rightarrow>
            (filter (\<lambda>x. dc_id x \<noteq> dc_id node) children @ [updateDockerCard node c],
             filter (\<lambda>(k, _). k \<noteq> ci_name c) existing, next)
        | None \<Rightarrow> (children @ [updateDockerCard (createDockerCard next c) c], existing, next + 1))"

definition renderContainerCards :: "(jstring \<Rightarrow> jstring \<Rightarrow> int) \<Rightarrow> ContainerInfo list \<Rightarrow> docker_panel \<Rightarrow> docker_panel" where
  "renderContainerCards cmp containers p =
     (let running = length (filter is_running containers);
          p1 = p\<lparr>dp_count := digits_of running @ js '' / '' @ digits_of (length containers)\<rparr>;
          snapshot = docker_snapshot containers
      in if snapshot = dp_lastSnapshot p1 then p1
         else
           let p2 = p1\<lparr>dp_lastSnapshot := snapshot\<rparr>
           in if containers = [] then p2\<lparr>dp_cards := [], dp_empty := Some (js ''No containers found'')\<rparr>
              else
                case foldl place_card (dp_cards p2, existing_cards (dp_cards p2), dp_nextId p2) (sort_containers cmp containers) of
                  (children, existing, next) \<Rightarrow>
                    p2\<lparr>dp_cards := filter (\<lambda>x. dc_id x \<notin> snd ` set existing) children, dp_nextId := next, dp_empty := None\<rparr>)"

text \<open>\<open>containerAction\<close>: the first card of the container is marked, and the message goes out when the socket is open.\<close>

definition mark_busy :: "jstring \<Rightarrow> docker_panel \<Rightarrow> docker_panel" where
  "mark_busy container p =
     p\<lparr>dp_cards := update_first (\<lambda>x. dc_container x = container) (\<lambda>x. x\<lparr>dc_busy := True\<rparr>) (dp_cards p)\<rparr>"

subsection \<open>The cards after an update are those of a fresh rendering\<close>

definition card_ok :: "docker_card \<Rightarrow> bool" where
  "card_ok x \<longleftrightarrow> dc_container x \<noteq> [] \<and> (\<exists>nm b. dc_actions x = renderDockerActions nm b)"

definition cards_ok :: "docker_card list \<Rightarrow> nat \<Rightarrow> bool" where
  "cards_ok xs n \<longleftrightarrow> distinct (map dc_id xs) \<and> distinct (map dc_container xs) \<and> list_all card_ok xs \<and> (\<forall>x \<in> set xs. dc_id x < n)"

text \<open>A card without its identity, and the card a container gets when it is rendered from nothing.\<close>

definition card_face :: "docker_card \<Rightarrow> docker_card" where
  "card_face x = x\<lparr>dc_id := 0\<rparr>"

definition fresh_card :: "ContainerInfo \<Rightarrow> docker_card" where
  "fresh_card c = card_face (updateDockerCard (createDockerCard 0 c) c)"

lemma update_face: "card_ok x \<Longrightarrow> card_face (updateDockerCard x c) = fresh_card c"
  by (auto simp: card_ok_def card_face_def fresh_card_def updateDockerCard_def createDockerCard_def renderDockerActions_def
      Let_def)

lemma create_face: "card_face (updateDockerCard (createDockerCard i c) c) = fresh_card c"
  by (simp add: card_face_def fresh_card_def updateDockerCard_def createDockerCard_def renderDockerActions_def Let_def)

lemma update_fields [simp]: "dc_id (updateDockerCard x c) = dc_id x" "dc_container (updateDockerCard x c) = ci_name c"
  by (simp_all add: updateDockerCard_def Let_def)

lemma create_id [simp]: "dc_id (createDockerCard i c) = i"
  by (simp add: createDockerCard_def)

lemma card_ok_update: "ci_name c \<noteq> [] \<Longrightarrow> card_ok x \<Longrightarrow> card_ok (updateDockerCard x c)"
  by (fastforce simp: card_ok_def updateDockerCard_def renderDockerActions_def Let_def)

lemma card_ok_create: "ci_name c \<noteq> [] \<Longrightarrow> card_ok (createDockerCard i c)"
  by (auto simp: card_ok_def createDockerCard_def)

abbreviation card_key :: "docker_card \<Rightarrow> jstring \<times> nat" where
  "card_key x \<equiv> (dc_container x, dc_id x)"

lemma existing_cards_keys:
  assumes "distinct (map dc_container xs)" and "list_all card_ok xs"
  shows "existing_cards xs = map card_key xs"
proof -
  have "foldl (\<lambda>m node. if dc_container node \<noteq> [] then map_set (dc_container node) (dc_id node) m else m) m xs
      = m @ map card_key xs" if "fst ` set m \<inter> dc_container ` set xs = {}" for m
    using assms that
  proof (induction xs arbitrary: m)
    case (Cons x xs)
    then have "map_set (dc_container x) (dc_id x) m = m @ [card_key x]" "dc_container x \<noteq> []"
      by (auto simp: map_set_def card_ok_def)
    moreover have "fst ` set (m @ [card_key x]) \<inter> dc_container ` set xs = {}" using Cons.prems by auto
    ultimately show ?case using Cons.IH [of "m @ [card_key x]"] Cons.prems by simp
  qed simp
  then show ?thesis by (simp add: existing_cards_def)
qed

text \<open>The loop: old cards that were not met yet come first, the placed ones after them.\<close>

definition others :: "jstring set \<Rightarrow> docker_card list \<Rightarrow> docker_card list" where
  "others N xs = filter (\<lambda>x. dc_container x \<notin> N) xs"

lemma same_card:
  assumes "distinct (map dc_id xs)" and "distinct (map dc_container xs)" and "x \<in> set xs"
  shows "map_of (map card_key xs) (dc_container x) = Some (dc_id x)" and "find (\<lambda>y. dc_id y = dc_id x) (xs @ ys) = Some x"
    and "filter (\<lambda>y. dc_id y \<noteq> dc_id x) xs = others {dc_container x} xs"
    and "filter (\<lambda>(k, _). k \<noteq> dc_container x) (map card_key xs) = map card_key (others {dc_container x} xs)"
proof -
  have i: "\<And>y. y \<in> set xs \<Longrightarrow> dc_id y = dc_id x \<longleftrightarrow> y = x" and k: "\<And>y. y \<in> set xs \<Longrightarrow> dc_container y = dc_container x \<longleftrightarrow> y = x"
    using assms by (auto simp: distinct_map inj_on_def)
  have "distinct (map fst (map card_key xs))" using assms(2) by (simp add: comp_def)
  moreover have "card_key x \<in> set (map card_key xs)" using assms(3) by simp
  ultimately show "map_of (map card_key xs) (dc_container x) = Some (dc_id x)" by (rule map_of_is_SomeI)
  show "find (\<lambda>y. dc_id y = dc_id x) (xs @ ys) = Some x"
    using assms(1,3) by (induction xs) auto
  show "filter (\<lambda>y. dc_id y \<noteq> dc_id x) xs = others {dc_container x} xs"
    unfolding others_def using i k by (intro filter_cong) auto
  show "filter (\<lambda>(k, _). k \<noteq> dc_container x) (map card_key xs) = map card_key (others {dc_container x} xs)"
    by (induction xs) (auto simp: others_def)
qed

lemma place_old:
  assumes ok: "cards_ok (olds @ news) n" and "x \<in> set olds" and "dc_container x = ci_name c"
  shows "place_card (olds @ news, map card_key olds, n) c
    = (others {ci_name c} olds @ news @ [updateDockerCard x c], map card_key (others {ci_name c} olds), n)"
proof -
  have "distinct (map dc_id olds)" "distinct (map dc_container olds)" using ok by (auto simp: cards_ok_def)
  note same = same_card [OF this assms(2), unfolded assms(3)]
  have "filter (\<lambda>y. dc_id y \<noteq> dc_id x) news = news"
    using ok assms(2) by (auto simp: cards_ok_def filter_id_conv)
  with same show ?thesis by (simp add: place_card_def)
qed

lemma place_new:
  assumes "ci_name c \<notin> dc_container ` set olds"
  shows "place_card (olds @ news, map card_key olds, n) c
    = (olds @ news @ [updateDockerCard (createDockerCard n c) c], map card_key olds, n + 1)"
proof -
  have "map_of (map card_key olds) (ci_name c) = None" using assms by (auto simp: map_of_eq_None_iff)
  then show ?thesis by (simp add: place_card_def)
qed

lemma disjoint_subset: "A \<subseteq> B \<Longrightarrow> B \<inter> C = {} \<Longrightarrow> A \<inter> C = {}"
  by blast

lemma cards_ok_subset:
  assumes "cards_ok (olds @ news) n"
  shows "cards_ok (others N olds @ news) n"
proof -
  have o: "set (others N olds) \<subseteq> set olds" by (auto simp: others_def)
  have d: "dc_id ` set olds \<inter> dc_id ` set news = {}" "dc_container ` set olds \<inter> dc_container ` set news = {}"
    using assms by (simp_all add: cards_ok_def)
  have "dc_id ` set (others N olds) \<inter> dc_id ` set news = {}" "dc_container ` set (others N olds) \<inter> dc_container ` set news = {}"
    using disjoint_subset [OF image_mono [OF o] d(1)] disjoint_subset [OF image_mono [OF o] d(2)] by simp_all
  moreover have "distinct (map dc_id (others N olds))" "distinct (map dc_container (others N olds))"
    using assms by (simp_all add: others_def distinct_map_filter cards_ok_def)
  moreover have "\<forall>x \<in> set (others N olds @ news). card_ok x \<and> dc_id x < n"
    using assms o unfolding cards_ok_def list_all_iff set_append by blast
  ultimately show ?thesis using assms by (simp add: cards_ok_def list_all_iff)
qed

lemma cards_ok_snoc:
  assumes "cards_ok xs n" and "card_ok x" and "dc_id x < m" and "n \<le> m" and "dc_id x \<notin> dc_id ` set xs"
    and "dc_container x \<notin> dc_container ` set xs"
  shows "cards_ok (xs @ [x]) m"
  using assms unfolding cards_ok_def list_all_iff by fastforce

lemma cards_ok_old:
  assumes "cards_ok (olds @ news) n" and "x \<in> set olds" and "dc_container x = ci_name c" and "ci_name c \<noteq> []"
    and "ci_name c \<notin> dc_container ` set news"
  shows "cards_ok (others {ci_name c} olds @ news @ [updateDockerCard x c]) n"
proof -
  have x: "card_ok x" "dc_id x < n" "dc_id x \<notin> dc_id ` set news" "distinct (map dc_id olds)" "distinct (map dc_container olds)"
    using assms by (auto simp: cards_ok_def list_all_iff)
  have "dc_id x \<notin> dc_id ` set (others {ci_name c} olds)"
    unfolding same_card(3) [OF x(4,5) assms(2), unfolded assms(3), symmetric] by auto
  moreover have "ci_name c \<notin> dc_container ` set (others {ci_name c} olds)" by (auto simp: others_def)
  ultimately show ?thesis
    using cards_ok_snoc [OF cards_ok_subset [OF assms(1)] card_ok_update [OF assms(4) x(1)], of n "{ci_name c}"] x(2,3) assms(5)
    by (simp add: image_Un)
qed

lemma cards_ok_new:
  assumes "cards_ok xs n" and "ci_name c \<noteq> []" and "ci_name c \<notin> dc_container ` set xs"
  shows "cards_ok (xs @ [updateDockerCard (createDockerCard n c) c]) (n + 1)"
  using assms by (intro cards_ok_snoc [OF assms(1)] card_ok_update card_ok_create) (auto simp: cards_ok_def)

lemma place_loop:
  assumes "cards_ok (olds @ news) n" and "distinct (map ci_name cs)" and "\<forall>c \<in> set cs. ci_name c \<noteq> []"
    and "dc_container ` set news \<inter> ci_name ` set cs = {}"
  shows "\<exists>news' n'. foldl place_card (olds @ news, map card_key olds, n) cs
      = (others (ci_name ` set cs) olds @ news @ news', map card_key (others (ci_name ` set cs) olds), n')
    \<and> map card_face news' = map fresh_card cs \<and> cards_ok (others (ci_name ` set cs) olds @ news @ news') n'"
  using assms
proof (induction cs arbitrary: olds news n)
  case Nil
  then show ?case by (simp add: others_def)
next
  case (Cons c cs)
  have name: "ci_name c \<noteq> []" "ci_name c \<notin> dc_container ` set news" "ci_name c \<notin> ci_name ` set cs"
    using Cons.prems by auto
  have o: "others (ci_name ` set cs) (others {ci_name c} olds) = others (ci_name ` set (c # cs)) olds"
    by (auto simp: others_def intro: filter_cong)
  show ?case
  proof (cases "ci_name c \<in> dc_container ` set olds")
    case True
    then obtain x where x: "x \<in> set olds" "dc_container x = ci_name c" by auto
    have "card_ok x" using Cons.prems(1) x(1) by (simp add: cards_ok_def list_all_iff)
    then have f: "card_face (updateDockerCard x c) = fresh_card c" by (rule update_face)
    have "dc_container ` set (news @ [updateDockerCard x c]) \<inter> ci_name ` set cs = {}" using Cons.prems(4) name(3) by auto
    with Cons.IH [OF cards_ok_old [OF Cons.prems(1) x name(1,2)]] Cons.prems(2,3) obtain news' n' where
      "foldl place_card (others {ci_name c} olds @ news @ [updateDockerCard x c], map card_key (others {ci_name c} olds), n) cs
        = (others (ci_name ` set (c # cs)) olds @ (news @ [updateDockerCard x c]) @ news',
           map card_key (others (ci_name ` set (c # cs)) olds), n')"
      "map card_face news' = map fresh_card cs"
      "cards_ok (others (ci_name ` set (c # cs)) olds @ (news @ [updateDockerCard x c]) @ news') n'"
      unfolding o by auto
    with f show ?thesis by (intro exI [of _ "updateDockerCard x c # news'"] exI [of _ n'])
      (simp add: place_old [OF Cons.prems(1) x])
  next
    case False
    let ?x = "updateDockerCard (createDockerCard n c) c"
    have s: "others {ci_name c} olds = olds" using False by (force simp: others_def filter_id_conv image_iff)
    have "dc_container ` set (news @ [?x]) \<inter> ci_name ` set cs = {}" using Cons.prems(4) name(3) by auto
    moreover have "cards_ok (olds @ news @ [?x]) (n + 1)"
      using cards_ok_new [OF Cons.prems(1) name(1)] False name(2) by (auto simp: image_Un)
    ultimately obtain news' n' where
      "foldl place_card (olds @ news @ [?x], map card_key olds, n + 1) cs
        = (others (ci_name ` set (c # cs)) olds @ (news @ [?x]) @ news', map card_key (others (ci_name ` set (c # cs)) olds), n')"
      "map card_face news' = map fresh_card cs" "cards_ok (others (ci_name ` set (c # cs)) olds @ (news @ [?x]) @ news') n'"
      using Cons.IH [of olds "news @ [?x]" "n + 1"] Cons.prems(2,3) unfolding o [symmetric] s by auto
    then show ?thesis by (intro exI [of _ "?x # news'"] exI [of _ n'])
      (simp add: place_new [OF False, of news n, simplified] create_face)
  qed
qed

lemma perm_insert_by: "mset (insert_by le x xs) = add_mset x (mset xs)"
  by (induction xs) auto

lemma perm_sort_by: "mset (sort_by le xs) = mset xs"
  by (induction xs) (simp_all add: sort_by_def perm_insert_by)

lemma stale_removed:
  assumes "cards_ok (olds @ news) n"
  shows "filter (\<lambda>x. dc_id x \<notin> snd ` set (map card_key olds)) (olds @ news) = news"
proof -
  have "dc_id x \<notin> dc_id ` set olds" if "x \<in> set news" for x
    using assms that by (auto simp: cards_ok_def)
  then show ?thesis by (auto simp: image_image filter_empty_conv filter_id_conv)
qed

text \<open>
C38: updating the container cards in place gives what rendering them from nothing would: after a list of containers with
different names that differs from the last one, the cards are exactly the cards of the containers in sorted order,
whichever cards were there before and whatever they showed, with no stale card, no duplicate and the right buttons.
\<close>

theorem docker_cards_reconciled:
  assumes "cards_ok (dp_cards p) (dp_nextId p)" and "distinct (map ci_name cs)" and "list_all (\<lambda>c. ci_name c \<noteq> []) cs"
    and "docker_snapshot cs \<noteq> dp_lastSnapshot p" and "p' = renderContainerCards cmp cs p"
  shows "map card_face (dp_cards p') = map fresh_card (sort_containers cmp cs) \<and> mset (sort_containers cmp cs) = mset cs
    \<and> cards_ok (dp_cards p') (dp_nextId p')"
proof (cases "cs = []")
  case True
  with assms(4) show ?thesis
    by (simp add: assms(5) renderContainerCards_def Let_def sort_containers_def sort_by_def cards_ok_def)
next
  case False
  let ?cs = "sort_containers cmp cs" and ?olds = "dp_cards p"
  have m: "mset ?cs = mset cs" by (simp add: sort_containers_def perm_sort_by)
  then have c: "set ?cs = set cs" "distinct (map ci_name ?cs)"
    using assms(2) by (metis mset_eq_setD, metis mset_eq_imp_distinct_iff mset_map)
  have e: "existing_cards ?olds = map card_key ?olds"
    using assms(1) by (intro existing_cards_keys) (simp_all add: cards_ok_def)
  obtain news n where l: "foldl place_card (?olds, map card_key ?olds, dp_nextId p) ?cs
      = (others (ci_name ` set ?cs) ?olds @ news, map card_key (others (ci_name ` set ?cs) ?olds), n)"
      "map card_face news = map fresh_card ?cs" "cards_ok (others (ci_name ` set ?cs) ?olds @ news) n"
    using place_loop [of ?olds "[]" "dp_nextId p" ?cs] assms(1,3) c by (auto simp: list_all_iff)
  have "dp_cards p' = news" "dp_nextId p' = n"
    using False assms(4) stale_removed [OF l(3)] by (simp_all add: assms(5) renderContainerCards_def Let_def e l(1))
  moreover have "cards_ok news n" using l(3) by (auto simp: cards_ok_def)
  ultimately show ?thesis using l(2) m by simp
qed

abbreviation sample_container :: "string \<Rightarrow> string \<Rightarrow> ContainerInfo" where
  "sample_container nm st \<equiv> \<lparr>ci_name = js nm, ci_service = [], ci_state = js st, ci_status = [], ci_ports = []\<rparr>"

abbreviation sample_panel :: docker_panel where
  "sample_panel \<equiv> initial_panel\<lparr>dp_cards := [(createDockerCard 0 (sample_container ''wormdb-1'' ''exited''))\<lparr>dc_busy := True\<rparr>,
      createDockerCard 1 (sample_container ''wormdb-9'' ''running'')], dp_nextId := 2\<rparr>"

abbreviation sample_containers :: "ContainerInfo list" where
  "sample_containers \<equiv> [sample_container ''wormdb-2'' ''exited'', sample_container ''wormdb-1'' ''running'']"

lemma sample_panel_ok: "cards_ok (dp_cards sample_panel) (dp_nextId sample_panel)"
  by (auto simp: cards_ok_def card_ok_def initial_panel_def createDockerCard_def)

theorem docker_cards_reconciled_witness:
  "map card_face (dp_cards (renderContainerCards (\<lambda>a b. 0) sample_containers sample_panel))
      = map fresh_card (sort_containers (\<lambda>a b. 0) sample_containers)
    \<and> mset (sort_containers (\<lambda>a b. 0) sample_containers) = mset sample_containers
    \<and> cards_ok (dp_cards (renderContainerCards (\<lambda>a b. 0) sample_containers sample_panel))
        (dp_nextId (renderContainerCards (\<lambda>a b. 0) sample_containers sample_panel))"
proof (rule docker_cards_reconciled [OF sample_panel_ok])
  show "docker_snapshot sample_containers \<noteq> dp_lastSnapshot sample_panel"
    by (simp add: docker_snapshot_def sort_by_def initial_panel_def snapshot_line_def js_simps)
qed simp_all

text \<open>
  A list equal to the last one changes no card: a card marked busy by an action that had no effect stays so until
  something else changes. The empty list is equal to the snapshot the page starts with, so the first such list leaves the
  text of the loading panel.
\<close>

lemma unchanged_list_keeps_busy:
  "docker_snapshot cs = dp_lastSnapshot p \<Longrightarrow> dp_cards (renderContainerCards cmp cs p) = dp_cards p"
  by (simp add: renderContainerCards_def Let_def)

lemma first_empty_list_not_shown: "dp_empty (renderContainerCards cmp [] initial_panel) = Some (js ''Loading containers'' @ [0x2026])"
  by (simp add: renderContainerCards_def Let_def docker_snapshot_def sort_by_def initial_panel_def)

end
