(* ===== verification/Ui_Page.thy ===== *)
theory Ui_Page
  imports Ui_Mesh Ui_Docker
begin

section \<open>The page of the dashboard (\<open>apps/bun/src/ui/app.ts\<close>)\<close>

text \<open>
  The state of the page, its views, console, event list, deployment controls and status panels, and one definition per
  handler. Parameters, in the record \<open>ui_env\<close>: the navigation entries and views of the document, the printer
  \<open>JSON.stringify(v, null, 2)\<close>, \<open>String\<close> of a JSON value, \<open>localeCompare\<close>, and \<open>ue_clock n\<close>, the local time at the
  \<open>n\<close>-th event. The charts are computed in floating point and are left out.
\<close>

subsection \<open>State\<close>

record ui_env =
  ue_nav :: "jstring list"
  ue_views :: "jstring list"
  ue_pretty :: "json \<Rightarrow> jstring"
  ue_str :: "json \<Rightarrow> jstring"
  ue_compare :: "jstring \<Rightarrow> jstring \<Rightarrow> int"
  ue_clock :: "nat \<Rightarrow> jstring"
  ue_protocol :: jstring
  ue_host :: jstring

record history_entry =
  he_kv :: text_map
  he_timestamp :: nat

datatype console_entry = ConsoleCommand jstring | ConsoleResult jstring | ConsoleError jstring

record event_entry =
  ev_time :: jstring
  ev_channel :: jstring
  ev_message :: jstring

datatype ui_timer = FocusConsole
datatype ui_call = UStatusCall | UContainersCall | UCommandCall | UDeployCall

record ui_page = "(ui_timer, ui_call) page" +
  up_currentView :: jstring
  up_isConnected :: bool
  up_adminToken :: jstring
  up_storedToken :: "jstring option"
  up_lastStatus :: "json option"
  up_commandHistory :: "jstring list"
  up_historyIndex :: int
  up_history :: "history_entry list"
  up_activeNav :: "jstring list"
  up_shownViews :: "jstring list"
  up_viewTitle :: jstring
  up_sseOnline :: bool
  up_sseText :: jstring
  up_statKeys :: jstring
  up_statWal :: jstring
  up_statNodes :: jstring
  up_statHealth :: "jstring \<times> jstring"
  up_rawStatus :: jstring
  up_nodesTable :: jstring
  up_console :: "console_entry list"
  up_consoleInput :: jstring
  up_events :: "event_entry list"
  up_eventCount :: nat
  up_deployDisabled :: bool
  up_deployLogs :: jstring
  up_docker :: docker_panel
  up_mesh :: MeshCanvas
  up_wsOpen :: bool
  up_sent :: "json list"

definition MAX_HISTORY :: nat where
  "MAX_HISTORY = 40"

definition blank_dashboard :: "jstring option \<Rightarrow> ui_page" where
  "blank_dashboard stored =
     \<lparr>pg_timers = [], pg_nextTimer = 1, pg_calls = [], pg_nextCall = 1, pg_requests = [], pg_toasts = [],
      pg_sockets = [], pg_reconnectAttempts = 0, pg_online = False, pg_connText = js ''Disconnected'',
      up_currentView = js ''dashboard'', up_isConnected = False, up_adminToken = or_default stored [],
      up_storedToken = stored, up_lastStatus = None, up_commandHistory = [], up_historyIndex = - 1, up_history = [],
      up_activeNav = [js ''dashboard''], up_shownViews = [js ''view-dashboard''], up_viewTitle = js ''Dashboard'',
      up_sseOnline = False, up_sseText = js ''Disconnected'', up_statKeys = js ''-'', up_statWal = js ''-'',
      up_statNodes = js ''-'', up_statHealth = (js ''-'', []), up_rawStatus = [], up_nodesTable = [], up_console = [],
      up_consoleInput = [], up_events = [], up_eventCount = 0, up_deployDisabled = False, up_deployLogs = [],
      up_docker = initial_panel, up_mesh = new_mesh, up_wsOpen = False, up_sent = []\<rparr>"

subsection \<open>Connection and status\<close>

definition updateConnectionStatus :: "bool \<Rightarrow> jstring option \<Rightarrow> ui_page \<Rightarrow> ui_page" where
  "updateConnectionStatus online message s =
     s\<lparr>up_isConnected := online, pg_online := online,
       pg_connText := or_default message (if online then js ''Connected'' else js ''Disconnected'')\<rparr>"

definition ui_connect :: "ui_env \<Rightarrow> ui_page \<Rightarrow> ui_page" where
  "ui_connect E s = (connectWebSocket (ue_protocol E) (ue_host E) s)\<lparr>up_wsOpen := False\<rparr>"

definition ui_onopen :: "ui_page \<Rightarrow> ui_page" where
  "ui_onopen s =
     (updateConnectionStatus True None (s\<lparr>pg_reconnectAttempts := 0, up_wsOpen := True\<rparr>))
       \<lparr>up_sseOnline := True, up_sseText := js ''Live''\<rparr>"

definition ui_onclose :: "ui_page \<Rightarrow> ui_page" where
  "ui_onclose s =
     (let attempts = pg_reconnectAttempts s + 1;
          delay = reconnect_delay attempts
      in setTimeout Reconnect delay
           ((updateConnectionStatus False None (s\<lparr>up_wsOpen := False\<rparr>))
              \<lparr>up_sseOnline := False, pg_reconnectAttempts := attempts,
               up_sseText := js ''Reconnecting in '' @ digits_of ((delay + 999) div 1000) @ js ''s''\<rparr>))"

text \<open>A property of a message, and \<open>data.x?.type === "bulk" ? parseKV(data.x.value) : {}\<close>.\<close>

definition property :: "json \<Rightarrow> string \<Rightarrow> json option" where
  "property j k = (case jfield j k of Inr v \<Rightarrow> v | Inl _ \<Rightarrow> None)"

definition bulk_fields :: "json option \<Rightarrow> text_map" where
  "bulk_fields r =
     (case r of
        None \<Rightarrow> Map.empty
      | Some j \<Rightarrow>
          if text_field j ''type'' = Some (js ''bulk'') then parseKV (or_default (text_field j ''value'') []) else Map.empty)"

definition updateDashboard :: "ui_env \<Rightarrow> text_map \<Rightarrow> json \<Rightarrow> ui_page \<Rightarrow> ui_page" where
  "updateDashboard E kv raw s =
     (let dead = parseInt (or_text kv ''cluster_dead'' (js ''0''))
      in s\<lparr>up_statKeys := or_text kv ''keys'' (js ''0''),
           up_statWal := kv_or kv ''wal_size'' (\<lambda>x. formatBytes (parseInt x)) (js ''0 B''),
           up_statNodes := or_text kv ''cluster_nodes'' (js ''1''),
           up_statHealth :=
             (if kv (js ''cluster_enabled'') = Some (js ''0'') then (js ''Standalone'', js ''var(--text-secondary)'')
              else if (case dead of Some d \<Rightarrow> d > 0 | None \<Rightarrow> False) then (js ''Degraded'', js ''var(--warning)'')
              else (js ''Healthy'', js ''var(--success)'')),
           up_rawStatus := ue_pretty E raw\<rparr>)"

definition node_row :: "nat \<Rightarrow> jstring" where
  \<open>node_row i =
     js ''
      <tr>
        <td><code style="color:var(--accent)">node-'' @ digits_of i @ js ''</code> '' @ (if i = 0 then js ''(self)'' else []) @ js ''</td>
        <td>127.0.0.1:'' @ digits_of (6389 + i) @ js ''</td>
        <td><span style="color:var(--success)">'' @ [0x25CF] @ js '' Alive</span></td>
        <td>'' @ (if i = 0 then js ''Leader'' else js ''Follower'') @ js ''</td>
      </tr>
    ''\<close>

definition updateClusterTable :: "text_map \<Rightarrow> ui_page \<Rightarrow> ui_page" where
  \<open>updateClusterTable kv s =
     (if kv (js ''cluster_enabled'') = Some (js ''0'')
      then s\<lparr>up_nodesTable := js ''<tr><td colspan="4" class="text-center">Cluster mode disabled</td></tr>''\<rparr>
      else
        let total = (case parseInt (or_text kv ''cluster_nodes'' (js ''0'')) of Some n \<Rightarrow> nat n | None \<Rightarrow> 0);
            html = concat (map node_row [0..<total])
        in s\<lparr>up_nodesTable := (if html \<noteq> [] then html
               else js ''<tr><td colspan="4" class="text-center">No nodes detected</td></tr>'')\<rparr>)\<close>

text \<open>The peers of a status, as the server sends them.\<close>

definition peer_of_json :: "json \<Rightarrow> peer" where
  "peer_of_json j =
     \<lparr>pr_meshIp = or_default (text_field j ''meshIp'') (js ''undefined''), pr_state = or_default (text_field j ''state'') [],
      pr_gossipEndpoint = text_field j ''gossipEndpoint'', pr_wormwire = or_default (text_field j ''wormwire'') []\<rparr>"

definition status_peers :: "json \<Rightarrow> peer list" where
  "status_peers data = (case property data ''peers'' of Some (JArr vs) \<Rightarrow> map peer_of_json vs | _ \<Rightarrow> [])"

definition push_history :: "history_entry \<Rightarrow> history_entry list \<Rightarrow> history_entry list" where
  "push_history e hs = (let hs' = hs @ [e] in if length hs' > MAX_HISTORY then tl hs' else hs')"

definition status_target :: "ui_env \<Rightarrow> json \<Rightarrow> jstring" where
  "status_target E data = (case property data ''target'' of Some t \<Rightarrow> ue_str E t | None \<Rightarrow> js ''undefined'')"

definition many_failures :: "json \<Rightarrow> bool" where
  "many_failures data =
     (truthy (property data ''failureCount'')
      \<and> (case property data ''failureCount'' of
           Some (JNum n) \<Rightarrow> (case parseInt n of Some i \<Rightarrow> i \<ge> 2 | None \<Rightarrow> False)
         | _ \<Rightarrow> False))"

definition status_kv :: "json \<Rightarrow> text_map" where
  "status_kv data =
     (let kv = bulk_fields (property data ''response'') ++ bulk_fields (property data ''cluster'')
      in if truthy (property data ''selfMeshIp'')
         then kv(js ''mesh_ip'' \<mapsto> or_default (text_field data ''selfMeshIp'') [])
         else kv)"

definition handleStatusMessage :: "ui_env \<Rightarrow> nat \<Rightarrow> json \<Rightarrow> ui_page \<Rightarrow> ui_page" where
  "handleStatusMessage E now data s =
     (let s1 = updateConnectionStatus (property data ''connected'' \<noteq> Some (JBool False)) None s
      in if \<not> truthy (property data ''connected'') then
           (if many_failures data
            then updateConnectionStatus False (Some (js ''Failing over from '' @ status_target E data @ js ''...'')) s1
            else s1)
         else
           let kv = status_kv data;
               s2 = s1\<lparr>up_lastStatus := Some data,
                       up_history := push_history \<lparr>he_kv = kv, he_timestamp = now\<rparr> (up_history s1)\<rparr>;
               s3 = updateClusterTable kv (updateDashboard E kv data s2)
           in s3\<lparr>up_mesh := updateFromStatus kv (status_peers data) (up_mesh s3)\<rparr>)"

subsection \<open>Events and the console\<close>

definition handleEventMessage :: "ui_env \<Rightarrow> jstring \<Rightarrow> jstring \<Rightarrow> ui_page \<Rightarrow> ui_page" where
  "handleEventMessage E channel message s =
     s\<lparr>up_events := (if up_eventCount s = 0 then [] else up_events s)
          @ [\<lparr>ev_time = [91] @ ue_clock E (up_eventCount s) @ js ''] '', ev_channel = [91] @ channel @ js ''] '', ev_message = message\<rparr>],
       up_eventCount := up_eventCount s + 1\<rparr>"

text \<open>\<open>data.response?.value ?? JSON.stringify(data.response)\<close> as \<open>String\<close> prints it.\<close>

definition result_text :: "ui_env \<Rightarrow> json \<Rightarrow> jstring" where
  "result_text E data =
     (case property data ''response'' of
        None \<Rightarrow> js ''undefined''
      | Some r \<Rightarrow>
          (case nullish (property r ''value'') None of
             Some v \<Rightarrow> ue_str E v
           | None \<Rightarrow> stringify r))"

definition handleCommandResult :: "ui_env \<Rightarrow> json \<Rightarrow> ui_page \<Rightarrow> ui_page" where
  "handleCommandResult E data s =
     s\<lparr>up_console := up_console s
          @ [if truthy (property data ''error'')
             then ConsoleError (case property data ''error'' of Some e \<Rightarrow> ue_str E e | None \<Rightarrow> [])
             else ConsoleResult (result_text E data)]\<rparr>"

definition system_error :: "jstring \<Rightarrow> json" where
  "system_error msg = JObj [(js ''error'', JStr (js ''System Error: '' @ msg))]"

definition executeCommand :: "jstring \<Rightarrow> ui_page \<Rightarrow> ui_page" where
  "executeCommand cmd s =
     (let history = cmd # up_commandHistory s;
          s1 = s\<lparr>up_console := up_console s @ [ConsoleCommand (js ''> '' @ cmd)], up_consoleInput := [],
                 up_commandHistory := (if length history > 50 then butlast history else history), up_historyIndex := - 1\<rparr>
      in if up_wsOpen s1
         then s1\<lparr>up_sent := up_sent s1 @ [JObj [(js ''type'', JStr (js ''command'')), (js ''command'', JStr cmd)]]\<rparr>
         else fetch_call
                \<lparr>pr_method = js ''POST'', pr_url = js ''/api/db/command'', pr_token = Some (up_adminToken s1),
                 pr_body = Some (JObj [(js ''command'', JStr cmd)])\<rparr> UCommandCall s1)"

text \<open>The status of the answer is not looked at; a body of \<open>null\<close> makes \<open>handleCommandResult\<close> throw, with a message.\<close>

definition executeCommand_answer :: "ui_env \<Rightarrow> jstring \<Rightarrow> json reply \<Rightarrow> ui_page \<Rightarrow> ui_page" where
  "executeCommand_answer E null_message r s =
     (case r of
        Fulfilled data \<Rightarrow> handleCommandResult E (if data = JNull then system_error null_message else data) s
      | NotOk msg \<Rightarrow> handleCommandResult E (system_error msg) s
      | BadBody msg \<Rightarrow> handleCommandResult E (system_error msg) s
      | Rejected msg \<Rightarrow> handleCommandResult E (system_error msg) s)"

definition navigateHistory :: "int \<Rightarrow> ui_page \<Rightarrow> ui_page" where
  "navigateHistory direction s =
     (if up_commandHistory s = [] then s
      else
        let i = up_historyIndex s + direction;
            i = (if i \<ge> int (length (up_commandHistory s)) then int (length (up_commandHistory s)) - 1 else i);
            i = (if i < - 1 then - 1 else i)
        in s\<lparr>up_historyIndex := i, up_consoleInput := (if i = - 1 then [] else up_commandHistory s ! nat i)\<rparr>)"

definition console_enter :: "ui_page \<Rightarrow> ui_page" where
  "console_enter s = (let cmd = trim (up_consoleInput s) in if cmd \<noteq> [] then executeCommand cmd s else s)"

subsection \<open>Views, deployment and containers\<close>

definition view_title :: "jstring \<Rightarrow> jstring" where
  "view_title v =
     (if v = js ''console'' then js ''Console''
      else if v = js ''mesh'' then js ''Mesh Topology''
      else if v = js ''cluster'' then js ''Cluster Nodes''
      else if v = js ''events'' then js ''Event Stream''
      else if v = js ''deployment'' then js ''Deployment''
      else js ''Dashboard'')"

definition switchView :: "ui_env \<Rightarrow> jstring \<Rightarrow> ui_page \<Rightarrow> ui_page" where
  "switchView E viewId s =
     (let s1 = s\<lparr>up_currentView := viewId, up_activeNav := filter (\<lambda>v. v = viewId) (ue_nav E),
               up_shownViews := filter (\<lambda>v. v = js ''view-'' @ viewId) (ue_views E), up_viewTitle := view_title viewId\<rparr>;
          s2 = (if viewId = js ''console'' then setTimeout (Own FocusConsole) 10 s1 else s1)
      in s2\<lparr>up_mesh := (if viewId = js ''mesh'' then mesh_start (up_mesh s2) else mesh_stop (up_mesh s2))\<rparr>)"

definition set_adminToken :: "jstring \<Rightarrow> ui_page \<Rightarrow> ui_page" where
  "set_adminToken v s = s\<lparr>up_adminToken := v, up_storedToken := Some v\<rparr>"

definition globalRefresh :: "ui_page \<Rightarrow> ui_page" where
  "globalRefresh s = fetch_call (simple_request ''GET'' (js ''/api/status'')) UStatusCall s"

definition globalRefresh_answer :: "ui_env \<Rightarrow> nat \<Rightarrow> json reply \<Rightarrow> ui_page \<Rightarrow> ui_page" where
  "globalRefresh_answer E now r s =
     (case r of
        Fulfilled data \<Rightarrow>
          handleStatusMessage E now
            (JObj (obj_set (js ''connected'') (JBool True) (spread [(js ''type'', JStr (js ''status''))] data))) s
      | _ \<Rightarrow> s)"

definition dockerRefresh :: "ui_page \<Rightarrow> ui_page" where
  "dockerRefresh s = fetch_call (simple_request ''GET'' (js ''/api/docker/containers'')) UContainersCall s"

definition show_containers :: "ui_env \<Rightarrow> ContainerInfo list \<Rightarrow> ui_page \<Rightarrow> ui_page" where
  "show_containers E cs s = s\<lparr>up_docker := renderContainerCards (ue_compare E) cs (up_docker s)\<rparr>"

definition containerAction :: "jstring \<Rightarrow> jstring \<Rightarrow> ui_page \<Rightarrow> ui_page" where
  "containerAction container action s =
     (let s1 = s\<lparr>up_docker := mark_busy container (up_docker s)\<rparr>
      in if up_wsOpen s1
         then s1\<lparr>up_sent := up_sent s1 @ [JObj [(js ''type'', JStr (js ''docker_action'')), (js ''container'', JStr container),
                (js ''action'', JStr action)]]\<rparr>
         else s1)"

definition runDeployment :: "bool \<Rightarrow> ui_page \<Rightarrow> ui_page" where
  "runDeployment start s =
     fetch_call
       \<lparr>pr_method = js ''POST'', pr_url = js ''/api/deploy/'' @ (if start then js ''start'' else js ''stop''),
        pr_token = Some (up_adminToken s), pr_body = None\<rparr> UDeployCall
       (s\<lparr>up_deployDisabled := True,
          up_deployLogs := js ''Running docker compose '' @ (if start then js ''up -d'' else js ''down'') @ js ''...'' @ [10]\<rparr>)"

text \<open>The answer gives the texts of \<open>data.code\<close>, \<open>data.stdout\<close> and \<open>data.stderr\<close>, or a message.\<close>

definition runDeployment_answer :: "(jstring \<times> jstring \<times> jstring) reply \<Rightarrow> ui_page \<Rightarrow> ui_page" where
  "runDeployment_answer r s =
     (let text = (case r of
            Fulfilled (code, out, err) \<Rightarrow>
              [10] @ js ''[Exit Code '' @ code @ js '']'' @ [10] @ js ''STDOUT:'' @ [10] @ out @ [10] @ js ''STDERR:'' @ [10] @ err
          | NotOk msg \<Rightarrow> [10] @ js ''Error: '' @ msg
          | BadBody msg \<Rightarrow> [10] @ js ''Error: '' @ msg
          | Rejected msg \<Rightarrow> [10] @ js ''Error: '' @ msg)
      in s\<lparr>up_deployLogs := up_deployLogs s @ text, up_deployDisabled := False\<rparr>)"

subsection \<open>Messages and steps\<close>

datatype ui_message =
    UmStatus json
  | UmEvent jstring jstring
  | UmDocker "ContainerInfo list"
  | UmCommandResult json
  | UmOther

fun ui_onmessage :: "ui_env \<Rightarrow> nat \<Rightarrow> ui_message \<Rightarrow> ui_page \<Rightarrow> ui_page" where
  "ui_onmessage E now (UmStatus data) s = handleStatusMessage E now data s"
| "ui_onmessage E now (UmEvent channel message) s = handleEventMessage E channel message s"
| "ui_onmessage E now (UmDocker cs) s = show_containers E cs s"
| "ui_onmessage E now (UmCommandResult data) s = handleCommandResult E data s"
| "ui_onmessage E now UmOther s = s"

definition ui_init :: "ui_env \<Rightarrow> ui_page \<Rightarrow> ui_page" where
  "ui_init E s = ui_connect E s"

fun ui_timer_fires :: "ui_env \<Rightarrow> ui_timer timer \<Rightarrow> ui_page \<Rightarrow> ui_page" where
  "ui_timer_fires E (ToastFade t) s = fade_toast t s"
| "ui_timer_fires E (ToastRemove t) s = remove_toast t s"
| "ui_timer_fires E Reconnect s = ui_connect E s"
| "ui_timer_fires E (Own FocusConsole) s = s"

inductive ui_page_step :: "ui_env \<Rightarrow> ui_page \<Rightarrow> ui_page \<Rightarrow> bool" for E where
  nav: "ui_page_step E s (switchView E v s)"
| type_token: "ui_page_step E s (set_adminToken v s)"
| type_console: "ui_page_step E s (s\<lparr>up_consoleInput := input_value v\<rparr>)"
| enter: "ui_page_step E s (console_enter s)"
| arrow_up: "ui_page_step E s (navigateHistory 1 s)"
| arrow_down: "ui_page_step E s (navigateHistory (- 1) s)"
| refresh: "ui_page_step E s (globalRefresh s)"
| refresh_containers: "ui_page_step E s (dockerRefresh s)"
| click_container: "x \<in> set (dp_cards (up_docker s)) \<Longrightarrow> (action, container) \<in> set (dc_actions x) \<Longrightarrow>
    ui_page_step E s (containerAction container action s)"
| click_deploy: "\<not> up_deployDisabled s \<Longrightarrow> ui_page_step E s (runDeployment start s)"
| timer: "(i, t, d) \<in> set (pg_timers s) \<Longrightarrow> ui_page_step E s (ui_timer_fires E t (take_timer i s))"
| status_answer: "(i, UStatusCall) \<in> set (pg_calls s) \<Longrightarrow> ui_page_step E s (globalRefresh_answer E now r (take_call i s))"
| containers_answer: "(i, UContainersCall) \<in> set (pg_calls s) \<Longrightarrow> ui_page_step E s (show_containers E cs (take_call i s))"
| containers_failed: "(i, UContainersCall) \<in> set (pg_calls s) \<Longrightarrow> ui_page_step E s (take_call i s)"
| command_answer: "(i, UCommandCall) \<in> set (pg_calls s) \<Longrightarrow> ui_page_step E s (executeCommand_answer E m r (take_call i s))"
| deploy_answer: "(i, UDeployCall) \<in> set (pg_calls s) \<Longrightarrow> ui_page_step E s (runDeployment_answer rd (take_call i s))"
| opened: "ui_page_step E s (ui_onopen s)"
| closed: "ui_page_step E s (ui_onclose s)"
| message: "ui_page_step E s (ui_onmessage E now msg s)"

end
