(* ===== verification/Ui_Page_Correct.thy ===== *)
theory Ui_Page_Correct
  imports Ui_Page
begin

section \<open>What the dashboard page keeps and recalls\<close>

text \<open>
  The bounds of the page's histories in every state it can reach, and the commands its console recalls.
\<close>

subsection \<open>Bounded histories\<close>

definition ui_bounds :: "ui_page \<Rightarrow> bool" where
  "ui_bounds s \<longleftrightarrow>
     length (up_history s) \<le> MAX_HISTORY \<and> length (up_commandHistory s) \<le> 50
     \<and> - 1 \<le> up_historyIndex s \<and> up_historyIndex s < int (length (up_commandHistory s))
     \<and> distinct (map mn_id (me_nodes (up_mesh s)))"

lemma mesh_distinct:
  assumes "distinct (map mn_id (me_nodes m))"
  shows "distinct (map mn_id (me_nodes (updateFromStatus kv peers m)))"
proof -
  have f: "distinct (map mn_id (foldl (\<lambda>ns i. addOrUpdateNode (a i) (b i) (c i) False ns) ns is))"
    if "distinct (map mn_id ns)" for ns and a b :: "nat \<Rightarrow> jstring" and c "is"
    using that by (induction "is" arbitrary: ns) (simp_all add: distinct_add)
  show ?thesis
    using assms
    by (simp add: updateFromStatus_def Let_def remove_missing_def distinct_map_filter add_peers(2) distinct_add f)
qed

lemma history_pushed: "length hs \<le> MAX_HISTORY \<Longrightarrow> length (push_history e hs) \<le> MAX_HISTORY"
  by (simp add: push_history_def Let_def)

lemma bounds_shared [simp]:
  "ui_bounds (setTimeout t d s) = ui_bounds s" "ui_bounds (fetch_call q c s) = ui_bounds s"
  "ui_bounds (take_call i s) = ui_bounds s" "ui_bounds (take_timer i s) = ui_bounds s"
  "ui_bounds (remove_toast k s) = ui_bounds s" "ui_bounds (fade_toast k s) = ui_bounds s"
  "ui_bounds (connectWebSocket p h s) = ui_bounds s"
  by (simp_all add: ui_bounds_def setTimeout_def fetch_call_def take_call_def take_timer_def clearTimeout_def
      remove_toast_def fade_toast_def connectWebSocket_def)

lemma bounds_panels [simp]:
  "ui_bounds (updateConnectionStatus b m s) = ui_bounds s" "ui_bounds (updateDashboard E kv raw s) = ui_bounds s"
  "ui_bounds (updateClusterTable kv s) = ui_bounds s" "ui_bounds (handleEventMessage E c x s) = ui_bounds s"
  "ui_bounds (handleCommandResult E j s) = ui_bounds s" "ui_bounds (show_containers E cs s) = ui_bounds s"
  "ui_bounds (containerAction c a s) = ui_bounds s" "ui_bounds (runDeployment_answer rd s) = ui_bounds s"
  "ui_bounds (set_adminToken v s) = ui_bounds s" "ui_bounds (s\<lparr>up_consoleInput := v\<rparr>) = ui_bounds s"
  by (simp_all add: ui_bounds_def updateConnectionStatus_def updateDashboard_def updateClusterTable_def handleEventMessage_def
      handleCommandResult_def show_containers_def containerAction_def runDeployment_answer_def set_adminToken_def Let_def)

lemma bounds_controls [simp]:
  "ui_bounds (runDeployment b s) = ui_bounds s" "ui_bounds (globalRefresh s) = ui_bounds s" "ui_bounds (dockerRefresh s) = ui_bounds s"
  "ui_bounds (executeCommand_answer E m r s) = ui_bounds s" "ui_bounds (ui_connect E s) = ui_bounds s"
  "ui_bounds (ui_onopen s) = ui_bounds s" "ui_bounds (ui_onclose s) = ui_bounds s" "ui_bounds (switchView E v s) = ui_bounds s"
proof -
  show "ui_bounds (runDeployment b s) = ui_bounds s" by (simp add: runDeployment_def) (simp add: ui_bounds_def)
  show "ui_bounds (ui_connect E s) = ui_bounds s" by (simp add: ui_connect_def connectWebSocket_def ui_bounds_def)
  show "ui_bounds (ui_onopen s) = ui_bounds s" by (simp add: ui_onopen_def updateConnectionStatus_def ui_bounds_def)
  show "ui_bounds (ui_onclose s) = ui_bounds s"
    by (simp add: ui_onclose_def Let_def) (simp add: updateConnectionStatus_def ui_bounds_def)
  show "ui_bounds (switchView E v s) = ui_bounds s"
    by (simp add: switchView_def Let_def setTimeout_def mesh_start_def mesh_stop_def ui_bounds_def)
qed (simp_all add: globalRefresh_def dockerRefresh_def executeCommand_answer_def split: reply.split)

lemma bounds_status: "ui_bounds s \<Longrightarrow> ui_bounds (handleStatusMessage E now data s)"
proof -
  assume b: "ui_bounds s"
  have "ui_bounds (t\<lparr>up_mesh := updateFromStatus kv ps (up_mesh t)\<rparr>)" if "ui_bounds t" for t kv ps
    using that mesh_distinct by (simp add: ui_bounds_def)
  moreover have "ui_bounds (t\<lparr>up_lastStatus := l, up_history := push_history e (up_history t)\<rparr>)" if "ui_bounds t" for t l e
    using that history_pushed by (simp add: ui_bounds_def)
  ultimately show ?thesis using b by (simp add: handleStatusMessage_def Let_def)
qed

lemma bounds_command: "ui_bounds s \<Longrightarrow> ui_bounds (executeCommand cmd s)"
  by (simp add: executeCommand_def Let_def) (simp add: ui_bounds_def)

lemma bounds_navigate: "ui_bounds s \<Longrightarrow> ui_bounds (navigateHistory d s)"
  by (auto simp: navigateHistory_def ui_bounds_def Let_def)

lemma ui_step_bounds:
  assumes "ui_page_step E s s'" and "ui_bounds s"
  shows "ui_bounds s'"
  using assms
proof (cases rule: ui_page_step.cases)
  case enter
  then show ?thesis using assms(2) by (simp add: console_enter_def Let_def bounds_command)
next
  case (timer i t d)
  then show ?thesis using assms(2)
    by (cases "(E, t, take_timer i s)" rule: ui_timer_fires.cases) auto
next
  case (status_answer i now r)
  then show ?thesis using assms(2)
    by (auto simp: globalRefresh_answer_def intro: bounds_status split: reply.split)
next
  case (message now msg)
  then show ?thesis using assms(2)
    by (cases msg) (simp_all add: bounds_status)
qed (simp_all add: bounds_navigate)

text \<open>
In every state the dashboard page can reach, the status history has at most forty entries and the command history at most
fifty, the history index lies between \<open>-1\<close> and the last command, so that the arrow keys never read outside the list, and no
node appears twice in the mesh.
\<close>

theorem dashboard_page_bounded:
  assumes "(ui_page_step E)\<^sup>*\<^sup>* (ui_init E (blank_dashboard stored)) s"
  shows "length (up_history s) \<le> 40 \<and> length (up_commandHistory s) \<le> 50 \<and> - 1 \<le> up_historyIndex s
    \<and> up_historyIndex s < int (length (up_commandHistory s)) \<and> distinct (map mn_id (me_nodes (up_mesh s)))"
proof -
  have "ui_bounds s" using assms
  proof (induction rule: rtranclp_induct)
    case base
    show ?case by (simp add: ui_init_def) (simp add: ui_bounds_def blank_dashboard_def MAX_HISTORY_def new_mesh_def)
  next
    case (step s s')
    then show ?case using ui_step_bounds by blast
  qed
  then show ?thesis by (simp add: ui_bounds_def MAX_HISTORY_def)
qed

abbreviation plain_ui_env :: ui_env where
  "plain_ui_env \<equiv> \<lparr>ue_nav = [], ue_views = [], ue_pretty = stringify, ue_str = stringify, ue_compare = (\<lambda>_ _. 0),
     ue_clock = (\<lambda>_. []), ue_protocol = js ''http:'', ue_host = js ''h''\<rparr>"

abbreviation sample_dashboard :: ui_page where
  "sample_dashboard \<equiv> navigateHistory 1 (ui_init plain_ui_env (blank_dashboard None))"

theorem dashboard_page_bounded_witness:
  "length (up_history sample_dashboard) \<le> 40 \<and> length (up_commandHistory sample_dashboard) \<le> 50
    \<and> - 1 \<le> up_historyIndex sample_dashboard \<and> up_historyIndex sample_dashboard < int (length (up_commandHistory sample_dashboard))
    \<and> distinct (map mn_id (me_nodes (up_mesh sample_dashboard)))"
  by (rule dashboard_page_bounded [of plain_ui_env None]) (simp add: ui_page_step.arrow_up r_into_rtranclp)

subsection \<open>The console recalls its commands\<close>

lemma executed_history:
  assumes "length (up_commandHistory s) \<le> 50"
  shows "up_commandHistory (executeCommand cmd s) = take 50 (cmd # up_commandHistory s)"
    and "up_historyIndex (executeCommand cmd s) = - 1"
proof -
  have "butlast (cmd # up_commandHistory s) = take 50 (cmd # up_commandHistory s)" if "length (up_commandHistory s) = 50"
    using that by (subst butlast_conv_take) simp
  then show "up_commandHistory (executeCommand cmd s) = take 50 (cmd # up_commandHistory s)"
    using assms by (simp add: executeCommand_def Let_def fetch_call_def del: butlast.simps)
  show "up_historyIndex (executeCommand cmd s) = - 1" by (simp add: executeCommand_def Let_def fetch_call_def)
qed

lemma executed_commands:
  assumes "length (up_commandHistory s) \<le> 50" and "cmds \<noteq> []"
  shows "up_commandHistory (foldl (\<lambda>s c. executeCommand c s) s cmds) = take 50 (rev cmds @ up_commandHistory s)
    \<and> up_historyIndex (foldl (\<lambda>s c. executeCommand c s) s cmds) = - 1"
  using assms(2)
proof (induction cmds rule: rev_induct)
  case (snoc c cs)
  have "49 - min (length cs) 50 = 49 - length cs" by (simp add: min_def)
  with snoc show ?case
    using assms(1) executed_history [of "foldl (\<lambda>s c. executeCommand c s) s cs" c]
      executed_history [of s c]
    by (cases "cs = []") simp_all
qed simp

lemma arrow_up_times:
  assumes "up_historyIndex s = - 1" and "j < length (up_commandHistory s)"
  shows "up_historyIndex ((navigateHistory 1 ^^ Suc j) s) = int j
    \<and> up_consoleInput ((navigateHistory 1 ^^ Suc j) s) = up_commandHistory s ! j
    \<and> up_commandHistory ((navigateHistory 1 ^^ Suc j) s) = up_commandHistory s"
  using assms(2)
proof (induction j)
  case 0
  then show ?case using assms(1) by (auto simp: navigateHistory_def Let_def)
next
  case (Suc j)
  then have "up_historyIndex ((navigateHistory 1 ^^ Suc j) s) = int j"
    "up_commandHistory ((navigateHistory 1 ^^ Suc j) s) = up_commandHistory s" by simp_all
  moreover have "(navigateHistory 1 ^^ Suc (Suc j)) s = navigateHistory 1 ((navigateHistory 1 ^^ Suc j) s)" by simp
  ultimately show ?case using Suc.prems
    by (simp only:) (auto simp: navigateHistory_def Let_def nat_add_distrib)
qed

text \<open>
The console recalls what was entered: after any commands, pressing the up arrow \<open>j\<close> times puts the \<open>j\<close>-th most recent of
them into the input, for every \<open>j\<close> up to their number and at most fifty, whether they went over the WebSocket or over HTTP.
\<close>

theorem console_recalls_commands:
  assumes "length (up_commandHistory s) \<le> 50" and "j < length cmds" and "j < 50"
  shows "up_consoleInput ((navigateHistory 1 ^^ Suc j) (foldl (\<lambda>s c. executeCommand c s) s cmds)) = rev cmds ! j"
proof -
  let ?t = "foldl (\<lambda>s c. executeCommand c s) s cmds"
  have "cmds \<noteq> []" using assms(2) by auto
  from executed_commands [OF assms(1) this]
  have h: "up_commandHistory ?t = take 50 (rev cmds @ up_commandHistory s)" and i: "up_historyIndex ?t = - 1" by simp_all
  have "j < length (up_commandHistory ?t)" using assms by (simp add: h)
  from arrow_up_times [OF i this] have "up_consoleInput ((navigateHistory 1 ^^ Suc j) ?t) = up_commandHistory ?t ! j" by simp
  also have "\<dots> = rev cmds ! j" using assms by (simp add: h nth_append)
  finally show ?thesis .
qed

theorem console_recalls_commands_witness:
  "up_consoleInput ((navigateHistory 1 ^^ Suc 1)
     (foldl (\<lambda>s c. executeCommand c s) (blank_dashboard None) [js ''GET a'', js ''STATUS'']))
   = rev [js ''GET a'', js ''STATUS''] ! 1"
  by (rule console_recalls_commands) (simp_all add: blank_dashboard_def)

end
