(* ===== verification/Sct.thy ===== *)
theory Sct
  imports Kv_Procedures
begin

section \<open>Signed capability tokens on the server (\<open>src/server/auth.zig\<close>)\<close>

text \<open>
  The token format, its verification, and the capability check in front of every command: the reader
  \<open>verifyAndParse\<close>, \<open>TokenState.permits\<close>, \<open>commandPermittedUnion\<close>, the gate of \<open>executor.execute\<close>, the
  AUTH command and the expiry of the WebSocket gateway, and the procedure \<open>auth_mint_scoped\<close>. Ed25519 is
  a parameter: \<open>verify pk m sig\<close> and \<open>sign m\<close>. Times are milliseconds since the epoch; failing
  allocation is not modelled. An unsigned subtraction below zero stops a safety-checked build, which
  is an outcome of its own.
\<close>

subsection \<open>Capabilities\<close>

datatype Operation = OpGet | OpSet | OpDelete | OpSubscribe | OpPublish | OpExec | OpAll

datatype MatchType = MatchExact | MatchPrefix | MatchWildcard

record Capability =
  cap_op :: Operation
  cap_match :: MatchType
  cap_pattern :: bytes

record TokenState =
  ts_subject :: bytes
  ts_iat :: nat
  ts_exp :: nat
  ts_jti :: nat
  ts_capabilities :: "Capability list"

fun operation_code :: "Operation \<Rightarrow> nat" where
  "operation_code OpGet = 0x01"
| "operation_code OpSet = 0x02"
| "operation_code OpDelete = 0x03"
| "operation_code OpSubscribe = 0x04"
| "operation_code OpPublish = 0x05"
| "operation_code OpExec = 0x06"
| "operation_code OpAll = 0xFF"

fun match_code :: "MatchType \<Rightarrow> nat" where
  "match_code MatchExact = 0x01"
| "match_code MatchPrefix = 0x02"
| "match_code MatchWildcard = 0xFF"

text \<open>\<open>compat.intToEnum\<close> on the two enumerations.\<close>

definition operation_of :: "byte \<Rightarrow> Operation option" where
  "operation_of b = find (\<lambda>x. operation_code x = unat b) [OpGet, OpSet, OpDelete, OpSubscribe, OpPublish, OpExec, OpAll]"

definition match_of :: "byte \<Rightarrow> MatchType option" where
  "match_of b = find (\<lambda>x. match_code x = unat b) [MatchExact, MatchPrefix, MatchWildcard]"

definition starts_with :: "bytes \<Rightarrow> bytes \<Rightarrow> bool" where
  "starts_with target pattern \<longleftrightarrow> take (length pattern) target = pattern"

fun permits_any :: "Capability list \<Rightarrow> Operation \<Rightarrow> bytes \<Rightarrow> bool" where
  "permits_any [] oper target = False"
| "permits_any (cap # caps) oper target =
     (if cap_op cap \<noteq> OpAll \<and> cap_op cap \<noteq> oper then permits_any caps oper target
      else
        case cap_match cap of
          MatchWildcard \<Rightarrow> True
        | MatchExact \<Rightarrow> if cap_pattern cap = target then True else permits_any caps oper target
        | MatchPrefix \<Rightarrow> if starts_with target (cap_pattern cap) then True else permits_any caps oper target)"

definition permits :: "TokenState \<Rightarrow> Operation \<Rightarrow> bytes \<Rightarrow> bool" where
  "permits state oper target = permits_any (ts_capabilities state) oper target"

definition isExpired :: "nat \<Rightarrow> TokenState \<Rightarrow> bool" where
  "isExpired nowMs state \<longleftrightarrow> nowMs div 1000 \<ge> ts_exp state"

subsection \<open>Verification and parsing\<close>

definition SIGNATURE_LEN :: nat where
  "SIGNATURE_LEN = 64"

datatype token_error = TokenTooShort | InvalidSignature | MalformedToken | TokenExpired | TokenNotYetValid
  | TokenTooLongLived | LifetimeUnderflow

fun readCaps :: "bytes \<Rightarrow> nat \<Rightarrow> nat \<Rightarrow> token_error + Capability list" where
  "readCaps payload pos 0 = Inr []"
| "readCaps payload pos (Suc n) =
     (if pos + 2 > length payload then Inl MalformedToken
      else
        case (operation_of (payload ! pos), match_of (payload ! (pos + 1))) of
          (Some oper, Some match_type) \<Rightarrow>
            (let pos = pos + 2 in
             if pos + 4 > length payload then Inl MalformedToken
             else
               let pat_len = rd32 (drop pos payload); pos = pos + 4 in
               if pos + pat_len > length payload then Inl MalformedToken
               else
                 and_then (readCaps payload (pos + pat_len) n) (\<lambda>caps.
                   Inr (\<lparr>cap_op = oper, cap_match = match_type, cap_pattern = take pat_len (drop pos payload)\<rparr> # caps)))
        | _ \<Rightarrow> Inl MalformedToken)"

definition parse_claims :: "bytes \<Rightarrow> nat \<Rightarrow> nat \<Rightarrow> token_error + TokenState" where
  "parse_claims payload nowMs max_age_s =
     (if 8 > length payload then Inl MalformedToken
      else
        let iat = rd64 payload in
        if 16 > length payload then Inl MalformedToken
        else
          let exp = rd64 (drop 8 payload); now = nowMs div 1000 in
          if now \<ge> exp then Inl TokenExpired
          else if iat > now + 60 then Inl TokenNotYetValid
          else if max_age_s > 0 \<and> exp < iat then Inl LifetimeUnderflow
          else if max_age_s > 0 \<and> exp - iat > max_age_s then Inl TokenTooLongLived
          else if 20 > length payload then Inl MalformedToken
          else
            let sub_len = rd32 (drop 16 payload) in
            if 20 + sub_len > length payload then Inl MalformedToken
            else
              let subject = take sub_len (drop 20 payload); pos = 20 + sub_len in
              if pos + 4 > length payload then Inl MalformedToken
              else
                let jti = rd32 (drop pos payload); pos = pos + 4 in
                if pos + 1 > length payload then Inl MalformedToken
                else
                  and_then (readCaps payload (pos + 1) (unat (payload ! pos))) (\<lambda>caps.
                    Inr \<lparr>ts_subject = subject, ts_iat = iat, ts_exp = exp, ts_jti = jti, ts_capabilities = caps\<rparr>))"

definition verifyAndParse :: "(bytes \<Rightarrow> bytes \<Rightarrow> bytes \<Rightarrow> bool) \<Rightarrow> bytes \<Rightarrow> bytes list \<Rightarrow> nat \<Rightarrow> nat
    \<Rightarrow> token_error + TokenState" where
  "verifyAndParse verify tok public_keys nowMs max_age_s =
     (if length tok < SIGNATURE_LEN + 21 then Inl TokenTooShort
      else
        let payload = take (length tok - SIGNATURE_LEN) tok;
            sig = drop (length tok - SIGNATURE_LEN) tok
        in if \<not> (\<exists>pk \<in> set public_keys. verify pk payload sig) then Inl InvalidSignature
           else parse_claims payload nowMs max_age_s)"

subsection \<open>The check in front of a command\<close>

definition operationForCommand :: "ZCommand \<Rightarrow> Operation option" where
  "operationForCommand cmd =
     (case cmd of
        ZGet _ \<Rightarrow> Some OpGet
      | ZSet _ _ _ \<Rightarrow> Some OpSet
      | ZDelete _ \<Rightarrow> Some OpDelete
      | ZSubscribe _ _ \<Rightarrow> Some OpSubscribe
      | ZUnsubscribe _ \<Rightarrow> Some OpSubscribe
      | ZPublish _ _ \<Rightarrow> Some OpPublish
      | ZExec _ _ \<Rightarrow> Some OpExec
      | ZVinsert _ \<Rightarrow> Some OpSet
      | ZVbulkinsert _ _ _ _ _ \<Rightarrow> Some OpSet
      | ZVrabitqInstall _ _ _ _ _ \<Rightarrow> Some OpSet
      | ZVdelete _ _ \<Rightarrow> Some OpDelete
      | ZSave \<Rightarrow> Some OpAll
      | _ \<Rightarrow> None)"

definition commandTarget :: "ZCommand \<Rightarrow> bytes option" where
  "commandTarget cmd =
     (case cmd of
        ZGet key \<Rightarrow> Some key
      | ZSet key _ _ \<Rightarrow> Some key
      | ZDelete key \<Rightarrow> Some key
      | ZSubscribe channel _ \<Rightarrow> Some channel
      | ZUnsubscribe ch \<Rightarrow> Some ch
      | ZPublish channel _ \<Rightarrow> Some channel
      | ZExec procedure _ \<Rightarrow> Some procedure
      | ZSave \<Rightarrow> Some []
      | ZVinsert p \<Rightarrow> Some (vp_key p)
      | ZVdelete key _ \<Rightarrow> Some key
      | ZVbulkinsert _ _ _ _ _ \<Rightarrow> None
      | ZVrabitqInstall namespace _ _ _ _ \<Rightarrow> Some namespace
      | _ \<Rightarrow> None)"

definition commandPermittedUnion :: "TokenState \<Rightarrow> ZCommand \<Rightarrow> bool" where
  "commandPermittedUnion state cmd =
     (case operationForCommand cmd of
        None \<Rightarrow> True
      | Some oper \<Rightarrow>
          (case cmd of
             ZSave \<Rightarrow>
               list_ex (\<lambda>cap. cap_op cap = OpAll \<and> (cap_match cap = MatchWildcard
                 \<or> cap_match cap = MatchPrefix \<and> length (cap_pattern cap) = 0)) (ts_capabilities state)
           | ZVbulkinsert _ _ _ _ items \<Rightarrow> list_all (\<lambda>it. permits state oper (zi_key it)) items
           | _ \<Rightarrow> (case commandTarget cmd of None \<Rightarrow> False | Some target \<Rightarrow> permits state oper target)))"

datatype AuthContext = Trusted | Disabled | Enforce "TokenState option"

text \<open>The first switch of \<open>executor.execute\<close>; \<open>run\<close> is the dispatch below it.\<close>

definition execute_gate :: "AuthContext \<Rightarrow> (ZCommand \<Rightarrow> 'w \<Rightarrow> 'w \<times> ZResponse) \<Rightarrow> ZCommand \<Rightarrow> 'w \<Rightarrow> 'w \<times> ZResponse" where
  "execute_gate ac run cmd w =
     (case ac of
        Enforce maybe_state \<Rightarrow>
          if operationForCommand cmd \<noteq> None then
            (case maybe_state of
               None \<Rightarrow> (w, ZErr (lit ''auth required''))
             | Some state \<Rightarrow>
                 if \<not> commandPermittedUnion state cmd then (w, ZErr (lit ''permission denied'')) else run cmd w)
          else run cmd w
      | _ \<Rightarrow> run cmd w)"

subsection \<open>The gateway's connection\<close>

text \<open>
  What one connection of the WebSocket gateway does with a command: \<open>subscribe\<close>, \<open>unsubscribe\<close> and
  \<open>run\<close> stand for the subscription lists and the executor's dispatch, on the rest of the state.
\<close>

record gateway =
  gw_public_keys :: "bytes list"
  gw_max_token_age :: nat
  gw_auth_required :: bool

record 'w gateway_env =
  ge_verify :: "bytes \<Rightarrow> bytes \<Rightarrow> bytes \<Rightarrow> bool"
  ge_subscribe :: "bytes \<Rightarrow> bytes option \<Rightarrow> 'w \<Rightarrow> 'w \<times> ZResponse"
  ge_unsubscribe :: "bytes \<Rightarrow> 'w \<Rightarrow> 'w"
  ge_run :: "AuthContext \<Rightarrow> ZCommand \<Rightarrow> 'w \<Rightarrow> 'w \<times> ZResponse"

fun token_message :: "token_error \<Rightarrow> bytes" where
  "token_message InvalidSignature = lit ''invalid signature''"
| "token_message TokenExpired = lit ''token expired''"
| "token_message TokenNotYetValid = lit ''token not yet valid''"
| "token_message TokenTooLongLived = lit ''token lifetime exceeds max''"
| "token_message TokenTooShort = lit ''malformed token''"
| "token_message MalformedToken = lit ''malformed token''"
| "token_message _ = lit ''auth failed''"

definition expireAuthState :: "nat \<Rightarrow> TokenState option \<Rightarrow> TokenState option" where
  "expireAuthState nowMs auth =
     (case auth of Some current \<Rightarrow> if isExpired nowMs current then None else auth | None \<Rightarrow> None)"

text \<open>\<open>None\<close>: the subtraction of the lifetime check stopped the process.\<close>

definition gateway_command :: "gateway \<Rightarrow> 'w gateway_env \<Rightarrow> nat \<Rightarrow> TokenState option \<times> 'w \<Rightarrow> ZCommand
    \<Rightarrow> ((TokenState option \<times> 'w) \<times> ZResponse) option" where
  "gateway_command G E nowMs st cmd =
     (case st of (auth0, w) \<Rightarrow>
      let auth = expireAuthState nowMs auth0 in
      case cmd of
        ZAuth tok \<Rightarrow>
          if gw_public_keys G = [] then Some ((auth, w), ZErr (lit ''auth not configured''))
          else
            (case verifyAndParse (ge_verify E) tok (gw_public_keys G) nowMs (gw_max_token_age G) of
               Inl LifetimeUnderflow \<Rightarrow> None
             | Inl e \<Rightarrow> Some ((auth, w), ZErr (token_message e))
             | Inr state \<Rightarrow> Some ((Some state, w), ZOk))
      | ZSubscribe channel flt \<Rightarrow>
          if gw_auth_required G \<and> auth = None then Some ((auth, w), ZErr (lit ''auth required''))
          else if gw_auth_required G \<and> \<not> permits (the auth) OpSubscribe channel
          then Some ((auth, w), ZErr (lit ''permission denied''))
          else (case ge_subscribe E channel flt w of (w', r) \<Rightarrow> Some ((auth, w'), r))
      | ZUnsubscribe channel \<Rightarrow> Some ((auth, ge_unsubscribe E channel w), ZOk)
      | _ \<Rightarrow>
          let ac = (if gw_auth_required G then Enforce auth else Disabled) in
          case execute_gate ac (ge_run E ac) cmd w of (w', r) \<Rightarrow> Some ((auth, w'), r))"

text \<open>The commands of a connection, each with the time it is handled at.\<close>

fun gateway_run :: "gateway \<Rightarrow> 'w gateway_env \<Rightarrow> TokenState option \<times> 'w \<Rightarrow> (nat \<times> ZCommand) list
    \<Rightarrow> ((TokenState option \<times> 'w) \<times> ZResponse list) option" where
  "gateway_run G E st [] = Some (st, [])"
| "gateway_run G E st ((nowMs, cmd) # cmds) =
     (case gateway_command G E nowMs st cmd of
        None \<Rightarrow> None
      | Some (st', r) \<Rightarrow> map_option (\<lambda>(st'', rs). (st'', r # rs)) (gateway_run G E st' cmds))"

subsection \<open>The layout\<close>

text \<open>
  The layout of a token. \<open>encode\<close> fills a buffer of exactly this size; a list of more than 255
  capabilities or a text of \<open>2 ^ 32\<close> bytes would fail its checked casts.
\<close>

definition cap_bytes :: "Capability \<Rightarrow> bytes" where
  "cap_bytes cap = [of_nat (operation_code (cap_op cap)), of_nat (match_code (cap_match cap))] @ field (cap_pattern cap)"

definition claims :: "bytes \<Rightarrow> nat \<Rightarrow> nat \<Rightarrow> nat \<Rightarrow> Capability list \<Rightarrow> bytes" where
  "claims subject iat exp jti caps =
     be64 (int iat) @ be64 (int exp) @ field subject @ be32 jti @ [of_nat (length caps)] @ concat (map cap_bytes caps)"

definition sct_encode :: "(bytes \<Rightarrow> bytes) \<Rightarrow> bytes \<Rightarrow> nat \<Rightarrow> nat \<Rightarrow> nat \<Rightarrow> Capability list \<Rightarrow> bytes option" where
  "sct_encode sign subject iat exp jti caps =
     (if length subject < 2 ^ 32 \<and> length caps < 256 \<and> list_all (\<lambda>cap. length (cap_pattern cap) < 2 ^ 32) caps
      then let payload = claims subject iat exp jti caps in Some (payload @ sign payload)
      else None)"

subsection \<open>Reading back what was encoded\<close>

lemma operation_of_code [simp]: "operation_of (of_nat (operation_code oper)) = Some oper"
  by (cases oper) (simp_all add: operation_of_def)

lemma match_of_code [simp]: "match_of (of_nat (match_code mt)) = Some mt"
  by (cases mt) (simp_all add: match_of_def)

text \<open>Texts of a token that fit their length fields.\<close>

definition caps_fit :: "Capability list \<Rightarrow> bool" where
  "caps_fit caps \<longleftrightarrow> length caps < 256 \<and> list_all (\<lambda>cap. length (cap_pattern cap) < 4294967296) caps"

lemma readCaps_caps:
  assumes "reads payload pos (concat (map cap_bytes caps) @ rest)"
    and "list_all (\<lambda>cap. length (cap_pattern cap) < 4294967296) caps"
  shows "readCaps payload pos (length caps) = Inr caps"
  using assms
proof (induction caps arbitrary: pos)
  case (Cons cap caps)
  let ?o = "of_nat (operation_code (cap_op cap)) :: byte" and ?m = "of_nat (match_code (cap_match cap)) :: byte"
    and ?p = "cap_pattern cap"
  let ?r = "concat (map cap_bytes caps) @ rest"
  have r0: "reads payload pos (?o # ?m # be32 (length ?p) @ ?p @ ?r)"
    using Cons.prems(1) by (simp add: cap_bytes_def [of cap] field_def)
  note r1 = reads_skip1 [OF r0]
  note r2 = reads_skip1 [OF r1, simplified add.assoc, simplified]
  have l: "length ?p < 4294967296" using Cons.prems(2) by simp
  note r3 = reads_rd32 [OF r2 l]
  note r4 = reads_skip [OF r3(3)]
  have len: "length payload = pos + 6 + length ?p + length ?r"
    using reads_length [OF r4] by simp
  have "readCaps payload (pos + 6 + length ?p) (length caps) = Inr caps"
    using Cons.IH [of "pos + 6 + length ?p"] r4 Cons.prems(2) by (simp add: ac_simps)
  moreover have "take (length ?p) (drop (pos + 6) payload) = ?p"
    using r3(3) by (simp add: reads_def ac_simps)
  ultimately show ?case
    using reads_nth [OF r0] reads_nth [OF r1] r3(1) len by (simp add: Let_def ac_simps)
qed simp

lemma rd64_u64: "n < 18446744073709551616 \<Longrightarrow> rd64 (be64 (int n) @ r) = n"
  using rd64_be64 [of "int n" r] by simp

theorem parse_claims_of_claims:
  assumes "length subject < 4294967296" and "jti < 4294967296" and "caps_fit caps"
    and "iat < 18446744073709551616" and "exp < 18446744073709551616"
  shows "parse_claims (claims subject iat exp jti caps) nowMs max_age_s =
    (if nowMs div 1000 \<ge> exp then Inl TokenExpired
     else if iat > nowMs div 1000 + 60 then Inl TokenNotYetValid
     else if max_age_s > 0 \<and> exp < iat then Inl LifetimeUnderflow
     else if max_age_s > 0 \<and> exp - iat > max_age_s then Inl TokenTooLongLived
     else Inr \<lparr>ts_subject = subject, ts_iat = iat, ts_exp = exp, ts_jti = jti, ts_capabilities = caps\<rparr>)"
proof -
  let ?P = "claims subject iat exp jti caps" and ?c = "concat (map cap_bytes caps)"
  have r0: "reads ?P 0 (be64 (int iat) @ be64 (int exp) @ be32 (length subject) @ subject @ be32 jti @ [of_nat (length caps)] @ ?c)"
    by (simp add: reads_def claims_def field_def)
  note r1 = reads_rd64 [OF r0, simplified]
  note r2 = reads_rd64 [OF r1(3)]
  have r2': "reads ?P 16 (be32 (length subject) @ subject @ be32 jti @ [of_nat (length caps)] @ ?c)" using r2(3) by simp
  note r3 = reads_rd32 [OF r2' assms(1)]
  have r3': "reads ?P 20 (subject @ be32 jti @ [of_nat (length caps)] @ ?c)" using r3(3) by simp
  note r4 = reads_skip [OF r3']
  note r5 = reads_rd32 [OF r4 assms(2)]
  have r5': "reads ?P (24 + length subject) (of_nat (length caps) # ?c @ [])"
    using r5(3) by (simp add: add.commute add.left_commute)
  have count: "unat (?P ! (24 + length subject)) = length caps"
    using reads_nth [OF r5'] assms(3) by (simp add: caps_fit_def)
  have "reads ?P (25 + length subject) (?c @ [])" using reads_skip1 [OF r5'] by simp
  then have c: "readCaps ?P (25 + length subject) (length caps) = Inr caps"
    using assms(3) by (intro readCaps_caps [where rest = "[]"]) (simp_all add: caps_fit_def)
  have "rd64 ?P = iat" "rd64 (drop 8 ?P) = exp"
    using assms by (simp_all add: claims_def rd64_u64)
  moreover have "length ?P = 25 + length subject + length ?c" using reads_length [OF r5'] by simp
  moreover have "take (length subject) (drop 20 ?P) = subject" using r3' by (simp add: reads_def)
  ultimately show ?thesis
    using r3(1) r5(1) count c by (simp add: parse_claims_def Let_def add.commute)
qed

text \<open>
  What the code relies on of Ed25519: a signature has 64 bytes and verifies under the public key of the
  signing key.
\<close>

definition signs :: "(bytes \<Rightarrow> bytes \<Rightarrow> bytes \<Rightarrow> bool) \<Rightarrow> bytes \<Rightarrow> (bytes \<Rightarrow> bytes) \<Rightarrow> bool" where
  "signs verify pk sign \<longleftrightarrow> (\<forall>m. length (sign m) = 64 \<and> verify pk m (sign m))"

lemma verifyAndParse_signed:
  assumes "signs verify pk sign" and "pk \<in> set public_keys" and "21 \<le> length payload"
  shows "verifyAndParse verify (payload @ sign payload) public_keys nowMs max_age_s = parse_claims payload nowMs max_age_s"
  using assms by (auto simp: verifyAndParse_def signs_def SIGNATURE_LEN_def Let_def)

lemma length_claims: "21 \<le> length (claims subject iat exp jti caps)"
  by (simp add: claims_def field_def)

subsection \<open>What a connection may do\<close>

lemma starts_with_append [simp]: "starts_with (p @ r) p"
  by (simp add: starts_with_def)

text \<open>\<open>permits\<close> is the existence of a capability that names the operation and the target.\<close>

definition grants :: "Capability \<Rightarrow> Operation \<Rightarrow> bytes \<Rightarrow> bool" where
  "grants cap oper target \<longleftrightarrow> (cap_op cap = OpAll \<or> cap_op cap = oper)
     \<and> (case cap_match cap of MatchWildcard \<Rightarrow> True | MatchExact \<Rightarrow> cap_pattern cap = target
        | MatchPrefix \<Rightarrow> starts_with target (cap_pattern cap))"

lemma permits_grants: "permits state oper target \<longleftrightarrow> (\<exists>cap \<in> set (ts_capabilities state). grants cap oper target)"
proof -
  have "permits_any caps oper target \<longleftrightarrow> (\<exists>cap \<in> set caps. grants cap oper target)" for caps
    by (induction caps) (auto simp: grants_def split: MatchType.splits)
  then show ?thesis by (simp add: permits_def)
qed

text \<open>A protected command without a token that permits it has no effect.\<close>

definition protected :: "ZCommand \<Rightarrow> bool" where
  "protected cmd \<longleftrightarrow> operationForCommand cmd \<noteq> None \<and> (\<forall>ch. cmd \<noteq> ZUnsubscribe ch)"

lemma protected_refused:
  assumes "gw_auth_required G" and "protected cmd"
    and "\<forall>state. expireAuthState nowMs auth = Some state \<longrightarrow> \<not> commandPermittedUnion state cmd"
  shows "\<exists>m. gateway_command G E nowMs (auth, w) cmd = Some ((expireAuthState nowMs auth, w), ZErr m)"
  using assms
  by (cases "expireAuthState nowMs auth"; cases cmd)
    (auto simp: gateway_command_def execute_gate_def protected_def operationForCommand_def commandPermittedUnion_def
      commandTarget_def)

text \<open>The token of a connection is one that an AUTH command of it presented.\<close>

definition token_presented :: "gateway \<Rightarrow> 'w gateway_env \<Rightarrow> (nat \<times> ZCommand) list \<Rightarrow> TokenState \<Rightarrow> bool" where
  "token_presented G E cmds state \<longleftrightarrow>
     (\<exists>t tok. (t, ZAuth tok) \<in> set cmds
        \<and> verifyAndParse (ge_verify E) tok (gw_public_keys G) t (gw_max_token_age G) = Inr state)"

lemma gateway_command_token:
  assumes "gateway_command G E nowMs (auth, w) cmd = Some ((Some state, w'), r)"
  shows "auth = Some state \<or> token_presented G E [(nowMs, cmd)] state"
proof (cases "\<exists>tok. cmd = ZAuth tok")
  case True
  then show ?thesis
    using assms
    by (auto simp: gateway_command_def token_presented_def expireAuthState_def Let_def
        split: if_splits sum.splits token_error.splits option.splits)
next
  case False
  then have "expireAuthState nowMs auth = Some state"
    using assms by (auto simp: gateway_command_def Let_def split: ZCommand.splits if_splits prod.splits)
  then show ?thesis by (auto simp: expireAuthState_def split: option.splits if_splits)
qed

lemma gateway_run_token:
  assumes "gateway_run G E (auth, w) cmds = Some ((Some state, w'), rs)"
  shows "auth = Some state \<or> token_presented G E cmds state"
  using assms
proof (induction cmds arbitrary: auth w rs)
  case (Cons c cmds)
  obtain nowMs cmd where c: "c = (nowMs, cmd)" by (cases c)
  then obtain auth1 w1 r rs' where
    s: "gateway_command G E nowMs (auth, w) cmd = Some ((auth1, w1), r)"
      "gateway_run G E (auth1, w1) cmds = Some ((Some state, w'), rs')"
    using Cons.prems by (auto split: option.splits)
  from Cons.IH [OF s(2)] consider "auth1 = Some state" | "token_presented G E cmds state" by blast
  then show ?case
  proof cases
    case 1
    with s(1) have "auth = Some state \<or> token_presented G E [(nowMs, cmd)] state"
      by (simp add: gateway_command_token)
    with c show ?thesis by (auto simp: token_presented_def)
  qed (auto simp: token_presented_def)
qed simp

lemma verifyAndParse_verified:
  assumes "verifyAndParse verify tok public_keys nowMs max_age_s = Inr state"
  shows "\<exists>payload sig. tok = payload @ sig \<and> length sig = 64
    \<and> (\<exists>pk \<in> set public_keys. verify pk payload sig) \<and> parse_claims payload nowMs max_age_s = Inr state"
  using assms
  by (intro exI [of _ "take (length tok - 64) tok"] exI [of _ "drop (length tok - 64) tok"])
    (auto simp: verifyAndParse_def SIGNATURE_LEN_def Let_def split: if_splits)

text \<open>
C22: on a listener that requires authentication, a connection that began without a token gets an answer other
than an error to a protected command, or changes anything by it, only if it presented, in an earlier AUTH
command, a token whose claims carry a signature that verifies under one of the configured keys, the token
has not expired and one of its capabilities permits the command.
\<close>

theorem gateway_needs_token:
  assumes "gw_auth_required G" and "protected cmd"
    and "gateway_run G E (None, w0) cmds = Some ((auth, w), rs)"
    and "gateway_command G E nowMs (auth, w) cmd = Some ((auth', w'), r)"
    and "w' \<noteq> w \<or> (\<nexists>m. r = ZErr m)"
  shows "\<exists>t payload sig pk state. (t, ZAuth (payload @ sig)) \<in> set cmds \<and> pk \<in> set (gw_public_keys G)
    \<and> ge_verify E pk payload sig \<and> parse_claims payload t (gw_max_token_age G) = Inr state
    \<and> nowMs div 1000 < ts_exp state \<and> commandPermittedUnion state cmd"
proof -
  have "\<not> (\<forall>state. expireAuthState nowMs auth = Some state \<longrightarrow> \<not> commandPermittedUnion state cmd)"
  proof
    assume "\<forall>state. expireAuthState nowMs auth = Some state \<longrightarrow> \<not> commandPermittedUnion state cmd"
    from protected_refused [OF assms(1,2) this, of E w] assms(4,5) show False by auto
  qed
  then obtain state where s: "expireAuthState nowMs auth = Some state" "commandPermittedUnion state cmd" by blast
  then have a: "auth = Some state" "nowMs div 1000 < ts_exp state"
    by (auto simp: expireAuthState_def isExpired_def split: option.splits if_splits)
  then obtain t tok where t: "(t, ZAuth tok) \<in> set cmds"
      "verifyAndParse (ge_verify E) tok (gw_public_keys G) t (gw_max_token_age G) = Inr state"
    using gateway_run_token [of G E None w0 cmds state w rs] assms(3) by (auto simp: token_presented_def)
  with verifyAndParse_verified [OF t(2)] s(2) a(2) show ?thesis by blast
qed

text \<open>A signature scheme with the law: one key, constant signatures.\<close>

definition plain_sign :: "bytes \<Rightarrow> bytes" where
  "plain_sign m = replicate 64 7"

definition plain_verify :: "bytes \<Rightarrow> bytes \<Rightarrow> bytes \<Rightarrow> bool" where
  "plain_verify pk m s \<longleftrightarrow> pk = [1] \<and> s = replicate 64 7"

lemma plain_signs: "signs plain_verify [1] plain_sign"
  by (simp add: signs_def plain_verify_def plain_sign_def)

definition plain_gateway :: gateway where
  "plain_gateway = \<lparr>gw_public_keys = [[1]], gw_max_token_age = 0, gw_auth_required = True\<rparr>"

text \<open>A world that counts the commands it ran.\<close>

definition plain_env :: "nat gateway_env" where
  "plain_env = \<lparr>ge_verify = plain_verify, ge_subscribe = \<lambda>_ _ w. (w, ZOk), ge_unsubscribe = \<lambda>_ w. w,
     ge_run = \<lambda>_ _ w. (Suc w, ZOk)\<rparr>"

definition writer_claims :: bytes where
  "writer_claims = claims [] 1000 5000 0 [\<lparr>cap_op = OpSet, cap_match = MatchPrefix, cap_pattern = [9]\<rparr>]"

definition writer :: TokenState where
  "writer = \<lparr>ts_subject = [], ts_iat = 1000, ts_exp = 5000, ts_jti = 0,
     ts_capabilities = [\<lparr>cap_op = OpSet, cap_match = MatchPrefix, cap_pattern = [9]\<rparr>]\<rparr>"

lemma writer_parsed: "verifyAndParse plain_verify (writer_claims @ plain_sign writer_claims) [[1]] 2000000 0 = Inr writer"
  by (subst verifyAndParse_signed [OF plain_signs])
    (simp_all add: writer_claims_def writer_def length_claims parse_claims_of_claims caps_fit_def)

theorem gateway_needs_token_witness:
  "gateway_command plain_gateway plain_env 3000000 (Some writer, 0) (ZSet [9, 9] [] False) = Some ((Some writer, 1), ZOk)
   \<and> (\<exists>t payload sig pk state. (t, ZAuth (payload @ sig)) \<in> {(2000000, ZAuth (writer_claims @ plain_sign writer_claims))}
        \<and> pk = [1] \<and> plain_verify pk payload sig \<and> parse_claims payload t 0 = Inr state
        \<and> 3000 < ts_exp state \<and> commandPermittedUnion state (ZSet [9, 9] [] False))"
proof -
  let ?cmds = "[(2000000, ZAuth (writer_claims @ plain_sign writer_claims))]"
  have r: "gateway_run plain_gateway plain_env (None, 0) ?cmds = Some ((Some writer, 0), [ZOk])"
    using writer_parsed by (simp add: gateway_command_def plain_gateway_def plain_env_def expireAuthState_def)
  have c: "gateway_command plain_gateway plain_env 3000000 (Some writer, 0) (ZSet [9, 9] [] False) = Some ((Some writer, 1), ZOk)"
    by (simp add: gateway_command_def plain_gateway_def plain_env_def expireAuthState_def isExpired_def writer_def execute_gate_def
        commandPermittedUnion_def operationForCommand_def commandTarget_def permits_def starts_with_def)
  have "gw_auth_required plain_gateway" "protected (ZSet [9, 9] [] False)"
    by (simp_all add: plain_gateway_def protected_def operationForCommand_def)
  from gateway_needs_token [OF this r c] c show ?thesis
    by (simp add: plain_gateway_def plain_env_def)
qed

end
