(* ===== verification/Auth_Mint.thy ===== *)
theory Auth_Mint
  imports Sct Mem_Client
begin

section \<open>Minting tokens for a namespace (\<open>src/procedures/auth_mint_scoped.zig\<close>)\<close>

text \<open>
  The procedure by which a client with the authority to mint gets a token for one namespace of the agent
  memory: its guards, the capabilities of the token and the response. \<open>mc_sign\<close> signs with the
  server's key; \<open>jti\<close> is its random number. \<open>validateNs\<close> is the same code as in \<open>memory.zig\<close>.
\<close>

datatype NamespaceMode = ModeRead | ModeWrite | ModeReadwrite

definition namespaceModeFromStr :: "bytes \<Rightarrow> NamespaceMode option" where
  "namespaceModeFromStr s =
     (if s = lit ''read'' then Some ModeRead
      else if s = lit ''write'' then Some ModeWrite
      else if s = lit ''readwrite'' then Some ModeReadwrite
      else None)"

definition namespace_cap :: "Operation \<Rightarrow> string \<Rightarrow> bytes \<Rightarrow> Capability" where
  "namespace_cap oper pre namespace =
     \<lparr>cap_op = oper, cap_match = MatchPrefix, cap_pattern = lit pre @ namespace @ lit '':''\<rparr>"

definition exec_mem_cap :: Capability where
  "exec_mem_cap = \<lparr>cap_op = OpExec, cap_match = MatchPrefix, cap_pattern = lit ''mem_''\<rparr>"

definition namespaceCapabilities :: "bytes \<Rightarrow> NamespaceMode \<Rightarrow> Capability list" where
  "namespaceCapabilities namespace mode =
     (if mode = ModeRead \<or> mode = ModeReadwrite
      then [namespace_cap OpGet ''mem:'' namespace, namespace_cap OpGet ''vec:mem:'' namespace,
            namespace_cap OpGet ''bq:vec:mem:'' namespace, namespace_cap OpGet ''__meta:mem:'' namespace,
            exec_mem_cap, namespace_cap OpSubscribe ''mem:'' namespace]
      else [])
     @ (if mode = ModeWrite \<or> mode = ModeReadwrite
        then [namespace_cap OpSet ''mem:'' namespace, namespace_cap OpSet ''vec:mem:'' namespace,
              namespace_cap OpSet ''bq:vec:mem:'' namespace, namespace_cap OpSet ''__meta:mem:'' namespace,
              namespace_cap OpDelete ''mem:'' namespace, namespace_cap OpDelete ''vec:mem:'' namespace,
              namespace_cap OpDelete ''bq:vec:mem:'' namespace, namespace_cap OpDelete ''__meta:mem:'' namespace,
              namespace_cap OpPublish ''mem:'' namespace, exec_mem_cap]
        else [])"

text \<open>\<open>Ctx.permits\<close> and the authority to mint for a namespace.\<close>

definition ctx_permits :: "AuthContext \<Rightarrow> Operation \<Rightarrow> bytes \<Rightarrow> bool" where
  "ctx_permits ac oper target =
     (case ac of
        Enforce maybe_state \<Rightarrow> (case maybe_state of None \<Rightarrow> False | Some state \<Rightarrow> permits state oper target)
      | _ \<Rightarrow> True)"

definition canMint :: "AuthContext \<Rightarrow> bytes \<Rightarrow> bool" where
  "canMint ac ns =
     (if ctx_permits ac OpAll [] then True
      else if \<not> ctx_permits ac OpExec (lit ''auth_mint_scoped'') then False
      else ctx_permits ac OpExec (lit ''auth:mint:'' @ ns))"

record AuthMintConfig =
  mc_sign :: "bytes \<Rightarrow> bytes"
  mc_default_ttl_s :: nat
  mc_max_ttl_s :: nat

fun json_escaped :: "bytes \<Rightarrow> bytes" where
  "json_escaped [] = []"
| "json_escaped (c # s) =
     (if c = 34 then [92, 34] else if c = 92 then [92, 92] else if c = 10 then [92, 110]
      else if c = 13 then [92, 114] else if c = 9 then [92, 116] else [c]) @ json_escaped s"

fun mode_name :: "NamespaceMode \<Rightarrow> bytes" where
  "mode_name ModeRead = lit ''read''"
| "mode_name ModeWrite = lit ''write''"
| "mode_name ModeReadwrite = lit ''readwrite''"

definition minted_json :: "bytes \<Rightarrow> bytes \<Rightarrow> bytes \<Rightarrow> NamespaceMode \<Rightarrow> nat \<Rightarrow> nat \<Rightarrow> bytes" where
  "minted_json tok subject ns mode expiry jti =
     [123, 34] @ lit ''token'' @ [34, 58, 34] @ encodeUtf8 (base64 tok)
     @ [34, 44, 34] @ lit ''subject'' @ [34, 58, 34] @ json_escaped subject
     @ [34, 44, 34] @ lit ''namespace'' @ [34, 58, 34] @ json_escaped ns
     @ [34, 44, 34] @ lit ''mode'' @ [34, 58, 34] @ mode_name mode
     @ [34, 44, 34] @ lit ''exp'' @ [34, 58] @ decimal (int expiry)
     @ [44, 34] @ lit ''jti'' @ [34, 58] @ decimal (int jti) @ [125]"

text \<open>
  \<open>auth_mint_scoped\<close>: the response and, for the statements below, the token it holds. \<open>None\<close>: the
  addition of the lifetime overflowed, or a cast of \<open>encode\<close> failed, and the process stopped.
\<close>

definition mint_ttl :: "AuthMintConfig \<Rightarrow> bytes option \<Rightarrow> bytes + nat" where
  "mint_ttl mint arg =
     (case arg of
        None \<Rightarrow> Inr (mc_default_ttl_s mint)
      | Some raw \<Rightarrow>
          (case parse_u64 raw of
             None \<Rightarrow> Inl (lit ''auth_mint_scoped: ttl_s must be a positive integer'')
           | Some parsed \<Rightarrow> if parsed = 0 then Inl (lit ''auth_mint_scoped: ttl_s must be positive'') else Inr (nat parsed)))"

definition auth_mint_scoped :: "AuthContext \<Rightarrow> AuthMintConfig option \<Rightarrow> nat \<Rightarrow> nat \<Rightarrow> bytes list
    \<Rightarrow> (bytes + (bytes \<times> bytes)) option" where
  "auth_mint_scoped ac config nowMs jti args =
     (case ctx_arg args 0 of
        None \<Rightarrow> Some (Inl (lit ''auth_mint_scoped requires: <namespace> [ttl_s] [subject] [mode]''))
      | Some ns \<Rightarrow>
          if \<not> validateNs ns then Some (Inl (lit ''auth_mint_scoped: invalid namespace''))
          else
            case config of
              None \<Rightarrow> Some (Inl (lit ''auth_mint_scoped: auth mint not configured''))
            | Some mint \<Rightarrow>
                if \<not> canMint ac ns then Some (Inl (lit ''permission denied''))
                else
                  case mint_ttl mint (ctx_arg args 1) of
                    Inl e \<Rightarrow> Some (Inl e)
                  | Inr ttl_s \<Rightarrow>
                      if mc_max_ttl_s mint > 0 \<and> ttl_s > mc_max_ttl_s mint
                      then Some (Inl (lit ''auth_mint_scoped: ttl_s exceeds auth token_max_age_s''))
                      else
                        let subject = (case ctx_arg args 2 of Some s \<Rightarrow> s | None \<Rightarrow> lit ''mem:'' @ ns) in
                        case (case ctx_arg args 3 of None \<Rightarrow> Some ModeReadwrite | Some raw \<Rightarrow> namespaceModeFromStr raw) of
                          None \<Rightarrow> Some (Inl (lit ''auth_mint_scoped: mode must be read|write|readwrite''))
                        | Some mode \<Rightarrow>
                            let now_s = nowMs div 1000; expiry = now_s + ttl_s in
                            if expiry \<ge> 2 ^ 64 then None
                            else
                              map_option (\<lambda>tok. Inr (minted_json tok subject ns mode expiry jti, tok))
                                (sct_encode (mc_sign mint) subject now_s expiry jti (namespaceCapabilities ns mode)))"

subsection \<open>What a minted token permits\<close>

definition memory_prefixes :: "string list" where
  "memory_prefixes = [''mem:'', ''vec:mem:'', ''bq:vec:mem:'', ''__meta:mem:'']"

lemma validateNs_no_colon: "validateNs ns \<Longrightarrow> 58 \<notin> set ns"
  by (auto simp: validateNs_def list_all_iff isSafeToken_def)

lemma colon_split: "(58 :: byte) \<notin> set a \<Longrightarrow> 58 \<notin> set b \<Longrightarrow> a @ 58 # r = b @ 58 # s \<longleftrightarrow> a = b \<and> r = s"
  by (induction a arbitrary: b) (case_tac b; auto)+

lemma starts_with_iff: "starts_with t p \<longleftrightarrow> (\<exists>r. t = p @ r)"
  by (metis append_take_drop_id starts_with_append starts_with_def)

lemma lit_simps: "lit [] = []" "lit (c # s) = of_char c # lit s"
  by (simp_all add: lit_def)

lemma namespace_prefix_only:
  assumes "pre \<in> set memory_prefixes" and "pre' \<in> set memory_prefixes" and "validateNs ns" and "validateNs ns'"
    and "starts_with (lit pre' @ ns' @ lit '':'' @ r) (lit pre @ ns @ lit '':'')"
  shows "ns' = ns"
proof -
  have c: "58 \<notin> set ns" "58 \<notin> set ns'" using assms(3,4) validateNs_no_colon by auto
  from assms(5) obtain x where x: "lit pre' @ ns' @ 58 # r = lit pre @ ns @ 58 # x"
    by (auto simp: starts_with_iff lit_simps)
  then show ?thesis
    using assms(1,2) c colon_split [OF c(2,1), of r x]
    by (auto simp: memory_prefixes_def lit_simps)
qed

lemma namespace_cap_fields [simp]:
  "cap_op (namespace_cap oper pre ns) = oper" "cap_match (namespace_cap oper pre ns) = MatchPrefix"
  "cap_pattern (namespace_cap oper pre ns) = lit pre @ ns @ lit '':''"
  by (simp_all add: namespace_cap_def)

lemma namespace_caps_scope:
  assumes "cap \<in> set (namespaceCapabilities ns mode)" and "cap_op cap \<noteq> OpExec"
  shows "cap_op cap \<noteq> OpAll \<and> cap_match cap = MatchPrefix
    \<and> (\<exists>pre \<in> set memory_prefixes. cap_pattern cap = lit pre @ ns @ lit '':'')"
  using assms
  by (auto simp: namespaceCapabilities_def exec_mem_cap_def memory_prefixes_def split: if_splits)

lemma namespace_caps_fit:
  assumes "validateNs ns"
  shows "caps_fit (namespaceCapabilities ns mode)"
  using assms by (auto simp: caps_fit_def namespaceCapabilities_def exec_mem_cap_def validateNs_def lit_def)

lemma minted_token:
  assumes "auth_mint_scoped ac (Some mint) nowMs jti (ns # args) = Some (Inr (body, tok))"
  obtains subject ttl_s mode where "validateNs ns" and "canMint ac ns"
    and "mint_ttl mint (ctx_arg (ns # args) 1) = Inr ttl_s" and "mc_max_ttl_s mint = 0 \<or> ttl_s \<le> mc_max_ttl_s mint"
    and "(case ctx_arg (ns # args) 3 of None \<Rightarrow> Some ModeReadwrite | Some raw \<Rightarrow> namespaceModeFromStr raw) = Some mode"
    and "nowMs div 1000 + ttl_s < 2 ^ 64" and "length subject < 2 ^ 32"
    and "tok = (let m = claims subject (nowMs div 1000) (nowMs div 1000 + ttl_s) jti (namespaceCapabilities ns mode)
                in m @ mc_sign mint m)"
proof -
  have a: "ctx_arg (ns # args) 0 = Some ns" by (simp add: ctx_arg_def)
  show thesis
    using assms that
    by (auto simp: auth_mint_scoped_def a sct_encode_def Let_def not_le not_less
        split: if_splits sum.splits option.splits)
qed

lemma mint_ttl_pos: "mint_ttl mint arg = Inr ttl_s \<Longrightarrow> 0 < mc_default_ttl_s mint \<Longrightarrow> 0 < ttl_s"
  by (auto simp: mint_ttl_def zig_parseInt_def split: option.splits if_splits)

lemma minted_token_accepted:
  assumes "auth_mint_scoped ac (Some mint) nowMs jti (ns # args) = Some (Inr (body, tok))"
    and "signs verify pk (mc_sign mint)" and "pk \<in> set public_keys" and "0 < mc_default_ttl_s mint" and "jti < 4294967296"
  obtains state mode where "verifyAndParse verify tok public_keys nowMs (mc_max_ttl_s mint) = Inr state"
    and "ts_capabilities state = namespaceCapabilities ns mode" and "validateNs ns" and "canMint ac ns"
    and "(case ctx_arg (ns # args) 3 of None \<Rightarrow> Some ModeReadwrite | Some raw \<Rightarrow> namespaceModeFromStr raw) = Some mode"
proof -
  obtain subject ttl_s mode where m: "validateNs ns" "canMint ac ns" "mint_ttl mint (ctx_arg (ns # args) 1) = Inr ttl_s"
      "mc_max_ttl_s mint = 0 \<or> ttl_s \<le> mc_max_ttl_s mint"
      "(case ctx_arg (ns # args) 3 of None \<Rightarrow> Some ModeReadwrite | Some raw \<Rightarrow> namespaceModeFromStr raw) = Some mode"
      "nowMs div 1000 + ttl_s < 2 ^ 64" "length subject < 2 ^ 32"
      "tok = (let m = claims subject (nowMs div 1000) (nowMs div 1000 + ttl_s) jti (namespaceCapabilities ns mode)
              in m @ mc_sign mint m)"
    using minted_token [OF assms(1)] by metis
  let ?m = "claims subject (nowMs div 1000) (nowMs div 1000 + ttl_s) jti (namespaceCapabilities ns mode)"
  have "0 < ttl_s" using mint_ttl_pos m(3) assms(4) by blast
  then have "parse_claims ?m nowMs (mc_max_ttl_s mint) = Inr \<lparr>ts_subject = subject, ts_iat = nowMs div 1000,
      ts_exp = nowMs div 1000 + ttl_s, ts_jti = jti, ts_capabilities = namespaceCapabilities ns mode\<rparr>"
    using m assms(5) by (subst parse_claims_of_claims) (auto simp: namespace_caps_fit)
  then have "verifyAndParse verify tok public_keys nowMs (mc_max_ttl_s mint) = Inr \<lparr>ts_subject = subject,
      ts_iat = nowMs div 1000, ts_exp = nowMs div 1000 + ttl_s, ts_jti = jti,
      ts_capabilities = namespaceCapabilities ns mode\<rparr>"
    using verifyAndParse_signed [OF assms(2,3) length_claims] m(8) by (simp add: Let_def)
  with m that show thesis by simp
qed


definition plain_mint :: AuthMintConfig where
  "plain_mint = \<lparr>mc_sign = plain_sign, mc_default_ttl_s = 60, mc_max_ttl_s = 3600\<rparr>"


end
