(* ===== verification/Auth_Provider.thy ===== *)
theory Auth_Provider
  imports Auth_Mint
begin

section \<open>The token provider of the chat demonstration (\<open>apps/browser/demo/auth-provider.ts\<close>, \<open>keygen.ts\<close>)\<close>

text \<open>
  Key generation, the token encoder on a buffer, and the HTTP handler that mints a token for a user name.
  Parameters: \<open>sign\<close> is \<open>crypto.subtle.sign\<close> with the imported key, \<open>nowMs\<close> is \<open>Date.now()\<close>, \<open>jti\<close> is
  \<open>Math.floor(Math.random() * 0xffffffff)\<close>, a number below \<open>2 ^ 32\<close>. A write out of a buffer throws a
  \<open>RangeError\<close>. The headers of responses and the printing are left out.
\<close>

subsection \<open>Keys\<close>

text \<open>\<open>Buffer.from(b).toString("hex")\<close>.\<close>

definition to_hex :: "bytes \<Rightarrow> jstring" where
  "to_hex b = concat (map (\<lambda>x. [hex_unit (unat x div 16), hex_unit (unat x mod 16)]) b)"

text \<open>\<open>keygen.ts\<close>: the secret key of the file is the seed of the PKCS#8 document followed by the public key.\<close>

definition keygen_secretKey :: "bytes \<Rightarrow> bytes \<Rightarrow> bytes option" where
  "keygen_secretKey pkcs8 publicRaw =
     (let seed = slice 16 48 pkcs8
      in do { b \<leftarrow> u8_set (alloc 64) seed 0; u8_set b publicRaw 32 })"

definition keys_file :: "bytes \<Rightarrow> bytes \<Rightarrow> jstring \<Rightarrow> json" where
  "keys_file publicRaw secretKey generatedAt =
     JObj [(js ''publicKey'', JStr (base64 publicRaw)), (js ''secretKey'', JStr (base64 secretKey)),
       (js ''publicKeyHex'', JStr (to_hex publicRaw)),
       (js ''generatedAt'', JStr generatedAt),
       (js ''_warning'', JStr (js ''Keep secretKey private. Only share publicKey with WormDB nodes.''))]"

definition pkcs8Header :: bytes where
  "pkcs8Header = [0x30, 0x2e, 0x02, 0x01, 0x00, 0x30, 0x05, 0x06, 0x03, 0x2b, 0x65, 0x70, 0x04, 0x22, 0x04, 0x20]"

text \<open>\<open>auth-provider.ts\<close>: the document handed to \<open>importKey\<close>.\<close>

definition pkcs8Key :: "bytes \<Rightarrow> bytes option" where
  "pkcs8Key secretKeyBytes =
     (let seed = slice 0 32 secretKeyBytes
      in do { b \<leftarrow> u8_set (alloc (length pkcs8Header + length seed)) pkcs8Header 0;
              u8_set b seed (length pkcs8Header) })"

subsection \<open>Capabilities\<close>

record js_capability =
  jc_op :: nat
  jc_match :: nat
  jc_pattern :: jstring

definition chatCapabilities :: "js_capability list" where
  "chatCapabilities =
     [\<lparr>jc_op = 0x06, jc_match = 0xff, jc_pattern = []\<rparr>,
      \<lparr>jc_op = 0x04, jc_match = 0x02, jc_pattern = js ''chat:''\<rparr>,
      \<lparr>jc_op = 0x04, jc_match = 0x02, jc_pattern = js ''presence:''\<rparr>,
      \<lparr>jc_op = 0x05, jc_match = 0x02, jc_pattern = js ''chat:''\<rparr>,
      \<lparr>jc_op = 0x05, jc_match = 0x02, jc_pattern = js ''presence:''\<rparr>,
      \<lparr>jc_op = 0x01, jc_match = 0x02, jc_pattern = js ''chat:''\<rparr>]"

definition benchmarkCapabilities :: "js_capability list" where
  "benchmarkCapabilities = [\<lparr>jc_op = 0xff, jc_match = 0xff, jc_pattern = []\<rparr>]"

subsection \<open>The encoder\<close>

fun caps_size :: "js_capability list \<Rightarrow> nat" where
  "caps_size [] = 0"
| "caps_size (cap # caps) = 2 + 4 + length (encodeUtf8 (jc_pattern cap)) + caps_size caps"

text \<open>The loop over the capabilities, which advances \<open>pos\<close>.\<close>

fun put_caps :: "bytes \<Rightarrow> nat \<Rightarrow> js_capability list \<Rightarrow> bytes option" where
  "put_caps payload pos [] = Some payload"
| "put_caps payload pos (cap # caps) =
     (let payload = u8_put payload pos (jc_op cap);
          payload = u8_put payload (pos + 1) (jc_match cap);
          pos = pos + 2;
          patBytes = encodeUtf8 (jc_pattern cap)
      in do {
        payload \<leftarrow> u8_set payload (be32 (length patBytes)) pos;
        payload \<leftarrow> u8_set payload patBytes (pos + 4);
        put_caps payload (pos + 4 + length patBytes) caps })"

definition put_time :: "bytes \<Rightarrow> nat \<Rightarrow> nat \<Rightarrow> bytes option" where
  "put_time payload pos t = do {
     payload \<leftarrow> u8_set payload (be32 (t div 0x100000000)) pos;
     u8_set payload (be32 (t mod 0x100000000)) (pos + 4) }"

definition sct_payload :: "nat \<Rightarrow> nat \<Rightarrow> jstring \<Rightarrow> js_capability list \<Rightarrow> nat \<Rightarrow> bytes option" where
  "sct_payload nowMs jti subject caps ttlSeconds =
     (let now = nowMs div 1000;
          exp = now + ttlSeconds;
          subBytes = encodeUtf8 subject;
          payloadLen = 8 + 8 + 4 + length subBytes + 4 + 1 + caps_size caps
      in do {
        payload \<leftarrow> put_time (alloc payloadLen) 0 now;
        payload \<leftarrow> put_time payload 8 exp;
        payload \<leftarrow> u8_set payload (be32 (length subBytes)) 16;
        payload \<leftarrow> u8_set payload subBytes 20;
        let pos = 20 + length subBytes;
        payload \<leftarrow> u8_set payload (be32 jti) pos;
        let payload = u8_put payload (pos + 4) (length caps);
        put_caps payload (pos + 5) caps })"

definition encodeSCT :: "(bytes \<Rightarrow> bytes) \<Rightarrow> nat \<Rightarrow> nat \<Rightarrow> jstring \<Rightarrow> js_capability list \<Rightarrow> nat \<Rightarrow> bytes option" where
  "encodeSCT sign nowMs jti subject caps ttlSeconds = do {
     payload \<leftarrow> sct_payload nowMs jti subject caps ttlSeconds;
     let signature = sign payload;
     tok \<leftarrow> u8_set (alloc (length payload + 64)) payload 0;
     u8_set tok signature (length payload) }"

subsection \<open>The handler\<close>

text \<open>\<open>body.username?.trim()\<close>: a missing name is \<open>None\<close>; only strings have the method.\<close>

definition trimmed_name :: "json \<Rightarrow> js_error + jstring option" where
  "trimmed_name body =
     and_then (jfield body ''username'') (\<lambda>u.
       case nullish u None of
         None \<Rightarrow> Inr None
       | Some (JStr s) \<Rightarrow> Inr (Some (trim s))
       | Some _ \<Rightarrow> Inl TypeError)"

definition login_error :: "string \<Rightarrow> http_body" where
  "login_error m = JsonBody (JObj [(js ''error'', JStr (js m))])"

definition scope_caps :: "json option \<Rightarrow> js_capability list" where
  "scope_caps scope = (if truthy scope \<and> scope = Some (JStr (js ''benchmark'')) then benchmarkCapabilities else chatCapabilities)"

definition auth_login :: "(bytes \<Rightarrow> bytes) \<Rightarrow> nat \<Rightarrow> nat \<Rightarrow> jstring \<Rightarrow> js_error + http_response" where
  "auth_login sign nowMs jti body_text =
     and_then (of_opt SyntaxError (JSON_parse body_text)) (\<lambda>body.
     and_then (trimmed_name body) (\<lambda>username.
       case username of
         None \<Rightarrow> Inr (Respond 400 (login_error ''username required (max 32 chars)''))
       | Some name \<Rightarrow>
           if name = [] \<or> length name > 32 then Inr (Respond 400 (login_error ''username required (max 32 chars)''))
           else
             and_then (jfield body ''scope'') (\<lambda>scope.
             and_then (of_opt (ExternalError (js ''RangeError'')) (encodeSCT sign nowMs jti name (scope_caps scope) 86400)) (\<lambda>tok.
               Inr (Respond 200 (JsonBody (JObj [(js ''token'', JStr (to_hex tok)), (js ''subject'', JStr name),
                 (js ''expiresIn'', JNum (js ''86400''))])))))))"

definition auth_fetch :: "(bytes \<Rightarrow> bytes) \<Rightarrow> jstring \<Rightarrow> nat \<Rightarrow> nat \<Rightarrow> http_request \<Rightarrow> http_response" where
  "auth_fetch sign publicKey nowMs jti req =
     (if rq_method req = js ''OPTIONS'' then Respond 204 NoBody
      else if rq_path req = js ''/auth/login'' \<and> rq_method req = js ''POST'' then
        (case auth_login sign nowMs jti (rq_body req) of
           Inl _ \<Rightarrow> Respond 400 (login_error ''invalid request'')
         | Inr r \<Rightarrow> r)
      else if rq_path req = js ''/auth/keys'' \<and> rq_method req = js ''GET'' then
        Respond 200 (JsonBody (JObj [(js ''publicKey'', JStr publicKey)]))
      else Respond 404 (login_error ''not found''))"

subsection \<open>The provider's key is the generated one\<close>

text \<open>
  The PKCS#8 document of an Ed25519 private key is the header followed by the 32 bytes of the seed
  (RFC 8410), so the provider imports the key that was exported.
\<close>

lemma imported_key_is_generated:
  assumes "length seed = 32" and "length publicRaw = 32" and "decodes_base64 unb64"
  shows "\<exists>secretKey. keygen_secretKey (pkcs8Header @ seed) publicRaw = Some secretKey
    \<and> pkcs8Key (unb64 (base64 secretKey)) = Some (pkcs8Header @ seed)"
proof -
  have "slice 16 48 (pkcs8Header @ seed) = seed"
    using assms(1) by (simp add: slice_def pkcs8Header_def)
  then have "keygen_secretKey (pkcs8Header @ seed) publicRaw = Some (seed @ publicRaw)"
    using assms by (simp add: keygen_secretKey_def Let_def alloc_buf u8_set_buf buf_0)
  moreover have "slice 0 32 (seed @ publicRaw) = seed" using assms(1) by (simp add: slice_def)
  then have "pkcs8Key (unb64 (base64 (seed @ publicRaw))) = Some (pkcs8Header @ seed)"
    using assms by (simp add: pkcs8Key_def decodes_base64_def Let_def alloc_buf u8_set_buf buf_0)
  ultimately show ?thesis by simp
qed

subsection \<open>The token on the wire\<close>

lemma div_mod_byte:
  fixes t :: nat
  assumes "256 dvd c"
  shows "(of_nat (t mod (b * c) div b) :: byte) = of_nat (t div b)"
proof -
  have "t mod (b * c) div b mod 256 = t div b mod 256"
    using assms by (cases "b = 0") (simp_all add: mod_mult2_eq mod_mod_cancel)
  then show ?thesis by (simp add: of_nat_eq_iff [symmetric] word_of_nat_eq_iff take_bit_eq_mod)
qed

lemma put_time_bytes: "be32 (t div 0x100000000) @ be32 (t mod 0x100000000) = be64 (int t)"
proof -
  have i: "(of_int (int t div 256 ^ k) :: byte) = of_nat (t div 256 ^ k)" for k
    by (metis of_int_of_nat_eq of_nat_div of_nat_numeral of_nat_power)
  have "(of_nat (t mod 0x100000000 div 16777216) :: byte) = of_nat (t div 16777216)"
    "(of_nat (t mod 0x100000000 div 65536) :: byte) = of_nat (t div 65536)"
    "(of_nat (t mod 0x100000000 div 256) :: byte) = of_nat (t div 256)"
    "(of_nat (t mod 0x100000000) :: byte) = of_nat t"
    using div_mod_byte [of 256 t 16777216] div_mod_byte [of 65536 t 65536] div_mod_byte [of 16777216 t 256]
      div_mod_byte [of 4294967296 t 1] by simp_all
  then show ?thesis
    by (simp add: be32_def be64_def i div_mult2_eq [symmetric])
qed

text \<open>A capability of the provider and the one the server reads from its bytes.\<close>

definition same_cap :: "js_capability \<Rightarrow> Capability \<Rightarrow> bool" where
  "same_cap jc cap \<longleftrightarrow> jc_op jc = operation_code (cap_op cap) \<and> jc_match jc = match_code (cap_match cap)
     \<and> encodeUtf8 (jc_pattern jc) = cap_pattern cap"

lemma caps_size_bytes: "list_all2 same_cap caps zcaps \<Longrightarrow> caps_size caps = length (concat (map cap_bytes zcaps))"
  by (induction rule: list_all2_induct) (auto simp: same_cap_def cap_bytes_def field_def)

lemma put_caps_bytes:
  assumes "list_all2 same_cap caps zcaps" and "caps_size caps = n"
  shows "put_caps (buf d n) (length d) caps = Some (d @ concat (map cap_bytes zcaps))"
  using assms
proof (induction arbitrary: d n rule: list_all2_induct)
  case (Cons jc caps cap zcaps)
  let ?p = "encodeUtf8 (jc_pattern jc)"
  have n: "n = 6 + length ?p + caps_size caps" using Cons.prems by simp
  let ?d = "d @ [of_nat (jc_op jc), of_nat (jc_match jc)] @ be32 (length ?p) @ ?p"
  have "put_caps (buf d n) (length d) (jc # caps) = put_caps (buf ?d (caps_size caps)) (length ?d) caps"
    by (simp add: n Let_def u8_put_buf u8_set_buf ac_simps)
  also have "\<dots> = Some (?d @ concat (map cap_bytes zcaps))"
    by (rule Cons.IH) simp
  finally show ?case using Cons.hyps(1) by (simp add: same_cap_def cap_bytes_def [of cap] field_def)
qed (simp add: buf_0)

lemma put_time_buf:
  assumes "off = length d" and "8 \<le> n"
  shows "put_time (buf d n) off t = Some (buf (d @ be64 (int t)) (n - 8))"
  using assms by (simp add: put_time_def u8_set_buf put_time_bytes [symmetric] add.assoc)

lemma sct_payload_claims:
  assumes "list_all2 same_cap caps zcaps"
  shows "sct_payload nowMs jti subject caps ttl
    = Some (claims (encodeUtf8 subject) (nowMs div 1000) (nowMs div 1000 + ttl) jti zcaps)"
proof -
  let ?s = "encodeUtf8 subject" and ?n = "caps_size caps" and ?now = "nowMs div 1000"
  let ?d = "be64 (int ?now) @ be64 (int (?now + ttl)) @ be32 (length ?s) @ ?s @ be32 jti @ [of_nat (length caps)]"
  have "sct_payload nowMs jti subject caps ttl = put_caps (buf ?d ?n) (length ?d) caps"
    by (simp add: sct_payload_def Let_def alloc_buf put_time_buf u8_set_buf u8_put_buf add.assoc del: of_nat_add)
  also have "\<dots> = Some (?d @ concat (map cap_bytes zcaps))" using assms by (intro put_caps_bytes) simp_all
  finally show ?thesis using list_all2_lengthD [OF assms] by (simp add: claims_def field_def)
qed

lemma encodeSCT_claims:
  assumes "list_all2 same_cap caps zcaps" and "signs verify pk sign"
  shows "encodeSCT sign nowMs jti subject caps ttl
    = (let m = claims (encodeUtf8 subject) (nowMs div 1000) (nowMs div 1000 + ttl) jti zcaps in Some (m @ sign m))"
  using assms(2) by (simp add: encodeSCT_def sct_payload_claims [OF assms(1)] Let_def alloc_buf u8_set_buf buf_0 signs_def)

text \<open>The capabilities of the two scopes as the server reads them.\<close>

definition zcap :: "Operation \<Rightarrow> MatchType \<Rightarrow> string \<Rightarrow> Capability" where
  "zcap oper mt pat = \<lparr>cap_op = oper, cap_match = mt, cap_pattern = lit pat\<rparr>"

definition chat_caps :: "Capability list" where
  "chat_caps = [zcap OpExec MatchWildcard [], zcap OpSubscribe MatchPrefix ''chat:'', zcap OpSubscribe MatchPrefix ''presence:'',
     zcap OpPublish MatchPrefix ''chat:'', zcap OpPublish MatchPrefix ''presence:'', zcap OpGet MatchPrefix ''chat:'']"

definition benchmark_caps :: "Capability list" where
  "benchmark_caps = [zcap OpAll MatchWildcard []]"

lemma provider_caps: "list_all2 same_cap chatCapabilities chat_caps" "list_all2 same_cap benchmarkCapabilities benchmark_caps"
  by (simp_all add: chatCapabilities_def chat_caps_def benchmarkCapabilities_def benchmark_caps_def zcap_def same_cap_def
      lit_utf8 lit_simps)

lemma provider_caps_fit: "caps_fit chat_caps" "caps_fit benchmark_caps"
  by (simp_all add: caps_fit_def chat_caps_def benchmark_caps_def zcap_def lit_simps)

definition granted :: "json option \<Rightarrow> Capability list" where
  "granted scope = (if scope = Some (JStr (js ''benchmark'')) then benchmark_caps else chat_caps)"

lemma scope_granted: "list_all2 same_cap (scope_caps scope) (granted scope)" "caps_fit (granted scope)"
  by (auto simp: scope_caps_def granted_def provider_caps provider_caps_fit)

text \<open>\<open>new Uint8Array(tokenHex.match(/.{2}/g).map(b => parseInt(b, 16)))\<close>, how the chat page reads the token.\<close>

fun from_hex :: "jstring \<Rightarrow> bytes" where
  "from_hex (a # b # r) = (case (hex_val a, hex_val b) of (Some x, Some y) \<Rightarrow> of_nat (16 * x + y) | _ \<Rightarrow> 0) # from_hex r"
| "from_hex _ = []"

lemma from_hex_to_hex: "from_hex (to_hex b) = b"
proof (induction b)
  case (Cons x b)
  have "unat x div 16 < 16" "unat x mod 16 < 16" using unat8_less [of x] by linarith+
  moreover have "(of_nat (16 * (unat x div 16) + unat x mod 16) :: byte) = x"
    by (simp only: mult_div_mod_eq of_nat_unat ucast_id)
  ultimately show ?case using Cons by (simp add: to_hex_def hex_val_digit del: of_nat_add of_nat_mult)
qed (simp add: to_hex_def)

definition token_json :: "jstring \<Rightarrow> bytes \<Rightarrow> json" where
  "token_json name tok = JObj [(js ''token'', JStr (to_hex tok)), (js ''subject'', JStr name), (js ''expiresIn'', JNum (js ''86400''))]"

text \<open>
C21: a login with a name of 1 to 32 units answers with a token, and a server that has the provider's
public key reads from that token, at any later time, exactly the name, the times, the identifier and the
capabilities of the scope that was asked for; it refuses the token a day later, more than a minute
before it was issued, and when its own limit on the lifetime is below a day.
\<close>

theorem login_token_accepted:
  assumes "JSON_parse (rq_body req) = Some (JObj ps)" and "map_of ps (js ''username'') = Some (JStr u)"
    and "trim u \<noteq> []" and "length (trim u) \<le> 32"
    and "rq_method req = js ''POST''" and "rq_path req = js ''/auth/login''"
    and "signs verify pk sign" and "pk \<in> set public_keys" and "jti < 4294967296" and "nowMs div 1000 + 86400 < 18446744073709551616"
  shows "\<exists>tok. auth_fetch sign publicKey nowMs jti req = Respond 200 (JsonBody (token_json (trim u) tok))
    \<and> from_hex (to_hex tok) = tok
    \<and> verifyAndParse verify tok public_keys t max_age_s =
        (if t div 1000 \<ge> nowMs div 1000 + 86400 then Inl TokenExpired
         else if nowMs div 1000 > t div 1000 + 60 then Inl TokenNotYetValid
         else if 0 < max_age_s \<and> max_age_s < 86400 then Inl TokenTooLongLived
         else Inr \<lparr>ts_subject = encodeUtf8 (trim u), ts_iat = nowMs div 1000, ts_exp = nowMs div 1000 + 86400,
                ts_jti = jti, ts_capabilities = granted (map_of ps (js ''scope''))\<rparr>)"
proof -
  let ?scope = "map_of ps (js ''scope'')"
  let ?m = "claims (encodeUtf8 (trim u)) (nowMs div 1000) (nowMs div 1000 + 86400) jti (granted ?scope)"
  have tok: "encodeSCT sign nowMs jti (trim u) (scope_caps ?scope) 86400 = Some (?m @ sign ?m)"
    using encodeSCT_claims [OF scope_granted(1) assms(7)] by (simp add: Let_def)
  have "auth_fetch sign publicKey nowMs jti req = Respond 200 (JsonBody (token_json (trim u) (?m @ sign ?m)))"
    using assms(1-6) tok by (auto simp: auth_fetch_def auth_login_def trimmed_name_def jfield_def token_json_def)
  moreover have "length (encodeUtf8 (trim u)) < 4294967296"
    using length_encodeUtf8 [of "trim u"] assms(4) by linarith
  then have "verifyAndParse verify (?m @ sign ?m) public_keys t max_age_s = (if t div 1000 \<ge> nowMs div 1000 + 86400 then Inl TokenExpired
       else if nowMs div 1000 > t div 1000 + 60 then Inl TokenNotYetValid
       else if 0 < max_age_s \<and> max_age_s < 86400 then Inl TokenTooLongLived
       else Inr \<lparr>ts_subject = encodeUtf8 (trim u), ts_iat = nowMs div 1000, ts_exp = nowMs div 1000 + 86400,
              ts_jti = jti, ts_capabilities = granted ?scope\<rparr>)"
    using assms(9,10) scope_granted(2) [of ?scope]
    by (subst verifyAndParse_signed [OF assms(7,8) length_claims], subst parse_claims_of_claims) auto
  ultimately show ?thesis by (intro exI [of _ "?m @ sign ?m"]) (simp add: from_hex_to_hex)
qed

text \<open>
C23: a token of the chat scope lets its holder execute any procedure, read keys under \<open>chat:\<close>, and subscribe and publish
on channels under \<open>chat:\<close> and \<open>presence:\<close>, and no other protected command; a bulk insertion without
items is the one write it permits.
\<close>

theorem chat_token_authority:
  assumes "ts_capabilities state = granted scope" and "scope \<noteq> Some (JStr (js ''benchmark''))"
  shows "commandPermittedUnion state cmd \<longleftrightarrow>
    (case cmd of
       ZGet key \<Rightarrow> starts_with key (lit ''chat:'')
     | ZSubscribe ch _ \<Rightarrow> starts_with ch (lit ''chat:'') \<or> starts_with ch (lit ''presence:'')
     | ZUnsubscribe ch \<Rightarrow> starts_with ch (lit ''chat:'') \<or> starts_with ch (lit ''presence:'')
     | ZPublish ch _ \<Rightarrow> starts_with ch (lit ''chat:'') \<or> starts_with ch (lit ''presence:'')
     | ZExec _ _ \<Rightarrow> True
     | ZVbulkinsert _ _ _ _ items \<Rightarrow> items = []
     | ZSet _ _ _ \<Rightarrow> False | ZDelete _ \<Rightarrow> False | ZSave \<Rightarrow> False | ZVinsert _ \<Rightarrow> False | ZVdelete _ _ \<Rightarrow> False
     | ZVrabitqInstall _ _ _ _ _ \<Rightarrow> False
     | _ \<Rightarrow> True)"
proof -
  have c: "ts_capabilities state = chat_caps" using assms by (simp add: granted_def)
  show ?thesis
    by (cases cmd)
      (auto simp: commandPermittedUnion_def operationForCommand_def commandTarget_def permits_grants c chat_caps_def zcap_def
        grants_def list_all_iff neq_Nil_conv)
qed

lemma chat_caps_exec: "exec_cap \<in> set chat_caps" if "exec_cap = zcap OpExec MatchWildcard []" for exec_cap
  using that by (simp add: chat_caps_def)

lemma chat_token_executes:
  assumes "ts_capabilities state = chat_caps"
  shows "permits state OpExec target"
  using assms chat_caps_exec by (force simp: permits_grants grants_def zcap_def)

lemma readwrite_token_writes:
  assumes "ts_capabilities state = namespaceCapabilities ns ModeReadwrite" and "oper = OpSet \<or> oper = OpDelete"
  shows "permits state oper (lit ''mem:'' @ ns @ lit '':'' @ r)"
proof -
  have "namespace_cap oper ''mem:'' ns \<in> set (ts_capabilities state)"
    using assms by (auto simp: namespaceCapabilities_def)
  moreover have "grants (namespace_cap oper ''mem:'' ns) oper (lit ''mem:'' @ ns @ lit '':'' @ r)"
    using starts_with_append [of "lit ''mem:'' @ ns @ lit '':''" r] by (simp add: grants_def)
  ultimately show ?thesis by (auto simp: permits_grants)
qed

text \<open>
C39: the chat scope is not confined to chat data: on a server that can mint, the holder of a chat token, which permits
no write, executes \<open>auth_mint_scoped\<close> for any namespace of the agent memory and gets a token that permits
to write and delete every document of it.
\<close>

theorem chat_user_mints_writer:
  assumes "ts_capabilities state = granted scope" and "scope \<noteq> Some (JStr (js ''benchmark''))" and "validateNs ns"
    and "signs verify pk (mc_sign mint)" and "pk \<in> set public_keys" and "0 < mc_default_ttl_s mint"
    and "mc_max_ttl_s mint = 0 \<or> mc_default_ttl_s mint \<le> mc_max_ttl_s mint" and "jti < 4294967296"
    and "nowMs div 1000 + mc_default_ttl_s mint < 18446744073709551616"
  shows "\<exists>body tok minted.
    commandPermittedUnion state (ZExec (lit ''auth_mint_scoped'') [ns])
    \<and> \<not> commandPermittedUnion state (ZSet (lit ''mem:'' @ ns @ lit '':'' @ doc) v w)
    \<and> auth_mint_scoped (Enforce (Some state)) (Some mint) nowMs jti [ns] = Some (Inr (body, tok))
    \<and> verifyAndParse verify tok public_keys nowMs (mc_max_ttl_s mint) = Inr minted
    \<and> commandPermittedUnion minted (ZSet (lit ''mem:'' @ ns @ lit '':'' @ doc) v w)
    \<and> commandPermittedUnion minted (ZDelete (lit ''mem:'' @ ns @ lit '':'' @ doc))"
proof -
  have c: "ts_capabilities state = chat_caps" using assms(1,2) by (simp add: granted_def)
  have "canMint (Enforce (Some state)) ns"
    by (simp add: canMint_def ctx_permits_def chat_token_executes [OF c])
  moreover have "length (lit ''mem:'' @ ns) < 2 ^ 32" "length (namespaceCapabilities ns ModeReadwrite) < 256"
    "list_all (\<lambda>cap. length (cap_pattern cap) < 2 ^ 32) (namespaceCapabilities ns ModeReadwrite)"
    using assms(3) namespace_caps_fit [OF assms(3), of ModeReadwrite] by (simp_all add: validateNs_def lit_def caps_fit_def)
  ultimately obtain body tok where
    m: "auth_mint_scoped (Enforce (Some state)) (Some mint) nowMs jti [ns] = Some (Inr (body, tok))"
    using assms(3,7,9) by (auto simp: auth_mint_scoped_def ctx_arg_def mint_ttl_def sct_encode_def Let_def)
  obtain minted mode where n: "verifyAndParse verify tok public_keys nowMs (mc_max_ttl_s mint) = Inr minted"
      "ts_capabilities minted = namespaceCapabilities ns mode"
      "(case ctx_arg [ns] 3 of None \<Rightarrow> Some ModeReadwrite | Some raw \<Rightarrow> namespaceModeFromStr raw) = Some mode"
    using minted_token_accepted [OF m assms(4,5,6,8)] by metis
  then have rw: "ts_capabilities minted = namespaceCapabilities ns ModeReadwrite" by (simp add: ctx_arg_def)
  have "\<not> permits state OpSet k" for k
    by (auto simp: permits_grants c chat_caps_def zcap_def grants_def)
  then show ?thesis
    using m n(1) readwrite_token_writes [OF rw] chat_token_executes [OF c]
    by (auto simp: commandPermittedUnion_def operationForCommand_def commandTarget_def)
qed

subsection \<open>Concrete logins\<close>

definition ann :: http_request where
  "ann = \<lparr>rq_method = js ''POST'', rq_path = js ''/auth/login'',
     rq_body = stringify (JObj [(js ''username'', JStr (js '' ann ''))]), rq_adminToken = None\<rparr>"

definition ann_token :: TokenState where
  "ann_token = \<lparr>ts_subject = lit ''ann'', ts_iat = 1000, ts_exp = 87400, ts_jti = 5, ts_capabilities = chat_caps\<rparr>"

theorem login_token_accepted_witness:
  "\<exists>tok. auth_fetch plain_sign [] 1000000 5 ann = Respond 200 (JsonBody (token_json (js ''ann'') tok))
     \<and> verifyAndParse plain_verify tok [[0], [1]] 1500000 0 = Inr ann_token
     \<and> from_hex (to_hex tok) = tok"
proof -
  let ?ps = "[(js ''username'', JStr (js '' ann ''))]"
  have t: "trim (js '' ann '') = js ''ann''"
    by (simp add: trim_def trimStart_def trimEnd_def js_simps is_ws_def)
  have "JSON_parse (rq_body ann) = Some (JObj ?ps)"
    by (simp add: ann_def parse_stringify json_ok.simps)
  from login_token_accepted [OF this, of "js '' ann ''" plain_verify "[1]" plain_sign "[[0], [1]]" 5 1000000 "[]" 1500000 0]
  show ?thesis
    by (auto simp: t plain_signs ann_def ann_token_def lit_utf8 granted_def)
qed

theorem chat_token_authority_witness:
  "commandPermittedUnion ann_token (ZGet (lit ''chat:general'')) \<and> \<not> commandPermittedUnion ann_token (ZSet (lit ''chat:general'') [] False)"
  using chat_token_authority [of ann_token None "ZGet (lit ''chat:general'')"]
    chat_token_authority [of ann_token None "ZSet (lit ''chat:general'') [] False"]
  by (simp add: ann_token_def granted_def starts_with_def lit_simps)

theorem chat_user_mints_writer_witness:
  "\<exists>body tok minted. auth_mint_scoped (Enforce (Some ann_token)) (Some plain_mint) 1000000 9 [lit ''notes''] = Some (Inr (body, tok))
     \<and> verifyAndParse plain_verify tok [[1]] 1000000 3600 = Inr minted
     \<and> commandPermittedUnion minted (ZSet (lit ''mem:notes:d1'') [] False)
     \<and> \<not> commandPermittedUnion ann_token (ZSet (lit ''mem:notes:d1'') [] False)"
  using chat_user_mints_writer [of ann_token None "lit ''notes''" plain_verify "[1]" plain_mint "[[1]]" 9 1000000 "lit ''d1''" "[]" False]
  by (simp add: ann_token_def granted_def plain_mint_def plain_signs validateNs_def isSafeToken_def lit_simps) blast

end
