(* ===== verification/Api_Backend.thy ===== *)
theory Api_Backend
  imports Explorer_Server Ui_Cluster Js_Uri
begin

section \<open>The REST proxy of the browser benchmark (\<open>apps/browser/demo/api-backend.ts\<close>)\<close>

text \<open>
  The HTTP handler that turns a request into one text command of \<open>WormClient.send\<close>. Parameters: \<open>send\<close>
  is \<open>client.send\<close>, \<open>msg\<close> the message of an exception, \<open>show_value\<close> the text of a template literal for a
  value that is not a string. An exception that leaves \<open>fetch\<close> makes the runtime answer with status 500.
\<close>

definition template_text :: "(json \<Rightarrow> jstring) \<Rightarrow> json \<Rightarrow> jstring" where
  "template_text show_value v = (case v of JStr s \<Rightarrow> s | _ \<Rightarrow> show_value v)"

text \<open>\<open>url.pathname.match(/^\/api\/kv\/(.+)$/)\<close>.\<close>

definition match_kv :: "jstring \<Rightarrow> jstring option" where
  "match_kv path =
     (let r = drop 8 path
      in if startsWith path (js ''/api/kv/'') \<and> r \<noteq> [] \<and> (\<forall>c \<in> set r. \<not> is_line_terminator c) then Some r else None)"

definition api_ok :: "WormResponse \<Rightarrow> http_response" where
  "api_ok resp = Respond 200 (JsonBody (JObj [(js ''ok'', JBool True), (js ''data'', response_json resp)]))"

definition api_failed :: "(js_error \<Rightarrow> jstring) \<Rightarrow> js_error \<Rightarrow> http_response" where
  "api_failed msg e = Respond 502 (JsonBody (JObj [(js ''ok'', JBool False), (js ''error'', JStr (msg e))]))"

definition api_kv :: "(json \<Rightarrow> jstring) \<Rightarrow> (jstring \<Rightarrow> ('w, WormResponse) act) \<Rightarrow> jstring \<Rightarrow> jstring \<Rightarrow> jstring
    \<Rightarrow> ('w, http_response) act" where
  "api_kv show_value send rmethod key body_text =
     (if rmethod = js ''GET'' then act_bind (send (js ''GET '' @ key)) (\<lambda>resp. act_return (api_ok resp))
      else if rmethod = js ''POST'' then
        act_bind (parse_json body_text) (\<lambda>body.
        act_bind (act_lift (jfield body ''value'')) (\<lambda>v.
        let val = template_text show_value (case nullish v None of Some x \<Rightarrow> x | None \<Rightarrow> JStr []) in
        act_bind (send (js ''SET '' @ key @ [32] @ val)) (\<lambda>resp. act_return (api_ok resp))))
      else if rmethod = js ''DELETE'' then act_bind (send (js ''DEL '' @ key)) (\<lambda>resp. act_return (api_ok resp))
      else act_return (Respond 405 (JsonBody (JObj [(js ''error'', JStr (js ''method not allowed''))]))))"

definition api_fetch :: "(js_error \<Rightarrow> jstring) \<Rightarrow> (json \<Rightarrow> jstring) \<Rightarrow> (jstring \<Rightarrow> ('w, WormResponse) act) \<Rightarrow> http_request
    \<Rightarrow> ('w, http_response) act" where
  "api_fetch msg show_value send req =
     (if rq_method req = js ''OPTIONS'' then act_return (Respond 204 NoBody)
      else if rq_path req = js ''/api/status'' \<and> rq_method req = js ''GET'' then
        act_catch (act_bind (send (js ''STATUS'')) (\<lambda>resp. act_return (api_ok resp))) (\<lambda>e. act_return (api_failed msg e))
      else
        case match_kv (rq_path req) of
          None \<Rightarrow> act_return (Respond 404 (JsonBody (JObj [(js ''error'', JStr (js ''not found''))])))
        | Some seg \<Rightarrow>
            (case decodeURIComponent seg of
               None \<Rightarrow> act_throw (ExternalError (js ''URIError''))
             | Some key \<Rightarrow>
                 act_catch (api_kv show_value send (rq_method req) key (rq_body req)) (\<lambda>e. act_return (api_failed msg e))))"

subsection \<open>The path of a key\<close>

definition kv_request :: "string \<Rightarrow> jstring \<Rightarrow> jstring \<Rightarrow> http_request" where
  "kv_request rmethod e body = \<lparr>rq_method = js rmethod, rq_path = js ''/api/kv/'' @ e, rq_body = body, rq_adminToken = None\<rparr>"

lemma encoded_no_line_end: "encodeURIComponent s = Some e \<Longrightarrow> c \<in> set e \<Longrightarrow> \<not> is_line_terminator c"
proof -
  have p: "c \<in> set (percent b) \<Longrightarrow> \<not> is_line_terminator c" for b c
  proof -
    have "unat b div 16 < 16" using unat8_less [of b] by (simp add: less_mult_imp_div_less)
    then show "c \<in> set (percent b) \<Longrightarrow> \<not> is_line_terminator c"
      using unat_upper_hex [of "unat b div 16"] unat_upper_hex [of "unat b mod 16"]
      by (auto simp: percent_def is_line_terminator_def split: if_splits)
  qed
  have "c \<in> set (uri_point n) \<Longrightarrow> \<not> is_line_terminator c" for n c
  proof (cases "uri_plain n")
    case True
    then have "n < 128" "n \<noteq> 10" "n \<noteq> 13" by (auto simp: uri_plain_def)
    then have "\<not> is_line_terminator (of_nat n)" by (simp add: small_unit is_line_terminator_def)
    with True show "c \<in> set (uri_point n) \<Longrightarrow> \<not> is_line_terminator c" by (simp add: uri_point_def)
  qed (use p in \<open>auto simp: uri_point_def\<close>)
  then show "encodeURIComponent s = Some e \<Longrightarrow> c \<in> set e \<Longrightarrow> \<not> is_line_terminator c"
    by (auto simp: encodeURIComponent_def split: if_splits)
qed

lemma kv_path:
  assumes "encodeURIComponent k = Some e" and "k \<noteq> []"
  shows "match_kv (js ''/api/kv/'' @ e) = Some e" and "decodeURIComponent e = Some k"
proof -
  show d: "decodeURIComponent e = Some k" using assms(1) by (rule decode_encode)
  with assms(2) have "e \<noteq> []" by auto
  then show "match_kv (js ''/api/kv/'' @ e) = Some e"
    using encoded_no_line_end [OF assms(1)] by (simp add: match_kv_def Let_def)
qed

lemma api_fetch_kv:
  assumes "encodeURIComponent k = Some e" and "k \<noteq> []" and "rmethod \<noteq> ''OPTIONS''"
  shows "api_fetch msg show_value send (kv_request rmethod e body)
    = act_catch (api_kv show_value send (js rmethod) k body) (\<lambda>err. act_return (api_failed msg err))"
proof -
  have "js ''/api/kv/'' @ e \<noteq> js ''/api/status''" by (simp add: js_simps)
  then show ?thesis using assms kv_path [OF assms(1,2)] by (simp add: api_fetch_def kv_request_def)
qed

lemma key_ok_not_Nil: "key_ok k \<Longrightarrow> k \<noteq> []"
  by (auto simp: key_ok_def token_def)

text \<open>The body of a POST.\<close>

definition posts :: "jstring \<Rightarrow> jstring \<Rightarrow> bool" where
  "posts body v \<longleftrightarrow> (\<exists>bs. JSON_parse body = Some (JObj bs) \<and> map_of bs (js ''value'') = Some (JStr v))"

lemma api_post:
  assumes "encodeURIComponent k = Some e" and "k \<noteq> []" and "posts body v" and "send (js ''SET '' @ k @ [32] @ v) w = (w', Inr r)"
  shows "api_fetch msg show_value send (kv_request ''POST'' e body) w = (w', Inr (api_ok r))"
  using assms
  by (auto simp: api_fetch_kv api_kv_def posts_def act_eval parse_json_def of_opt_def jfield_def template_text_def Let_def)

lemma api_get:
  assumes "encodeURIComponent k = Some e" and "k \<noteq> []" and "send (js ''GET '' @ k) w = (w', Inr r)"
  shows "api_fetch msg show_value send (kv_request ''GET'' e body) w = (w', Inr (api_ok r))"
  using assms by (auto simp: api_fetch_kv api_kv_def act_eval)

context text_store
begin

lemma api_write_read:
  assumes "encodeURIComponent k = Some e" and "key_ok k" and "value_ok v" and "\<not> fixed w k" and "posts body v"
  shows "\<exists>w'. api_fetch msg show_value send (kv_request ''POST'' e body) w = (w', Inr (api_ok ROk))
    \<and> api_fetch msg show_value send (kv_request ''GET'' e []) w' = (w', Inr (api_ok (RBulk v)))
    \<and> (\<forall>k'. key_ok k' \<longrightarrow> k' \<noteq> k \<longrightarrow> value_of w' k' = value_of w k')"
proof -
  obtain w' where s: "send (set_text k v) w = (w', Inr ROk)" "value_of w' k = Some v"
      "\<forall>k'. key_ok k' \<longrightarrow> k' \<noteq> k \<longrightarrow> value_of w' k' = value_of w k'"
    using set_law [OF assms(2-4)] by blast
  note n = key_ok_not_Nil [OF assms(2)]
  have "send (get_text k) w' = (w', Inr (RBulk v))" using get_law [OF assms(2), of w'] s(2) by simp
  with api_post [OF assms(1) n assms(5), of send w w' ROk] api_get [OF assms(1) n, of send w' w' "RBulk v"] s show ?thesis
    by auto
qed

lemma api_value_lock:
  assumes "encodeURIComponent k = Some e" and "key_ok k" and "value_ok v" and "value_ok v2" and "\<not> fixed w k"
    and "posts body (v @ js '' WORM'')" and "posts body2 v2"
  shows "\<exists>w' m. api_fetch msg show_value send (kv_request ''POST'' e body) w = (w', Inr (api_ok ROk))
    \<and> api_fetch msg show_value send (kv_request ''GET'' e []) w' = (w', Inr (api_ok (RBulk v)))
    \<and> api_fetch msg show_value send (kv_request ''POST'' e body2) w' = (w', Inr (api_ok (RError m)))"
proof -
  obtain w' where s: "send (lock_text k v) w = (w', Inr ROk)" "value_of w' k = Some v" "fixed w' k"
    using lock_law [OF assms(2,3,5)] by blast
  note n = key_ok_not_Nil [OF assms(2)]
  have g: "send (get_text k) w' = (w', Inr (RBulk v))" using get_law [OF assms(2), of w'] s(2) by simp
  obtain m where r: "send (set_text k v2) w' = (w', Inr (RError m))"
    using refused_law [OF assms(2,4) s(3)] s(2) by auto
  have "api_fetch msg show_value send (kv_request ''POST'' e body) w = (w', Inr (api_ok ROk))"
    by (rule api_post [OF assms(1) n assms(6)]) (use s(1) in simp)
  moreover have "api_fetch msg show_value send (kv_request ''GET'' e []) w' = (w', Inr (api_ok (RBulk v)))"
    by (rule api_get [OF assms(1) n]) (use g in simp)
  moreover have "api_fetch msg show_value send (kv_request ''POST'' e body2) w' = (w', Inr (api_ok (RError m)))"
    by (rule api_post [OF assms(1) n assms(7)]) (use r in simp)
  ultimately show ?thesis by blast
qed

end

text \<open>
A value posted for a key is returned by the next GET of that key, through the encoding of the key in
the path, the text command and the store, and no other key changes.
\<close>

theorem api_write_is_read:
  assumes "encodeURIComponent k = Some e" and "key_ok k" and "value_ok v" and "\<not> key_fixed s k" and "posts body v"
  shows "\<exists>s'. api_fetch msg show_value (store_send other) (kv_request ''POST'' e body) s = (s', Inr (api_ok ROk))
    \<and> api_fetch msg show_value (store_send other) (kv_request ''GET'' e []) s' = (s', Inr (api_ok (RBulk v)))
    \<and> (\<forall>k'. key_ok k' \<longrightarrow> k' \<noteq> k \<longrightarrow> stored_text s' k' = stored_text s k')"
  using kv.api_write_read [OF assms] .

text \<open>
The value is pasted into the text of the command, so the value decides more than the stored text: posting a
word followed by the word \<open>WORM\<close> stores the first word alone and makes the key immutable, and the proxy
answers the refused write that follows with status 200 and \<open>ok: true\<close>.
\<close>

theorem api_value_locks_key:
  assumes "encodeURIComponent k = Some e" and "key_ok k" and "value_ok v" and "value_ok v2" and "\<not> key_fixed s k"
    and "posts body (v @ js '' WORM'')" and "posts body2 v2"
  shows "\<exists>s' m. api_fetch msg show_value (store_send other) (kv_request ''POST'' e body) s = (s', Inr (api_ok ROk))
    \<and> api_fetch msg show_value (store_send other) (kv_request ''GET'' e []) s' = (s', Inr (api_ok (RBulk v)))
    \<and> api_fetch msg show_value (store_send other) (kv_request ''POST'' e body2) s' = (s', Inr (api_ok (RError m)))"
  using kv.api_value_lock [OF assms] .

subsection \<open>A concrete exchange\<close>

abbreviation "post_value t \<equiv> stringify (JObj [(js ''value'', JStr (js t))])"

lemma posts_value: "posts (post_value t) (js t)" if "json_ok (JStr (js t))"
  using that by (simp add: posts_def parse_stringify)

lemma encode_k: "encodeURIComponent (js ''k1'') = Some (js ''k1'')"
  by (simp add: encodeURIComponent_def js_simps uri_point_def uri_plain_def is_high_def is_low_def)

lemma word_values: "key_ok (js ''k1'')" "value_ok (js ''x'')" "value_ok (js ''y'')" "\<not> key_fixed empty_store k"
  by (simp_all add: key_simps value_ok_def key_fixed_def worm_violation_def)

theorem api_write_is_read_witness:
  "\<exists>s'. api_fetch (\<lambda>_. []) (\<lambda>_. []) (store_send no_other) (kv_request ''POST'' (js ''k1'') (post_value ''x'')) empty_store
      = (s', Inr (api_ok ROk))
    \<and> api_fetch (\<lambda>_. []) (\<lambda>_. []) (store_send no_other) (kv_request ''GET'' (js ''k1'') []) s' = (s', Inr (api_ok (RBulk (js ''x''))))"
  using api_write_is_read [OF encode_k word_values(1,2,4) posts_value, of "\<lambda>_. []" "\<lambda>_. []" no_other] by auto

theorem api_value_locks_key_witness:
  "\<exists>s' m. api_fetch (\<lambda>_. []) (\<lambda>_. []) (store_send no_other) (kv_request ''POST'' (js ''k1'') (post_value ''x WORM'')) empty_store
      = (s', Inr (api_ok ROk))
    \<and> api_fetch (\<lambda>_. []) (\<lambda>_. []) (store_send no_other) (kv_request ''POST'' (js ''k1'') (post_value ''y'')) s'
        = (s', Inr (api_ok (RError m)))"
proof -
  have "posts (post_value ''x WORM'') (js ''x'' @ js '' WORM'')"
    using posts_value [of "''x WORM''"] by (simp add: js_append [symmetric])
  from api_value_locks_key [OF encode_k word_values(1,2,3,4) this posts_value, of "\<lambda>_. []" "\<lambda>_. []" no_other]
  show ?thesis by auto
qed

end
