(* ===== verification/Financial_Bench.thy ===== *)
theory Financial_Bench
  imports Bench_Scenarios
begin

section \<open>The transfer benchmark against Redis (\<open>bin/financial-bench.ts\<close>)\<close>

text \<open>
  The three workloads and their balance check. Against WormDB a transfer is one EXEC of the procedure
  \<open>transfer\<close>, so the commands of the pool reach the server as one sequence. Against Redis a worker issues
  four commands and the commands of several workers interleave: the run is a sequence of events, each the
  completion of one command. Parameters: \<open>send\<close> is \<open>client.send\<close>; \<open>rget\<close> and \<open>rset\<close> are the commands GET and
  SET of Redis on its state; \<open>tonumber\<close> and \<open>tostring\<close> are Lua's. The draws of \<open>Math.random()\<close> are
  a list. The numeric options are assumed to be the naturals they are meant to be; timing, printing and the
  second copy of each loop that warms up are left out.
\<close>

subsection \<open>Helpers\<close>

definition fin_key :: "nat \<Rightarrow> jstring" where
  "fin_key i = js ''acct:'' @ String_int (int i)"

definition randomAccount :: "nat \<Rightarrow> rat \<Rightarrow> nat" where
  "randomAccount accounts r = nat \<lfloor>r * of_nat accounts\<rfloor>"

text \<open>\<open>None\<close>: the draws given ended before the loop did.\<close>

definition randomPair :: "nat \<Rightarrow> rat list \<Rightarrow> (nat \<times> nat) option" where
  "randomPair accounts draws =
     (case map (randomAccount accounts) draws of
        [] \<Rightarrow> None
      | source # rest \<Rightarrow>
          (case dropWhile (\<lambda>target. target = source) rest of
             [] \<Rightarrow> None
           | target # _ \<Rightarrow> Some (source, target)))"

record bench_tally =
  bt_succeeded :: nat
  bt_failed :: nat
  bt_insufficient :: nat
  bt_latencies :: nat

definition no_tally :: bench_tally where
  "no_tally = \<lparr>bt_succeeded = 0, bt_failed = 0, bt_insufficient = 0, bt_latencies = 0\<rparr>"

text \<open>\<open>Math.ceil(TOTAL_OPS / CONCURRENCY)\<close>.\<close>

definition opsPerWorker :: "nat \<Rightarrow> nat \<Rightarrow> nat" where
  "opsPerWorker tot concurrency = (tot + concurrency - 1) div concurrency"

subsection \<open>WormDB: one procedure call per transfer\<close>

text \<open>The accounts connection \<open>ci\<close> of the eight seeds, and the SETs in the order they are served.\<close>

definition seed_share :: "nat \<Rightarrow> nat \<Rightarrow> nat list" where
  "seed_share accounts ci = filter (\<lambda>i. ci \<le> i \<and> (i - ci) mod 8 = 0) [0..<accounts]"

fun seedWormDB :: "(jstring \<Rightarrow> ('w, WormResponse) act) \<Rightarrow> nat \<Rightarrow> nat list \<Rightarrow> ('w, unit) act" where
  "seedWormDB send initial [] = act_return ()"
| "seedWormDB send initial (i # is) =
     act_bind (send (js ''SET '' @ fin_key i @ [32] @ String_int (int initial))) (\<lambda>_. seedWormDB send initial is)"

definition tally_response :: "js_error + WormResponse \<Rightarrow> bench_tally \<Rightarrow> bench_tally" where
  "tally_response r t =
     (let t = t\<lparr>bt_latencies := bt_latencies t + 1\<rparr> in
      case r of
        Inl _ \<Rightarrow> t\<lparr>bt_failed := bt_failed t + 1\<rparr>
      | Inr resp \<Rightarrow>
          if resp = ROk then t\<lparr>bt_succeeded := bt_succeeded t + 1\<rparr>
          else if resp = RError (js ''insufficient_funds'') then t\<lparr>bt_insufficient := bt_insufficient t + 1\<rparr>
          else t\<lparr>bt_failed := bt_failed t + 1\<rparr>)"

definition worm_transfer :: "(jstring \<Rightarrow> ('w, WormResponse) act) \<Rightarrow> nat \<Rightarrow> 'w \<times> bench_tally \<Rightarrow> nat \<times> nat \<Rightarrow> 'w \<times> bench_tally" where
  "worm_transfer send amount wt pair =
     (case wt of (w, t) \<Rightarrow>
      case pair of (source, target) \<Rightarrow>
        (case send (js ''EXEC transfer '' @ fin_key source @ [32] @ fin_key target @ [32] @ String_int (int amount)) w of
           (w', r) \<Rightarrow> (w', tally_response r t)))"

definition worm_transfers :: "(jstring \<Rightarrow> ('w, WormResponse) act) \<Rightarrow> nat \<Rightarrow> (nat \<times> nat) list \<Rightarrow> 'w \<Rightarrow> 'w \<times> bench_tally" where
  "worm_transfers send amount pairs w = foldl (worm_transfer send amount) (w, no_tally) pairs"

text \<open>The balance check; \<open>None\<close> is \<open>NaN\<close>.\<close>

definition add_balance :: "int option \<Rightarrow> int option \<Rightarrow> int option" where
  "add_balance tot b = (case (tot, b) of (Some x, Some y) \<Rightarrow> Some (x + y) | _ \<Rightarrow> None)"

fun worm_total :: "(jstring \<Rightarrow> ('w, WormResponse) act) \<Rightarrow> nat list \<Rightarrow> int option \<Rightarrow> ('w, int option) act" where
  "worm_total send [] tot = act_return tot"
| "worm_total send (i # is) tot =
     act_bind (send (js ''GET '' @ fin_key i)) (\<lambda>r.
     worm_total send is (case r of RBulk v \<Rightarrow> add_balance tot (parseInt v) | _ \<Rightarrow> tot))"

text \<open>The server with the procedure; \<open>rest\<close> is every other command.\<close>

definition fin_procs :: "(store \<Rightarrow> ZCommand \<Rightarrow> store \<times> ZResponse) \<Rightarrow> store \<Rightarrow> ZCommand \<Rightarrow> store \<times> ZResponse" where
  "fin_procs rest s cmd =
     (case cmd of ZExec p as \<Rightarrow> if p = lit ''transfer'' then transfer_proc as s else rest s cmd | _ \<Rightarrow> rest s cmd)"

subsection \<open>Redis: four commands per transfer\<close>

text \<open>What a worker waits for: nothing, or the second, third or last command of a transfer. A balance \<open>None\<close> is \<open>NaN\<close>.\<close>

datatype redis_worker = RStart | RReadTarget nat nat "int option" | RWriteSource nat nat "int option" "int option"
  | RWriteTarget nat "int option"

record 'r redis_run =
  rr_store :: 'r
  rr_workers :: "nat \<Rightarrow> redis_worker"
  rr_tally :: bench_tally

text \<open>The command of worker \<open>i\<close> is served, with the pair it draws when it starts a transfer, or its promise rejects.\<close>

datatype redis_event = RServed nat "nat \<times> nat" | RRejected nat

definition num_text :: "int option \<Rightarrow> jstring" where
  "num_text b = (case b of Some i \<Rightarrow> String_int i | None \<Rightarrow> js ''NaN'')"

definition read_balance :: "jstring option \<Rightarrow> int option" where
  "read_balance v = parseInt (or_default v (js ''0''))"

definition redis_done :: "(bench_tally \<Rightarrow> bench_tally) \<Rightarrow> nat \<Rightarrow> 'r redis_run \<Rightarrow> 'r redis_run" where
  "redis_done count i s = s\<lparr>rr_workers := (rr_workers s)(i := RStart),
     rr_tally := (let t = rr_tally s in count (t\<lparr>bt_latencies := bt_latencies t + 1\<rparr>))\<rparr>"

definition redis_step :: "('r \<Rightarrow> jstring \<Rightarrow> jstring option) \<Rightarrow> ('r \<Rightarrow> jstring \<Rightarrow> jstring \<Rightarrow> 'r) \<Rightarrow> nat \<Rightarrow> 'r redis_run
    \<Rightarrow> redis_event \<Rightarrow> 'r redis_run" where
  "redis_step rget rset amount s ev =
     (case ev of
        RRejected i \<Rightarrow> redis_done (\<lambda>t. t\<lparr>bt_failed := bt_failed t + 1\<rparr>) i s
      | RServed i pair \<Rightarrow>
          (case rr_workers s i of
             RStart \<Rightarrow>
               (case pair of (source, target) \<Rightarrow>
                let fromBal = read_balance (rget (rr_store s) (fin_key source)) in
                if (case fromBal of Some b \<Rightarrow> b < int amount | None \<Rightarrow> False)
                then redis_done (\<lambda>t. t\<lparr>bt_insufficient := bt_insufficient t + 1\<rparr>) i s
                else s\<lparr>rr_workers := (rr_workers s)(i := RReadTarget source target fromBal)\<rparr>)
           | RReadTarget source target fromBal \<Rightarrow>
               s\<lparr>rr_workers := (rr_workers s)(i := RWriteSource source target fromBal (read_balance (rget (rr_store s) (fin_key target))))\<rparr>
           | RWriteSource source target fromBal toBal \<Rightarrow>
               s\<lparr>rr_store := rset (rr_store s) (fin_key source) (num_text (map_option (\<lambda>b. b - int amount) fromBal)),
                 rr_workers := (rr_workers s)(i := RWriteTarget target toBal)\<rparr>
           | RWriteTarget target toBal \<Rightarrow>
               redis_done (\<lambda>t. t\<lparr>bt_succeeded := bt_succeeded t + 1\<rparr>) i
                 (s\<lparr>rr_store := rset (rr_store s) (fin_key target) (num_text (map_option (\<lambda>b. b + int amount) toBal))\<rparr>)))"

definition redis_run_events :: "('r \<Rightarrow> jstring \<Rightarrow> jstring option) \<Rightarrow> ('r \<Rightarrow> jstring \<Rightarrow> jstring \<Rightarrow> 'r) \<Rightarrow> nat \<Rightarrow> 'r
    \<Rightarrow> redis_event list \<Rightarrow> 'r redis_run" where
  "redis_run_events rget rset amount r evs =
     foldl (redis_step rget rset amount) \<lparr>rr_store = r, rr_workers = \<lambda>_. RStart, rr_tally = no_tally\<rparr> evs"

fun redis_total :: "('r \<Rightarrow> jstring \<Rightarrow> jstring option) \<Rightarrow> nat list \<Rightarrow> int option \<Rightarrow> 'r \<Rightarrow> int option" where
  "redis_total rget [] tot r = tot"
| "redis_total rget (i # is) tot r = redis_total rget is (add_balance tot (read_balance (rget r (fin_key i)))) r"

text \<open>The Lua script, which Redis runs as one command.\<close>

definition lua_transfer :: "('r \<Rightarrow> jstring \<Rightarrow> jstring option) \<Rightarrow> ('r \<Rightarrow> jstring \<Rightarrow> jstring \<Rightarrow> 'r) \<Rightarrow> (jstring \<Rightarrow> int option)
    \<Rightarrow> (int \<Rightarrow> jstring) \<Rightarrow> jstring \<Rightarrow> jstring \<Rightarrow> int \<Rightarrow> 'r \<Rightarrow> 'r \<times> (jstring + unit)" where
  "lua_transfer rget rset tonumber tostring from_key to_key amount r =
     (case Option.bind (rget r from_key) tonumber of
        None \<Rightarrow> (r, Inl (js ''from account not found''))
      | Some from_bal \<Rightarrow>
          (case Option.bind (rget r to_key) tonumber of
             None \<Rightarrow> (r, Inl (js ''to account not found''))
           | Some to_bal \<Rightarrow>
               if from_bal < amount then (r, Inl (js ''insufficient_funds''))
               else (rset (rset r from_key (tostring (from_bal - amount))) to_key (tostring (to_bal + amount)), Inr ())))"

definition tally_lua :: "jstring + unit \<Rightarrow> bench_tally \<Rightarrow> bench_tally" where
  "tally_lua r t =
     (let t = t\<lparr>bt_latencies := bt_latencies t + 1\<rparr> in
      case r of
        Inr _ \<Rightarrow> t\<lparr>bt_succeeded := bt_succeeded t + 1\<rparr>
      | Inl m \<Rightarrow>
          if indexOf m (js ''insufficient_funds'') \<noteq> None then t\<lparr>bt_insufficient := bt_insufficient t + 1\<rparr>
          else t\<lparr>bt_failed := bt_failed t + 1\<rparr>)"

subsection \<open>Accounts\<close>

lemma fin_key_digits: "fin_key i = js ''acct:'' @ digits_of i"
  by (simp add: fin_key_def String_int_def)

lemma digits_of_inj: "digits_of i = digits_of j \<longleftrightarrow> i = j"
  by (metis nat_int option.inject parseInt_digits)

lemma fin_key_inj: "fin_key i = fin_key j \<longleftrightarrow> i = j"
  by (simp add: fin_key_digits digits_of_inj)

lemma fin_key_ok:
  assumes "i < 10 ^ 9"
  shows "key_ok (fin_key i)"
proof -
  have v: "value_ok (digits_of i)" using assms by (intro digits_value_ok) simp
  then have d: "token (digits_of i)" "\<forall>c \<in> set (digits_of i). unat c < 128" by (simp_all add: value_ok_def)
  have "token (fin_key i)" using d(1) by (simp add: fin_key_digits token_def js_simps is_ws_def)
  moreover have "well_formed (fin_key i)"
    unfolding fin_key_digits using d(2) by (intro well_formed_append well_formed_js) (rule well_formed_ascii, fastforce)
  moreover have "hd (toUpperCase (fin_key i)) = 65" by (simp add: fin_key_digits toUpperCase_def js_simps upper_unit_def)
  then have "toUpperCase (fin_key i) \<noteq> js ''WORM''" by (auto simp: js_simps)
  moreover have "length (digits_of i) \<le> 9" using length_digits_of [of i 8] assms by simp
  then have "length (fin_key i) \<le> 1000000" by (simp add: fin_key_digits)
  ultimately show ?thesis by (simp add: key_ok_def)
qed

abbreviation "acct i \<equiv> encodeUtf8 (fin_key i)"

lemma acct_inj: "i < 10 ^ 9 \<Longrightarrow> j < 10 ^ 9 \<Longrightarrow> acct i = acct j \<longleftrightarrow> i = j"
  using key_ok_inj [OF fin_key_ok fin_key_ok] by (simp add: fin_key_inj)

text \<open>The first \<open>n\<close> accounts hold these balances and may be written.\<close>

definition holds :: "store \<Rightarrow> nat \<Rightarrow> (nat \<Rightarrow> nat) \<Rightarrow> bool" where
  "holds s n bal \<longleftrightarrow> (\<forall>i < n. getValueDupe s (acct i) = Some (encodeUtf8 (digits_of (bal i))) \<and> \<not> worm_violation s (acct i))"

lemma holds_set:
  assumes "holds s n bal" and "i < n" and "n \<le> 10 ^ 9"
  shows "holds (ctx_setInt s (acct i) (int b)) n (bal(i := b))"
proof -
  have "\<not> worm_violation s (acct i)" using assms by (simp add: holds_def)
  then have c: "st_live (ctx_setInt s (acct i) (int b)) = (st_live s)(acct i \<mapsto> \<lparr>en_value = encodeUtf8 (digits_of b), en_worm = False\<rparr>)"
      "st_frozen (ctx_setInt s (acct i) (int b)) = st_frozen s"
    by (simp_all add: ctx_setInt_def ctx_set_cases decimal_def String_int_def)
  have "acct j = acct i \<longleftrightarrow> j = i" if "j < n" for j using acct_inj [of j i] that assms by simp
  then show ?thesis
    using assms(1) unfolding holds_def getValueDupe_def worm_violation_def c by auto
qed

lemma transfer_between:
  assumes "holds s n bal" and "i < n" and "j < n" and "i \<noteq> j" and "n \<le> 10 ^ 9"
    and "bal i < 2 ^ 62" and "bal j < 2 ^ 62" and "0 < m" and "m < 2 ^ 62"
  shows "\<exists>s' r. transfer_proc [acct i, acct j, encodeUtf8 (digits_of m)] s = (s', r)
    \<and> (if bal i < m then r = ZErr (lit ''insufficient_funds'') \<and> s' = s
       else r = ZOk \<and> holds s' n (bal(i := bal i - m, j := bal j + m)))"
proof -
  have p: "parse_i64 (encodeUtf8 (digits_of k)) = Some (int k)" if "k < 2 ^ 62" for k
    using that by (intro zig_parseInt_digits) simp_all
  have g: "ctx_getInt s (acct i) = Some (int (bal i))" "ctx_getInt s (acct j) = Some (int (bal j))"
    using assms p by (simp_all add: ctx_getInt_def holds_def)
  show ?thesis
  proof (cases "bal i < m")
    case True
    then show ?thesis using assms(8,9) p g by (simp add: transfer_proc_def)
  next
    case False
    let ?s = "ctx_setInt (ctx_setInt s (acct i) (int (bal i - m))) (acct j) (int (bal j + m))"
    have "transfer_proc [acct i, acct j, encodeUtf8 (digits_of m)] s = (?s, ZOk)"
      using False assms(8,9) p g by (simp add: transfer_proc_def of_nat_diff)
    moreover have "holds ?s n (bal(i := bal i - m, j := bal j + m))"
      by (rule holds_set [OF holds_set [OF assms(1,2,5)] assms(3,5)])
    ultimately show ?thesis using False by auto
  qed
qed

lemma sum_moved:
  fixes bal :: "nat \<Rightarrow> nat"
  assumes "i < n" and "j < n" and "i \<noteq> j" and "m \<le> bal i"
  shows "sum (bal(i := bal i - m, j := bal j + m)) {..<n} = sum bal {..<n}"
proof -
  have u: "sum (f(k := x)) {..<n} + f k = sum f {..<n} + x" if "k < n" for f :: "nat \<Rightarrow> nat" and k x
    using that by (simp add: sum.remove [of "{..<n}" k])
  from u [of i bal "bal i - m"] u [of j "bal(i := bal i - m)" "bal j + m"] assms show ?thesis by simp
qed

lemma fin_procs_exec:
  assumes "i < 10 ^ 9" and "j < 10 ^ 9" and "m < 10 ^ 29"
  shows "store_send (fin_procs rest) (js ''EXEC transfer '' @ fin_key i @ [32] @ fin_key j @ [32] @ String_int (int m)) s
    = (case transfer_proc [acct i, acct j, encodeUtf8 (digits_of m)] s of (s', r) \<Rightarrow> (s', Inr (client_view r)))"
proof -
  let ?c = "CmdExec (js ''transfer'') (map ArgStr [fin_key i, fin_key j, digits_of m])"
  have t: "js ''EXEC transfer '' @ fin_key i @ [32] @ fin_key j @ [32] @ String_int (int m) = join [32] (words_of ?c)"
    by (simp add: js_simps String_int_def)
  have l: "length (acct i) \<le> 4000000" "length (acct j) \<le> 4000000" "length (encodeUtf8 (digits_of m)) \<le> 4000000"
    using key_small [OF fin_key_ok] assms digits_value_ok [of m] length_ascii [of "digits_of m"] by (simp_all add: value_ok_def)
  have "token (digits_of m)" using digits_value_ok [of m] assms by (simp add: value_ok_def)
  then have "printable ?c"
    using fin_key_ok [OF assms(1)] fin_key_ok [OF assms(2)] by (simp add: key_ok_def token_def js_simps is_ws_def)
  moreover have "encodeUtf8 (js ''transfer'') = lit ''transfer''" by (simp add: lit_utf8)
  moreover have "length (payload_of ?c) \<le> MAX_PAYLOAD"
    using l by (simp add: MAX_PAYLOAD_def lit_utf8) (simp add: lit_def)
  ultimately show ?thesis
    unfolding t by (subst store_send_words) (simp_all add: execute_def fin_procs_def)
qed

subsection \<open>The WormDB run conserves the total\<close>

text \<open>Together the eight connections seed every account.\<close>

lemma seed_shares: "set (concat (map (seed_share n) [0..<8])) = {..<n}"
proof -
  have "i \<in> set (seed_share n (i mod 8))" if "i < n" for i
    using that by (simp add: seed_share_def minus_mod_eq_mult_div)
  moreover have "i mod 8 \<in> set [0..<8]" for i :: nat by simp
  ultimately have "i \<in> set (concat (map (seed_share n) [0..<8]))" if "i < n" for i
    using that unfolding set_concat set_map by blast
  then show ?thesis by (auto simp: seed_share_def)
qed

lemma seed_one:
  assumes "i < 10 ^ 9" and "b < 10 ^ 29" and "\<not> worm_violation s (acct i)"
  shows "store_send other (js ''SET '' @ fin_key i @ [32] @ String_int (int b)) s = (ctx_setInt s (acct i) (int b), Inr ROk)"
proof -
  have t: "js ''SET '' @ fin_key i @ [32] @ String_int (int b) = join [32] (words_of (CmdSet (fin_key i) (digits_of b) False))"
    by (simp add: js_simps String_int_def)
  show ?thesis
    unfolding t using fin_key_ok [OF assms(1)] digits_value_ok [of b] assms
    by (simp add: send_set store_set_def ctx_setInt_def ctx_set_cases decimal_def String_int_def del: words_of.simps)
qed

definition seeded :: "store \<Rightarrow> nat \<Rightarrow> nat \<Rightarrow> nat set \<Rightarrow> bool" where
  "seeded s n b A \<longleftrightarrow> (\<forall>i < n. \<not> worm_violation s (acct i) \<and> (i \<in> A \<longrightarrow> getValueDupe s (acct i) = Some (encodeUtf8 (digits_of b))))"

lemma seeded_set:
  assumes "seeded s n b A" and "i < n" and "n \<le> 10 ^ 9"
  shows "seeded (ctx_setInt s (acct i) (int b)) n b (insert i A)"
proof -
  have "\<not> worm_violation s (acct i)" using assms by (simp add: seeded_def)
  then have c: "st_live (ctx_setInt s (acct i) (int b)) = (st_live s)(acct i \<mapsto> \<lparr>en_value = encodeUtf8 (digits_of b), en_worm = False\<rparr>)"
      "st_frozen (ctx_setInt s (acct i) (int b)) = st_frozen s"
    by (simp_all add: ctx_setInt_def ctx_set_cases decimal_def String_int_def)
  have "acct j = acct i \<longleftrightarrow> j = i" if "j < n" for j using acct_inj [of j i] that assms by simp
  then show ?thesis using assms(1) unfolding seeded_def getValueDupe_def worm_violation_def c by auto
qed

lemma seeding:
  assumes "seeded s n b A" and "\<forall>i \<in> set is. i < n" and "n \<le> 10 ^ 9" and "b < 10 ^ 29"
  shows "\<exists>s'. seedWormDB (store_send other) b is s = (s', Inr ()) \<and> seeded s' n b (A \<union> set is)"
  using assms
proof (induction "is" arbitrary: s A)
  case (Cons i "is")
  have "seeded (ctx_setInt s (acct i) (int b)) n b (insert i A)" using Cons.prems by (intro seeded_set) auto
  from Cons.IH [OF this] Cons.prems obtain s' where
    "seedWormDB (store_send other) b is (ctx_setInt s (acct i) (int b)) = (s', Inr ())" "seeded s' n b (insert i A \<union> set is)"
    by auto
  moreover have "store_send other (js ''SET '' @ fin_key i @ [32] @ String_int (int b)) s = (ctx_setInt s (acct i) (int b), Inr ROk)"
    using Cons.prems by (intro seed_one) (auto simp: seeded_def)
  ultimately show ?case by (simp add: act_bind_def del: append.simps)
qed (simp add: act_basic)

lemma checked_total:
  assumes "holds s n bal" and "n \<le> 10 ^ 9" and "\<forall>i \<in> set is. i < n" and "\<forall>i < n. bal i < 10 ^ 30"
  shows "worm_total (store_send other) is (Some x) s = (s, Inr (Some (x + (\<Sum>i \<leftarrow> is. int (bal i)))))"
  using assms
proof (induction "is" arbitrary: x)
  case (Cons i "is")
  have i: "i < n" "i < 10 ^ 9" using Cons.prems by auto
  have "stored_text s (fin_key i) = Some (digits_of (bal i))"
    using Cons.prems i value_ok_decode [OF digits_value_ok [of "bal i"]] by (simp add: stored_text_def holds_def)
  then have "store_send other (js ''GET '' @ fin_key i) s = (s, Inr (RBulk (digits_of (bal i))))"
    using send_get [OF fin_key_ok [OF i(2)], of other s] by simp
  then show ?case
    using Cons by (simp add: act_bind_def parseInt_digits add_balance_def add.assoc)
qed (simp add: act_basic)

lemma worm_transfer_step:
  assumes "holds s n bal" and "sum bal {..<n} < 2 ^ 62" and "i < n" and "j < n" and "i \<noteq> j" and "n \<le> 10 ^ 9"
    and "0 < m" and "m < 2 ^ 62"
  shows "\<exists>s' bal' t'. worm_transfer (store_send (fin_procs rest)) m (s, t) (i, j) = (s', t') \<and> holds s' n bal'
    \<and> sum bal' {..<n} = sum bal {..<n} \<and> bt_failed t' = bt_failed t \<and> bt_latencies t' = bt_latencies t + 1
    \<and> bt_succeeded t' + bt_insufficient t' = bt_succeeded t + bt_insufficient t + 1"
proof -
  have le: "bal k \<le> sum bal {..<n}" if "k < n" for k using that by (intro member_le_sum) auto
  have b: "bal i < 2 ^ 62" "bal j < 2 ^ 62" using le assms(2-4) le_less_trans by blast+
  have x: "i < 10 ^ 9" "j < 10 ^ 9" "m < 10 ^ 29" using assms by auto
  obtain s' r where r: "transfer_proc [acct i, acct j, encodeUtf8 (digits_of m)] s = (s', r)"
      "if bal i < m then r = ZErr (lit ''insufficient_funds'') \<and> s' = s
       else r = ZOk \<and> holds s' n (bal(i := bal i - m, j := bal j + m))"
    using transfer_between [OF assms(1,3-6) b assms(7,8)] by blast
  have f: "client_view (ZErr (lit ''insufficient_funds'')) = RError (js ''insufficient_funds'')"
  proof -
    have "take 1 (js ''insufficient_funds'') \<noteq> [0xFEFF]" by (simp add: js_simps)
    from decodeUtf8_encodeUtf8_id [OF well_formed_js this] show ?thesis by (simp add: lit_utf8)
  qed
  have w: "worm_transfer (store_send (fin_procs rest)) m (s, t) (i, j) = (s', tally_response (Inr (client_view r)) t)"
    using fin_procs_exec [OF x, of rest s] r(1) by (simp add: worm_transfer_def)
  show ?thesis
  proof (cases "bal i < m")
    case True
    then show ?thesis using w r(2) f assms(1) by (auto simp: tally_response_def)
  next
    case False
    with sum_moved [OF assms(3-5), of m bal] w r(2) show ?thesis by (auto simp: tally_response_def)
  qed
qed

lemma worm_transfers_steps:
  assumes "holds s n bal" and "sum bal {..<n} < 2 ^ 62" and "n \<le> 10 ^ 9" and "0 < m" and "m < 2 ^ 62"
    and "\<forall>(i, j) \<in> set pairs. i < n \<and> j < n \<and> i \<noteq> j"
  shows "\<exists>s' bal' t'. foldl (worm_transfer (store_send (fin_procs rest)) m) (s, t) pairs = (s', t') \<and> holds s' n bal'
    \<and> sum bal' {..<n} = sum bal {..<n} \<and> bt_failed t' = bt_failed t \<and> bt_latencies t' = bt_latencies t + length pairs
    \<and> bt_succeeded t' + bt_insufficient t' = bt_succeeded t + bt_insufficient t + length pairs"
  using assms
proof (induction pairs arbitrary: s bal t)
  case (Cons p pairs)
  obtain i j where p: "p = (i, j)" by (cases p)
  with Cons.prems have "i < n" "j < n" "i \<noteq> j" by auto
  from worm_transfer_step [OF Cons.prems(1,2) this Cons.prems(3-5), of rest t] obtain s1 bal1 t1 where
    1: "worm_transfer (store_send (fin_procs rest)) m (s, t) (i, j) = (s1, t1)" "holds s1 n bal1"
      "sum bal1 {..<n} = sum bal {..<n}" "bt_failed t1 = bt_failed t" "bt_latencies t1 = bt_latencies t + 1"
      "bt_succeeded t1 + bt_insufficient t1 = bt_succeeded t + bt_insufficient t + 1"
    by blast
  have "sum bal1 {..<n} < 2 ^ 62" using 1(3) Cons.prems(2) by simp
  from Cons.IH [OF 1(2) this Cons.prems(3-5), of t1] Cons.prems(6) obtain s2 bal2 t2 where
    "foldl (worm_transfer (store_send (fin_procs rest)) m) (s1, t1) pairs = (s2, t2)" "holds s2 n bal2"
      "sum bal2 {..<n} = sum bal1 {..<n}" "bt_failed t2 = bt_failed t1" "bt_latencies t2 = bt_latencies t1 + length pairs"
      "bt_succeeded t2 + bt_insufficient t2 = bt_succeeded t1 + bt_insufficient t1 + length pairs"
    by auto
  with 1 p show ?case by (intro exI [of _ s2] exI [of _ bal2] exI [of _ t2]) simp
qed auto



subsection \<open>The Redis run\<close>

text \<open>What the code relies on of Redis: a GET returns what the last SET of the key stored.\<close>

definition redis_law :: "('r \<Rightarrow> jstring \<Rightarrow> jstring option) \<Rightarrow> ('r \<Rightarrow> jstring \<Rightarrow> jstring \<Rightarrow> 'r) \<Rightarrow> bool" where
  "redis_law rget rset \<longleftrightarrow> (\<forall>r k v k'. rget (rset r k v) k' = (if k' = k then Some v else rget r k'))"

lemma redis_get_set: "redis_law rget rset \<Longrightarrow> rget (rset r k v) k' = (if k' = k then Some v else rget r k')"
  by (simp add: redis_law_def)

lemma num_text_read [simp]: "0 \<le> b \<Longrightarrow> parseInt (num_text (Some b)) = Some b"
  by (simp add: num_text_def String_int_def parseInt_digits)

definition redis_holds :: "('r \<Rightarrow> jstring \<Rightarrow> jstring option) \<Rightarrow> 'r \<Rightarrow> nat \<Rightarrow> (nat \<Rightarrow> int) \<Rightarrow> bool" where
  "redis_holds rget r n bal \<longleftrightarrow> (\<forall>i < n. read_balance (rget r (fin_key i)) = Some (bal i) \<and> 0 \<le> bal i)"

lemma redis_holds_set:
  assumes "redis_law rget rset" and "redis_holds rget r n bal" and "0 \<le> b"
  shows "redis_holds rget (rset r (fin_key i) (num_text (Some b))) n (bal(i := b))"
  using assms by (auto simp: redis_holds_def redis_get_set fin_key_inj read_balance_def)

lemma redis_checked:
  assumes "redis_holds rget r n bal" and "\<forall>i \<in> set is. i < n"
  shows "redis_total rget is (Some x) r = Some (x + (\<Sum>i \<leftarrow> is. bal i))"
  using assms by (induction "is" arbitrary: x) (auto simp: add_balance_def redis_holds_def add.assoc)

text \<open>
With at least three accounts the run is not safe under concurrency: there is an order of serving the commands of
two workers in which both transfers are counted as succeeded and the check finds the amount of one of them missing.
\<close>

theorem redis_total_drifts:
  assumes "redis_law rget rset" and "redis_holds rget r n (\<lambda>_. int initial)" and "3 \<le> n" and "amount \<le> initial"
  shows "\<exists>evs. let s = redis_run_events rget rset amount r evs in
      redis_total rget [0..<n] (Some 0) (rr_store s) = Some (int (n * initial) - int amount)
      \<and> bt_succeeded (rr_tally s) = 2 \<and> bt_failed (rr_tally s) = 0 \<and> bt_insufficient (rr_tally s) = 0
      \<and> (\<forall>i. rr_workers s i = RStart)"
proof -
  let ?b = "int initial" and ?m = "int amount" and ?T = "num_text (Some (int initial + int amount))"
    and ?S = "num_text (Some (int initial - int amount))"
  let ?one = "RServed 0 (0, 1)" and ?two = "RServed 1 (2, 1)"
  let ?evs = "[?one, ?one, ?two, ?two, ?two, ?two, ?one, ?one]"
  let ?r = "rset (rset (rset (rset r (fin_key 2) ?S) (fin_key 1) ?T) (fin_key 0) ?S) (fin_key 1) ?T"
  have b: "read_balance (rget r (fin_key i)) = Some ?b" if "i < 3" for i
    using assms(2,3) that by (simp add: redis_holds_def)
  have s: "redis_run_events rget rset amount r ?evs = \<lparr>rr_store = ?r, rr_workers = (\<lambda>_. RStart)(1 := RStart, 0 := RStart),
      rr_tally = \<lparr>bt_succeeded = 2, bt_failed = 0, bt_insufficient = 0, bt_latencies = 2\<rparr>\<rparr>"
    using assms(4) b [of 0] b [of 1] b [of 2]
    by (simp add: redis_run_events_def redis_step_def redis_done_def no_tally_def Let_def fun_upd_twist)
  let ?bal = "(\<lambda>_. ?b)(2 := ?b - ?m, 1 := ?b + ?m, 0 := ?b - ?m, 1 := ?b + ?m)"
  have "redis_holds rget ?r n ?bal"
    using assms(4) by (intro redis_holds_set [OF assms(1)] assms(2)) simp_all
  then have c: "redis_total rget [0..<n] (Some 0) ?r = Some (\<Sum>i \<leftarrow> [0..<n]. ?bal i)"
    by (subst redis_checked) auto
  have u: "sum (f(k := x)) {..<n} = sum f {..<n} - f k + x" if "k < n" for f :: "nat \<Rightarrow> int" and k x
    using that by (simp add: sum.remove [of "{..<n}" k])
  have "sum ?bal {..<n} = int n * ?b - ?m"
    using assms(3) u [of 1 "(\<lambda>_. ?b)(2 := ?b - ?m, 1 := ?b + ?m, 0 := ?b - ?m)"] u [of 0 "(\<lambda>_. ?b)(2 := ?b - ?m, 1 := ?b + ?m)"]
      u [of 1 "(\<lambda>_. ?b)(2 := ?b - ?m)"] u [of 2 "\<lambda>_. ?b"] by (simp del: fun_upd_apply) (simp add: fun_upd_apply)
  then have "(\<Sum>i \<leftarrow> [0..<n]. ?bal i) = int (n * initial) - ?m"
    by (simp add: interv_sum_list_conv_sum_set_nat atLeast0LessThan)
  with c s show ?thesis by (intro exI [of _ ?evs]) simp
qed

definition map_redis_get :: "(jstring \<rightharpoonup> jstring) \<Rightarrow> jstring \<Rightarrow> jstring option" where
  "map_redis_get r k = r k"

definition map_redis_set :: "(jstring \<rightharpoonup> jstring) \<Rightarrow> jstring \<Rightarrow> jstring \<Rightarrow> (jstring \<rightharpoonup> jstring)" where
  "map_redis_set r k v = r(k \<mapsto> v)"

lemma map_redis_law: "redis_law map_redis_get map_redis_set"
  by (simp add: redis_law_def map_redis_get_def map_redis_set_def)

theorem redis_total_drifts_witness:
  "\<exists>evs. let s = redis_run_events map_redis_get map_redis_set 100 (\<lambda>_. Some (digits_of 500)) evs in
      redis_total map_redis_get [0..<3] (Some 0) (rr_store s) = Some 1400 \<and> bt_succeeded (rr_tally s) = 2"
proof -
  have "redis_holds map_redis_get (\<lambda>_. Some (digits_of 500)) 3 (\<lambda>_. int 500)"
    by (simp add: redis_holds_def map_redis_get_def read_balance_def parseInt_digits [of 500, simplified])
  from redis_total_drifts [OF map_redis_law this, of 100] show ?thesis by (auto simp: Let_def)
qed

text \<open>A single worker, or workers whose transfers do not overlap, keeps the total at the end of each transfer.\<close>

definition lone_worker :: "('r \<Rightarrow> jstring \<Rightarrow> jstring option) \<Rightarrow> nat \<Rightarrow> nat \<Rightarrow> int \<Rightarrow> nat \<Rightarrow> 'r redis_run \<Rightarrow> bool" where
  "lone_worker rget n amount tot w s \<longleftrightarrow> (\<exists>bal. redis_holds rget (rr_store s) n bal \<and>
     (case rr_workers s w of
        RStart \<Rightarrow> sum bal {..<n} = tot
      | RReadTarget source target a \<Rightarrow> sum bal {..<n} = tot \<and> source < n \<and> target < n \<and> source \<noteq> target
          \<and> a = Some (bal source) \<and> int amount \<le> bal source
      | RWriteSource source target a b \<Rightarrow> sum bal {..<n} = tot \<and> source < n \<and> target < n \<and> source \<noteq> target
          \<and> a = Some (bal source) \<and> int amount \<le> bal source \<and> b = Some (bal target)
      | RWriteTarget target b \<Rightarrow> sum bal {..<n} = tot - int amount \<and> target < n \<and> b = Some (bal target)))"

lemma sum_upd_int:
  fixes f :: "nat \<Rightarrow> int"
  shows "k < n \<Longrightarrow> sum (f(k := x)) {..<n} = sum f {..<n} - f k + x"
  by (simp add: sum.remove [of "{..<n}" k])

lemma lone_worker_step:
  assumes "redis_law rget rset" and "lone_worker rget n amount tot w s" and "i < n" and "j < n" and "i \<noteq> j"
  shows "lone_worker rget n amount tot w (redis_step rget rset amount s (RServed w (i, j)))"
proof -
  obtain bal where b: "redis_holds rget (rr_store s) n bal"
    and c: "case rr_workers s w of
        RStart \<Rightarrow> sum bal {..<n} = tot
      | RReadTarget source target a \<Rightarrow> sum bal {..<n} = tot \<and> source < n \<and> target < n \<and> source \<noteq> target
          \<and> a = Some (bal source) \<and> int amount \<le> bal source
      | RWriteSource source target a b \<Rightarrow> sum bal {..<n} = tot \<and> source < n \<and> target < n \<and> source \<noteq> target
          \<and> a = Some (bal source) \<and> int amount \<le> bal source \<and> b = Some (bal target)
      | RWriteTarget target b \<Rightarrow> sum bal {..<n} = tot - int amount \<and> target < n \<and> b = Some (bal target)"
    using assms(2) by (auto simp: lone_worker_def)
  have g: "read_balance (rget (rr_store s) (fin_key k)) = Some (bal k)" "0 \<le> bal k" if "k < n" for k
    using b that by (auto simp: redis_holds_def)
  show ?thesis
  proof (cases "rr_workers s w")
    case RStart
    then show ?thesis
      using c b assms(3-5) g [of i] by (auto simp: lone_worker_def redis_step_def redis_done_def Let_def)
  next
    case (RReadTarget source target a)
    then show ?thesis
      using c b g [of target] by (auto simp: lone_worker_def redis_step_def)
  next
    case (RWriteSource source target a b')
    let ?bal = "bal(source := bal source - int amount)"
    have "redis_holds rget (rset (rr_store s) (fin_key source) (num_text (Some (bal source - int amount)))) n ?bal"
      using c RWriteSource by (intro redis_holds_set [OF assms(1) b]) simp
    then show ?thesis
      using c RWriteSource sum_upd_int [of source n bal]
      by (auto simp: lone_worker_def redis_step_def intro!: exI [of _ ?bal])
  next
    case (RWriteTarget target b')
    let ?bal = "bal(target := bal target + int amount)"
    have "redis_holds rget (rset (rr_store s) (fin_key target) (num_text (Some (bal target + int amount)))) n ?bal"
      using c RWriteTarget g [of target] by (intro redis_holds_set [OF assms(1) b]) simp
    then show ?thesis
      using c RWriteTarget sum_upd_int [of target n bal]
      by (auto simp: lone_worker_def redis_step_def redis_done_def intro!: exI [of _ ?bal])
  qed
qed

theorem redis_alone_conserves:
  assumes "redis_law rget rset" and "redis_holds rget r n (\<lambda>_. int initial)"
    and "\<forall>ev \<in> set evs. \<exists>i j. ev = RServed w (i, j) \<and> i < n \<and> j < n \<and> i \<noteq> j"
    and "rr_workers (redis_run_events rget rset amount r evs) w = RStart"
  shows "redis_total rget [0..<n] (Some 0) (rr_store (redis_run_events rget rset amount r evs)) = Some (int (n * initial))"
proof -
  let ?s0 = "\<lparr>rr_store = r, rr_workers = \<lambda>_. RStart, rr_tally = no_tally\<rparr>"
  have "lone_worker rget n amount tot w (foldl (redis_step rget rset amount) s evs)" if "lone_worker rget n amount tot w s" for s tot
    using assms(3) that
  proof (induction evs arbitrary: s)
    case (Cons ev evs)
    then obtain i j where "ev = RServed w (i, j)" "i < n" "j < n" "i \<noteq> j" by auto
    with lone_worker_step [OF assms(1) Cons.prems(2)] Cons show ?case by simp
  qed simp
  moreover have "lone_worker rget n amount (int (n * initial)) w ?s0"
    using assms(2) by (auto simp: lone_worker_def intro!: exI [of _ "\<lambda>_. int initial"])
  ultimately have "lone_worker rget n amount (int (n * initial)) w (redis_run_events rget rset amount r evs)"
    unfolding redis_run_events_def by blast
  then obtain bal where "redis_holds rget (rr_store (redis_run_events rget rset amount r evs)) n bal" "sum bal {..<n} = int (n * initial)"
    using assms(4) by (auto simp: lone_worker_def)
  then show ?thesis
    by (subst redis_checked) (auto simp: interv_sum_list_conv_sum_set_nat atLeast0LessThan)
qed

subsection \<open>The pair of accounts\<close>

lemma randomPair_distinct: "randomPair accounts draws = Some (i, j) \<Longrightarrow> i \<noteq> j"
proof -
  assume "randomPair accounts draws = Some (i, j)"
  then obtain xs ys where "dropWhile (\<lambda>target. target = i) xs = j # ys"
    by (auto simp: randomPair_def split: list.splits)
  then show ?thesis by (metis (mono_tags, lifting) hd_dropWhile list.discI list.sel(1))
qed

lemma randomAccount_less: "0 \<le> r \<Longrightarrow> r < 1 \<Longrightarrow> 0 < accounts \<Longrightarrow> randomAccount accounts r < accounts"
proof -
  assume a: "0 \<le> r" "r < 1" "0 < accounts"
  then have "r * of_nat accounts < of_nat accounts" "0 \<le> r * of_nat accounts" by (simp_all add: mult_less_cancel_right)
  then have "\<lfloor>r * of_nat accounts\<rfloor> < int accounts" by (simp add: floor_less_iff)
  with a(3) show ?thesis by (simp add: randomAccount_def nat_less_iff)
qed

text \<open>With one account the loop that looks for a second one never ends, whatever is drawn.\<close>

theorem one_account_never_paired: "\<forall>r \<in> set draws. 0 \<le> r \<and> r < 1 \<Longrightarrow> randomPair 1 draws = None"
proof -
  assume a: "\<forall>r \<in> set draws. 0 \<le> r \<and> r < 1"
  have z: "\<forall>x \<in> set (map (randomAccount 1) draws). x = 0"
  proof
    fix x assume "x \<in> set (map (randomAccount 1) draws)"
    then obtain r where "x = randomAccount 1 r" "r \<in> set draws" by auto
    with a randomAccount_less [of r 1] show "x = 0" by simp
  qed
  show ?thesis
  proof (cases "map (randomAccount 1) draws")
    case (Cons x xs)
    then have d: "dropWhile (\<lambda>target. target = x) xs = []" using z by (auto simp: dropWhile_eq_Nil_conv)
    show ?thesis unfolding randomPair_def Cons list.case d ..
  qed (simp add: randomPair_def)
qed

end
