(* ===== verification/Spec2Isabelle.thy ===== *)
theory Spec2Isabelle
  imports Server_Wire Worm_Client Browser_Correct End_To_End WormDB_Correct Explorer_Server Ui_Server Mem_Client Cli Text_Protocol Bench_Runner
    Notepad_Page_Correct Explorer_Page_Correct Ui_Page_Correct Auth_Provider Api_Backend Financial_Bench
begin

text \<open>
  \<^bold>\<open>The program.\<close> WormDB is a key-value and vector database with write-once (WORM) keys. A server written in Zig
  speaks a binary protocol (frames of a code byte, a 32-bit length and a payload) over TCP, and the same frames over
  WebSockets. The repository's TypeScript has: a Bun library (\<^verbatim>\<open>apps/bun/src/lib\<close>: text commands, wire codec, the
  low-level client \<^verbatim>\<open>WormClient\<close>, the managed client \<^verbatim>\<open>WormDB\<close>), a browser client (\<^verbatim>\<open>apps/browser/src\<close>), and
  programs over the library (\<^verbatim>\<open>apps/bun/src/bin\<close>: a notepad server, a key-value explorer server, a cluster dashboard,
  a command line client; \<^verbatim>\<open>notepad/app.ts\<close>, \<^verbatim>\<open>explorer/app.ts\<close>, \<^verbatim>\<open>ui/app.ts\<close>: the pages of these servers; \<^verbatim>\<open>lib/bench\<close>: a benchmark; \<^verbatim>\<open>examples/agent-memory/client\<close>: the client of the agent-memory
  procedures; \<^verbatim>\<open>apps/browser/demo\<close>: the token provider of a chat and a REST proxy). The clients write
  command frames and match response frames to requests by their order; events of subscriptions come between them. The
  servers of \<^verbatim>\<open>bin\<close> are HTTP servers that keep JSON documents in the database through text commands and stored
  procedures, and relay database events to browsers.

  \<^bold>\<open>The layers\<close>, from the bottom; a theory imports the ones it calls.

  \<^item> Foundations. \<^verbatim>\<open>Prelude\<close> (bytes, UTF-16 code units, \<open>and_then\<close> for results, 32-bit fields, the collections
    \<open>wire_simps\<close> and \<open>js_simps\<close>), \<^verbatim>\<open>Js_String\<close>, \<^verbatim>\<open>Js_Parse\<close> and \<^verbatim>\<open>Js_Uri\<close> (the methods of strings, \<open>parseInt\<close>,
    \<open>decodeURIComponent\<close>, and \<open>encodeURIComponent\<close> with their round trip), \<^verbatim>\<open>Utf8\<close> (\<open>TextEncoder\<close> and \<open>TextDecoder\<close> with replacement characters and the byte order
    mark), \<^verbatim>\<open>Buffers\<close> (typed arrays of fixed length), \<^verbatim>\<open>Base64\<close> (\<open>atob\<close>), \<^verbatim>\<open>Json\<close> (\<open>JSON.parse\<close>, \<open>JSON.stringify\<close> and
    that the first reads what the second writes).
  \<^item> Wire. \<^verbatim>\<open>Command\<close> (\<^verbatim>\<open>lib/command.ts\<close>), \<^verbatim>\<open>Wire\<close> (\<^verbatim>\<open>lib/wire.ts\<close>), \<^verbatim>\<open>Text_Protocol\<close> (\<^verbatim>\<open>lib/protocol.ts\<close>),
    \<^verbatim>\<open>Framing\<close> (the receive loop all clients share, and the locale \<open>chunk_consumer\<close>: what is received does not depend on
    how the stream is cut into chunks), \<^verbatim>\<open>Browser_Wire\<close> (\<^verbatim>\<open>apps/browser/src/wire.ts\<close>), \<^verbatim>\<open>Server_Wire\<close> (the frame
    reader and the response writer of \<^verbatim>\<open>src/protocol/wire.zig\<close>). Shown: every encoder fills its buffer exactly and fails
    only above the 16 MiB limit; the server reads pipelined frames as the commands meant; every client reads every
    response as what the server wrote; texts survive the round trip.
  \<^item> Clients. \<^verbatim>\<open>Client_Types\<close>, \<^verbatim>\<open>Write_Backlog\<close> (partial writes; the locale \<open>ordered_writer\<close>), \<^verbatim>\<open>Worm_Client\<close>
    (\<^verbatim>\<open>lib/client.ts\<close>), \<^verbatim>\<open>WormDB_Engine\<close>, \<^verbatim>\<open>WormDB_Pubsub\<close>, \<^verbatim>\<open>WormDB_System\<close>, \<^verbatim>\<open>WormDB_Correct\<close>, \<^verbatim>\<open>WormDB_Api\<close>
    (\<^verbatim>\<open>lib/wormdb.ts\<close>), \<^verbatim>\<open>Browser_Client\<close>, \<^verbatim>\<open>Browser_Correct\<close> (\<^verbatim>\<open>apps/browser/src/client.ts\<close>), \<^verbatim>\<open>End_To_End\<close> (a
    method of \<^verbatim>\<open>WormDB\<close> against the server's codec), \<^verbatim>\<open>Mem_Client\<close> (\<^verbatim>\<open>examples/agent-memory/client/mem.ts\<close>), \<^verbatim>\<open>Cli\<close>
    (\<^verbatim>\<open>bin/client.ts\<close>; a function of its arguments and of what the request comes to). A client is a record of its fields, each method and callback of a socket or timer a
    function on it; what leaves the object (settled promises, timers, opened sockets, frames) is an effect in a log or
    the new state of a socket. A method is split at each \<open>await\<close>. Runs are sequences of calls, data, closes, errors and
    timers in any order (\<open>db_react\<close>, \<open>b_step\<close>). Shown: answers are matched in order and events separated from them; every
    request is settled exactly once or still accounted for (the locale \<open>request_ledger\<close>); queued bytes keep their order; the
    handshake writes magic, authentication and subscriptions before any parked request; backoff is bounded and gives up after
    the configured attempts; buffers of iterators are bounded.
  \<^item> Store. \<^verbatim>\<open>Server_Store\<close> (entries, the write-once rule and the text commands the servers of \<^verbatim>\<open>bin\<close> send, from
    \<^verbatim>\<open>src/storage/store.zig\<close> and \<^verbatim>\<open>src/server/executor.zig\<close>; the locale \<open>text_store\<close> states what a client may rely on, and
    is interpreted on the store), \<^verbatim>\<open>Kv_Procedures\<close> (the stored procedures \<open>kv_put\<close>, \<open>kv_get\<close>, \<open>kv_stats\<close>; locale
    \<open>proc_store\<close>).
  \<^item> Servers. \<^verbatim>\<open>Http\<close> (handlers as actions with errors, JSON access with its type errors, routing), \<^verbatim>\<open>Store_Index\<close> (the
    index of documents), \<^verbatim>\<open>Event_Feed\<close>, \<^verbatim>\<open>Notepad_Server\<close> (\<^verbatim>\<open>bin/notepad.ts\<close>), \<^verbatim>\<open>Explorer_Server\<close>
    (\<^verbatim>\<open>bin/explorer.ts\<close>), \<^verbatim>\<open>Ui_Cluster\<close> and \<^verbatim>\<open>Ui_Server\<close> (\<^verbatim>\<open>bin/ui.ts\<close>). Shown: what is created is read back and
    listed, a locked document cannot be changed, and where the handlers report something else than what the store did;
    the invariant of the dashboard's endpoints, failover after two failures, the token check of the admin routes, the only
    processes it can start, the relay of server-sent events.
  \<^item> Pages. \<^verbatim>\<open>Page_Common\<close> (HTML escaping, timers, \<open>fetch\<close>, toasts, dialogs, the reconnecting WebSocket; the locale
    \<open>debounced_page\<close>, interpreted on both editors), \<^verbatim>\<open>Page_Html\<close> (the preview on trees of nodes), \<^verbatim>\<open>Notepad_Page\<close> and
    \<^verbatim>\<open>Notepad_Page_Correct\<close> (\<^verbatim>\<open>notepad/app.ts\<close>), \<^verbatim>\<open>Explorer_Page\<close> and \<^verbatim>\<open>Explorer_Page_Correct\<close> (\<^verbatim>\<open>explorer/app.ts\<close>),
    \<^verbatim>\<open>Ui_Docker\<close>, \<^verbatim>\<open>Ui_Mesh\<close>, \<^verbatim>\<open>Ui_Page\<close> and \<^verbatim>\<open>Ui_Page_Correct\<close> (\<^verbatim>\<open>ui/app.ts\<close>, \<^verbatim>\<open>ui/mesh.ts\<close>). A page is a record of its
    state, of the elements it writes, of the timers that are set and of the requests under way; an \<open>async\<close> function is
    cut at each \<open>await\<close> and goes on in the state of that moment, so everything the user, the server or a timer does in
    between is possible. The inductive relations \<open>np_step\<close>, \<open>xp_step\<close> and \<open>ui_page_step\<close> say what can happen. Shown: the
    notepad shows its state in every reachable state; at most one save is pending; an edit reaches the store through the
    server, and the requests of the explorer reach the handlers of the server with exactly the key; the histories and logs are
    bounded; the fallback sanitizer and the escaping leave no markup of the user's; container cards updated in place are
    those of a fresh rendering, and the mesh those of the cluster; and where a change of the note or key between an edit and
    its save loses or misdirects the edit.
  \<^item> Authorization. \<^verbatim>\<open>Sct\<close> (signed capability tokens: \<^verbatim>\<open>src/server/auth.zig\<close>, the gate of \<^verbatim>\<open>executor.zig\<close>, the
    connection of \<^verbatim>\<open>gateway.zig\<close>), \<^verbatim>\<open>Auth_Mint\<close> (\<^verbatim>\<open>src/procedures/auth_mint_scoped.zig\<close>), \<^verbatim>\<open>Auth_Provider\<close>
    (\<^verbatim>\<open>demo/auth-provider.ts\<close>, \<^verbatim>\<open>keygen.ts\<close>), \<^verbatim>\<open>Api_Backend\<close> (\<^verbatim>\<open>demo/api-backend.ts\<close>, against the locale \<open>text_store\<close>). Shown:
    the server reads a token as it was minted, at every time; a protected command has an effect only under a verified, unexpired
    token that permits it; what a chat token permits, exactly; that a minted token stays in its namespace, and that a chat token
    can mint; what the proxy writes is read back, and what a value can do beyond being stored.
  \<^item> Benchmark. \<^verbatim>\<open>Bench_Cli\<close> (\<^verbatim>\<open>lib/bench/cli.ts\<close>, \<^verbatim>\<open>types.ts\<close>), \<^verbatim>\<open>Bench_Scenarios\<close> (\<^verbatim>\<open>scenarios.ts\<close>, against the
    locale \<open>text_store\<close>) and \<^verbatim>\<open>Bench_Runner\<close> (\<^verbatim>\<open>runner.ts\<close>: the workers as an inductive step relation), \<^verbatim>\<open>Financial_Bench\<close>
    (\<^verbatim>\<open>bin/financial-bench.ts\<close>: transfers by a procedure and, against Redis, by interleaved commands). Shown: parsed options
    are well formed, a transfer moves its amount and, between an account and itself, creates it; every run of a workload
    ends with every operation counted once; the balances of the procedure's transfers add up in every order, those of the
    interleaved commands only when the transfers do not overlap.

  \<^bold>\<open>Time, numbers and loops.\<close> All loops are total functions: the receive loop, the drain loop and the parsers recurse on the
  bytes or code units left, so no fuel is used. A JavaScript number that is a count or a length is a \<open>nat\<close> or an \<open>int\<close> (all
  stay far below \<open>2^53\<close>); a 32-bit field of a frame is its four bytes, and its bound is part of the statements
  (\<open>response_size < 2^32\<close>, payloads at most \<open>MAX_PAYLOAD\<close>). Other numbers (JSON literals, ports, the backoff with its
  jitter) are kept as text, as a type parameter, or as rationals. Bounds in hypotheses (\<open>key_ok\<close>, \<open>value_ok\<close>, \<open>doc_ok\<close>,
  \<open>message_ok\<close>, \<open>own_key\<close>: single words and lengths far below the 16 MiB of a frame and, for the procedures, below the
  512 bytes of their scratch buffer) exclude the cases in which the limits of the protocol are hit; what the codec does there is
  part of the codec's own theorems.

  \<^bold>\<open>Parameters\<close> stand for what is not in the repository: the answers of \<open>socket.write\<close> (\<open>wr\<close>), whether a WebSocket URL
  is valid, the token provider, \<open>Buffer.from(_, "base64")\<close> (\<open>unb64\<close>: relied on only to invert the encoding), \<open>Buffer.from\<close>
  on other values, texts of engine errors (\<open>msg\<close>), \<open>Number\<close> and its printing, clocks, random numbers,
  the output of processes, Ed25519 (\<open>verify\<close>, \<open>sign\<close>: relied on only for signatures of 64 bytes that verify), the commands of
  Redis and Lua's conversions; for the pages, \<open>marked\<close>, \<open>DOMPurify\<close>, the HTML parser and serializer, case mapping, \<open>localeCompare\<close>
  and the local texts of dates. The commands
  of the server that are not modelled are the parameter \<open>other\<close> of \<open>execute\<close>.

  \<^bold>\<open>Simplifications.\<close> A JSON object lists its names in insertion order; names that look like array indices, which
  JavaScript moves to the front, do not occur in the programs' documents. Handlers of one server run one after the other;
  their interleaving at an \<open>await\<close> with handlers of other requests is not modelled, and the servers of \<^verbatim>\<open>bin\<close> use the store with authorization
  disabled. The answers and messages a page gets have the types its interfaces declare; focus, scrolling and styles that no
  handler reads are left out of its elements.

  \<^bold>\<open>Not modelled.\<close> The charts of the dashboard page, the positions and the drawing of its mesh, and the documentation's
  Vue components are floating-point geometry and presentation; the other benchmarks, the diagnostics, demonstrations and test
  scripts measure or exercise a running server with the modelled clients;
  of the Zig server only the codec, the entries, the procedures above and the authorization in front of them are modelled, since
  the clients' correctness rests on them; its log, snapshots, vector index and replication are separate systems.

  \<^bold>\<open>This theory\<close> holds the properties that span the client's and the server's codec; the others stand in the theories of
  their components, labelled C1, C2 and so on.
\<close>

section \<open>The client and the server agree on the wire\<close>

text \<open>
C1: commands pipelined by a client are read by the server one after the other as the
commands the client meant, whatever follows them in the stream: no frame is rejected, merged with
its neighbour or read as another command.
\<close>

theorem server_reads_commands:
  assumes "list_all2 (\<lambda>c b. encodeCommandFrame c = Inr b) cs bs"
  shows "read_frames (length cs) (concat bs @ r) = Inr (map server_view cs, r)"
  using assms by (rule read_frames_encoded)

theorem server_reads_commands_witness:
  "read_frames 2 (concat [[4, 0, 0, 0, 0], [1, 0, 0, 0, 5, 0, 0, 0, 1, 0x6B]] @ [0x42])
     = Inr ([ZStatus, ZGet [0x6B]], [0x42])"
proof -
  have "encodeUtf8 (js ''k'') = [0x6B]"
    by (simp add: encodeUtf8_def js_simps is_high_def is_low_def utf8_of_def)
  moreover have "encodeCommandFrame (CmdGet (js ''k'')) = Inr [1, 0, 0, 0, 5, 0, 0, 0, 1, 0x6B]"
    using calculation
    by (simp add: encodeCommandFrame_framed framed_def frame_bytes_def field_def be32_def MAX_PAYLOAD_def)
  ultimately show ?thesis
    using server_reads_commands [of "[CmdStatus, CmdGet (js ''k'')]"
        "[[4, 0, 0, 0, 0], [1, 0, 0, 0, 5, 0, 0, 0, 1, 0x6B]]" "[0x42]"]
    by (simp add: encode_status numeral_2_eq_2 del: read_frames.simps)
qed

text \<open>
The frames of the three commands without a text form (AUTH, VDELETE, SAVE) are read
by the server as those commands with the client's token, key and namespace.
\<close>

theorem server_reads_binary_commands:
  "(encodeAuth tok = Inr b \<longrightarrow> readFrameAlloc (b @ r) = Inr (ZAuth tok, r))
   \<and> (encodeVdelete k ns = Inr b \<longrightarrow>
        readFrameAlloc (b @ r) = Inr (ZVdelete (encodeUtf8 k) (encodeUtf8 ns), r))
   \<and> (encodeSave = Inr b \<longrightarrow> readFrameAlloc (b @ r) = Inr (ZSave, r))"
  using encodeAuth_reads encodeVdelete_reads encodeSave_reads by blast

theorem server_reads_binary_commands_witness:
  "readFrameAlloc ([0x0C, 0, 0, 0, 5, 0, 0, 0, 1, 9] @ [7]) = Inr (ZAuth [9], [7])"
proof -
  have "encodeAuth [9] = Inr [0x0C, 0, 0, 0, 5, 0, 0, 0, 1, 9]"
    by (simp add: encodeAuth_framed framed_def frame_bytes_def field_def be32_def MAX_PAYLOAD_def)
  then show ?thesis
    using server_reads_binary_commands [of "[9]" "[0x0C, 0, 0, 0, 5, 0, 0, 0, 1, 9]" "[7]"] by blast
qed

text \<open>
C2: a client reads every response the server writes as one frame with the meaning of the
response, leaves the bytes after it untouched, and takes exactly the events for events.
\<close>

theorem client_reads_response:
  assumes "writeResponse r = Inr b" and "response_size r < 4294967296"
  shows "\<exists>f. tryConsumeFrame (b @ rest) = Some f \<and> pf_remaining f = rest
           \<and> decodeResponse (pf_code f) (pf_payload f) = client_view r
           \<and> isEventCode (pf_code f) = is_event r"
  using writeResponse_frame [OF assms] tryConsumeFrame_frame_bytes by (fastforce simp: wire_frame_def)

theorem client_reads_response_witness:
  "writeResponse (ZErr [0x6E, 0x6F]) = Inr [3, 0, 0, 0, 2, 0x6E, 0x6F] \<and>
   (\<exists>f. tryConsumeFrame ([3, 0, 0, 0, 2, 0x6E, 0x6F] @ [1]) = Some f \<and> pf_remaining f = [1]
        \<and> decodeResponse (pf_code f) (pf_payload f) = client_view (ZErr [0x6E, 0x6F])
        \<and> \<not> isEventCode (pf_code f))"
proof -
  have w: "writeResponse (ZErr [0x6E, 0x6F]) = Inr [3, 0, 0, 0, 2, 0x6E, 0x6F]"
    by (simp add: writeHeader_def be32_def)
  show ?thesis
    using client_reads_response [OF w, of "[1]"] w by simp
qed



text \<open>
A text that begins with a byte order mark loses it on the way back: the decoder of
every response strips the mark that the encoder wrote.
\<close>

theorem leading_bom_lost:
  assumes "well_formed v"
  shows "decodeResponse 1 (encodeUtf8 (0xFEFF # v)) = RBulk v"
  using assms toWellFormed_id [OF assms]
  by (cases v)
    (simp_all add: decodeResponse_def decodeUtf8_encodeUtf8 is_high_def is_low_def strip_bom_def
      toWellFormed_def)

theorem leading_bom_lost_witness:
  "decodeResponse 1 (encodeUtf8 [0xFEFF, 0x61]) = RBulk [0x61]"
  using leading_bom_lost [of "[0x61]"] by (simp add: is_high_def is_low_def)

end
